(* ===== verification/Watchdog.thy ===== *)
theory Watchdog
  imports Main
begin

text \<open>
  \<open>watchdog.c\<close>: the process that forks the server, waits for it and starts it again. The main loop is a step
  function over its program points, the signal handler may run between any two of them, and the child lives its
  own life: the three are interleaved by a step relation. The kernel is modelled as documented: \<open>fork\<close> gives
  an unused positive identifier, \<open>waitpid\<close> blocks until the child has ended and removes it, a signal for a process that
  has ended is lost.
\<close>

section \<open>State\<close>

datatype ending = Exited nat | Killed int

text \<open>
  A child before its \<open>execv\<close> still runs the handler of the watchdog; a server that has not yet installed its own
  handlers dies of the signal; later it ends with code 0.
\<close>

datatype child = Preexec | Starting | Serving | Zombie ending

datatype wd_pc =
    Test                             \<comment> \<open>at \<open>while (!g_stop)\<close>\<close>
  | Fork                             \<comment> \<open>before \<open>fork()\<close>\<close>
  | Forked int                       \<comment> \<open>forked, before \<open>g_child_pid = pid\<close>\<close>
  | Wait int                         \<comment> \<open>in \<open>waitpid\<close>\<close>
  | Returned int "ending option"     \<comment> \<open>\<open>waitpid\<close> has returned, \<open>None\<close> for \<open>EINTR\<close>\<close>
  | Left int "ending option"         \<comment> \<open>out of the inner loop\<close>
  | Cleared int "ending option"      \<comment> \<open>after \<open>g_child_pid = -1\<close>\<close>
  | Sleeping
  | Done

datatype wd_log =
  Fork_error | Server_up int | Server_exited nat | Server_killed int | Restarting | Shutting_down

record watchdog =
  wd_pc :: wd_pc
  g_stop :: bool
  g_child_pid :: int
  wd_signalled :: bool               \<comment> \<open>a handler has run during this \<open>waitpid\<close>\<close>
  wd_procs :: "int \<rightharpoonup> child"
  wd_out :: "wd_log list"

definition wd_start :: watchdog where
  "wd_start = \<lparr>wd_pc = Test, g_stop = False, g_child_pid = -1, wd_signalled = False, wd_procs = Map.empty, wd_out = []\<rparr>"

section \<open>The main loop\<close>

text \<open>What the kernel answers: \<open>Proceed\<close> where nothing is asked.\<close>

datatype answer = Proceed | Fork_pid int | Fork_failed | Eintr

definition wd_print :: "wd_log list \<Rightarrow> watchdog \<Rightarrow> watchdog" where
  "wd_print l s = s\<lparr>wd_out := wd_out s @ l\<rparr>"

text \<open>What follows the wait. \<open>status\<close> is 0 when \<open>waitpid\<close> gave none, which reads as a clean exit.\<close>

definition after_wait :: "int \<Rightarrow> ending option \<Rightarrow> watchdog \<Rightarrow> watchdog" where
  "after_wait p w s =
     (if g_stop s then
        let s1 = (case (w, wd_procs s p) of (None, Some (Zombie e)) \<Rightarrow> s\<lparr>wd_procs := (wd_procs s)(p := None)\<rparr> | _ \<Rightarrow> s)
        in wd_print [Shutting_down] (s1\<lparr>wd_pc := Done\<rparr>)
      else case w of
          None \<Rightarrow> wd_print [Server_exited 0, Shutting_down] (s\<lparr>wd_pc := Done\<rparr>)
        | Some (Exited code) \<Rightarrow>
            if code = 0 then wd_print [Server_exited code, Shutting_down] (s\<lparr>wd_pc := Done\<rparr>)
            else wd_print [Server_exited code, Restarting] (s\<lparr>wd_pc := Sleeping\<rparr>)
        | Some (Killed sig) \<Rightarrow> wd_print [Server_killed sig, Restarting] (s\<lparr>wd_pc := Sleeping\<rparr>))"

text \<open>One step of \<open>main\<close>; \<open>None\<close> when it cannot move: blocked, ended, or an answer the kernel does not give.\<close>

definition main_step :: "answer \<Rightarrow> watchdog \<Rightarrow> watchdog option" where
  "main_step a s =
     (case wd_pc s of
        Test \<Rightarrow> if g_stop s then Some (wd_print [Shutting_down] (s\<lparr>wd_pc := Done\<rparr>)) else Some (s\<lparr>wd_pc := Fork\<rparr>)
      | Fork \<Rightarrow>
          (case a of
             Fork_pid p \<Rightarrow> if p > 0 \<and> wd_procs s p = None
                           then Some (s\<lparr>wd_pc := Forked p, wd_procs := (wd_procs s)(p \<mapsto> Preexec)\<rparr>) else None
           | Fork_failed \<Rightarrow> Some (wd_print [Fork_error] (s\<lparr>wd_pc := Sleeping\<rparr>))
           | _ \<Rightarrow> None)
      | Forked p \<Rightarrow> Some (wd_print [Server_up p] (s\<lparr>wd_pc := Wait p, g_child_pid := p, wd_signalled := False\<rparr>))
      | Wait p \<Rightarrow>
          (if a = Eintr then if wd_signalled s then Some (s\<lparr>wd_pc := Returned p None\<rparr>) else None
           else case wd_procs s p of
               Some (Zombie e) \<Rightarrow> Some (s\<lparr>wd_pc := Returned p (Some e), wd_procs := (wd_procs s)(p := None)\<rparr>)
             | _ \<Rightarrow> None)
      | Returned p w \<Rightarrow>
          if w = None \<and> \<not> g_stop s then Some (s\<lparr>wd_pc := Wait p, wd_signalled := False\<rparr>) else Some (s\<lparr>wd_pc := Left p w\<rparr>)
      | Left p w \<Rightarrow> Some (s\<lparr>wd_pc := Cleared p w, g_child_pid := -1\<rparr>)
      | Cleared p w \<Rightarrow> Some (after_wait p w s)
      | Sleeping \<Rightarrow> Some (s\<lparr>wd_pc := Test\<rparr>)
      | Done \<Rightarrow> None)"

fun main_run :: "answer list \<Rightarrow> watchdog \<Rightarrow> watchdog option" where
  "main_run [] s = Some s"
| "main_run (a # as) s = Option.bind (main_step a s) (main_run as)"

section \<open>The handler and the child\<close>

text \<open>The signal reaches the child: lost before \<open>execv\<close>, where the handler of the watchdog only sets a flag of the copy;
  fatal while the server starts; once the server has installed its own handler (\<open>on_shutdown_signal\<close> of
  \<open>server_main.c\<close>), an orderly exit with code 0.\<close>

fun struck :: "int \<Rightarrow> child \<Rightarrow> child" where
  "struck sig Starting = Zombie (Killed sig)"
| "struck sig Serving = Zombie (Exited 0)"
| "struck sig c = c"

definition on_terminate :: "int \<Rightarrow> watchdog \<Rightarrow> watchdog" where
  "on_terminate sig s =
     (let s1 = s\<lparr>g_stop := True, wd_signalled := True\<rparr>
      in if g_child_pid s > 0
         then s1\<lparr>wd_procs := (wd_procs s)(g_child_pid s := map_option (struck sig) (wd_procs s (g_child_pid s)))\<rparr>
         else s1)"

text \<open>What the child does by itself: \<open>execv\<close> works or ends with 127, the server gets ready, and ends somehow.\<close>

inductive lives :: "child \<Rightarrow> child \<Rightarrow> bool" where
  execv: "lives Preexec Starting"
| no_execv: "lives Preexec (Zombie (Exited 127))"
| ready: "lives Starting Serving"
| dies: "c = Starting \<or> c = Serving \<Longrightarrow> lives c (Zombie e)"

inductive wd_step :: "watchdog \<Rightarrow> watchdog \<Rightarrow> bool" where
  main: "main_step a s = Some t \<Longrightarrow> wd_step s t"
| signal: "wd_pc s \<noteq> Done \<Longrightarrow> wd_step s (on_terminate sig s)"
| child: "wd_procs s p = Some c \<Longrightarrow> lives c c' \<Longrightarrow> wd_step s (s\<lparr>wd_procs := (wd_procs s)(p \<mapsto> c')\<rparr>)"

inductive wd_reachable :: "watchdog \<Rightarrow> bool" where
  start: "wd_reachable wd_start"
| step: "wd_reachable s \<Longrightarrow> wd_step s t \<Longrightarrow> wd_reachable t"

section \<open>The invariant\<close>

text \<open>At every program point, which children exist and what the handler believes.\<close>

definition wd_inv :: "watchdog \<Rightarrow> bool" where
  "wd_inv s \<longleftrightarrow>
     (case wd_pc s of
        Test \<Rightarrow> dom (wd_procs s) = {} \<and> g_child_pid s = -1
      | Fork \<Rightarrow> dom (wd_procs s) = {} \<and> g_child_pid s = -1
      | Sleeping \<Rightarrow> dom (wd_procs s) = {} \<and> g_child_pid s = -1
      | Forked p \<Rightarrow> dom (wd_procs s) = {p} \<and> g_child_pid s = -1 \<and> p > 0
      | Wait p \<Rightarrow> dom (wd_procs s) = {p} \<and> g_child_pid s = p \<and> p > 0
      | Returned p w \<Rightarrow> dom (wd_procs s) = (if w = None then {p} else {}) \<and> g_child_pid s = p \<and> p > 0
      | Left p w \<Rightarrow> dom (wd_procs s) = (if w = None then {p} else {}) \<and> g_child_pid s = p \<and> p > 0 \<and> (w = None \<longrightarrow> g_stop s)
      | Cleared p w \<Rightarrow> dom (wd_procs s) = (if w = None then {p} else {}) \<and> g_child_pid s = -1 \<and> p > 0 \<and> (w = None \<longrightarrow> g_stop s)
      | Done \<Rightarrow> (\<exists>p. dom (wd_procs s) \<subseteq> {p}) \<and> g_child_pid s = -1 \<and>
          (\<not> g_stop s \<longrightarrow> dom (wd_procs s) = {} \<and> Server_exited 0 \<in> set (wd_out s)))"

lemma wd_inv_start: "wd_inv wd_start"
  by (simp add: wd_inv_def wd_start_def)

lemma wd_print_sel [simp]:
  "wd_pc (wd_print l s) = wd_pc s" "g_stop (wd_print l s) = g_stop s" "g_child_pid (wd_print l s) = g_child_pid s"
  "wd_procs (wd_print l s) = wd_procs s" "wd_out (wd_print l s) = wd_out s @ l" "wd_signalled (wd_print l s) = wd_signalled s"
  by (simp_all add: wd_print_def)

lemma after_wait_inv:
  assumes "wd_inv s" "wd_pc s = Cleared p w"
  shows "wd_inv (after_wait p w s)"
  using assms by (auto simp: wd_inv_def after_wait_def Let_def split: option.splits ending.splits child.splits if_splits)

lemma main_step_inv:
  assumes "wd_inv s" "main_step a s = Some t"
  shows "wd_inv t"
proof (cases "wd_pc s")
  case (Cleared p w)
  then show ?thesis using assms after_wait_inv [OF assms(1) Cleared] by (simp add: main_step_def)
qed (use assms in \<open>auto simp: main_step_def wd_inv_def split: if_splits answer.splits option.splits child.splits\<close>)

lemma on_terminate_sel [simp]:
  "wd_pc (on_terminate sig s) = wd_pc s" "g_stop (on_terminate sig s)" "g_child_pid (on_terminate sig s) = g_child_pid s"
  "wd_out (on_terminate sig s) = wd_out s" "dom (wd_procs (on_terminate sig s)) = dom (wd_procs s)"
  by (auto simp: on_terminate_def Let_def dom_def split: if_splits)

lemma wd_inv_cong:
  assumes "wd_inv s" "wd_pc t = wd_pc s" "g_child_pid t = g_child_pid s" "wd_out t = wd_out s"
    and "dom (wd_procs t) = dom (wd_procs s)" "g_stop s \<longrightarrow> g_stop t"
  shows "wd_inv t"
  using assms(1,6) unfolding wd_inv_def assms(2-5) by (cases "wd_pc s") (simp_all del: dom_eq_empty_conv split: if_splits, blast?)

lemma wd_step_inv: "wd_step s t \<Longrightarrow> wd_inv s \<Longrightarrow> wd_inv t"
proof (induction rule: wd_step.induct)
  case (signal s sig)
  show ?case by (rule wd_inv_cong [OF signal.prems]) simp_all
next
  case (child s p c c')
  from child.hyps(1) show ?case by (intro wd_inv_cong [OF child.prems]) auto
qed (rule main_step_inv)

lemma reachable_inv: "wd_reachable s \<Longrightarrow> wd_inv s"
  by (induction rule: wd_reachable.induct) (auto intro: wd_inv_start wd_step_inv)

lemma reachable_steps: "wd_step\<^sup>*\<^sup>* s t \<Longrightarrow> wd_reachable s \<Longrightarrow> wd_reachable t"
  by (induction rule: rtranclp_induct) (auto intro: wd_reachable.step)

lemma main_run_steps: "main_run as s = Some t \<Longrightarrow> wd_step\<^sup>*\<^sup>* s t"
  by (induction as arbitrary: s)
     (auto simp: bind_eq_Some_conv intro: converse_rtranclp_into_rtranclp wd_step.main)

section \<open>Properties\<close>

text \<open>C34: In every reachable state the watchdog has at most one child that is not reaped, none while it is about to start
  one, and none when it ends by itself; it ends only after a stop signal or after its server exited with code 0.\<close>
theorem watchdog_keeps_one_server:
  assumes "wd_reachable s"
  shows "card (dom (wd_procs s)) \<le> 1 \<and>
    (wd_pc s \<in> {Test, Fork, Sleeping} \<longrightarrow> wd_procs s = Map.empty) \<and>
    (wd_pc s = Done \<and> \<not> g_stop s \<longrightarrow> wd_procs s = Map.empty \<and> Server_exited 0 \<in> set (wd_out s))"
proof -
  have "wd_inv s" using assms by (rule reachable_inv)
  then have "\<exists>p. dom (wd_procs s) \<subseteq> {p}" by (auto simp: wd_inv_def split: wd_pc.splits if_splits)
  then have "card (dom (wd_procs s)) \<le> 1" by (metis card_mono card.empty card.insert empty_iff finite.emptyI finite.insertI One_nat_def)
  moreover note \<open>wd_inv s\<close>
  ultimately show ?thesis by (auto simp: wd_inv_def)
qed

text \<open>A run to the first wait, with the server \<open>p\<close> up and ready.\<close>

definition first_wait :: "int \<Rightarrow> child \<Rightarrow> watchdog" where
  "first_wait p c = \<lparr>wd_pc = Wait p, g_stop = False, g_child_pid = p, wd_signalled = False, wd_procs = [p \<mapsto> c], wd_out = [Server_up p]\<rparr>"

lemma first_fork_reachable: "p > 0 \<Longrightarrow> wd_reachable (wd_start\<lparr>wd_pc := Forked p, wd_procs := [p \<mapsto> Preexec]\<rparr>)"
proof -
  assume "p > 0"
  then have "main_run [Proceed, Fork_pid p] wd_start = Some (wd_start\<lparr>wd_pc := Forked p, wd_procs := [p \<mapsto> Preexec]\<rparr>)"
    by (simp add: main_step_def wd_start_def)
  then show ?thesis by (rule reachable_steps [OF main_run_steps wd_reachable.start])
qed

lemma first_wait_reachable:
  assumes "p > 0" "c = Preexec \<or> c = Serving \<or> (\<exists>e. c = Zombie e)"
  shows "wd_reachable (first_wait p c)"
proof -
  have "main_step Proceed (wd_start\<lparr>wd_pc := Forked p, wd_procs := [p \<mapsto> Preexec]\<rparr>) = Some (first_wait p Preexec)"
    by (simp add: main_step_def wd_start_def first_wait_def wd_print_def)
  then have pre: "wd_reachable (first_wait p Preexec)"
    by (rule wd_reachable.step [OF first_fork_reachable [OF assms(1)] wd_step.main])
  have live: "wd_reachable (first_wait p d')" if "wd_reachable (first_wait p d)" "lives d d'" for d d'
    using wd_reachable.step [OF that(1) wd_step.child [OF _ that(2), of _ p]] by (simp add: first_wait_def)
  have "wd_reachable (first_wait p Starting)" by (rule live [OF pre lives.execv])
  then have "wd_reachable (first_wait p Serving)" by (rule live [OF _ lives.ready])
  moreover from this have "wd_reachable (first_wait p (Zombie e))" for e by (rule live [OF _ lives.dies]) simp
  ultimately show ?thesis using assms(2) pre by auto
qed

theorem watchdog_keeps_one_server_witness: "card (dom (wd_procs (first_wait 7 Serving))) \<le> 1"
  using watchdog_keeps_one_server [OF first_wait_reachable [of 7 Serving]] by simp

text \<open>C35: When the server of a watchdog that was not told to stop has ended in any way but with code 0, the watchdog's
  next steps reap it, report the restart and have a new server under watch, whatever identifier it gets.\<close>
theorem watchdog_restarts:
  assumes "wd_reachable s" "wd_pc s = Wait p" "wd_procs s p = Some (Zombie e)" "e \<noteq> Exited 0" "\<not> g_stop s" "q > 0"
  shows "\<exists>t. main_run [Proceed, Proceed, Proceed, Proceed, Proceed, Proceed, Fork_pid q, Proceed] s = Some t \<and>
    wd_pc t = Wait q \<and> g_child_pid t = q \<and> wd_procs t = [q \<mapsto> Preexec] \<and>
    (\<exists>r. wd_out t = wd_out s @ [r, Restarting, Server_up q])"
proof -
  have "dom (wd_procs s) = {p}" using reachable_inv [OF assms(1)] assms(2) by (simp add: wd_inv_def)
  then have "wd_procs s = [p \<mapsto> Zombie e]" using assms(3) by (auto simp: dom_eq_singleton_conv)
  with assms show ?thesis
    by (cases e) (auto simp: main_step_def after_wait_def wd_print_def)
qed

theorem watchdog_restarts_witness:
  "\<exists>t. main_run [Proceed, Proceed, Proceed, Proceed, Proceed, Proceed, Fork_pid 8, Proceed] (first_wait 7 (Zombie (Killed 11))) = Some t \<and>
    wd_pc t = Wait 8"
  using watchdog_restarts [of "first_wait 7 (Zombie (Killed 11))" 7 "Killed 11" 8] first_wait_reachable [of 7 "Zombie (Killed 11)"]
  by (force simp: first_wait_def)

text \<open>C36: A stop signal that finds the watchdog waiting for a running server reaches the server, which exits with code 0;
  the watchdog then reaps it and ends.\<close>
theorem watchdog_forwards_stop:
  assumes "wd_reachable s" "wd_pc s = Wait p" "wd_procs s p = Some Serving"
  shows "\<exists>t. main_run [Proceed, Proceed, Proceed, Proceed] (on_terminate sig s) = Some t \<and>
    wd_pc t = Done \<and> wd_procs t = Map.empty \<and> wd_out t = wd_out s @ [Shutting_down]"
proof -
  have p: "dom (wd_procs s) = {p}" "g_child_pid s = p" "p > 0"
    using reachable_inv [OF assms(1)] assms(2) by (simp_all add: wd_inv_def)
  then have "wd_procs s = [p \<mapsto> Serving]" using assms(3) by (auto simp: dom_eq_singleton_conv)
  with assms p show ?thesis by (simp add: on_terminate_def Let_def main_step_def after_wait_def wd_print_def)
qed

theorem watchdog_forwards_stop_witness:
  "\<exists>t. main_run [Proceed, Proceed, Proceed, Proceed] (on_terminate 15 (first_wait 7 Serving)) = Some t \<and> wd_pc t = Done"
  using watchdog_forwards_stop [of "first_wait 7 Serving" 7 15] first_wait_reachable [of 7 Serving] by (auto simp: first_wait_def)

lemma preexec_serves:
  assumes "wd_pc s = Wait p" "wd_procs s p = Some Preexec" "g_stop s"
  shows "\<exists>t. wd_step\<^sup>*\<^sup>* s t \<and> g_stop t \<and> wd_pc t = Wait p \<and> wd_procs t p = Some Serving"
proof -
  let ?x = "s\<lparr>wd_procs := (wd_procs s)(p \<mapsto> Starting)\<rparr>"
  let ?t = "?x\<lparr>wd_procs := (wd_procs ?x)(p \<mapsto> Serving)\<rparr>"
  have "wd_step s ?x" by (rule wd_step.child [OF assms(2) lives.execv])
  moreover have "wd_step ?x ?t" by (rule wd_step.child [OF _ lives.ready]) simp
  ultimately have "wd_step\<^sup>*\<^sup>* s ?t" by (meson converse_rtranclp_into_rtranclp rtranclp.rtrancl_refl)
  then show ?thesis using assms by (intro exI [of _ ?t]) simp
qed

text \<open>C37: A stop signal that arrives after the fork and before the child has executed the server is lost, whether the
  child's identifier is recorded by then or not: the server comes up without having been told anything, and the
  watchdog, with the stop request standing, blocks in its wait unless \<open>waitpid\<close> reports the interruption.\<close>
theorem watchdog_loses_early_stop:
  assumes "wd_reachable s" "wd_pc s = Forked p \<or> wd_pc s = Wait p" "wd_procs s p = Some Preexec"
  shows "\<exists>t. wd_step\<^sup>*\<^sup>* (on_terminate sig s) t \<and> wd_reachable t \<and> g_stop t \<and> wd_pc t = Wait p \<and>
    wd_procs t p = Some Serving \<and> (\<forall>a. a \<noteq> Eintr \<longrightarrow> main_step a t = None)"
proof -
  let ?u = "on_terminate sig s"
  have "wd_pc s \<noteq> Done" using assms(2) by auto
  then have "wd_reachable ?u" by (intro wd_reachable.step [OF assms(1)] wd_step.signal)
  moreover have "wd_procs ?u p = Some Preexec" using assms(3) by (auto simp: on_terminate_def Let_def)
  ultimately have u: "wd_procs ?u p = Some Preexec" "wd_reachable ?u" by simp_all
  obtain w where w: "wd_step\<^sup>*\<^sup>* ?u w" "wd_pc w = Wait p" "wd_procs w p = Some Preexec" "g_stop w"
  proof (cases "wd_pc s = Wait p")
    case True
    with that [of ?u] u show ?thesis by simp
  next
    case False
    then have "wd_step ?u (wd_print [Server_up p] (?u\<lparr>wd_pc := Wait p, g_child_pid := p, wd_signalled := False\<rparr>))"
      using assms(2) by (intro wd_step.main [where a = Proceed]) (auto simp: main_step_def)
    from that [OF r_into_rtranclp [of wd_step, OF this]] u show ?thesis by simp
  qed
  from preexec_serves [OF w(2-4)] obtain t where t: "wd_step\<^sup>*\<^sup>* w t" "g_stop t" "wd_pc t = Wait p" "wd_procs t p = Some Serving"
    by blast
  have steps: "wd_step\<^sup>*\<^sup>* ?u t" using w(1) t(1) by simp
  show ?thesis
    using steps reachable_steps [OF steps u(2)] t by (intro exI [of _ t]) (simp add: main_step_def)
qed

theorem watchdog_loses_early_stop_witness:
  "\<exists>t. wd_reachable t \<and> g_stop t \<and> wd_pc t = Wait 7 \<and> wd_procs t 7 = Some Serving \<and> main_step Proceed t = None"
  using watchdog_loses_early_stop [OF first_fork_reachable [of 7], of 7 15] by (auto simp: wd_start_def)

end
