(* ===== verification/Prelude.thy ===== *)
theory Prelude
  imports Main "HOL-Library.Word" "HOL-Library.Multiset"
begin

unbundle bit_operations_syntax

text \<open>
  Shared vocabulary of the UNDERFLOW development: the C types the server's data is made of, the
  fact collection the component theories fill, and lemmas about words that several of them use.
\<close>

section \<open>Types of the C code\<close>

text \<open>
  A \<open>char\<close> of HOL is a byte, so a C buffer is a \<open>string\<close> and a C string is a \<open>string\<close> without
  the byte 0. \<open>uint32_t\<close> tag masks are 32-bit words. \<open>int32_t\<close> amounts and identifiers and
  \<open>time_t\<close> values are \<open>int\<close>: the code keeps them far from overflow, and the wire and file
  encodings of \<open>Bytes\<close> reduce them to 32 bits where they are stored.
\<close>

type_synonym byte = char
type_synonym tags = "32 word"
type_synonym key = string
type_synonym time_t = int
type_synonym sock = nat

abbreviation NUL :: byte where
  "NUL \<equiv> CHR 0x00"

section \<open>Fact collections\<close>

named_theorems slot_simps "functional behaviour of slot-table operations"

section \<open>Words as sets of bits\<close>

lemma word_and_eq_0_iff:
  fixes a b :: "'a::len word"
  shows "a AND b = 0 \<longleftrightarrow> (\<forall>n. bit a n \<longrightarrow> \<not> bit b n)"
  by (auto simp: bit_eq_iff bit_and_iff dest: bit_imp_le_length)

lemma word_and_or_eq_0_iff:
  fixes a b c :: "'a::len word"
  shows "a AND (b OR c) = 0 \<longleftrightarrow> a AND b = 0 \<and> a AND c = 0"
  by (auto simp: word_and_eq_0_iff bit_or_iff)

text \<open>Counting the set bits by shifting, as \<open>count_bits\<close> and \<open>popcount_u32\<close> do.\<close>

lemma drop_bit_unat_less:
  fixes v :: "'a::len word"
  assumes "v \<noteq> 0"
  shows "unat (drop_bit 1 v) < unat v"
proof -
  from assms have "0 < unat v" by (simp add: unat_gt_0)
  then have "unat v div 2 < unat v" by simp
  moreover have "unat (drop_bit 1 v) = unat v div 2"
    by (subst unat_drop_bit_eq) (simp add: drop_bit_eq_div)
  ultimately show ?thesis by (simp only:)
qed

definition bit_set :: "'a::len word \<Rightarrow> nat set" where
  "bit_set v = {n. bit v n}"

lemma finite_bit_set [simp]: "finite (bit_set (v :: 'a::len word))"
  by (rule finite_subset [of _ "{..<LENGTH('a)}"]) (auto simp: bit_set_def dest: bit_imp_le_length)

lemma bit_set_eq_empty [simp]: "bit_set v = {} \<longleftrightarrow> v = 0"
  by (auto simp: bit_set_def bit_eq_iff dest: bit_imp_le_length)

lemma bit_set_step:
  fixes v :: "'a::len word"
  shows "bit_set v = (if odd v then {0} else {}) \<union> Suc ` bit_set (drop_bit 1 v)"
proof (rule set_eqI)
  fix n
  show "n \<in> bit_set v \<longleftrightarrow> n \<in> (if odd v then {0} else {}) \<union> Suc ` bit_set (drop_bit 1 v)"
    by (cases n) (auto simp: bit_set_def bit_drop_bit_eq bit_0)
qed

lemma card_bit_set_step:
  fixes v :: "'a::len word"
  shows "card (bit_set v) = (if odd v then 1 else 0) + card (bit_set (drop_bit 1 v))"
proof -
  have "0 \<notin> Suc ` bit_set (drop_bit 1 v)" by auto
  then show ?thesis
    by (subst bit_set_step) (simp add: card_image)
qed

end
