(* ===== verification/CString.thy ===== *)
theory CString
  imports Prelude
begin

text \<open>
  The C string functions the sources call, on strings without the byte 0: \<open>strncpy\<close> into a
  zero-terminated buffer, \<open>snprintf\<close>, \<open>strncmp\<close>, the \<open>%d\<close> conversion and \<open>atoi\<close>, and the UTF-8
  encoding the literals of the source files are written in.
\<close>

section \<open>UTF-8 literals\<close>

text \<open>A literal of the source is its ASCII runs and the code points of its other characters.\<close>

definition utf8_char :: "nat \<Rightarrow> string" where
  "utf8_char c =
     (if c < 0x80 then [char_of c]
      else if c < 0x800 then [char_of (0xC0 + c div 0x40), char_of (0x80 + c mod 0x40)]
      else if c < 0x10000 then
        [char_of (0xE0 + c div 0x1000), char_of (0x80 + c div 0x40 mod 0x40),
         char_of (0x80 + c mod 0x40)]
      else
        [char_of (0xF0 + c div 0x40000), char_of (0x80 + c div 0x1000 mod 0x40),
         char_of (0x80 + c div 0x40 mod 0x40), char_of (0x80 + c mod 0x40)])"

definition utf8 :: "nat list \<Rightarrow> string" where
  "utf8 cs = concat (map utf8_char cs)"

section \<open>Copying and comparing\<close>

text \<open>
  \<open>strncpy(dst, src, n)\<close> where \<open>dst[n]\<close> is (or is made) 0: the string in \<open>dst\<close> is the first \<open>n\<close>
  bytes of \<open>src\<close>. \<open>snprintf(dst, n, ...)\<close> keeps \<open>n - 1\<close> bytes of what it formats.
\<close>

definition c_strncpy :: "nat \<Rightarrow> string \<Rightarrow> string" where
  "c_strncpy n src = take n src"

definition c_snprintf :: "nat \<Rightarrow> string \<Rightarrow> string" where
  "c_snprintf n formatted = take (n - 1) formatted"

text \<open>\<open>strncmp(a, b, n) == 0\<close>.\<close>

definition c_strncmp_eq :: "nat \<Rightarrow> string \<Rightarrow> string \<Rightarrow> bool" where
  "c_strncmp_eq n a b \<longleftrightarrow> take n a = take n b"

lemma c_strncpy_id: "length s \<le> n \<Longrightarrow> c_strncpy n s = s"
  by (simp add: c_strncpy_def)

lemma c_snprintf_id: "length s < n \<Longrightarrow> c_snprintf n s = s"
  by (simp add: c_snprintf_def)

lemma c_strncmp_eq_refl [simp]: "c_strncmp_eq n a a"
  by (simp add: c_strncmp_eq_def)

lemma c_strncmp_eq_iff: "length a < n \<Longrightarrow> length b < n \<Longrightarrow> c_strncmp_eq n a b \<longleftrightarrow> a = b"
  by (simp add: c_strncmp_eq_def)

section \<open>Decimal conversion\<close>

definition digit_char :: "nat \<Rightarrow> char" where
  "digit_char d = char_of (48 + d)"

definition is_digit :: "char \<Rightarrow> bool" where
  "is_digit c \<longleftrightarrow> 48 \<le> (of_char c :: nat) \<and> (of_char c :: nat) \<le> 57"

fun show_nat :: "nat \<Rightarrow> string" where
  "show_nat n = (if n < 10 then [digit_char n] else show_nat (n div 10) @ [digit_char (n mod 10)])"

declare show_nat.simps [simp del]

text \<open>\<open>%d\<close>.\<close>

definition show_int :: "int \<Rightarrow> string" where
  "show_int i = (if i < 0 then CHR ''-'' # show_nat (nat (- i)) else show_nat (nat i))"

fun digits_val :: "string \<Rightarrow> nat \<Rightarrow> nat" where
  "digits_val [] acc = acc"
| "digits_val (c # cs) acc =
     (if is_digit c then digits_val cs (10 * acc + (of_char c - 48)) else acc)"

fun skip_space :: "string \<Rightarrow> string" where
  "skip_space [] = []"
| "skip_space (c # cs) =
     (if c = CHR '' '' \<or> (9 \<le> (of_char c :: nat) \<and> (of_char c :: nat) \<le> 13) then skip_space cs
      else c # cs)"

text \<open>\<open>atoi\<close> of glibc: \<open>strtol\<close>, which saturates at 64 bits, cut to 32 bits.\<close>

definition strtol_sat :: "int \<Rightarrow> int" where
  "strtol_sat i = max (- (2 ^ 63)) (min (2 ^ 63 - 1) i)"

definition atoi :: "string \<Rightarrow> int" where
  "atoi s = signed_take_bit 31 (strtol_sat
     (case skip_space s of
        [] \<Rightarrow> 0
      | c # cs \<Rightarrow>
          if c = CHR ''-'' then - int (digits_val cs 0)
          else if c = CHR ''+'' then int (digits_val cs 0)
          else int (digits_val (c # cs) 0)))"

definition int32_range :: "int \<Rightarrow> bool" where
  "int32_range i \<longleftrightarrow> - (2 ^ 31) \<le> i \<and> i < 2 ^ 31"

lemma of_char_digit_char: "d < 10 \<Longrightarrow> (of_char (digit_char d) :: nat) = 48 + d"
  by (simp add: digit_char_def of_char_of)

lemma is_digit_digit_char: "d < 10 \<Longrightarrow> is_digit (digit_char d)"
  by (simp add: is_digit_def of_char_digit_char)

lemma show_nat_nonempty: "show_nat n \<noteq> []"
  by (subst show_nat.simps) simp

lemma show_nat_digits: "c \<in> set (show_nat n) \<Longrightarrow> is_digit c"
proof (induction n rule: show_nat.induct)
  case (1 n)
  show ?case
  proof (cases "n < 10")
    case True
    with "1.prems" show ?thesis by (simp add: show_nat.simps [of n] is_digit_digit_char)
  next
    case False
    with "1.prems" have "c \<in> set (show_nat (n div 10)) \<or> c = digit_char (n mod 10)"
      by (auto simp: show_nat.simps [of n])
    with "1.IH" False show ?thesis by (auto simp: is_digit_digit_char)
  qed
qed

lemma digits_val_append:
  "(\<And>c. c \<in> set xs \<Longrightarrow> is_digit c) \<Longrightarrow> digits_val (xs @ ys) acc = digits_val ys (digits_val xs acc)"
  by (induction xs arbitrary: acc) auto

lemma digits_val_stop: "rest = [] \<or> \<not> is_digit (hd rest) \<Longrightarrow> digits_val rest acc = acc"
  by (cases rest) auto

lemma digits_val_show_nat: "digits_val (show_nat n) 0 = n"
proof (induction n rule: show_nat.induct)
  case (1 n)
  show ?case
  proof (cases "n < 10")
    case True
    then show ?thesis by (simp add: show_nat.simps [of n] is_digit_digit_char of_char_digit_char)
  next
    case False
    with "1.IH" have "digits_val (show_nat (n div 10)) 0 = n div 10" by simp
    moreover have "digits_val (show_nat (n div 10) @ [digit_char (n mod 10)]) 0
        = digits_val [digit_char (n mod 10)] (digits_val (show_nat (n div 10)) 0)"
      by (rule digits_val_append) (rule show_nat_digits)
    ultimately show ?thesis
      using False by (simp add: show_nat.simps [of n] is_digit_digit_char of_char_digit_char)
  qed
qed

lemma show_nat_inject [simp]: "show_nat m = show_nat n \<longleftrightarrow> m = n"
  by (metis digits_val_show_nat)

lemma hd_show_nat: "\<exists>c cs. show_nat n = c # cs \<and> is_digit c"
  by (cases "show_nat n") (auto simp: show_nat_nonempty intro: show_nat_digits [of _ n])

lemma not_digit_chars [simp]: "\<not> is_digit CHR ''-''" "\<not> is_digit CHR ''+''" "\<not> is_digit CHR ''.''"
    "\<not> is_digit CHR ''/''" "\<not> is_digit CHR '' ''"
  by (simp_all add: is_digit_def)

lemma skip_space_digit: "is_digit c \<Longrightarrow> skip_space (c # cs) = c # cs"
  by (auto simp: is_digit_def)

lemma show_int_inject [simp]: "show_int i = show_int j \<longleftrightarrow> i = j"
proof -
  have "show_nat m \<noteq> CHR ''-'' # cs" for m cs
    using hd_show_nat [of m] by auto
  then show ?thesis by (auto simp: show_int_def) (metis)+
qed

lemma show_int_chars: "c \<in> set (show_int i) \<Longrightarrow> is_digit c \<or> c = CHR ''-''"
  by (auto simp: show_int_def split: if_splits dest: show_nat_digits)

text \<open>Parsing a printed number, with any text after it, gives the number back.\<close>

lemma atoi_show_int:
  assumes "int32_range i" and "rest = [] \<or> \<not> is_digit (hd rest)"
  shows "atoi (show_int i @ rest) = i"
proof -
  have val: "digits_val (show_nat n @ rest) 0 = n" for n
    using assms(2) by (simp add: digits_val_append [OF show_nat_digits] digits_val_show_nat digits_val_stop)
  have small: "signed_take_bit 31 (strtol_sat i) = i"
    using assms(1) by (simp add: strtol_sat_def int32_range_def signed_take_bit_int_eq_self)
  show ?thesis
  proof (cases "i < 0")
    case True
    with val small show ?thesis by (simp add: atoi_def show_int_def)
  next
    case False
    obtain c cs where c: "show_nat (nat i) = c # cs" "is_digit c" using hd_show_nat by blast
    then have "skip_space (show_nat (nat i) @ rest) = show_nat (nat i) @ rest"
      using skip_space_digit by simp
    moreover have "c \<noteq> CHR ''-''" "c \<noteq> CHR ''+''" using c(2) by auto
    ultimately show ?thesis
      using False c val [of "nat i"] small by (simp add: atoi_def show_int_def del: skip_space.simps)
  qed
qed

lemma length_show_nat: "n < 10 ^ k \<Longrightarrow> 0 < k \<Longrightarrow> length (show_nat n) \<le> k"
proof (induction n arbitrary: k rule: show_nat.induct)
  case (1 n)
  show ?case
  proof (cases "n < 10")
    case True
    with "1.prems" show ?thesis by (simp add: show_nat.simps [of n])
  next
    case False
    with "1.prems" obtain j where k: "k = Suc j" "0 < j"
      by (cases k; cases "k - 1") auto
    with "1.prems" have "n div 10 < 10 ^ j" by (simp add: less_mult_imp_div_less mult.commute)
    with "1.IH" False k have "length (show_nat (n div 10)) \<le> j" by simp
    with False k show ?thesis by (simp add: show_nat.simps [of n])
  qed
qed

lemma length_show_int: "int32_range i \<Longrightarrow> length (show_int i) \<le> 11"
  by (auto simp: show_int_def int32_range_def intro!: length_show_nat length_show_nat [THEN le_trans])

section \<open>\<open>strtok\<close>\<close>

text \<open>\<open>strtok\<close> called with one delimiter until it returns \<open>NULL\<close>: the runs between the delimiters.\<close>

function tokens :: "byte \<Rightarrow> string \<Rightarrow> string list" where
  "tokens sep s =
     (case dropWhile (\<lambda>c. c = sep) s of
        [] \<Rightarrow> []
      | c # cs \<Rightarrow> takeWhile (\<lambda>c. c \<noteq> sep) (c # cs) # tokens sep (dropWhile (\<lambda>c. c \<noteq> sep) (c # cs)))"
  by pat_completeness auto
termination
proof (relation "measure (length \<circ> snd)")
  fix sep :: byte and s c cs
  assume d: "dropWhile (\<lambda>c. c = sep) s = c # cs"
  then have "c \<noteq> sep" by (simp add: dropWhile_eq_Cons_conv)
  then have "length (dropWhile (\<lambda>c. c \<noteq> sep) (c # cs)) \<le> length cs" by (simp add: length_dropWhile_le)
  also have "length cs < length s" using length_dropWhile_le [of "\<lambda>c. c = sep" s] d by simp
  finally show "((sep, dropWhile (\<lambda>c. c \<noteq> sep) (c # cs)), (sep, s)) \<in> measure (length \<circ> snd)" by simp
qed simp

declare tokens.simps [simp del]

lemma tokens_Nil [simp]: "tokens sep [] = []"
  by (simp add: tokens.simps [of sep "[]"])

lemma tokens_sep [simp]: "tokens sep (sep # s) = tokens sep s"
  by (simp add: tokens.simps [of sep "sep # s"] tokens.simps [of sep s])

lemma tokens_word:
  assumes "w \<noteq> []" "sep \<notin> set w" "rest = [] \<or> hd rest = sep"
  shows "tokens sep (w @ rest) = w # tokens sep rest"
proof -
  obtain c cs where w: "w = c # cs" "c \<noteq> sep" using assms(1,2) by (cases w) auto
  have "takeWhile (\<lambda>c. c \<noteq> sep) (w @ rest) = w" "dropWhile (\<lambda>c. c \<noteq> sep) (w @ rest) = rest"
    using assms(2,3) by (auto simp: takeWhile_append dropWhile_append takeWhile_eq_Nil_iff dropWhile_eq_self_iff)
  then show ?thesis using w by (simp add: tokens.simps [of sep "c # cs @ rest"])
qed

lemma tokens_words:
  "\<forall>w \<in> set (w # ws). w \<noteq> [] \<and> sep \<notin> set w \<Longrightarrow> tokens sep (w @ concat (map ((#) sep) ws)) = w # ws"
proof (induction ws arbitrary: w)
  case Nil
  then show ?case using tokens_word [of w sep "[]"] by simp
next
  case (Cons v ws)
  have "tokens sep (w @ concat (map ((#) sep) (v # ws))) = w # tokens sep (concat (map ((#) sep) (v # ws)))"
    using Cons.prems by (intro tokens_word) auto
  then show ?case using Cons by simp
qed

end
