(* ===== verification/Audio.thy ===== *)
theory Audio
  imports CString
begin

text \<open>
  \<open>audio.c\<close>: the background music of the client. Choosing a player, its arguments and the playlist are
  functions; the player thread and \<open>audio_shutdown\<close> run side by side and share \<open>g_audio_active\<close> and
  \<open>g_child_pid\<close>, so they are interleaved by a step relation. The environment variables, the directory and
  which files are executable are parameters.
\<close>

abbreviation MAX_BGM_FILES :: nat where "MAX_BGM_FILES \<equiv> 32"
abbreviation MAX_PATH_LEN :: nat where "MAX_PATH_LEN \<equiv> 256"

section \<open>The player\<close>

definition is_in_path :: "string option \<Rightarrow> (string \<Rightarrow> bool) \<Rightarrow> string \<Rightarrow> bool" where
  "is_in_path path executable bin =
     (case path of
        None \<Rightarrow> False
      | Some p \<Rightarrow> list_ex (\<lambda>dir. executable (c_snprintf MAX_PATH_LEN (take 200 dir @ ''/'' @ take 40 bin)))
                   (tokens (CHR '':'') (c_snprintf 4096 p)))"

definition probe_audio_player :: "string option \<Rightarrow> (string \<Rightarrow> bool) \<Rightarrow> string option" where
  "probe_audio_player path executable =
     (if is_in_path path executable ''mpg123'' then Some ''mpg123''
      else if is_in_path path executable ''ffplay'' then Some ''ffplay''
      else if is_in_path path executable ''cvlc'' then Some ''cvlc''
      else None)"

text \<open>\<open>pargv\<close> without the final \<open>NULL\<close>; \<open>has_pulse\<close> is whether \<open>PULSE_SERVER\<close> is set.\<close>

definition player_args :: "bool \<Rightarrow> string \<Rightarrow> string \<Rightarrow> string list" where
  "player_args has_pulse player filepath =
     (if player = ''mpg123'' then
        [''mpg123''] @ (if has_pulse then [''-o'', ''pulse''] else []) @ [''--buffer'', ''8192'', ''-q'']
      else if player = ''ffplay'' then
        [''ffplay'', ''-nodisp'', ''-autoexit'', ''-loglevel'', ''quiet'', ''-volume'', ''90'']
      else [''cvlc'', ''--play-and-exit'', ''--quiet'']) @ [filepath]"

section \<open>The playlist\<close>

text \<open>\<open>strrchr(name, '.')\<close>.\<close>

definition extension :: "string \<Rightarrow> string option" where
  "extension name =
     (if CHR ''.'' \<in> set name then Some (CHR ''.'' # rev (takeWhile (\<lambda>c. c \<noteq> CHR ''.'') (rev name))) else None)"

text \<open>The directory is the list of its entries, each a name and whether it is a regular file.\<close>

fun playlist :: "string \<Rightarrow> (string \<times> bool) list \<Rightarrow> string list \<Rightarrow> string list" where
  "playlist dir [] pl = pl"
| "playlist dir ((name, regular) # es) pl =
     (if regular \<and> extension name = Some ''.mp3'' then
        let pl' = pl @ [c_snprintf MAX_PATH_LEN (take 180 dir @ ''/'' @ take 70 name)]
        in if length pl' \<ge> MAX_BGM_FILES then pl' else playlist dir es pl'
      else playlist dir es pl)"

section \<open>State\<close>

datatype au_pc =
    Unborn
  | Born           \<comment> \<open>the thread runs, before it has set \<open>g_audio_active\<close>\<close>
  | Au_test           \<comment> \<open>at \<open>while (g_audio_active)\<close>\<close>
  | Pick           \<comment> \<open>past the test, before \<open>fork\<close>\<close>
  | Au_forked int     \<comment> \<open>before \<open>g_child_pid = pid\<close>\<close>
  | Au_wait int
  | Reaped         \<comment> \<open>before \<open>g_child_pid = -1\<close>\<close>
  | Check          \<comment> \<open>before the second test of \<open>g_audio_active\<close>\<close>
  | Gap
  | Ended

datatype shut_pc =
    Playing        \<comment> \<open>\<open>audio_shutdown\<close> not called\<close>
  | Marked         \<comment> \<open>\<open>g_audio_active = 0\<close> done\<close>
  | Joining
  | Returned

record audio =
  g_playlist :: "string list"
  g_audio_active :: bool
  au_child_pid :: int                 \<comment> \<open>\<open>g_child_pid\<close>\<close>
  au_thread :: au_pc
  au_main :: shut_pc
  au_players :: "int \<rightharpoonup> string list \<times> bool"   \<comment> \<open>the players: their arguments, and whether they still run\<close>

definition audio_zero :: audio where
  "audio_zero = \<lparr>g_playlist = [], g_audio_active = False, au_child_pid = -1, au_thread = Unborn, au_main = Playing, au_players = Map.empty\<rparr>"

definition audio_init :: "string \<Rightarrow> (string \<times> bool) list option \<Rightarrow> bool \<Rightarrow> audio \<Rightarrow> int \<times> audio" where
  "audio_init bgm_dir_path entries created s =
     (if g_audio_active s then (0, s)
      else case entries of
          None \<Rightarrow> (0, s\<lparr>g_playlist := []\<rparr>)
        | Some es \<Rightarrow>
            let s1 = s\<lparr>g_playlist := playlist bgm_dir_path es []\<rparr>
            in if g_playlist s1 = [] then (0, s1)
               else if created then (0, s1\<lparr>g_audio_active := True, au_thread := Born\<rparr>)
               else (-1, s1\<lparr>g_audio_active := False\<rparr>))"

section \<open>The thread\<close>

datatype au_answer = Au_proceed | Au_fork_pid nat int | Au_fork_failed   \<comment> \<open>\<open>rand()\<close> and the result of \<open>fork\<close>\<close>

definition thread_step :: "bool \<Rightarrow> string option \<Rightarrow> au_answer \<Rightarrow> audio \<Rightarrow> audio option" where
  "thread_step has_pulse player a s =
     (case au_thread s of
        Unborn \<Rightarrow> None
      | Born \<Rightarrow>
          (case player of
             None \<Rightarrow> Some (s\<lparr>au_thread := Ended\<rparr>)
           | Some _ \<Rightarrow> Some (s\<lparr>g_audio_active := True, au_thread := Au_test\<rparr>))
      | Au_test \<Rightarrow>
          if \<not> g_audio_active s then Some (s\<lparr>au_thread := Ended\<rparr>)
          else if g_playlist s = [] then Some (s\<lparr>au_thread := Ended\<rparr>)
          else Some (s\<lparr>au_thread := Pick\<rparr>)
      | Pick \<Rightarrow>
          (case a of
             Au_fork_pid r pid \<Rightarrow>
               if pid > 0 \<and> au_players s pid = None then
                 Some (s\<lparr>au_thread := Au_forked pid, au_players := (au_players s)(pid \<mapsto>
                   (player_args has_pulse (the player) (g_playlist s ! (r mod length (g_playlist s))), True))\<rparr>)
               else None
           | Au_fork_failed \<Rightarrow> Some (s\<lparr>au_thread := Check\<rparr>)
           | Au_proceed \<Rightarrow> None)
      | Au_forked pid \<Rightarrow> Some (s\<lparr>au_thread := Au_wait pid, au_child_pid := pid\<rparr>)
      | Au_wait pid \<Rightarrow>
          (case au_players s pid of
             Some (args, False) \<Rightarrow> Some (s\<lparr>au_thread := Reaped, au_players := (au_players s)(pid := None)\<rparr>)
           | _ \<Rightarrow> None)
      | Reaped \<Rightarrow> Some (s\<lparr>au_thread := Check, au_child_pid := -1\<rparr>)
      | Check \<Rightarrow> if g_audio_active s then Some (s\<lparr>au_thread := Gap\<rparr>) else Some (s\<lparr>au_thread := Ended\<rparr>)
      | Gap \<Rightarrow> Some (s\<lparr>au_thread := Au_test\<rparr>)
      | Ended \<Rightarrow> None)"

section \<open>Shutting down\<close>

definition end_player :: "int \<Rightarrow> audio \<Rightarrow> audio" where
  "end_player pid s = s\<lparr>au_players := (au_players s)(pid := map_option (\<lambda>(args, _). (args, False)) (au_players s pid))\<rparr>"

text \<open>\<open>audio_shutdown\<close>, cut where the thread can interfere; \<open>None\<close> when the join blocks or it has returned.\<close>

definition shutdown_step :: "audio \<Rightarrow> audio option" where
  "shutdown_step s =
     (case au_main s of
        Playing \<Rightarrow> if \<not> g_audio_active s \<and> au_child_pid s \<le> 0 then Some (s\<lparr>au_main := Returned\<rparr>)
                   else Some (s\<lparr>g_audio_active := False, au_main := Marked\<rparr>)
      | Marked \<Rightarrow> Some ((if au_child_pid s > 0 then end_player (au_child_pid s) s else s)\<lparr>au_main := Joining\<rparr>)
      | Joining \<Rightarrow> if au_thread s = Ended then Some (s\<lparr>au_main := Returned\<rparr>) else None
      | Returned \<Rightarrow> None)"

inductive audio_step :: "bool \<Rightarrow> string option \<Rightarrow> audio \<Rightarrow> audio \<Rightarrow> bool" for has_pulse player where
  thread: "thread_step has_pulse player a s = Some t \<Longrightarrow> audio_step has_pulse player s t"
| shutdown: "shutdown_step s = Some t \<Longrightarrow> audio_step has_pulse player s t"
| song_over: "au_players s pid = Some (args, True) \<Longrightarrow> audio_step has_pulse player s (end_player pid s)"

section \<open>The playlist fits\<close>

lemma path_whole: "c_snprintf MAX_PATH_LEN (take 180 dir @ ''/'' @ take 70 name) = take 180 dir @ ''/'' @ take 70 name"
  by (rule c_snprintf_id) (simp add: min_def)

lemma playlist_all:
  assumes "length pl < MAX_BGM_FILES"
  shows "playlist dir es pl = pl @ take (MAX_BGM_FILES - length pl)
    (map (\<lambda>(name, _). take 180 dir @ ''/'' @ take 70 name) (filter (\<lambda>(name, regular). regular \<and> extension name = Some ''.mp3'') es))"
  using assms
proof (induction dir es pl rule: playlist.induct)
  case (2 dir name regular es pl)
  show ?case
  proof (cases "regular \<and> extension name = Some ''.mp3''")
    case song: True
    have "MAX_BGM_FILES - length pl = Suc (MAX_BGM_FILES - Suc (length pl))" using "2.prems" by simp
    with song "2.IH"(1) [OF song refl] show ?thesis
      by (simp add: path_whole [simplified] Let_def)
  next
    case False
    then have "(regular \<and> extension name = Some ''.mp3'') = False" by simp
    with "2.IH"(2) [OF False "2.prems"] show ?thesis by (simp only: playlist.simps filter.simps prod.case if_False)
  qed
qed simp

lemma length_player_args: "length (player_args b p f) \<le> 11"
  by (simp add: player_args_def)

text \<open>C38: The playlist is the first 32 regular mp3 files of the directory in its order, no path is cut by its buffer of
  256 bytes, and the arguments of every player with the final \<open>NULL\<close> fit into the array of 12.\<close>
theorem audio_init_fits:
  "let s' = snd (audio_init dir (Some es) True audio_zero);
       songs = filter (\<lambda>(name, regular). regular \<and> extension name = Some ''.mp3'') es
   in g_playlist s' = take MAX_BGM_FILES (map (\<lambda>(name, _). take 180 dir @ ''/'' @ take 70 name) songs) \<and>
      list_all (\<lambda>f. length f < MAX_PATH_LEN) (g_playlist s') \<and>
      length (player_args has_pulse player f) + 1 \<le> 12 \<and>
      (g_audio_active s' = (songs \<noteq> []))"
proof -
  let ?songs = "filter (\<lambda>(name, regular). regular \<and> extension name = Some ''.mp3'') es"
  let ?pl = "take MAX_BGM_FILES (map (\<lambda>(name, _). take 180 dir @ ''/'' @ take 70 name) ?songs)"
  have pl: "playlist dir es [] = ?pl" using playlist_all [of "[]" dir es] by simp
  have "list_all (\<lambda>f. length f < MAX_PATH_LEN) ?pl" by (auto simp: list_all_iff min_def dest!: in_set_takeD)
  then show ?thesis
    using length_player_args [of has_pulse player f] unfolding Let_def by (simp add: audio_init_def audio_zero_def pl Let_def)
qed

section \<open>Ending\<close>

text \<open>The steps left to a thread that finds the flag cleared.\<close>

fun rank :: "au_pc \<Rightarrow> nat" where
  "rank Pick = 5"
| "rank (Au_forked _) = 4"
| "rank (Au_wait _) = 3"
| "rank Reaped = 2"
| "rank Gap = 2"
| "rank Check = 1"
| "rank Au_test = 1"
| "rank _ = 0"

fun thread_run :: "bool \<Rightarrow> string option \<Rightarrow> au_answer list \<Rightarrow> audio \<Rightarrow> audio option" where
  "thread_run b p [] s = Some s"
| "thread_run b p (a # as) s = Option.bind (thread_step b p a s) (thread_run b p as)"

lemma thread_step_rank:
  assumes "thread_step b p a s = Some t" "\<not> g_audio_active s" "au_thread s \<noteq> Born"
  shows "rank (au_thread t) < rank (au_thread s)" "\<not> g_audio_active t" "au_thread t \<noteq> Born"
  using assms by (cases "au_thread s"; auto simp: thread_step_def split: au_answer.splits option.splits prod.splits bool.splits if_splits)+

lemma thread_run_rank:
  "thread_run b p as s = Some t \<Longrightarrow> \<not> g_audio_active s \<Longrightarrow> au_thread s \<noteq> Born \<Longrightarrow>
   length as + rank (au_thread t) \<le> rank (au_thread s) \<and> \<not> g_audio_active t \<and> au_thread t \<noteq> Born"
proof (induction as arbitrary: s)
  case (Cons a as)
  then obtain u where u: "thread_step b p a s = Some u" "thread_run b p as u = Some t" by (auto simp: bind_eq_Some_conv)
  from thread_step_rank [OF u(1) Cons.prems(2,3)] Cons.IH [OF u(2)] show ?case by auto
qed simp

lemma thread_stuck:
  assumes "\<forall>a. thread_step b p a s = None" "au_thread s \<noteq> Unborn"
  shows "au_thread s = Ended \<or> (\<exists>pid. au_thread s = Au_wait pid \<and> \<not> (\<exists>args. au_players s pid = Some (args, False)))"
  using assms(1) [rule_format, of Au_fork_failed] assms(2)
  by (cases "au_thread s") (auto simp: thread_step_def split: option.splits prod.splits bool.splits if_splits)

text \<open>C39: Once the flag is cleared, a thread past its first statement takes at most five more steps, whatever the
  answers of the kernel; when it cannot move it has ended, or waits for a player that still runs.\<close>
theorem audio_thread_ends:
  assumes "\<not> g_audio_active s" "au_thread s \<noteq> Born" "au_thread s \<noteq> Unborn" "thread_run b p as s = Some t"
  shows "length as \<le> 5 \<and> ((\<forall>a. thread_step b p a t = None) \<longrightarrow>
    au_thread t = Ended \<or> (\<exists>pid. au_thread t = Au_wait pid \<and> \<not> (\<exists>args. au_players t pid = Some (args, False))))"
proof -
  have run: "length as + rank (au_thread t) \<le> rank (au_thread s)" using thread_run_rank [OF assms(4,1,2)] by simp
  have unborn: "au_thread t \<noteq> Unborn" using assms(3,4)
  proof (induction as arbitrary: s)
    case (Cons a as)
    then obtain u where u: "thread_step b p a s = Some u" "thread_run b p as u = Some t" by (auto simp: bind_eq_Some_conv)
    have "au_thread u \<noteq> Unborn"
      using u(1) by (cases "au_thread s") (auto simp: thread_step_def split: au_answer.splits option.splits prod.splits bool.splits if_splits)
    with Cons.IH u(2) show ?case by blast
  qed simp
  have "rank x \<le> 5" for x by (cases x) simp_all
  with run have "length as \<le> 5" by (metis add_leD1 le_trans)
  with thread_stuck [OF _ unborn] show ?thesis by blast
qed

text \<open>C40: If \<open>audio_shutdown\<close> clears the flag before a new thread has set it, the thread sets it again: the player
  thread then runs for ever, and \<open>audio_shutdown\<close> never returns from its join.\<close>
theorem audio_shutdown_hangs:
  assumes "au_main s = Joining" "au_thread s = Born" "g_playlist s \<noteq> []"
  shows "\<exists>t. audio_step b (Some player) s t \<and>
    (\<forall>u. (audio_step b (Some player))\<^sup>*\<^sup>* t u \<longrightarrow> au_main u = Joining \<and> au_thread u \<noteq> Ended)"
proof -
  let ?t = "s\<lparr>g_audio_active := True, au_thread := Au_test\<rparr>"
  let ?inv = "\<lambda>u. au_main u = Joining \<and> g_audio_active u \<and> g_playlist u \<noteq> [] \<and> au_thread u \<notin> {Ended, Unborn}"
  have keep: "?inv v" if "audio_step b (Some player) u v" "?inv u" for u v
    using that
  proof cases
    case (thread a)
    with that(2) show ?thesis
      by (cases "au_thread u") (auto simp: thread_step_def split: au_answer.splits option.splits prod.splits bool.splits if_splits)
  next
    case shutdown
    with that(2) show ?thesis by (simp add: shutdown_step_def)
  next
    case (song_over pid args)
    with that(2) show ?thesis by (simp add: end_player_def)
  qed
  have "?inv u" if "(audio_step b (Some player))\<^sup>*\<^sup>* ?t u" for u
    using that by (induction rule: rtranclp_induct) (use assms keep in auto)
  moreover have "audio_step b (Some player) s ?t"
    by (rule audio_step.thread [where a = Au_proceed]) (simp add: thread_step_def assms(2))
  ultimately show ?thesis by blast
qed

text \<open>One song, and a shutdown right after the start.\<close>

definition one_song :: audio where
  "one_song = snd (audio_init ''bgm'' (Some [(''a.mp3'', True)]) True audio_zero)"

lemma one_song_eq: "one_song = audio_zero\<lparr>g_playlist := [''bgm/a.mp3''], g_audio_active := True, au_thread := Born\<rparr>"
  by (simp add: one_song_def audio_init_def audio_zero_def extension_def c_snprintf_def)

theorem audio_thread_ends_witness:
  "length [Au_proceed] \<le> 5 \<and> thread_run False (Some ''cvlc'') [Au_proceed] (one_song\<lparr>g_audio_active := False, au_thread := Au_test\<rparr>) =
     Some (one_song\<lparr>g_audio_active := False, au_thread := Ended\<rparr>)"
  using audio_thread_ends [of "one_song\<lparr>g_audio_active := False, au_thread := Au_test\<rparr>" False "Some ''cvlc''" "[Au_proceed]"]
  by (simp add: thread_step_def)

theorem audio_shutdown_hangs_witness:
  "\<exists>s t. shutdown_step one_song = Some s \<and> (\<exists>s'. shutdown_step s = Some s' \<and> audio_step False (Some ''cvlc'') s' t) \<and>
    (\<forall>u. (audio_step False (Some ''cvlc''))\<^sup>*\<^sup>* t u \<longrightarrow> au_main u \<noteq> Returned)"
proof -
  let ?s = "one_song\<lparr>g_audio_active := False, au_main := Marked\<rparr>"
  have 1: "shutdown_step one_song = Some ?s" by (simp add: one_song_eq shutdown_step_def audio_zero_def)
  have 2: "shutdown_step ?s = Some (?s\<lparr>au_main := Joining\<rparr>)" by (simp add: one_song_eq shutdown_step_def audio_zero_def)
  have "au_main (?s\<lparr>au_main := Joining\<rparr>) = Joining" "au_thread (?s\<lparr>au_main := Joining\<rparr>) = Born" "g_playlist (?s\<lparr>au_main := Joining\<rparr>) \<noteq> []"
    by (simp_all add: one_song_eq)
  from audio_shutdown_hangs [OF this, of False "''cvlc''"] 1 2 show ?thesis by (metis shut_pc.distinct(11))
qed

end
