(* ===== verification/Glitch.thy ===== *)
theory Glitch
  imports CString
begin

text \<open>
  The frames of the sabotage effect (\<open>glitch_window\<close> and \<open>render_glitch\<close> of \<open>src/client/ui_client.c\<close>): which
  characters are printed where on which panel. The values of \<open>rand\<close> are a sequence; the three values of one
  text may be drawn in any order, which the theorem does not depend on.
\<close>

section \<open>Frames\<close>

record glyph =
  gl_y :: nat
  gl_x :: nat
  gl_color :: nat
  gl_text :: string

text \<open>The text \<open>#@!\<close> with two letters and a number below 100, from the three values after position \<open>n\<close>.\<close>

definition glitch_text :: "(nat \<Rightarrow> nat) \<Rightarrow> nat \<Rightarrow> string" where
  "glitch_text rnd n = ''#@!'' @ [char_of (65 + rnd n mod 26), char_of (97 + rnd (n + 1) mod 26)] @ show_int (int (rnd (n + 2) mod 100))"

fun glitch_spots :: "(nat \<Rightarrow> nat) \<Rightarrow> nat \<Rightarrow> nat \<Rightarrow> nat \<Rightarrow> nat \<Rightarrow> glyph list" where
  "glitch_spots rnd w i 0 n = []"
| "glitch_spots rnd w i (Suc spots) n =
     (let color = 1 + rnd n mod 5; x = rnd (n + 1) mod (w - 6) in
      \<lparr>gl_y = i, gl_x = x, gl_color = color, gl_text = glitch_text rnd (n + 2)\<rparr> # glitch_spots rnd w i spots (n + 5))"

text \<open>The rows \<open>i\<close>, \<open>i + 1\<close>, ...; the result counts the values used.\<close>

fun glitch_rows :: "(nat \<Rightarrow> nat) \<Rightarrow> nat \<Rightarrow> nat \<Rightarrow> nat \<Rightarrow> nat \<Rightarrow> glyph list \<times> nat" where
  "glitch_rows rnd w i 0 n = ([], n)"
| "glitch_rows rnd w i (Suc rows) n =
     (let spots = 1 + rnd n mod 3 in
      case glitch_rows rnd w (Suc i) rows (n + 1 + 5 * spots) of
        (gs, n') \<Rightarrow> (glitch_spots rnd w i spots (n + 1) @ gs, n'))"

definition glitch_window :: "(nat \<Rightarrow> nat) \<Rightarrow> (nat \<times> nat) option \<Rightarrow> nat \<Rightarrow> glyph list \<times> nat" where
  "glitch_window rnd win n =
     (case win of
        None \<Rightarrow> ([], n)
      | Some (h, w) \<Rightarrow> if w < 8 then ([], n) else glitch_rows rnd w 0 h n)"

text \<open>The four data panels, in the order they are drawn; \<open>None\<close> is a panel that does not exist.\<close>

fun render_glitch :: "(nat \<Rightarrow> nat) \<Rightarrow> (nat \<times> nat) option list \<Rightarrow> nat \<Rightarrow> glyph list list" where
  "render_glitch rnd [] n = []"
| "render_glitch rnd (win # wins) n = (case glitch_window rnd win n of (gs, n') \<Rightarrow> gs # render_glitch rnd wins n')"

section \<open>A frame stays inside its panels\<close>

definition inside :: "nat \<Rightarrow> nat \<Rightarrow> glyph \<Rightarrow> bool" where
  "inside h w g \<longleftrightarrow> gl_y g < h \<and> gl_x g + length (gl_text g) \<le> w \<and> gl_color g \<in> {1..5}"

lemma show_nat_below_100: "m < 100 \<Longrightarrow> length (show_nat m) \<le> 2"
  using less_mult_imp_div_less [of m 10 10] by (subst show_nat.simps, subst show_nat.simps) simp

lemma length_glitch_text: "length (glitch_text rnd n) \<le> 7"
proof -
  have "length (show_nat (rnd (n + 2) mod 100)) \<le> 2" by (rule show_nat_below_100) simp
  then show ?thesis by (simp add: glitch_text_def show_int_def)
qed

lemma glitch_spots_inside:
  assumes "8 \<le> w" "i < h"
  shows "\<forall>g \<in> set (glitch_spots rnd w i spots n). inside h w g \<and> gl_y g = i"
proof (induction spots arbitrary: n)
  case (Suc spots)
  have "rnd (n + 1) mod (w - 6) < w - 6" using assms(1) by simp
  then have "rnd (n + 1) mod (w - 6) + length (glitch_text rnd (n + 2)) \<le> w"
    using length_glitch_text [of rnd "n + 2"] by linarith
  moreover have "1 + rnd n mod 5 \<in> {1..5}" using mod_less_divisor [of 5 "rnd n"] by (simp add: less_Suc_eq_le)
  ultimately show ?case using Suc.IH assms(2) by (simp add: Let_def inside_def)
qed simp

lemma length_glitch_spots: "length (glitch_spots rnd w i spots n) = spots"
  by (induction spots arbitrary: n) (simp_all add: Let_def)

lemma glitch_rows_inside:
  assumes "8 \<le> w" "i + rows = h"
  shows "(\<forall>g \<in> set (fst (glitch_rows rnd w i rows n)). inside h w g \<and> i \<le> gl_y g) \<and>
    (\<forall>y. i \<le> y \<and> y < h \<longrightarrow> length (filter (\<lambda>g. gl_y g = y) (fst (glitch_rows rnd w i rows n))) \<in> {1..3})"
  using assms(2)
proof (induction rows arbitrary: i n)
  case (Suc rows)
  let ?spots = "1 + rnd n mod 3" and ?n = "n + 1 + 5 * (1 + rnd n mod 3)"
  let ?here = "glitch_spots rnd w i ?spots (n + 1)" and ?rest = "fst (glitch_rows rnd w (Suc i) rows ?n)"
  have split: "fst (glitch_rows rnd w i (Suc rows) n) = ?here @ ?rest" by (simp add: Let_def split: prod.split)
  have ih: "\<forall>g \<in> set ?rest. inside h w g \<and> Suc i \<le> gl_y g"
    "\<forall>y. Suc i \<le> y \<and> y < h \<longrightarrow> length (filter (\<lambda>g. gl_y g = y) ?rest) \<in> {1..3}"
    using Suc.IH [of "Suc i" ?n] Suc.prems by simp_all
  have "i < h" using Suc.prems by simp
  note here = glitch_spots_inside [OF assms(1) this, of rnd ?spots "n + 1"]
  have "filter (\<lambda>g. gl_y g = i) ?rest = []" using ih(1) by (auto simp: filter_empty_conv)
  moreover have "filter (\<lambda>g. gl_y g = i) ?here = ?here" using here by (intro filter_True) blast
  moreover have "?spots \<in> {1..3}" using mod_less_divisor [of 3 "rnd n"] by (simp add: less_Suc_eq_le)
  ultimately have row: "length (filter (\<lambda>g. gl_y g = i) (?here @ ?rest)) \<in> {1..3}"
    by (simp only: filter_append append_Nil2 length_glitch_spots)
  have "filter (\<lambda>g. gl_y g = y) ?here = []" if "y \<noteq> i" for y using here that by (auto simp: filter_empty_conv)
  then have "length (filter (\<lambda>g. gl_y g = y) (?here @ ?rest)) \<in> {1..3}" if "i \<le> y" "y < h" for y
    using ih(2) that row by (cases "y = i") (simp_all only: filter_append append_Nil, simp)
  then show ?case unfolding split using here ih(1) by auto
qed simp

text \<open>Every text of a frame lies inside its panel, with a colour that was set up, and every row of a panel of at least
  eight columns is damaged in one to three places; a narrower panel and one that does not exist are left alone.\<close>
theorem glitch_stays_inside:
  "let gs = fst (glitch_window rnd win n) in
    (\<forall>g \<in> set gs. \<exists>h w. win = Some (h, w) \<and> inside h w g) \<and>
    (\<forall>h w. win = Some (h, w) \<and> 8 \<le> w \<longrightarrow> (\<forall>y < h. length (filter (\<lambda>g. gl_y g = y) gs) \<in> {1..3})) \<and>
    (gs \<noteq> [] \<longrightarrow> (\<exists>h w. win = Some (h, w) \<and> 8 \<le> w))"
proof (cases "\<exists>h w. win = Some (h, w) \<and> 8 \<le> w")
  case True
  then obtain h w where win: "win = Some (h, w)" "8 \<le> w" by blast
  then have "glitch_window rnd win n = glitch_rows rnd w 0 h n" by (simp add: glitch_window_def)
  with win glitch_rows_inside [OF win(2), of 0 h h rnd n] show ?thesis by (simp add: Let_def)
next
  case False
  then have "fst (glitch_window rnd win n) = []" by (auto simp: glitch_window_def split: option.split)
  with False show ?thesis by (auto simp: Let_def)
qed

theorem glitch_stays_inside_witness:
  "\<forall>y < 5. length (filter (\<lambda>g. gl_y g = y) (fst (glitch_window (\<lambda>n. n * n + 7) (Some (5, 40)) 0))) \<in> {1..3}"
  using glitch_stays_inside [of "\<lambda>n. n * n + 7" "Some (5, 40)" 0] by (simp add: Let_def)

end
