(* ===== verification/Common.thy ===== *)
theory Common
  imports Prelude CString
begin

text \<open>
  The shared header \<open>src/common/protocol.h\<close>: limits and balance constants, the tag bits, error
  codes, packet type numbers and the payload of every packet as one constructor of \<open>msg\<close>. The byte
  layout of the packets is the subject of \<open>Wire\<close>.
\<close>

section \<open>Limits and balance constants\<close>

abbreviation MAX_KEY_LEN :: nat where "MAX_KEY_LEN \<equiv> 32"
abbreviation MAX_TEXT_LEN :: nat where "MAX_TEXT_LEN \<equiv> 256"
abbreviation MAX_NAME_LEN :: nat where "MAX_NAME_LEN \<equiv> 64"
abbreviation MAX_INVEN_SIZE :: nat where "MAX_INVEN_SIZE \<equiv> 7"
abbreviation MAX_SCORE_ESCAPED :: nat where "MAX_SCORE_ESCAPED \<equiv> 3"
abbreviation MAX_SCORE_REMAINING :: nat where "MAX_SCORE_REMAINING \<equiv> 7"
abbreviation INITIAL_MONEY :: int where "INITIAL_MONEY \<equiv> 1000"
abbreviation GOAL_MONEY :: int where "GOAL_MONEY \<equiv> 10000"

section \<open>Tags\<close>

datatype (plugins only: size code) tag =
    TAG_CORP_A | TAG_CORP_B | TAG_CORP_C | TAG_CUSTOMER | TAG_FINANCE | TAG_MILITARY
  | TAG_GOVERNMENT | TAG_MEDICAL | TAG_RESEARCH | TAG_PERSONAL | TAG_CORP_D | TAG_CORP_E

fun tag_index :: "tag \<Rightarrow> nat" where
  "tag_index TAG_CORP_A = 0"
| "tag_index TAG_CORP_B = 1"
| "tag_index TAG_CORP_C = 2"
| "tag_index TAG_CUSTOMER = 3"
| "tag_index TAG_FINANCE = 4"
| "tag_index TAG_MILITARY = 5"
| "tag_index TAG_GOVERNMENT = 6"
| "tag_index TAG_MEDICAL = 7"
| "tag_index TAG_RESEARCH = 8"
| "tag_index TAG_PERSONAL = 9"
| "tag_index TAG_CORP_D = 10"
| "tag_index TAG_CORP_E = 11"

text \<open>\<open>1U << k\<close>.\<close>

definition tag_bit :: "tag \<Rightarrow> tags" where
  "tag_bit t = push_bit (tag_index t) 1"

definition all_tags :: "tag list" where
  "all_tags = [TAG_CORP_A, TAG_CORP_B, TAG_CORP_C, TAG_CUSTOMER, TAG_FINANCE, TAG_MILITARY,
     TAG_GOVERNMENT, TAG_MEDICAL, TAG_RESEARCH, TAG_PERSONAL, TAG_CORP_D, TAG_CORP_E]"

text \<open>The tags a mask holds, in enum order.\<close>

definition tags_of :: "tags \<Rightarrow> tag list" where
  "tags_of m = filter (\<lambda>t. tag_bit t AND m \<noteq> 0) all_tags"

fun tag_label :: "tag \<Rightarrow> string" where
  "tag_label TAG_CORP_A = utf8 [0xC544, 0xC0AC, 0xC0AC, 0xCE74]"
| "tag_label TAG_CORP_B = utf8 [0xBC14, 0xC774, 0xC624, 0xC820]"
| "tag_label TAG_CORP_C = utf8 [0xB125, 0xC11C, 0xC2A4]"
| "tag_label TAG_CUSTOMER = utf8 [0xC720, 0xC800] @ ''DB/'' @ utf8 [0xC2E0, 0xC0C1]"
| "tag_label TAG_FINANCE = utf8 [0xD06C, 0xB808, 0xB527] @ ''/'' @ utf8 [0xBE44, 0xC790, 0xAE08]"
| "tag_label TAG_MILITARY = utf8 [0xC804, 0xC220] @ ''AI/'' @ utf8 [0xBB34, 0xAE30]"
| "tag_label TAG_GOVERNMENT = utf8 [0xC5F0, 0xBC29, 0xAE30, 0xBC00]"
| "tag_label TAG_MEDICAL = utf8 [0xC778, 0xCCB4, 0xC2E4, 0xD5D8] @ ''/'' @ utf8 [0xBC14, 0xC774, 0xC624]"
| "tag_label TAG_RESEARCH = utf8 [0xD504, 0xB85C, 0xD1A0, 0xD0C0, 0xC785]"
| "tag_label TAG_PERSONAL = utf8 [0xBE14, 0xB799, 0xBA54, 0xC77C] @ ''/'' @ utf8 [0xC57D, 0xC810]"
| "tag_label TAG_CORP_D = utf8 [0xBC00, 0xB9AC, 0xD14C, 0xD06C]"
| "tag_label TAG_CORP_E = utf8 [0xB808, 0xC774, 0xBE10]"

text \<open>The \<open>switch\<close> of \<open>get_tag_name\<close>: a mask that is no single tag has the default label.\<close>

definition get_tag_name :: "tags \<Rightarrow> string" where
  "get_tag_name m =
     (case find (\<lambda>t. tag_bit t = m) all_tags of
        Some t \<Rightarrow> tag_label t
      | None \<Rightarrow> utf8 [0xC54C, 0xC218, 0xC5C6, 0xC74C])"

lemma set_all_tags [simp]: "set all_tags = UNIV"
proof -
  have "t \<in> set all_tags" for t by (cases t) (simp_all add: all_tags_def)
  then show ?thesis by auto
qed

instance tag :: finite
proof
  show "finite (UNIV :: tag set)" using finite_set [of all_tags] unfolding set_all_tags .
qed

lemma distinct_all_tags: "distinct all_tags"
  by (simp add: all_tags_def)

lemma tag_index_less: "tag_index t < 12"
  by (cases t) simp_all

lemma tag_index_inject [simp]: "tag_index t = tag_index u \<longleftrightarrow> t = u"
  by (cases t; cases u; simp)

lemma bit_tag_bit: "bit (tag_bit t) n \<longleftrightarrow> n = tag_index t"
  using tag_index_less [of t] by (auto simp: tag_bit_def bit_exp_iff)

lemma tag_bit_inject [simp]: "tag_bit t = tag_bit u \<longleftrightarrow> t = u"
  by (metis bit_tag_bit tag_index_inject)

lemma tag_bit_nonzero [simp]: "tag_bit t \<noteq> 0"
  using bit_tag_bit [of t "tag_index t"] by auto

lemma tag_bit_and_iff: "tag_bit t AND m \<noteq> 0 \<longleftrightarrow> bit m (tag_index t)"
  by (auto simp: word_and_eq_0_iff bit_tag_bit)

section \<open>Counting tags\<close>

text \<open>
  The loop of \<open>popcount_u32\<close> (market.c) and of the two \<open>count_bits\<close> (server_main.c, events.c):
  \<open>while (v) { n += (int)(v & 1u); v >>= 1; }\<close>.
\<close>

function shift_count :: "tags \<Rightarrow> int \<Rightarrow> int" where
  "shift_count v n = (if v \<noteq> 0 then shift_count (drop_bit 1 v) (n + uint (v AND 1)) else n)"
  by pat_completeness auto
termination
  by (relation "measure (\<lambda>(v, n). unat v)") (rule wf_measure, simp only: in_measure prod.case, erule drop_bit_unat_less)

declare shift_count.simps [simp del]

lemma shift_count_card: "shift_count v n = n + int (card (bit_set v))"
proof (induction v n rule: shift_count.induct)
  case (1 v n)
  show ?case
  proof (cases "v = 0")
    case True
    then show ?thesis by (subst shift_count.simps) (simp add: bit_set_def)
  next
    case False
    have "uint (v AND 1) = (if odd v then 1 else 0)"
      by (simp add: and_one_eq odd_iff_mod_2_eq_one even_iff_mod_2_eq_zero)
    with False "1.IH" show ?thesis
      by (simp add: shift_count.simps [of v] card_bit_set_step [of v])
  qed
qed

section \<open>Error codes\<close>

datatype (plugins only: size code) error_code =
    ERR_NONE | ERR_NOT_ENOUGH_MONEY | ERR_INVENTORY_FULL | ERR_DOC_NOT_FOUND | ERR_TAG_MISMATCH
  | ERR_NPC_NOT_FOUND | ERR_NPC_ALREADY_TAKEN | ERR_DOC_FROZEN | ERR_RUMOR_COOLDOWN
  | ERR_INVALID_SESSION | ERR_DUPLICATE_LOGIN | ERR_KEY_BURNED

fun error_num :: "error_code \<Rightarrow> int" where
  "error_num ERR_NONE = 0"
| "error_num ERR_NOT_ENOUGH_MONEY = 1"
| "error_num ERR_INVENTORY_FULL = 2"
| "error_num ERR_DOC_NOT_FOUND = 3"
| "error_num ERR_TAG_MISMATCH = 4"
| "error_num ERR_NPC_NOT_FOUND = 5"
| "error_num ERR_NPC_ALREADY_TAKEN = 6"
| "error_num ERR_DOC_FROZEN = 7"
| "error_num ERR_RUMOR_COOLDOWN = 8"
| "error_num ERR_INVALID_SESSION = 9"
| "error_num ERR_DUPLICATE_LOGIN = 10"
| "error_num ERR_KEY_BURNED = 11"

section \<open>Packet types\<close>

datatype (plugins only: size code) packet_type =
    PKT_REQ_LOGIN | PKT_REQ_CHAT | PKT_REQ_BUY | PKT_REQ_SELL | PKT_REQ_DISPOSE | PKT_REQ_INVEN
  | PKT_REQ_RUMOR | PKT_REQ_MINIGAME_SUBMIT | PKT_REQ_TRIGGER_RAID | PKT_REQ_TRIGGER_LEAK
  | PKT_REQ_TRIGGER_RICH | PKT_REQ_TRIGGER_ENDROUND
  | PKT_RES_LOGIN_OK | PKT_RES_LOGIN_FAIL | PKT_RES_INVEN_INFO | PKT_RES_BUY_OK | PKT_RES_SELL_OK
  | PKT_RES_DISPOSE_OK | PKT_RES_ERROR | PKT_RES_MINIGAME_OK
  | PKT_EVT_CHAT | PKT_EVT_MARKET_SPAWN | PKT_EVT_MARKET_REMOVE | PKT_EVT_NPC_SPAWN
  | PKT_EVT_NPC_DESPAWN | PKT_EVT_NEWS_LEAK | PKT_EVT_NEWS_RECOVER | PKT_EVT_RUMOR_GLITCH
  | PKT_EVT_POLICE_RAID | PKT_EVT_GAME_OVER | PKT_EVT_VICTORY | PKT_EVT_SCOREBOARD
  | PKT_EVT_GOAL_UPDATE

fun packet_type_num :: "packet_type \<Rightarrow> 32 word" where
  "packet_type_num PKT_REQ_LOGIN = 100"
| "packet_type_num PKT_REQ_CHAT = 101"
| "packet_type_num PKT_REQ_BUY = 102"
| "packet_type_num PKT_REQ_SELL = 103"
| "packet_type_num PKT_REQ_DISPOSE = 104"
| "packet_type_num PKT_REQ_INVEN = 105"
| "packet_type_num PKT_REQ_RUMOR = 106"
| "packet_type_num PKT_REQ_MINIGAME_SUBMIT = 107"
| "packet_type_num PKT_REQ_TRIGGER_RAID = 108"
| "packet_type_num PKT_REQ_TRIGGER_LEAK = 109"
| "packet_type_num PKT_REQ_TRIGGER_RICH = 110"
| "packet_type_num PKT_REQ_TRIGGER_ENDROUND = 111"
| "packet_type_num PKT_RES_LOGIN_OK = 200"
| "packet_type_num PKT_RES_LOGIN_FAIL = 201"
| "packet_type_num PKT_RES_INVEN_INFO = 202"
| "packet_type_num PKT_RES_BUY_OK = 203"
| "packet_type_num PKT_RES_SELL_OK = 204"
| "packet_type_num PKT_RES_DISPOSE_OK = 205"
| "packet_type_num PKT_RES_ERROR = 206"
| "packet_type_num PKT_RES_MINIGAME_OK = 207"
| "packet_type_num PKT_EVT_CHAT = 300"
| "packet_type_num PKT_EVT_MARKET_SPAWN = 301"
| "packet_type_num PKT_EVT_MARKET_REMOVE = 302"
| "packet_type_num PKT_EVT_NPC_SPAWN = 303"
| "packet_type_num PKT_EVT_NPC_DESPAWN = 304"
| "packet_type_num PKT_EVT_NEWS_LEAK = 305"
| "packet_type_num PKT_EVT_NEWS_RECOVER = 306"
| "packet_type_num PKT_EVT_RUMOR_GLITCH = 307"
| "packet_type_num PKT_EVT_POLICE_RAID = 308"
| "packet_type_num PKT_EVT_GAME_OVER = 309"
| "packet_type_num PKT_EVT_VICTORY = 310"
| "packet_type_num PKT_EVT_SCOREBOARD = 311"
| "packet_type_num PKT_EVT_GOAL_UPDATE = 312"

section \<open>Payloads\<close>

record inven_item =
  ii_doc_id :: int
  ii_tags :: tags
  ii_name :: string
  ii_is_frozen :: bool

record score_escaped =
  se_key :: key
  se_money_at_escape :: int
  se_escape_order :: int

record score_remaining =
  sr_key :: key
  sr_money :: int

text \<open>
  One constructor per packet type, its arguments the union member of the packet in order. An array
  with a count is the count and the list of the entries written; \<open>Req_sell\<close> carries the whole
  array of \<open>MAX_INVEN_SIZE\<close> identifiers.
\<close>

datatype (plugins only: size code) msg =
    Req_login key
  | Req_chat string
  | Req_buy int
  | Req_sell int int "int list"
  | Req_dispose int
  | Req_inven
  | Req_rumor key
  | Req_minigame_submit string
  | Req_trigger_raid
  | Req_trigger_leak
  | Req_trigger_rich
  | Req_trigger_endround
  | Res_login_ok int int int
  | Res_login_fail error_code string
  | Res_inven_info int "inven_item list" int
  | Res_buy_ok int int tags string
  | Res_sell_ok int int
  | Res_dispose_ok
  | Res_error error_code string
  | Res_minigame_ok
  | Evt_chat string string
  | Evt_market_spawn int tags int string
  | Evt_market_remove int
  | Evt_npc_spawn int tags int
  | Evt_npc_despawn int
  | Evt_news_leak tags int string
  | Evt_news_recover tags
  | Evt_rumor_glitch
  | Evt_police_raid string int
  | Evt_game_over string
  | Evt_victory string
  | Evt_scoreboard int int "score_escaped list" int "score_remaining list"
  | Evt_goal_update int

end
