(* ===== verification/Slots.thy ===== *)
theory Slots
  imports Prelude
begin

text \<open>
  The fixed arrays of slots with an \<open>active\<close> flag that the market board and the NPC board both are:
  the loops of the code as list functions, and their laws, proved once for any slot type whose
  deactivation clears the flag and keeps the identifier.
\<close>

section \<open>The loops\<close>

text \<open>\<open>for (i ...) if (p(a[i])) { a[i] = f(a[i]); return; }\<close>: only the first match changes.\<close>

fun update_first :: "('a \<Rightarrow> bool) \<Rightarrow> ('a \<Rightarrow> 'a) \<Rightarrow> 'a list \<Rightarrow> 'a list" where
  "update_first p f [] = []"
| "update_first p f (x # xs) = (if p x then f x # xs else x # update_first p f xs)"

text \<open>
  The ageing loop: every slot that satisfies \<open>p\<close> is deactivated, and its identifier is written to
  the output array while there is room (\<open>if (count < max_out) out_ids[count++] = ...\<close>).
\<close>

fun expire_loop :: "('a \<Rightarrow> bool) \<Rightarrow> ('a \<Rightarrow> int) \<Rightarrow> ('a \<Rightarrow> 'a) \<Rightarrow> nat \<Rightarrow> int list \<Rightarrow> 'a list \<Rightarrow> int list \<times> 'a list" where
  "expire_loop p ident kill max_out out [] = (out, [])"
| "expire_loop p ident kill max_out out (x # xs) =
     (if p x then
        (case expire_loop p ident kill max_out (if length out < max_out then out @ [ident x] else out) xs of
           (out', xs') \<Rightarrow> (out', kill x # xs'))
      else
        (case expire_loop p ident kill max_out out xs of (out', xs') \<Rightarrow> (out', x # xs')))"

text \<open>The snapshot loop: the active slots in order, at most \<open>max_size\<close> of them.\<close>

fun snapshot_loop :: "('a \<Rightarrow> bool) \<Rightarrow> nat \<Rightarrow> 'a list \<Rightarrow> 'a list \<Rightarrow> 'a list" where
  "snapshot_loop live max_size out [] = out"
| "snapshot_loop live max_size out (x # xs) =
     snapshot_loop live max_size (if live x \<and> length out < max_size then out @ [x] else out) xs"

definition slot_ids :: "('a \<Rightarrow> bool) \<Rightarrow> ('a \<Rightarrow> int) \<Rightarrow> 'a list \<Rightarrow> int list" where
  "slot_ids live ident xs = map ident (filter live xs)"

text \<open>What a board offers, seen from outside: a finite map from identifiers to slots.\<close>

definition slot_map :: "('a \<Rightarrow> bool) \<Rightarrow> ('a \<Rightarrow> int) \<Rightarrow> 'a list \<Rightarrow> int \<rightharpoonup> 'a" where
  "slot_map live ident xs = map_of (map (\<lambda>x. (ident x, x)) (filter live xs))"

section \<open>Facts that need no contract\<close>

lemma length_update_first [slot_simps, simp]: "length (update_first p f xs) = length xs"
  by (induction xs) auto

lemma update_first_none: "(\<forall>x \<in> set xs. \<not> p x) \<Longrightarrow> update_first p f xs = xs"
  by (induction xs) auto

lemma update_first_find:
  assumes "find p xs = Some x"
  obtains us vs where "xs = us @ x # vs" "p x" "\<forall>u \<in> set us. \<not> p u" "update_first p f xs = us @ f x # vs"
  using assms
proof (induction xs arbitrary: thesis)
  case Nil
  then show ?case by simp
next
  case (Cons y ys)
  show ?case
  proof (cases "p y")
    case True
    with Cons.prems show ?thesis by (auto intro: Cons.prems(1) [of "[]" ys])
  next
    case False
    with Cons.prems(2) have "find p ys = Some x" by simp
    then show ?thesis
    proof (rule Cons.IH [rotated])
      fix us vs
      assume "ys = us @ x # vs" "p x" "\<forall>u \<in> set us. \<not> p u" "update_first p f ys = us @ f x # vs"
      with False show ?thesis by (intro Cons.prems(1) [of "y # us" vs]) auto
    qed
  qed
qed

lemma find_set: "find p xs = Some x \<Longrightarrow> x \<in> set xs \<and> p x"
  by (metis find_Some_iff nth_mem)

lemma update_first_exists:
  assumes "\<exists>x \<in> set xs. p x"
  obtains us x vs where "xs = us @ x # vs" "p x" "\<forall>u \<in> set us. \<not> p u" "update_first p f xs = us @ f x # vs"
proof -
  from assms obtain x where x: "find p xs = Some x"
    by (metis find_None_iff option.exhaust)
  from x show ?thesis by (rule update_first_find [where f = f]) (rule that)
qed

lemma expire_loop_eq [slot_simps]:
  "length out \<le> max_out \<Longrightarrow>
   expire_loop p ident kill max_out out xs =
     (take max_out (out @ map ident (filter p xs)), map (\<lambda>x. if p x then kill x else x) xs)"
proof (induction xs arbitrary: out)
  case Nil
  then show ?case by simp
next
  case (Cons x xs)
  show ?case
  proof (cases "p x \<and> length out < max_out")
    case True
    with Cons.IH [of "out @ [ident x]"] show ?thesis by simp
  next
    case False
    with Cons show ?thesis by (auto simp: take_Cons split: nat.split)
  qed
qed

lemma snapshot_loop_eq [slot_simps]:
  "length out \<le> max_size \<Longrightarrow> snapshot_loop live max_size out xs = take max_size (out @ filter live xs)"
proof (induction xs arbitrary: out)
  case Nil
  then show ?case by simp
next
  case (Cons x xs)
  show ?case
  proof (cases "live x \<and> length out < max_size")
    case True
    with Cons.IH [of "out @ [x]"] show ?thesis by simp
  next
    case False
    with Cons show ?thesis by (auto simp: take_Cons split: nat.split)
  qed
qed

lemma slot_map_find: "slot_map live ident xs d = find (\<lambda>x. live x \<and> ident x = d) xs"
  by (induction xs) (auto simp: slot_map_def)

lemma slot_map_dom: "dom (slot_map live ident xs) = set (slot_ids live ident xs)"
  by (simp add: slot_map_def slot_ids_def dom_map_of_conv_image_fst image_image)

lemma slot_map_None_iff: "slot_map live ident xs d = None \<longleftrightarrow> d \<notin> set (slot_ids live ident xs)"
  using slot_map_dom [of live ident xs] by (auto simp: domIff)

lemma slot_ids_Nil [simp]: "slot_ids live ident [] = []"
  by (simp add: slot_ids_def)

lemma slot_ids_Cons [simp]:
  "slot_ids live ident (x # xs) = (if live x then ident x # slot_ids live ident xs else slot_ids live ident xs)"
  by (simp add: slot_ids_def)

lemma slot_ids_append [simp]:
  "slot_ids live ident (xs @ ys) = slot_ids live ident xs @ slot_ids live ident ys"
  by (simp add: slot_ids_def)

section \<open>The contract of a board\<close>

text \<open>
  What the two boards share: \<open>live\<close> reads the flag, \<open>ident\<close> the identifier, \<open>kill\<close> clears the flag.
\<close>

locale slot_board =
  fixes live :: "'a \<Rightarrow> bool" and ident :: "'a \<Rightarrow> int" and kill :: "'a \<Rightarrow> 'a"
  assumes not_live_kill [simp]: "\<not> live (kill x)"
begin

lemma kill_map:
  assumes "distinct (slot_ids live ident xs)"
  shows "slot_map live ident (update_first (\<lambda>x. live x \<and> ident x = d) kill xs) =
    (slot_map live ident xs)(d := None)"
  using assms
proof (induction xs)
  case Nil
  then show ?case by (simp add: slot_map_def fun_eq_iff)
next
  case (Cons x xs)
  show ?case
  proof (cases "live x \<and> ident x = d")
    case True
    with Cons.prems have "slot_map live ident xs d = None" by (simp add: slot_map_None_iff)
    with True show ?thesis by (auto simp: slot_map_def fun_eq_iff)
  next
    case False
    with Cons show ?thesis by (auto simp: slot_map_def fun_eq_iff)
  qed
qed

lemma kill_ids_subset:
  "set (slot_ids live ident (update_first (\<lambda>x. live x \<and> ident x = d) kill xs)) \<subseteq> set (slot_ids live ident xs)"
  by (induction xs) auto

lemma kill_distinct:
  "distinct (slot_ids live ident xs) \<Longrightarrow>
   distinct (slot_ids live ident (update_first (\<lambda>x. live x \<and> ident x = d) kill xs))"
proof (induction xs)
  case (Cons x xs)
  then show ?case using kill_ids_subset [of d xs] by auto
qed simp

lemma kill_absent:
  assumes "distinct (slot_ids live ident xs)"
  shows "d \<notin> set (slot_ids live ident (update_first (\<lambda>x. live x \<and> ident x = d) kill xs))"
  using kill_map [OF assms, of d] by (metis fun_upd_same slot_map_None_iff)

text \<open>Filling the first free slot.\<close>

lemma fill_ids:
  assumes "\<exists>x \<in> set xs. \<not> live x" and "live new"
  shows "mset (slot_ids live ident (update_first (\<lambda>x. \<not> live x) (\<lambda>_. new) xs)) =
    add_mset (ident new) (mset (slot_ids live ident xs))"
proof -
  obtain us x vs where "xs = us @ x # vs" "\<not> live x"
    "update_first (\<lambda>x. \<not> live x) (\<lambda>_. new) xs = us @ new # vs"
    using update_first_exists [where f = "\<lambda>_. new", OF assms(1)] by blast
  with assms(2) show ?thesis by simp
qed

lemma fill_distinct:
  assumes "distinct (slot_ids live ident xs)" and "ident new \<notin> set (slot_ids live ident xs)" and "live new"
  shows "distinct (slot_ids live ident (update_first (\<lambda>x. \<not> live x) (\<lambda>_. new) xs))"
proof (cases "\<exists>x \<in> set xs. \<not> live x")
  case True
  then have "mset (slot_ids live ident (update_first (\<lambda>x. \<not> live x) (\<lambda>_. new) xs)) =
    mset (ident new # slot_ids live ident xs)"
    using assms(3) by (simp add: fill_ids)
  moreover have "distinct (ident new # slot_ids live ident xs)" using assms by simp
  ultimately show ?thesis by (metis mset_eq_imp_distinct_iff)
next
  case False
  with assms(1) show ?thesis by (simp add: update_first_none)
qed

lemma fill_map:
  assumes "\<exists>x \<in> set xs. \<not> live x" and "ident new \<notin> set (slot_ids live ident xs)" and "live new"
  shows "slot_map live ident (update_first (\<lambda>x. \<not> live x) (\<lambda>_. new) xs) =
    (slot_map live ident xs)(ident new \<mapsto> new)"
  using assms(1,2)
proof (induction xs)
  case Nil
  then show ?case by simp
next
  case (Cons x xs)
  show ?case
  proof (cases "live x")
    case True
    with Cons show ?thesis by (auto simp: slot_map_def fun_eq_iff)
  next
    case False
    with assms(3) show ?thesis by (auto simp: slot_map_def fun_eq_iff)
  qed
qed

text \<open>Ageing removes exactly the slots it selects.\<close>

lemma expire_ids:
  assumes "\<And>x. p x \<Longrightarrow> live x"
  shows "slot_ids live ident (map (\<lambda>x. if p x then kill x else x) xs) =
    map ident (filter (\<lambda>x. live x \<and> \<not> p x) xs)"
  by (induction xs) (auto dest: assms)

lemma expire_ids_subset:
  assumes "\<And>x. p x \<Longrightarrow> live x"
  shows "set (slot_ids live ident (map (\<lambda>x. if p x then kill x else x) xs)) \<subseteq> set (slot_ids live ident xs)"
  unfolding expire_ids [OF assms] by (auto simp: slot_ids_def)

lemma expire_distinct:
  assumes "\<And>x. p x \<Longrightarrow> live x" and "distinct (slot_ids live ident xs)"
  shows "distinct (slot_ids live ident (map (\<lambda>x. if p x then kill x else x) xs))"
  using assms(2)
proof (induction xs)
  case (Cons x xs)
  then show ?case using expire_ids_subset [of p xs, OF assms(1)] assms(1) by auto
qed simp

end

end
