(* ===== verification/Market.thy ===== *)
theory Market
  imports Common Slots
begin

text \<open>
  \<open>src/server/market.c\<close>: the market board, the NPC board and the mask of frozen tags. Every function
  of the file holds one mutex for its whole body (\<open>market_init\<close> takes the two in turn), so each is one
  step on the state. \<open>now\<close> stands for \<open>time(NULL)\<close> and \<open>r\<close> for the value of \<open>rand()\<close>; a result of 0
  or -1 is a boolean or an option, the three results of \<open>market_take\<close> a sum.
\<close>

section \<open>State\<close>

abbreviation MAX_MARKET_SLOTS :: nat where "MAX_MARKET_SLOTS \<equiv> 32"
abbreviation MAX_NPC_SLOTS :: nat where "MAX_NPC_SLOTS \<equiv> 16"
abbreviation MARKET_LIFE_MIN_SEC :: int where "MARKET_LIFE_MIN_SEC \<equiv> 40"
abbreviation MARKET_LIFE_MAX_SEC :: int where "MARKET_LIFE_MAX_SEC \<equiv> 90"

record market_slot =
  ms_doc_id :: int
  ms_tags :: tags
  ms_base_price :: int
  ms_name :: string
  ms_active :: bool
  ms_is_frozen :: bool
  ms_spawn_time :: time_t
  ms_lifespan_sec :: int

record npc_slot =
  ns_npc_id :: int
  ns_required_tags :: tags
  ns_bounty :: int
  ns_active :: bool
  ns_spawn_time :: time_t

record market =
  g_market :: "market_slot list"
  g_npc :: "npc_slot list"
  g_frozen_tags :: tags

definition zero_market_slot :: market_slot where
  "zero_market_slot = \<lparr>ms_doc_id = 0, ms_tags = 0, ms_base_price = 0, ms_name = [], ms_active = False,
     ms_is_frozen = False, ms_spawn_time = 0, ms_lifespan_sec = 0\<rparr>"

definition zero_npc_slot :: npc_slot where
  "zero_npc_slot = \<lparr>ns_npc_id = 0, ns_required_tags = 0, ns_bounty = 0, ns_active = False, ns_spawn_time = 0\<rparr>"

section \<open>Operations\<close>

definition market_init :: "market \<Rightarrow> market" where
  "market_init m = m\<lparr>g_market := replicate MAX_MARKET_SLOTS zero_market_slot, g_frozen_tags := 0,
     g_npc := replicate MAX_NPC_SLOTS zero_npc_slot\<rparr>"

definition market_new_slot :: "time_t \<Rightarrow> nat \<Rightarrow> tags \<Rightarrow> int \<Rightarrow> tags \<Rightarrow> int \<Rightarrow> string \<Rightarrow> market_slot" where
  "market_new_slot now r frozen doc_id tags price name =
     \<lparr>ms_doc_id = doc_id, ms_tags = tags, ms_base_price = price,
      ms_name = c_strncpy (MAX_NAME_LEN - 1) name, ms_active = True,
      ms_is_frozen = (tags AND frozen \<noteq> 0), ms_spawn_time = now,
      ms_lifespan_sec = MARKET_LIFE_MIN_SEC + int r mod (MARKET_LIFE_MAX_SEC - MARKET_LIFE_MIN_SEC + 1)\<rparr>"

definition market_add :: "time_t \<Rightarrow> nat \<Rightarrow> int \<Rightarrow> tags \<Rightarrow> int \<Rightarrow> string \<Rightarrow> market \<Rightarrow> bool \<times> market" where
  "market_add now r doc_id tags price name m =
     (if \<exists>s \<in> set (g_market m). \<not> ms_active s then
        (True, m\<lparr>g_market := update_first (\<lambda>s. \<not> ms_active s)
           (\<lambda>_. market_new_slot now r (g_frozen_tags m) doc_id tags price name) (g_market m)\<rparr>)
      else (False, m))"

definition market_find :: "int \<Rightarrow> market \<Rightarrow> market_slot option" where
  "market_find doc_id m = find (\<lambda>s. ms_active s \<and> ms_doc_id s = doc_id) (g_market m)"

datatype take_error = TAKE_MISSING | TAKE_FROZEN  \<comment> \<open>-1 and -2\<close>

definition market_kill :: "market_slot \<Rightarrow> market_slot" where
  "market_kill s = s\<lparr>ms_active := False\<rparr>"

definition market_take :: "int \<Rightarrow> market \<Rightarrow> (take_error + market_slot) \<times> market" where
  "market_take doc_id m =
     (case find (\<lambda>s. ms_active s \<and> ms_doc_id s = doc_id) (g_market m) of
        None \<Rightarrow> (Inl TAKE_MISSING, m)
      | Some s \<Rightarrow>
          if ms_is_frozen s then (Inl TAKE_FROZEN, m)
          else (Inr s, m\<lparr>g_market := update_first (\<lambda>s. ms_active s \<and> ms_doc_id s = doc_id)
                          market_kill (g_market m)\<rparr>))"

definition npc_new_slot :: "time_t \<Rightarrow> int \<Rightarrow> tags \<Rightarrow> int \<Rightarrow> npc_slot" where
  "npc_new_slot now npc_id required_tags bounty =
     \<lparr>ns_npc_id = npc_id, ns_required_tags = required_tags, ns_bounty = bounty, ns_active = True,
      ns_spawn_time = now\<rparr>"

definition npc_add :: "time_t \<Rightarrow> int \<Rightarrow> tags \<Rightarrow> int \<Rightarrow> market \<Rightarrow> bool \<times> market" where
  "npc_add now npc_id required_tags bounty m =
     (if \<exists>s \<in> set (g_npc m). \<not> ns_active s then
        (True, m\<lparr>g_npc := update_first (\<lambda>s. \<not> ns_active s)
           (\<lambda>_. npc_new_slot now npc_id required_tags bounty) (g_npc m)\<rparr>)
      else (False, m))"

definition npc_find :: "int \<Rightarrow> market \<Rightarrow> npc_slot option" where
  "npc_find npc_id m = find (\<lambda>s. ns_active s \<and> ns_npc_id s = npc_id) (g_npc m)"

definition npc_kill :: "npc_slot \<Rightarrow> npc_slot" where
  "npc_kill s = s\<lparr>ns_active := False\<rparr>"

definition npc_take :: "int \<Rightarrow> market \<Rightarrow> npc_slot option \<times> market" where
  "npc_take npc_id m =
     (case find (\<lambda>s. ns_active s \<and> ns_npc_id s = npc_id) (g_npc m) of
        None \<Rightarrow> (None, m)
      | Some s \<Rightarrow> (Some s, m\<lparr>g_npc := update_first (\<lambda>s. ns_active s \<and> ns_npc_id s = npc_id)
                              npc_kill (g_npc m)\<rparr>))"

text \<open>The bodies of the two loops over the board, then the functions.\<close>

definition freeze_slot :: "tags \<Rightarrow> market_slot \<Rightarrow> market_slot" where
  "freeze_slot tags s = (if ms_active s \<and> ms_tags s AND tags \<noteq> 0 then s\<lparr>ms_is_frozen := True\<rparr> else s)"

definition unfreeze_slot :: "tags \<Rightarrow> tags \<Rightarrow> market_slot \<Rightarrow> market_slot" where
  "unfreeze_slot tags frozen s =
     (if ms_active s \<and> ms_tags s AND tags \<noteq> 0 \<and> \<not> (ms_tags s AND frozen \<noteq> 0)
      then s\<lparr>ms_is_frozen := False\<rparr> else s)"

definition freeze_tags :: "tags \<Rightarrow> market \<Rightarrow> market" where
  "freeze_tags tags m = m\<lparr>g_frozen_tags := g_frozen_tags m OR tags,
     g_market := map (freeze_slot tags) (g_market m)\<rparr>"

definition unfreeze_tags :: "tags \<Rightarrow> market \<Rightarrow> market" where
  "unfreeze_tags tags m =
     (let frozen = g_frozen_tags m AND NOT tags in
      m\<lparr>g_frozen_tags := frozen, g_market := map (unfreeze_slot tags frozen) (g_market m)\<rparr>)"

definition is_tag_frozen :: "tags \<Rightarrow> market \<Rightarrow> bool" where
  "is_tag_frozen tags m \<longleftrightarrow> tags AND g_frozen_tags m \<noteq> 0"

definition market_is_full :: "market \<Rightarrow> bool" where
  "market_is_full m \<longleftrightarrow> (\<forall>s \<in> set (g_market m). ms_active s)"

definition npc_is_full :: "market \<Rightarrow> bool" where
  "npc_is_full m \<longleftrightarrow> (\<forall>s \<in> set (g_npc m). ns_active s)"

definition popcount_u32 :: "tags \<Rightarrow> int" where
  "popcount_u32 v = shift_count v 0"

definition npc_max_age :: "int \<Rightarrow> int \<Rightarrow> npc_slot \<Rightarrow> int" where
  "npc_max_age base_age_sec step_sec s =
     (let tagn = popcount_u32 (ns_required_tags s);
          max_age = base_age_sec - (tagn - 1) * step_sec
      in if max_age < 60 then 60 else max_age)"

definition npc_expired :: "time_t \<Rightarrow> int \<Rightarrow> int \<Rightarrow> npc_slot \<Rightarrow> bool" where
  "npc_expired now base_age_sec step_sec s \<longleftrightarrow>
     ns_active s \<and> now - ns_spawn_time s > npc_max_age base_age_sec step_sec s"

text \<open>Returns the identifiers written to \<open>out_ids\<close>; \<open>*out_count\<close> is their number.\<close>

definition npc_despawn_aged :: "time_t \<Rightarrow> int \<Rightarrow> int \<Rightarrow> nat \<Rightarrow> market \<Rightarrow> int list \<times> market" where
  "npc_despawn_aged now base_age_sec step_sec max_out m =
     (case expire_loop (npc_expired now base_age_sec step_sec) ns_npc_id npc_kill max_out [] (g_npc m) of
        (ids, slots) \<Rightarrow> (ids, m\<lparr>g_npc := slots\<rparr>))"

definition market_frozen_mask :: "market \<Rightarrow> tags" where
  "market_frozen_mask m = g_frozen_tags m"

definition market_expired :: "time_t \<Rightarrow> market_slot \<Rightarrow> bool" where
  "market_expired now s \<longleftrightarrow>
     ms_active s \<and> \<not> ms_is_frozen s \<and> now - ms_spawn_time s > ms_lifespan_sec s"

definition market_despawn_aged :: "time_t \<Rightarrow> nat \<Rightarrow> market \<Rightarrow> int list \<times> market" where
  "market_despawn_aged now max_out m =
     (case expire_loop (market_expired now) ms_doc_id market_kill max_out [] (g_market m) of
        (ids, slots) \<Rightarrow> (ids, m\<lparr>g_market := slots\<rparr>))"

definition market_active_tags :: "market \<Rightarrow> tags" where
  "market_active_tags m =
     foldl (\<lambda>mask s. if ms_active s then mask OR ms_tags s else mask) 0 (g_market m)"

definition market_snapshot :: "nat \<Rightarrow> market \<Rightarrow> market_slot list" where
  "market_snapshot max_size m = snapshot_loop ms_active max_size [] (g_market m)"

definition npc_snapshot :: "nat \<Rightarrow> market \<Rightarrow> npc_slot list" where
  "npc_snapshot max_size m = snapshot_loop ns_active max_size [] (g_npc m)"

text \<open>
  The comparator handed to \<open>qsort\<close>, and \<open>qsort\<close> itself as the sort by it: with a comparator that is a
  total order every sorting algorithm returns the same array (\<open>cmp_int32_asc_sign\<close> below).
\<close>

definition cmp_int32_asc :: "int \<Rightarrow> int \<Rightarrow> int" where
  "cmp_int32_asc x y = (if x > y then 1 else 0) - (if x < y then 1 else 0)"

fun qsort_insert :: "('a \<Rightarrow> 'a \<Rightarrow> int) \<Rightarrow> 'a \<Rightarrow> 'a list \<Rightarrow> 'a list" where
  "qsort_insert cmp x [] = [x]"
| "qsort_insert cmp x (y # ys) = (if cmp x y \<le> 0 then x # y # ys else y # qsort_insert cmp x ys)"

fun qsort :: "('a \<Rightarrow> 'a \<Rightarrow> int) \<Rightarrow> 'a list \<Rightarrow> 'a list" where
  "qsort cmp [] = []"
| "qsort cmp (x # xs) = qsort_insert cmp x (qsort cmp xs)"

text \<open>Sorts the first \<open>n\<close> (the code's \<open>count\<close>) entries of the array.\<close>

definition market_doc_sort_ids :: "int list \<Rightarrow> int \<Rightarrow> int list" where
  "market_doc_sort_ids ids n =
     (if n \<le> 1 then ids
      else qsort cmp_int32_asc (take (nat n) ids) @ drop (nat n) ids)"

section \<open>Both boards meet the slot-board contract\<close>

interpretation mkt: slot_board ms_active ms_doc_id market_kill
  by unfold_locales (simp add: market_kill_def)

interpretation npcs: slot_board ns_active ns_npc_id npc_kill
  by unfold_locales (simp add: npc_kill_def)

abbreviation market_ids :: "market \<Rightarrow> int list" where
  "market_ids m \<equiv> slot_ids ms_active ms_doc_id (g_market m)"

abbreviation npc_ids :: "market \<Rightarrow> int list" where
  "npc_ids m \<equiv> slot_ids ns_active ns_npc_id (g_npc m)"

lemma slot_kill_sel [simp]:
  "ms_active (market_kill s) = False" "ms_doc_id (market_kill s) = ms_doc_id s"
  "ns_active (npc_kill c) = False" "ns_npc_id (npc_kill c) = ns_npc_id c"
  by (simp_all add: market_kill_def npc_kill_def)

lemma market_new_slot_sel [simp]:
  "ms_active (market_new_slot now r fz d t p n)" "ms_doc_id (market_new_slot now r fz d t p n) = d"
  "ms_tags (market_new_slot now r fz d t p n) = t" "ms_base_price (market_new_slot now r fz d t p n) = p"
  "ms_is_frozen (market_new_slot now r fz d t p n) = (t AND fz \<noteq> 0)"
  "ms_name (market_new_slot now r fz d t p n) = take 63 n"
  "ms_spawn_time (market_new_slot now r fz d t p n) = now"
  "ms_lifespan_sec (market_new_slot now r fz d t p n) = 40 + int r mod 51"
  by (simp_all add: market_new_slot_def c_strncpy_def)

lemma npc_new_slot_sel [simp]:
  "ns_active (npc_new_slot now d t b)" "ns_npc_id (npc_new_slot now d t b) = d"
  "ns_required_tags (npc_new_slot now d t b) = t" "ns_bounty (npc_new_slot now d t b) = b"
  "ns_spawn_time (npc_new_slot now d t b) = now"
  by (simp_all add: npc_new_slot_def)

section \<open>Invariant\<close>

text \<open>
  The arrays keep their sizes; an active listing's cached \<open>is_frozen\<close> flag says whether one of its
  tags is frozen; its name fits the buffer and its lifespan the configured range.
\<close>

definition slot_ok :: "tags \<Rightarrow> market_slot \<Rightarrow> bool" where
  "slot_ok frozen s \<longleftrightarrow> (ms_active s \<longrightarrow>
     (ms_is_frozen s \<longleftrightarrow> ms_tags s AND frozen \<noteq> 0) \<and> length (ms_name s) < MAX_NAME_LEN \<and>
     MARKET_LIFE_MIN_SEC \<le> ms_lifespan_sec s \<and> ms_lifespan_sec s \<le> MARKET_LIFE_MAX_SEC)"

definition board_ok :: "market \<Rightarrow> bool" where
  "board_ok m \<longleftrightarrow> length (g_market m) = MAX_MARKET_SLOTS \<and> length (g_npc m) = MAX_NPC_SLOTS \<and>
     (\<forall>s \<in> set (g_market m). slot_ok (g_frozen_tags m) s)"

lemma set_update_first: "x \<in> set (update_first p f xs) \<Longrightarrow> x \<in> set xs \<or> (\<exists>y \<in> set xs. p y \<and> x = f y)"
  by (induction xs) (auto split: if_splits)

lemma slot_ok_new: "slot_ok fz (market_new_slot now r fz d t p n)"
proof -
  have "int r mod 51 \<le> 50" using pos_mod_bound [of 51 "int r"] by linarith
  then show ?thesis by (simp add: slot_ok_def)
qed

lemma slot_ok_kill [simp]: "slot_ok fz (market_kill s)"
  by (simp add: slot_ok_def)

lemma board_ok_init: "board_ok (market_init m)"
  by (simp add: board_ok_def market_init_def slot_ok_def zero_market_slot_def)

lemma board_ok_add: "board_ok m \<Longrightarrow> board_ok (snd (market_add now r d t p n m))"
  by (auto simp: board_ok_def market_add_def slot_ok_new dest!: set_update_first)

lemma board_ok_take: "board_ok m \<Longrightarrow> board_ok (snd (market_take d m))"
  by (auto simp: board_ok_def market_take_def split: option.split dest!: set_update_first)

lemma board_ok_npc_add: "board_ok m \<Longrightarrow> board_ok (snd (npc_add now d t b m))"
  by (simp add: board_ok_def npc_add_def)

lemma board_ok_npc_take: "board_ok m \<Longrightarrow> board_ok (snd (npc_take d m))"
  by (simp add: board_ok_def npc_take_def split: option.split)

lemma slot_ok_freeze: "slot_ok fz s \<Longrightarrow> slot_ok (fz OR t) (freeze_slot t s)"
  by (auto simp: slot_ok_def freeze_slot_def word_and_or_eq_0_iff)

lemma board_ok_freeze: "board_ok m \<Longrightarrow> board_ok (freeze_tags t m)"
  by (auto simp: board_ok_def freeze_tags_def slot_ok_freeze)

lemma word_and_and_not_0:
  fixes a b c :: tags
  assumes "a AND c = 0"
  shows "a AND (b AND NOT c) = a AND b"
  using assms by (auto simp: word_and_eq_0_iff bit_and_iff bit_not_iff intro!: bit_word_eqI)

lemma slot_ok_unfreeze: "slot_ok fz s \<Longrightarrow> slot_ok (fz AND NOT t) (unfreeze_slot t (fz AND NOT t) s)"
proof (cases "ms_tags s AND t = 0")
  case True
  then show "slot_ok fz s \<Longrightarrow> ?thesis" by (simp add: slot_ok_def unfreeze_slot_def word_and_and_not_0)
next
  case False
  have "ms_tags s AND (fz AND NOT t) \<noteq> 0 \<Longrightarrow> ms_tags s AND fz \<noteq> 0"
    by (auto simp: word_and_eq_0_iff bit_and_iff)
  with False show "slot_ok fz s \<Longrightarrow> ?thesis" by (auto simp: slot_ok_def unfreeze_slot_def)
qed

lemma board_ok_unfreeze: "board_ok m \<Longrightarrow> board_ok (unfreeze_tags t m)"
  by (auto simp: board_ok_def unfreeze_tags_def Let_def slot_ok_unfreeze)

lemma npc_despawn_aged_eq:
  "npc_despawn_aged now base step k m =
     (take k (map ns_npc_id (filter (npc_expired now base step) (g_npc m))),
      m\<lparr>g_npc := map (\<lambda>s. if npc_expired now base step s then npc_kill s else s) (g_npc m)\<rparr>)"
  by (simp add: npc_despawn_aged_def expire_loop_eq)

lemma market_despawn_aged_eq:
  "market_despawn_aged now k m =
     (take k (map ms_doc_id (filter (market_expired now) (g_market m))),
      m\<lparr>g_market := map (\<lambda>s. if market_expired now s then market_kill s else s) (g_market m)\<rparr>)"
  by (simp add: market_despawn_aged_def expire_loop_eq)

lemma board_ok_despawn:
  "board_ok m \<Longrightarrow> board_ok (snd (market_despawn_aged now k m))"
  "board_ok m \<Longrightarrow> board_ok (snd (npc_despawn_aged now base step k m))"
  by (auto simp: board_ok_def market_despawn_aged_eq npc_despawn_aged_eq)

lemmas board_ok_ops = board_ok_init board_ok_add board_ok_take board_ok_npc_add board_ok_npc_take
  board_ok_freeze board_ok_unfreeze board_ok_despawn

section \<open>Exclusive sale\<close>

lemma find_update_first_other:
  assumes "\<And>x. p x \<Longrightarrow> \<not> q x \<and> \<not> q (f x)"
  shows "find q (update_first p f xs) = find q xs"
  by (induction xs) (auto dest: assms)

text \<open>A successful \<open>market_take\<close> hands out an active, unfrozen listing with the asked identifier, and
  from then on nobody finds or takes it again, while every other listing is found as before.\<close>
theorem market_take_exclusive:
  assumes "distinct (market_ids m)" and "market_take d m = (Inr s, m')"
  shows "ms_active s \<and> ms_doc_id s = d \<and> \<not> ms_is_frozen s \<and> market_find d m' = None \<and>
    fst (market_take d m') = Inl TAKE_MISSING \<and> (\<forall>e. e \<noteq> d \<longrightarrow> market_find e m' = market_find e m)"
proof -
  from assms(2) have s: "find (\<lambda>s. ms_active s \<and> ms_doc_id s = d) (g_market m) = Some s"
    and fz: "\<not> ms_is_frozen s"
    and m': "g_market m' = update_first (\<lambda>s. ms_active s \<and> ms_doc_id s = d) market_kill (g_market m)"
    by (auto simp: market_take_def split: option.splits if_splits)
  have gone: "find (\<lambda>s. ms_active s \<and> ms_doc_id s = d) (g_market m') = None"
    using mkt.kill_absent [OF assms(1), of d] by (simp add: m' flip: slot_map_find slot_map_None_iff)
  have "market_find e m' = market_find e m" if "e \<noteq> d" for e
    using that by (auto simp: market_find_def m' intro!: find_update_first_other)
  with s fz gone show ?thesis by (auto simp: market_find_def market_take_def dest: find_set)
qed

definition sample_market :: market where
  "sample_market = \<lparr>g_market = [market_new_slot 0 7 0 124 18 800 ''report'', market_new_slot 0 9 0 111 96 800 ''drone'',
     zero_market_slot], g_npc = [npc_new_slot 0 102 18 1200, zero_npc_slot], g_frozen_tags = 0\<rparr>"

theorem market_take_exclusive_witness:
  "market_take 124 sample_market = (Inr (market_new_slot 0 7 0 124 18 800 ''report''), snd (market_take 124 sample_market)) \<and>
   market_find 124 (snd (market_take 124 sample_market)) = None"
proof -
  have t: "market_take 124 sample_market = (Inr (market_new_slot 0 7 0 124 18 800 ''report''), snd (market_take 124 sample_market))"
    by (simp add: market_take_def sample_market_def)
  have "distinct (market_ids sample_market)" by (simp add: sample_market_def zero_market_slot_def)
  from market_take_exclusive [OF this t] t show ?thesis by blast
qed

text \<open>A successful \<open>npc_take\<close> hands the order to one seller only: it is gone for every later
  \<open>npc_find\<close> and \<open>npc_take\<close>, and the other orders stay.\<close>
theorem npc_take_exclusive:
  assumes "distinct (npc_ids m)" and "npc_take d m = (Some s, m')"
  shows "ns_active s \<and> ns_npc_id s = d \<and> npc_find d m' = None \<and> fst (npc_take d m') = None \<and>
    (\<forall>e. e \<noteq> d \<longrightarrow> npc_find e m' = npc_find e m)"
proof -
  from assms(2) have s: "find (\<lambda>s. ns_active s \<and> ns_npc_id s = d) (g_npc m) = Some s"
    and m': "g_npc m' = update_first (\<lambda>s. ns_active s \<and> ns_npc_id s = d) npc_kill (g_npc m)"
    by (auto simp: npc_take_def split: option.splits)
  have gone: "find (\<lambda>s. ns_active s \<and> ns_npc_id s = d) (g_npc m') = None"
    using npcs.kill_absent [OF assms(1), of d] by (simp add: m' flip: slot_map_find slot_map_None_iff)
  have "npc_find e m' = npc_find e m" if "e \<noteq> d" for e
    using that by (auto simp: npc_find_def m' intro!: find_update_first_other)
  with s gone show ?thesis by (auto simp: npc_find_def npc_take_def dest: find_set)
qed

theorem npc_take_exclusive_witness:
  "npc_take 102 sample_market = (Some (npc_new_slot 0 102 18 1200), snd (npc_take 102 sample_market)) \<and>
   fst (npc_take 102 (snd (npc_take 102 sample_market))) = None"
proof -
  have t: "npc_take 102 sample_market = (Some (npc_new_slot 0 102 18 1200), snd (npc_take 102 sample_market))"
    by (simp add: npc_take_def sample_market_def)
  have "distinct (npc_ids sample_market)" by (simp add: sample_market_def zero_npc_slot_def)
  from npc_take_exclusive [OF this t] t show ?thesis by blast
qed

section \<open>Lifetimes of orders\<close>

lemma popcount_u32_card: "popcount_u32 v = int (card (bit_set v))"
  by (simp add: popcount_u32_def shift_count_card)

text \<open>\<open>npc_despawn_aged\<close> removes exactly the orders older than
  \<open>max 60 (base - step * (number of required tags - 1))\<close> seconds and reports each of them, and no
  other order changes.\<close>
theorem npc_despawn_aged_exact:
  assumes "length (g_npc m) \<le> k"
  shows "npc_despawn_aged now base step k m =
    (let old = \<lambda>s. ns_active s \<and> now - ns_spawn_time s >
                 max 60 (base - step * (int (card (bit_set (ns_required_tags s))) - 1))
     in (map ns_npc_id (filter old (g_npc m)),
         m\<lparr>g_npc := map (\<lambda>s. if old s then npc_kill s else s) (g_npc m)\<rparr>))"
proof -
  have "npc_max_age base step s = max 60 (base - step * (int (card (bit_set (ns_required_tags s))) - 1))" for s
    by (simp add: npc_max_age_def Let_def popcount_u32_card max_def algebra_simps)
  then have "npc_expired now base step = (\<lambda>s. ns_active s \<and> now - ns_spawn_time s >
      max 60 (base - step * (int (card (bit_set (ns_required_tags s))) - 1)))"
    by (simp add: npc_expired_def fun_eq_iff)
  moreover have "length (filter p (g_npc m)) \<le> k" for p
    using assms length_filter_le [of p "g_npc m"] by linarith
  ultimately show ?thesis by (simp add: npc_despawn_aged_eq Let_def)
qed

theorem npc_despawn_aged_exact_witness:
  "length (g_npc sample_market) \<le> 16 \<and>
   fst (npc_despawn_aged 111 140 30 16 sample_market) =
     map ns_npc_id (filter (\<lambda>s. ns_active s \<and> 111 - ns_spawn_time s >
       max 60 (140 - 30 * (int (card (bit_set (ns_required_tags s))) - 1))) (g_npc sample_market))"
proof -
  have "length (g_npc sample_market) \<le> 16" by (simp add: sample_market_def)
  then show ?thesis using npc_despawn_aged_exact [of sample_market 16 111 140 30] by (simp add: Let_def)
qed

section \<open>Sorting the submitted documents\<close>

lemma cmp_int32_asc_sign: "cmp_int32_asc x y \<le> 0 \<longleftrightarrow> x \<le> y" "cmp_int32_asc x y = 0 \<longleftrightarrow> x = y"
  by (auto simp: cmp_int32_asc_def)

lemma mset_qsort_insert: "mset (qsort_insert cmp x xs) = add_mset x (mset xs)"
  by (induction xs) auto

lemma qsort_sort: "qsort cmp_int32_asc xs = sort xs"
proof -
  have "qsort_insert cmp_int32_asc x ys = insort x ys" for x ys
    by (induction ys) (auto simp: cmp_int32_asc_sign)
  then show ?thesis by (induction xs) (auto simp: sort_key_def)
qed

text \<open>\<open>market_doc_sort_ids\<close> leaves the first \<open>n\<close> entries ascending and a permutation of what they
  were, and does not touch the rest of the array.\<close>
theorem market_doc_sort_ids_sorts:
  "sorted (take (nat n) (market_doc_sort_ids ids n)) \<and>
   mset (take (nat n) (market_doc_sort_ids ids n)) = mset (take (nat n) ids) \<and>
   drop (nat n) (market_doc_sort_ids ids n) = drop (nat n) ids"
proof (cases "n \<le> 1")
  case True
  then have "nat n = 0 \<or> nat n = 1" by linarith
  then have "sorted (take (nat n) ids)" by (auto simp: take_Suc sorted01)
  with True show ?thesis by (simp add: market_doc_sort_ids_def)
next
  case False
  then show ?thesis
    by (cases "nat n \<le> length ids") (simp_all add: market_doc_sort_ids_def qsort_sort)
qed

end
