(* ===== verification/Bytes.thy ===== *)
theory Bytes
  imports CString
begin

text \<open>
  The byte images of the C structs: little-endian 32-bit fields, zero-filled character arrays, and
  reads and writes at an offset of a buffer or a file. The user records, the document files and the
  packets are all built from these.
\<close>

section \<open>32-bit fields\<close>

definition le32 :: "32 word \<Rightarrow> string" where
  "le32 w = (let n = unat w in
     [char_of (n mod 256), char_of (n div 256 mod 256), char_of (n div 65536 mod 256),
      char_of (n div 16777216 mod 256)])"

fun of_le32 :: "string \<Rightarrow> 32 word" where
  "of_le32 [a, b, c, d] =
     word_of_nat (of_char a + 256 * of_char b + 65536 * of_char c + 16777216 * of_char d)"
| "of_le32 _ = 0"

lemma length_le32 [simp]: "length (le32 w) = 4"
  by (simp add: le32_def Let_def)

lemma base256:
  fixes n :: nat
  assumes "n < 4294967296"
  shows "n mod 256 + 256 * (n div 256 mod 256) + 65536 * (n div 65536 mod 256)
    + 16777216 * (n div 16777216 mod 256) = n"
proof -
  define q1 where "q1 = n div 256"
  define q2 where "q2 = q1 div 256"
  define q3 where "q3 = q2 div 256"
  have d2: "n div 65536 = q2" unfolding q2_def q1_def by (simp add: div_mult2_eq [of n 256 256, simplified])
  have d3: "n div 16777216 = q3"
    unfolding q3_def d2 [symmetric] by (simp add: div_mult2_eq [of n 65536 256, simplified])
  have "q3 < 256" using assms by (simp add: d3 [symmetric] less_mult_imp_div_less)
  then have q3: "q3 mod 256 = q3" by simp
  have "256 * q1 + n mod 256 = n" unfolding q1_def by (rule mult_div_mod_eq)
  moreover have "256 * q2 + q1 mod 256 = q1" unfolding q2_def by (rule mult_div_mod_eq)
  moreover have "256 * q3 + q2 mod 256 = q2" unfolding q3_def by (rule mult_div_mod_eq)
  ultimately show ?thesis unfolding d2 d3 q3 q1_def [symmetric] by simp
qed

lemma digits256:
  fixes a b c d :: nat
  assumes "a < 256" "b < 256" "c < 256" "d < 256" and n: "n = a + 256 * b + 65536 * c + 16777216 * d"
  shows "n mod 256 = a" "n div 256 mod 256 = b" "n div 65536 mod 256 = c" "n div 16777216 mod 256 = d"
proof -
  have step: "(x + 256 * y) mod 256 = x" "(x + 256 * y) div 256 = y" if "x < 256" for x y :: nat
    using that by simp_all
  have eq: "n = a + 256 * (b + 256 * (c + 256 * d))" by (simp add: n)
  have "n div 256 = b + 256 * (c + 256 * d)" unfolding eq by (rule step) (rule assms)
  moreover from this have "n div 65536 = c + 256 * d"
    using step(2) [OF assms(2)] by (simp add: div_mult2_eq [of n 256 256, simplified])
  moreover from this have "n div 16777216 = d"
    using step(2) [OF assms(3)] by (simp add: div_mult2_eq [of n 65536 256, simplified])
  moreover have "n mod 256 = a" unfolding eq by (rule step) (rule assms)
  ultimately show "n mod 256 = a" "n div 256 mod 256 = b" "n div 65536 mod 256 = c" "n div 16777216 mod 256 = d"
    using step(1) [OF assms(2), of "c + 256 * d"] step(1) [OF assms(3), of d] assms(4)
    by (simp_all only: mod_less)
qed

lemma unat_word_of_nat32: "n < 4294967296 \<Longrightarrow> unat (word_of_nat n :: 32 word) = n"
  by (simp add: unsigned_of_nat take_bit_nat_eq_self)

lemma of_le32_le32 [simp]: "of_le32 (le32 w) = w"
proof -
  have "unat w < 4294967296" using unsigned_less [of w, where 'a = nat] by simp
  note eq = base256 [OF this]
  have "of_le32 (le32 w) = word_of_nat (unat w)"
    unfolding le32_def Let_def of_le32.simps of_char_of
    by (simp only: mod_mod_trivial take_bit_eq_mod of_char_of eq)
  then show ?thesis by simp
qed

lemma le32_of_le32: "length bs = 4 \<Longrightarrow> le32 (of_le32 bs) = bs"
proof -
  assume "length bs = 4"
  then obtain a b c d where bs: "bs = [a, b, c, d]"
    by (auto simp: length_Suc_conv eval_nat_numeral)
  let ?a = "of_char a :: nat" and ?b = "of_char b :: nat" and ?c = "of_char c :: nat" and ?d = "of_char d :: nat"
  let ?n = "?a + 256 * ?b + 65536 * ?c + 16777216 * ?d"
  have lt: "?a < 256" "?b < 256" "?c < 256" "?d < 256" by simp_all
  then have "?n < 4294967296" by linarith
  then have n: "unat (of_le32 bs) = ?n" unfolding bs of_le32.simps by (rule unat_word_of_nat32)
  show "le32 (of_le32 bs) = bs"
    unfolding le32_def Let_def n digits256 [OF lt refl] by (simp add: bs)
qed

text \<open>\<open>int32_t\<close> fields.\<close>

definition i32 :: "int \<Rightarrow> string" where
  "i32 i = le32 (word_of_int i)"

definition of_i32 :: "string \<Rightarrow> int" where
  "of_i32 bs = sint (of_le32 bs)"

lemma length_i32 [simp]: "length (i32 i) = 4"
  by (simp add: i32_def)

lemma sint_word_of_int32: "int32_range i \<Longrightarrow> sint (word_of_int i :: 32 word) = i"
  by (simp add: int32_range_def signed_of_int signed_take_bit_int_eq_self)

lemma of_i32_i32 [simp]: "int32_range i \<Longrightarrow> of_i32 (i32 i) = i"
  by (simp add: i32_def of_i32_def sint_word_of_int32)

lemma i32_of_i32: "length bs = 4 \<Longrightarrow> i32 (of_i32 bs) = bs"
  by (simp add: i32_def of_i32_def le32_of_le32)

lemma int32_range_of_i32: "int32_range (of_i32 bs)"
  using sint_range_size [of "of_le32 bs"] by (simp add: of_i32_def int32_range_def word_size)

lemma int32_range_numerals [simp]: "int32_range 0" "int32_range 1" "int32_range (-1)"
  by (simp_all add: int32_range_def)

section \<open>Character arrays\<close>

text \<open>\<open>cbuf n s\<close>: a zeroed \<open>char[n]\<close> after the string \<open>s\<close> was copied in. \<open>cstr\<close>: the string an array holds.\<close>

definition cbuf :: "nat \<Rightarrow> string \<Rightarrow> string" where
  "cbuf n s = take n (s @ replicate n NUL)"

definition cstr :: "string \<Rightarrow> string" where
  "cstr bs = takeWhile (\<lambda>c. c \<noteq> NUL) bs"

definition no_nul :: "string \<Rightarrow> bool" where
  "no_nul s \<longleftrightarrow> NUL \<notin> set s"

lemma length_cbuf [simp]: "length (cbuf n s) = n"
  by (simp add: cbuf_def)

lemma cstr_cbuf: "no_nul s \<Longrightarrow> length s \<le> n \<Longrightarrow> cstr (cbuf n s) = s"
proof -
  assume s: "no_nul s" "length s \<le> n"
  then have "takeWhile (\<lambda>c. c \<noteq> NUL) s = s" by (auto simp: no_nul_def takeWhile_eq_all_conv)
  with s show ?thesis
    by (cases "n - length s") (auto simp: cstr_def cbuf_def no_nul_def takeWhile_append)
qed

lemma no_nul_cstr [simp]: "no_nul (cstr bs)"
  by (auto simp: no_nul_def cstr_def dest: set_takeWhileD)

lemma length_cstr_le: "length (cstr bs) \<le> length bs"
  by (simp add: cstr_def length_takeWhile_le)

lemma no_nul_take [simp]: "no_nul s \<Longrightarrow> no_nul (take n s)"
  by (auto simp: no_nul_def dest: in_set_takeD)

lemma no_nul_append [simp]: "no_nul (s @ t) \<longleftrightarrow> no_nul s \<and> no_nul t"
  by (auto simp: no_nul_def)

section \<open>Reads and writes at an offset\<close>

definition bytes_at :: "nat \<Rightarrow> nat \<Rightarrow> string \<Rightarrow> string" where
  "bytes_at off n b = take n (drop off b)"

text \<open>Writing past the end fills the gap with zeros, as a file does.\<close>

definition write_at :: "nat \<Rightarrow> string \<Rightarrow> string \<Rightarrow> string" where
  "write_at off bs b = (if bs = [] then b
     else take off b @ replicate (off - length b) NUL @ bs @ drop (off + length bs) b)"

lemma write_at_append: "off = length xs \<Longrightarrow> length bs = length ys \<Longrightarrow> write_at off bs (xs @ ys @ zs) = xs @ bs @ zs"
  by (auto simp: write_at_def)

lemma length_write_at_le: "off + n \<le> length b \<Longrightarrow> length bs \<le> n \<Longrightarrow> length (write_at off bs b) = length b"
  by (simp add: write_at_def)

lemma write_at_end: "write_at (length b) bs b = b @ bs"
  by (simp add: write_at_def)

lemma bytes_at_append: "off = length xs \<Longrightarrow> n = length ys \<Longrightarrow> bytes_at off n (xs @ ys @ zs) = ys"
  by (simp add: bytes_at_def)

lemma bytes_at_prefix: "n = length ys \<Longrightarrow> bytes_at 0 n (ys @ zs) = ys"
  by (simp add: bytes_at_def)

end
