(* ===== verification/FileSys.thy ===== *)
theory FileSys
  imports Common Bytes "HOL-Library.AList"
begin

text \<open>
  The part of a POSIX file system the server uses: directories, regular files with their bytes and
  permission bits, path resolution with the components \<open>.\<close> and \<open>..\<close>, and \<open>stat\<close>, \<open>mkdir\<close>, \<open>unlink\<close>,
  \<open>rename\<close>, \<open>chmod\<close>, \<open>readdir\<close> and whole-file reads and writes. There are no symbolic links, and the
  server is not run as root. Lists give the order in which \<open>readdir\<close> reports entries, which the
  theorems leave arbitrary.
\<close>

section \<open>State and path resolution\<close>

type_synonym path = "string list"

record file_node =
  f_bytes :: string
  f_mode :: nat

record fs =
  fs_cwd :: path
  fs_dirs :: "path list"
  fs_files :: "(path \<times> file_node) list"

definition is_dir :: "fs \<Rightarrow> path \<Rightarrow> bool" where
  "is_dir fs p \<longleftrightarrow> p \<in> set (fs_dirs fs)"

definition get_file :: "fs \<Rightarrow> path \<Rightarrow> file_node option" where
  "get_file fs p = map_of (fs_files fs) p"

fun split_path :: "string \<Rightarrow> string list" where
  "split_path [] = [[]]"
| "split_path (c # cs) =
     (if c = CHR ''/'' then [] # split_path cs
      else (case split_path cs of [] \<Rightarrow> [[c]] | w # ws \<Rightarrow> (c # w) # ws))"

text \<open>Each component is looked up in a directory; an empty component is a repeated slash.\<close>

fun walk :: "fs \<Rightarrow> path \<Rightarrow> string list \<Rightarrow> path option" where
  "walk fs cur [] = Some cur"
| "walk fs cur (c # cs) =
     (if c = [] then walk fs cur cs
      else if \<not> is_dir fs cur then None
      else if c = ''.'' then walk fs cur cs
      else if c = ''..'' then walk fs (butlast cur) cs
      else walk fs (cur @ [c]) cs)"

definition resolve :: "fs \<Rightarrow> string \<Rightarrow> path option" where
  "resolve fs s = walk fs (if take 1 s = ''/'' then [] else fs_cwd fs) (split_path s)"

section \<open>System calls\<close>

datatype mkdir_result = MKDIR_OK | MKDIR_EEXIST | MKDIR_ERROR

definition sys_exists :: "fs \<Rightarrow> path \<Rightarrow> bool" where
  "sys_exists fs p \<longleftrightarrow> is_dir fs p \<or> get_file fs p \<noteq> None"

definition sys_stat :: "string \<Rightarrow> fs \<Rightarrow> bool" where
  "sys_stat s fs = (case resolve fs s of None \<Rightarrow> False | Some p \<Rightarrow> sys_exists fs p)"

definition sys_stat_dir :: "string \<Rightarrow> fs \<Rightarrow> bool" where
  "sys_stat_dir s fs = (case resolve fs s of None \<Rightarrow> False | Some p \<Rightarrow> is_dir fs p)"

definition sys_mkdir :: "string \<Rightarrow> fs \<Rightarrow> mkdir_result \<times> fs" where
  "sys_mkdir s fs =
     (case resolve fs s of
        None \<Rightarrow> (MKDIR_ERROR, fs)
      | Some p \<Rightarrow> if sys_exists fs p then (MKDIR_EEXIST, fs)
                  else (MKDIR_OK, fs\<lparr>fs_dirs := fs_dirs fs @ [p]\<rparr>))"

text \<open>The names \<open>readdir\<close> reports.\<close>

definition dir_names :: "fs \<Rightarrow> path \<Rightarrow> string list" where
  "dir_names fs d = map last (filter (\<lambda>p. p \<noteq> [] \<and> butlast p = d) (fs_dirs fs @ map fst (fs_files fs)))"

definition sys_readdir :: "string \<Rightarrow> fs \<Rightarrow> string list option" where
  "sys_readdir s fs =
     (case resolve fs s of
        None \<Rightarrow> None
      | Some p \<Rightarrow> if is_dir fs p then Some (''.'' # ''..'' # dir_names fs p) else None)"

definition sys_unlink :: "string \<Rightarrow> fs \<Rightarrow> bool \<times> fs" where
  "sys_unlink s fs =
     (case resolve fs s of
        None \<Rightarrow> (False, fs)
      | Some p \<Rightarrow>
          if is_dir fs p \<or> get_file fs p = None then (False, fs)
          else (True, fs\<lparr>fs_files := AList.delete p (fs_files fs)\<rparr>))"

text \<open>
  A file replaces a file; a directory moves with everything under it, onto nothing or an empty
  directory, and not into itself.
\<close>

definition under :: "path \<Rightarrow> path \<Rightarrow> bool" where
  "under d p \<longleftrightarrow> take (length d) p = d"

definition rebase :: "path \<Rightarrow> path \<Rightarrow> path \<Rightarrow> path" where
  "rebase d d' p = (if under d p then d' @ drop (length d) p else p)"

definition sys_rename :: "string \<Rightarrow> string \<Rightarrow> fs \<Rightarrow> bool \<times> fs" where
  "sys_rename from to fs =
     (case (resolve fs from, resolve fs to) of
        (Some p, Some q) \<Rightarrow>
          (case get_file fs p of
             Some f \<Rightarrow>
               if is_dir fs q \<or> \<not> is_dir fs (butlast q) then (False, fs)
               else if p = q then (True, fs)
               else (True, fs\<lparr>fs_files := AList.update q f (AList.delete p (fs_files fs))\<rparr>)
           | None \<Rightarrow>
               if \<not> is_dir fs p \<or> get_file fs q \<noteq> None \<or> \<not> is_dir fs (butlast q) then (False, fs)
               else if p = q then (True, fs)
               else if under p q \<or> (is_dir fs q \<and> dir_names fs q \<noteq> []) then (False, fs)
               else (True, fs\<lparr>fs_dirs := map (rebase p q) (filter (\<lambda>d. d \<noteq> q) (fs_dirs fs)),
                              fs_files := map (\<lambda>(n, f). (rebase p q n, f)) (fs_files fs)\<rparr>))
      | _ \<Rightarrow> (False, fs))"

definition sys_chmod :: "string \<Rightarrow> nat \<Rightarrow> fs \<Rightarrow> fs" where
  "sys_chmod s mode fs =
     (case resolve fs s of
        None \<Rightarrow> fs
      | Some p \<Rightarrow>
          (case get_file fs p of
             None \<Rightarrow> fs
           | Some f \<Rightarrow> fs\<lparr>fs_files := AList.update p (f\<lparr>f_mode := mode\<rparr>) (fs_files fs)\<rparr>))"

abbreviation S_IRUSR :: nat where "S_IRUSR \<equiv> 256"
abbreviation S_IWUSR :: nat where "S_IWUSR \<equiv> 128"

definition mode_has :: "nat \<Rightarrow> nat \<Rightarrow> bool" where
  "mode_has b m \<longleftrightarrow> odd (m div b)"

text \<open>\<open>open(O_RDONLY)\<close>, then a \<open>read\<close> of \<open>n\<close> bytes from the start: the bytes it returned.\<close>

definition sys_read_file :: "string \<Rightarrow> nat \<Rightarrow> fs \<Rightarrow> string option" where
  "sys_read_file s n fs =
     (case resolve fs s of
        None \<Rightarrow> None
      | Some p \<Rightarrow>
          (case get_file fs p of
             None \<Rightarrow> None
           | Some f \<Rightarrow> if mode_has S_IRUSR (f_mode f) then Some (take n (f_bytes f)) else None))"

text \<open>\<open>open(O_WRONLY | O_CREAT | O_TRUNC, mode)\<close>, then one \<open>write\<close>, of which \<open>w\<close> bytes are accepted.\<close>

definition sys_write_file :: "nat \<Rightarrow> string \<Rightarrow> nat \<Rightarrow> string \<Rightarrow> fs \<Rightarrow> nat option \<times> fs" where
  "sys_write_file w s mode bs fs =
     (case resolve fs s of
        None \<Rightarrow> (None, fs)
      | Some p \<Rightarrow>
          if is_dir fs p \<or> \<not> is_dir fs (butlast p) then (None, fs)
          else
            (case get_file fs p of
               Some f \<Rightarrow>
                 if \<not> mode_has S_IWUSR (f_mode f) then (None, fs)
                 else (Some (min w (length bs)),
                       fs\<lparr>fs_files := AList.update p (f\<lparr>f_bytes := take w bs\<rparr>) (fs_files fs)\<rparr>)
             | None \<Rightarrow> (Some (min w (length bs)),
                 fs\<lparr>fs_files := AList.update p \<lparr>f_bytes = take w bs, f_mode = mode\<rparr> (fs_files fs)\<rparr>)))"


section \<open>Laws\<close>

lemma split_path_nonempty [simp]: "split_path s \<noteq> []"
  by (induction s) (auto split: list.split)

lemma split_path_slash: "split_path (s @ CHR ''/'' # t) = split_path s @ split_path t"
proof (induction s)
  case (Cons c s)
  then show ?case by (cases "split_path s") auto
qed simp

lemma split_path_plain: "CHR ''/'' \<notin> set s \<Longrightarrow> split_path s = [s]"
  by (induction s) auto

lemma get_file_update:
  "get_file (fs\<lparr>fs_files := AList.update p f (fs_files fs)\<rparr>) q = (if q = p then Some f else get_file fs q)"
  by (simp add: get_file_def update_conv')

lemma get_file_update_any:
  "get_file (fs\<lparr>fs_files := AList.update p f xs\<rparr>) q = (if q = p then Some f else map_of xs q)"
  by (simp add: get_file_def update_conv')

lemma get_file_delete:
  "get_file (fs\<lparr>fs_files := AList.delete p (fs_files fs)\<rparr>) q = (if q = p then None else get_file fs q)"
  by (simp add: get_file_def delete_conv')

lemma is_dir_files [simp]: "is_dir (fs\<lparr>fs_files := x\<rparr>) p = is_dir fs p"
  by (simp add: is_dir_def)

lemma get_file_dirs [simp]: "get_file (fs\<lparr>fs_dirs := x\<rparr>) p = get_file fs p"
  by (simp add: get_file_def)

lemma get_file_None: "get_file fs p = None \<longleftrightarrow> p \<notin> fst ` set (fs_files fs)"
  by (simp add: get_file_def map_of_eq_None_iff)

text \<open>Resolution depends on the directories only.\<close>

lemma walk_cong: "fs_dirs fs = fs_dirs fs' \<Longrightarrow> walk fs cur cs = walk fs' cur cs"
  by (induction cs arbitrary: cur) (simp_all add: is_dir_def)

lemma resolve_cong: "fs_dirs fs = fs_dirs fs' \<Longrightarrow> fs_cwd fs = fs_cwd fs' \<Longrightarrow> resolve fs s = resolve fs' s"
  using walk_cong [of fs fs'] by (simp add: resolve_def)

lemma resolve_files [simp]: "resolve (fs\<lparr>fs_files := x\<rparr>) s = resolve fs s"
  by (rule resolve_cong) simp_all

lemma under_append [simp]: "under d (d @ e)"
  by (simp add: under_def)

text \<open>No call changes the working directory; only \<open>mkdir\<close> and a directory \<open>rename\<close> change directories.\<close>

lemma sys_frame [simp]:
  "fs_cwd (snd (sys_unlink s fs)) = fs_cwd fs" "fs_dirs (snd (sys_unlink s fs)) = fs_dirs fs"
  "fs_cwd (sys_chmod s m fs) = fs_cwd fs" "fs_dirs (sys_chmod s m fs) = fs_dirs fs"
  "fs_cwd (snd (sys_write_file w s m bs fs)) = fs_cwd fs" "fs_dirs (snd (sys_write_file w s m bs fs)) = fs_dirs fs"
  "fs_cwd (snd (sys_mkdir s fs)) = fs_cwd fs" "fs_files (snd (sys_mkdir s fs)) = fs_files fs"
  by (simp_all add: sys_unlink_def sys_chmod_def sys_write_file_def sys_mkdir_def split: option.split)

end
