(* ===== verification/UserDB.thy ===== *)
theory UserDB
  imports FileSys
begin

text \<open>
  \<open>userdb/userdb.c\<close>: the account file \<open>users.dat\<close>, an array of 68-byte records addressed by their
  byte offset. The file is its bytes, \<open>None\<close> when it cannot be opened. A \<open>write\<close> may accept fewer
  bytes than asked: \<open>w\<close> is the number it accepts. Every function holds the file's mutex for its
  whole body, so each is one step.
\<close>

section \<open>Records\<close>

record user_record =
  ur_key :: string  \<comment> \<open>the 32 bytes of \<open>key\<close>\<close>
  ur_money :: int
  ur_inventory_count :: int
  ur_inventory_doc_ids :: "int list"

abbreviation REC_SIZE :: nat where
  "REC_SIZE \<equiv> 68"

definition rec_ok :: "user_record \<Rightarrow> bool" where
  "rec_ok r \<longleftrightarrow> length (ur_key r) = MAX_KEY_LEN \<and> int32_range (ur_money r) \<and>
     int32_range (ur_inventory_count r) \<and> length (ur_inventory_doc_ids r) = MAX_INVEN_SIZE \<and>
     (\<forall>i \<in> set (ur_inventory_doc_ids r). int32_range i)"

definition rec_enc :: "user_record \<Rightarrow> string" where
  "rec_enc r = ur_key r @ i32 (ur_money r) @ i32 (ur_inventory_count r) @
     concat (map i32 (ur_inventory_doc_ids r))"

fun i32s :: "nat \<Rightarrow> string \<Rightarrow> int list" where
  "i32s 0 bs = []"
| "i32s (Suc n) bs = of_i32 (take 4 bs) # i32s n (drop 4 bs)"

definition rec_dec :: "string \<Rightarrow> user_record" where
  "rec_dec bs = \<lparr>ur_key = bytes_at 0 32 bs, ur_money = of_i32 (bytes_at 32 4 bs),
     ur_inventory_count = of_i32 (bytes_at 36 4 bs), ur_inventory_doc_ids = i32s 7 (drop 40 bs)\<rparr>"

section \<open>Operations\<close>

type_synonym users_dat = "string option"


definition userdb_init :: "mkdir_result \<Rightarrow> bool \<Rightarrow> users_dat \<Rightarrow> bool \<times> users_dat" where
  "userdb_init mk can_open db =
     (if mk = MKDIR_ERROR then (False, db)
      else if \<not> can_open then (False, db)
      else (True, Some (case db of None \<Rightarrow> [] | Some b \<Rightarrow> b)))"

function find_loop :: "key \<Rightarrow> string \<Rightarrow> nat \<Rightarrow> (user_record \<times> nat) option" where
  "find_loop key b offset =
     (if offset + REC_SIZE \<le> length b then
        let rec = rec_dec (bytes_at offset REC_SIZE b) in
        if c_strncmp_eq MAX_KEY_LEN key (cstr (ur_key rec)) then Some (rec, offset)
        else find_loop key b (offset + REC_SIZE)
      else None)"
  by pat_completeness auto
termination by (relation "measure (\<lambda>(key, b, offset). length b - offset)") auto

declare find_loop.simps [simp del]

definition userdb_find :: "key \<Rightarrow> users_dat \<Rightarrow> (user_record \<times> nat) option" where
  "userdb_find key db = (case db of None \<Rightarrow> None | Some b \<Rightarrow> find_loop key b 0)"

text \<open>The offset of the new record, or \<open>None\<close>.\<close>

definition userdb_append :: "nat \<Rightarrow> user_record \<Rightarrow> users_dat \<Rightarrow> nat option \<times> users_dat" where
  "userdb_append w rec db =
     (case db of
        None \<Rightarrow> (None, None)
      | Some b \<Rightarrow>
          let end_pos = length b; b' = write_at end_pos (take w (rec_enc rec)) b in
          if w < REC_SIZE then (None, Some b') else (Some end_pos, Some b'))"

definition userdb_update_at :: "nat \<Rightarrow> nat \<Rightarrow> user_record \<Rightarrow> users_dat \<Rightarrow> bool \<times> users_dat" where
  "userdb_update_at w offset rec db =
     (case db of
        None \<Rightarrow> (False, None)
      | Some b \<Rightarrow> (\<not> w < REC_SIZE, Some (write_at offset (take w (rec_enc rec)) b)))"

definition burn_record :: "user_record \<Rightarrow> user_record" where
  "burn_record rec = rec\<lparr>ur_money := -1, ur_inventory_count := 0,
     ur_inventory_doc_ids := replicate MAX_INVEN_SIZE 0\<rparr>"

definition userdb_burn_at :: "nat \<Rightarrow> nat \<Rightarrow> users_dat \<Rightarrow> bool \<times> users_dat" where
  "userdb_burn_at w offset db =
     (case db of
        None \<Rightarrow> (False, None)
      | Some b \<Rightarrow>
          if \<not> offset + REC_SIZE \<le> length b then (False, Some b)
          else
            let rec = burn_record (rec_dec (bytes_at offset REC_SIZE b)) in
            (\<not> w < REC_SIZE, Some (write_at offset (take w (rec_enc rec)) b)))"

definition userdb_is_burned :: "user_record \<Rightarrow> bool" where
  "userdb_is_burned rec \<longleftrightarrow> ur_money rec = -1"

definition reset_record :: "int \<Rightarrow> user_record \<Rightarrow> user_record" where
  "reset_record initial_money rec = rec\<lparr>ur_money := initial_money, ur_inventory_count := 0,
     ur_inventory_doc_ids := replicate MAX_INVEN_SIZE 0\<rparr>"

text \<open>\<open>w off\<close> is what the \<open>pwrite\<close> at \<open>off\<close> accepts.\<close>

function reset_loop :: "(nat \<Rightarrow> nat) \<Rightarrow> int \<Rightarrow> nat \<Rightarrow> string \<Rightarrow> bool \<times> string" where
  "reset_loop w initial_money offset b =
     (if offset + REC_SIZE \<le> length b then
        let rec = rec_dec (bytes_at offset REC_SIZE b) in
        if ur_money rec \<noteq> -1 then
          let b' = write_at offset (take (min (w offset) REC_SIZE) (rec_enc (reset_record initial_money rec))) b in
          if w offset < REC_SIZE then (False, b') else reset_loop w initial_money (offset + REC_SIZE) b'
        else reset_loop w initial_money (offset + REC_SIZE) b
      else (True, b))"
  by pat_completeness auto
termination
  by (relation "measure (\<lambda>(w, m, offset, b). length b - offset)") (auto simp: length_write_at_le [where n = 68])

declare reset_loop.simps [simp del]

definition userdb_reset_round :: "(nat \<Rightarrow> nat) \<Rightarrow> int \<Rightarrow> users_dat \<Rightarrow> bool \<times> users_dat" where
  "userdb_reset_round w initial_money db =
     (case db of
        None \<Rightarrow> (False, None)
      | Some b \<Rightarrow> (case reset_loop w initial_money 0 b of (ok, b') \<Rightarrow> (ok, Some b')))"


section \<open>Encoding\<close>

lemma length_i32s [simp]: "length (i32s n bs) = n"
  by (induction n arbitrary: bs) auto

lemma i32s_range: "i \<in> set (i32s n bs) \<Longrightarrow> int32_range i"
  by (induction n arbitrary: bs) (auto simp: int32_range_of_i32)

lemma i32s_concat: "\<forall>i \<in> set is. int32_range i \<Longrightarrow> i32s (length is) (concat (map i32 is) @ rest) = is"
  by (induction "is") auto

lemma concat_i32s: "length bs = 4 * n \<Longrightarrow> concat (map i32 (i32s n bs)) = bs"
proof (induction n arbitrary: bs)
  case (Suc n)
  then have "i32 (of_i32 (take 4 bs)) = take 4 bs" by (intro i32_of_i32) simp
  with Suc show ?case by simp
qed simp

lemma length_concat_i32 [simp]: "length (concat (map i32 is)) = 4 * length is"
  by (induction "is") auto

lemma length_rec_enc: "rec_ok r \<Longrightarrow> length (rec_enc r) = REC_SIZE"
  by (simp add: rec_ok_def rec_enc_def)

lemma rec_ok_dec: "length bs = REC_SIZE \<Longrightarrow> rec_ok (rec_dec bs)"
  by (auto simp: rec_ok_def rec_dec_def bytes_at_def int32_range_of_i32 i32s_range)

lemma rec_dec_enc: "rec_ok r \<Longrightarrow> rec_dec (rec_enc r) = r"
  using i32s_concat [of "ur_inventory_doc_ids r" "[]"]
  by (simp add: rec_ok_def rec_dec_def rec_enc_def bytes_at_def)

lemma bytes_at_split: "bytes_at off n b @ drop (off + n) b = drop off b"
  by (simp add: bytes_at_def) (metis append_take_drop_id drop_drop add.commute)

lemma rec_enc_dec:
  assumes "length bs = REC_SIZE"
  shows "rec_enc (rec_dec bs) = bs"
proof -
  have "rec_enc (rec_dec bs) = bytes_at 0 32 bs @ bytes_at 32 4 bs @ bytes_at 36 4 bs @ drop 40 bs"
    using assms by (simp add: rec_enc_def rec_dec_def i32_of_i32 concat_i32s bytes_at_def)
  also have "\<dots> = bs"
    using bytes_at_split [of 36 4 bs] bytes_at_split [of 32 4 bs] bytes_at_split [of 0 32 bs] by simp
  finally show ?thesis .
qed


section \<open>The file as a list of records\<close>

definition db_image :: "user_record list \<Rightarrow> string" where
  "db_image rs = concat (map rec_enc rs)"

function db_records :: "string \<Rightarrow> user_record list" where
  "db_records b = (if REC_SIZE \<le> length b then rec_dec (take REC_SIZE b) # db_records (drop REC_SIZE b) else [])"
  by pat_completeness auto
termination by (relation "measure length") auto

declare db_records.simps [simp del]

text \<open>A file of whole records.\<close>

definition db_ok :: "users_dat \<Rightarrow> bool" where
  "db_ok db \<longleftrightarrow> (case db of None \<Rightarrow> False | Some b \<Rightarrow> REC_SIZE dvd length b)"

definition accounts :: "users_dat \<Rightarrow> user_record list" where
  "accounts db = (case db of None \<Rightarrow> [] | Some b \<Rightarrow> db_records b)"

abbreviation recs_ok :: "user_record list \<Rightarrow> bool" where
  "recs_ok rs \<equiv> \<forall>r \<in> set rs. rec_ok r"

lemma db_image_Nil [simp]: "db_image [] = []"
  and db_image_Cons: "db_image (r # rs) = rec_enc r @ db_image rs"
  and db_image_append: "db_image (rs @ rs') = db_image rs @ db_image rs'"
  by (simp_all add: db_image_def)

lemma length_db_image: "recs_ok rs \<Longrightarrow> length (db_image rs) = REC_SIZE * length rs"
  by (induction rs) (simp_all add: db_image_Cons length_rec_enc)

lemma db_records_image: "recs_ok rs \<Longrightarrow> db_records (db_image rs) = rs"
proof (induction rs)
  case Nil
  show ?case by (simp add: db_records.simps)
next
  case (Cons r rs)
  then show ?case
    by (subst db_records.simps) (simp add: db_image_Cons length_rec_enc rec_dec_enc)
qed

lemma db_image_records: "REC_SIZE dvd length b \<Longrightarrow> db_image (db_records b) = b \<and> recs_ok (db_records b)"
proof (induction b rule: db_records.induct)
  case (1 b)
  show ?case
  proof (cases "REC_SIZE \<le> length b")
    case True
    then have "REC_SIZE dvd length (drop REC_SIZE b)" using "1.prems" by (simp add: dvd_minus_self)
    with "1.IH" True show ?thesis
      by (simp add: db_records.simps [of b] db_image_Cons rec_enc_dec rec_ok_dec)
  next
    case False
    with "1.prems" have "b = []" by (auto dest: dvd_imp_le)
    then show ?thesis by (simp add: db_records.simps)
  qed
qed

lemma db_okE:
  assumes "db_ok db"
  obtains rs where "db = Some (db_image rs)" "recs_ok rs" "accounts db = rs"
  using assms db_image_records by (auto simp: db_ok_def accounts_def split: option.splits) metis

lemma db_ok_image [simp]: "recs_ok rs \<Longrightarrow> db_ok (Some (db_image rs))"
  by (simp add: db_ok_def length_db_image)

lemma accounts_image [simp]: "recs_ok rs \<Longrightarrow> accounts (Some (db_image rs)) = rs"
  by (simp add: accounts_def db_records_image)

text \<open>A list position, as the three parts of the image.\<close>

lemma db_image_split:
  assumes "i < length rs"
  shows "db_image rs = db_image (take i rs) @ rec_enc (rs ! i) @ db_image (drop (Suc i) rs)"
  by (metis assms id_take_nth_drop db_image_append db_image_Cons append_Cons append_Nil)

lemma bytes_at_image:
  assumes "recs_ok rs" and "i < length rs"
  shows "bytes_at (REC_SIZE * i) REC_SIZE (db_image rs) = rec_enc (rs ! i)"
proof -
  have "recs_ok (take i rs)" using assms(1) by (auto dest: in_set_takeD)
  then have "length (db_image (take i rs)) = REC_SIZE * i" using assms(2) by (simp add: length_db_image)
  with assms show ?thesis
    by (subst db_image_split [OF assms(2)]) (simp add: bytes_at_append length_rec_enc)
qed

lemma write_at_image:
  assumes "recs_ok rs" and "rec_ok r" and "i < length rs"
  shows "write_at (REC_SIZE * i) (rec_enc r) (db_image rs) = db_image (rs[i := r])"
proof -
  have "recs_ok (take i rs)" using assms(1) by (auto dest: in_set_takeD)
  then have "length (db_image (take i rs)) = REC_SIZE * i" using assms(3) by (simp add: length_db_image)
  moreover have "length (rec_enc (rs ! i)) = length (rec_enc r)"
    using assms by (simp add: length_rec_enc)
  ultimately show ?thesis
    using assms by (subst db_image_split [OF assms(3)])
      (simp add: write_at_append upd_conv_take_nth_drop db_image_append db_image_Cons)
qed


section \<open>The operations on the list of records\<close>

definition ur_name :: "user_record \<Rightarrow> string" where
  "ur_name r = cstr (ur_key r)"

text \<open>The first record that matches, with its position.\<close>

fun db_lookup :: "key \<Rightarrow> nat \<Rightarrow> user_record list \<Rightarrow> (user_record \<times> nat) option" where
  "db_lookup key i [] = None"
| "db_lookup key i (r # rs) =
     (if c_strncmp_eq MAX_KEY_LEN key (ur_name r) then Some (r, i) else db_lookup key (Suc i) rs)"

definition reset_if_alive :: "int \<Rightarrow> user_record \<Rightarrow> user_record" where
  "reset_if_alive initial_money r = (if userdb_is_burned r then r else reset_record initial_money r)"

lemma rec_ok_burn: "rec_ok r \<Longrightarrow> rec_ok (burn_record r)"
  by (simp add: rec_ok_def burn_record_def)

lemma rec_ok_reset: "rec_ok r \<Longrightarrow> int32_range m \<Longrightarrow> rec_ok (reset_if_alive m r)"
  by (simp add: rec_ok_def reset_if_alive_def reset_record_def)

lemma ur_name_ops [simp]:
  "ur_name (burn_record r) = ur_name r" "ur_name (reset_if_alive m r) = ur_name r"
  "ur_name (r\<lparr>ur_money := x\<rparr>) = ur_name r"
  by (simp_all add: ur_name_def burn_record_def reset_if_alive_def reset_record_def)

text \<open>A torn record at the end, shorter than a record, is not read.\<close>

lemma bytes_at_append_left: "off + n \<le> length b \<Longrightarrow> bytes_at off n (b @ rest) = bytes_at off n b"
  by (simp add: bytes_at_def)

lemma find_loop_image:
  assumes rest: "length rest < REC_SIZE"
  shows "recs_ok (us @ rs) \<Longrightarrow> find_loop key (db_image (us @ rs) @ rest) (REC_SIZE * length us) =
     map_option (\<lambda>(r, i). (r, REC_SIZE * i)) (db_lookup key (length us) rs)"
proof (induction rs arbitrary: us)
  case Nil
  then show ?case using rest by (subst find_loop.simps) (simp add: length_db_image)
next
  case (Cons r rs)
  have len: "length (db_image (us @ r # rs)) = REC_SIZE * length (us @ r # rs)"
    using Cons.prems by (rule length_db_image)
  then have "bytes_at (REC_SIZE * length us) REC_SIZE (db_image (us @ r # rs) @ rest) =
      bytes_at (REC_SIZE * length us) REC_SIZE (db_image (us @ r # rs))"
    by (intro bytes_at_append_left) simp
  then have at: "bytes_at (REC_SIZE * length us) REC_SIZE (db_image (us @ r # rs) @ rest) = rec_enc r"
    using bytes_at_image [OF Cons.prems, of "length us"] by (simp add: nth_append)
  have dec: "rec_dec (rec_enc r) = r" using Cons.prems by (simp add: rec_dec_enc)
  have IH: "find_loop key (db_image (us @ r # rs) @ rest) (REC_SIZE * length us + REC_SIZE) =
      map_option (\<lambda>(r, i). (r, REC_SIZE * i)) (db_lookup key (Suc (length us)) rs)"
    using Cons.IH [of "us @ [r]"] Cons.prems by (simp add: add.commute)
  show ?case
    by (subst find_loop.simps) (simp add: len at dec IH ur_name_def Let_def)
qed

lemma reset_loop_image:
  assumes "\<And>off. REC_SIZE \<le> w off" and "int32_range m"
  shows "recs_ok (us @ rs) \<Longrightarrow> reset_loop w m (REC_SIZE * length us) (db_image (us @ rs)) =
     (True, db_image (us @ map (reset_if_alive m) rs))"
proof (induction rs arbitrary: us)
  case Nil
  then show ?case by (subst reset_loop.simps) (simp add: length_db_image)
next
  case (Cons r rs)
  let ?b = "db_image (us @ r # rs)"
  have len: "length ?b = REC_SIZE * length (us @ r # rs)" using Cons.prems by (rule length_db_image)
  have at: "bytes_at (REC_SIZE * length us) REC_SIZE ?b = rec_enc r"
    using bytes_at_image [OF Cons.prems, of "length us"] by (simp add: nth_append)
  have r: "rec_ok r" "rec_dec (rec_enc r) = r" using Cons.prems by (simp_all add: rec_dec_enc)
  have r': "rec_ok (reset_if_alive m r)" by (rule rec_ok_reset [OF r(1) assms(2)])
  have w: "\<not> w (REC_SIZE * length us) < REC_SIZE"
    "take (min (w (REC_SIZE * length us)) REC_SIZE) (rec_enc (reset_if_alive m r)) = rec_enc (reset_if_alive m r)"
    using assms(1) [of "REC_SIZE * length us"] r' by (simp_all add: length_rec_enc)
  have wr: "write_at (REC_SIZE * length us) (rec_enc (reset_if_alive m r)) ?b = db_image (us @ reset_if_alive m r # rs)"
    using write_at_image [OF Cons.prems r', of "length us"] by simp
  have "reset_loop w m (REC_SIZE * length us) ?b =
      reset_loop w m (REC_SIZE * length us + REC_SIZE) (db_image (us @ reset_if_alive m r # rs))"
  proof (cases "userdb_is_burned r")
    case True
    then show ?thesis
      by (subst reset_loop.simps) (simp add: len at r Let_def reset_if_alive_def userdb_is_burned_def)
  next
    case False
    then have "reset_if_alive m r = reset_record m r" by (simp add: reset_if_alive_def)
    with False w wr show ?thesis
      by (subst reset_loop.simps) (simp add: len at r Let_def userdb_is_burned_def)
  qed
  also have "\<dots> = (True, db_image (us @ map (reset_if_alive m) (r # rs)))"
    using Cons.IH [of "us @ [reset_if_alive m r]"] Cons.prems r' by (simp add: add.commute)
  finally show ?case .
qed

lemma userdb_find_image:
  "recs_ok rs \<Longrightarrow> userdb_find key (Some (db_image rs)) =
     map_option (\<lambda>(r, i). (r, REC_SIZE * i)) (db_lookup key 0 rs)"
  using find_loop_image [of "[]" "[]" rs key] by (simp add: userdb_find_def)

lemma userdb_append_image:
  "recs_ok rs \<Longrightarrow> rec_ok r \<Longrightarrow> REC_SIZE \<le> w \<Longrightarrow>
   userdb_append w r (Some (db_image rs)) = (Some (REC_SIZE * length rs), Some (db_image (rs @ [r])))"
  using write_at_end [of "db_image rs" "rec_enc r"] length_db_image [of rs]
  by (simp add: userdb_append_def Let_def length_rec_enc db_image_append db_image_Cons)

lemma userdb_update_image:
  "recs_ok rs \<Longrightarrow> rec_ok r \<Longrightarrow> REC_SIZE \<le> w \<Longrightarrow> i < length rs \<Longrightarrow>
   userdb_update_at w (REC_SIZE * i) r (Some (db_image rs)) = (True, Some (db_image (rs[i := r])))"
  by (simp add: userdb_update_at_def length_rec_enc write_at_image)

lemma userdb_burn_image:
  assumes "recs_ok rs" and "REC_SIZE \<le> w" and "i < length rs"
  shows "userdb_burn_at w (REC_SIZE * i) (Some (db_image rs)) =
    (True, Some (db_image (rs[i := burn_record (rs ! i)])))"
proof -
  have "rec_ok (rs ! i)" using assms by simp
  then have "rec_dec (rec_enc (rs ! i)) = rs ! i" "rec_ok (burn_record (rs ! i))"
    by (simp_all add: rec_dec_enc rec_ok_burn)
  with assms show ?thesis
    by (simp add: userdb_burn_at_def length_db_image bytes_at_image length_rec_enc write_at_image)
qed

lemma userdb_reset_image:
  "recs_ok rs \<Longrightarrow> int32_range m \<Longrightarrow> (\<And>off. REC_SIZE \<le> w off) \<Longrightarrow>
   userdb_reset_round w m (Some (db_image rs)) = (True, Some (db_image (map (reset_if_alive m) rs)))"
  using reset_loop_image [of w m "[]" rs] by (simp add: userdb_reset_round_def)


section \<open>The contract of an account store\<close>

text \<open>
  What the request handlers rely on: a found record may be replaced at the location it was found at,
  and then the same key finds the new record there while every other key finds what it found before.
\<close>

definition same_key :: "key \<Rightarrow> key \<Rightarrow> bool" where
  "same_key a b \<longleftrightarrow> c_strncmp_eq MAX_KEY_LEN a b"

locale account_store =
  fixes ok :: "'s \<Rightarrow> bool" and rok :: "'r \<Rightarrow> bool" and name :: "'r \<Rightarrow> key"
    and find_acc :: "key \<Rightarrow> 's \<Rightarrow> ('r \<times> nat) option" and put :: "nat \<Rightarrow> 'r \<Rightarrow> 's \<Rightarrow> 's"
  assumes find_cong: "same_key k' k \<Longrightarrow> find_acc k' s = find_acc k s"
    and find_acc_ok: "ok s \<Longrightarrow> find_acc k s = Some (r, l) \<Longrightarrow> rok r \<and> same_key k (name r)"
    and put_ok: "ok s \<Longrightarrow> find_acc k s = Some (r, l) \<Longrightarrow> rok r' \<Longrightarrow> ok (put l r' s)"
    and find_put: "ok s \<Longrightarrow> find_acc k s = Some (r, l) \<Longrightarrow> rok r' \<Longrightarrow> name r' = name r \<Longrightarrow>
      find_acc k' (put l r' s) = (if same_key k' k then Some (r', l) else find_acc k' s)"
begin

lemma same_key_refl [simp]: "same_key k k"
  by (simp add: same_key_def)

lemma find_put_same:
  "ok s \<Longrightarrow> find_acc k s = Some (r, l) \<Longrightarrow> rok r' \<Longrightarrow> name r' = name r \<Longrightarrow> find_acc k (put l r' s) = Some (r', l)"
  by (simp add: find_put)

lemma find_put_other:
  "ok s \<Longrightarrow> find_acc k s = Some (r, l) \<Longrightarrow> rok r' \<Longrightarrow> name r' = name r \<Longrightarrow> \<not> same_key k' k \<Longrightarrow>
   find_acc k' (put l r' s) = find_acc k' s"
  by (simp add: find_put)



end

text \<open>A write that the kernel accepts whole.\<close>

definition userdb_put :: "nat \<Rightarrow> user_record \<Rightarrow> users_dat \<Rightarrow> users_dat" where
  "userdb_put offset rec db = snd (userdb_update_at REC_SIZE offset rec db)"


lemma db_lookupD:
  "db_lookup k i rs = Some (r, j) \<Longrightarrow> i \<le> j \<and> j < i + length rs \<and> rs ! (j - i) = r \<and> same_key k (ur_name r)"
proof (induction rs arbitrary: i)
  case (Cons x xs)
  show ?case
  proof (cases "c_strncmp_eq MAX_KEY_LEN k (ur_name x)")
    case True
    with Cons.prems show ?thesis by (auto simp: same_key_def)
  next
    case False
    with Cons.prems have "db_lookup k (Suc i) xs = Some (r, j)" by simp
    from Cons.IH [OF this] have "j - i = Suc (j - Suc i)" by linarith
    with Cons.IH [OF \<open>db_lookup k (Suc i) xs = Some (r, j)\<close>] show ?thesis by simp
  qed
qed simp

lemma db_lookup_update:
  assumes "db_lookup k i rs = Some (r, j)" and "ur_name r' = ur_name r"
  shows "db_lookup k' i (rs[j - i := r']) = (if same_key k' k then Some (r', j) else db_lookup k' i rs)"
  using assms
proof (induction rs arbitrary: i)
  case (Cons x xs)
  show ?case
  proof (cases "c_strncmp_eq MAX_KEY_LEN k (ur_name x)")
    case True
    with Cons.prems show ?thesis by (auto simp: same_key_def c_strncmp_eq_def)
  next
    case False
    with Cons.prems have *: "db_lookup k (Suc i) xs = Some (r, j)" by simp
    from db_lookupD [OF this] have "j - i = Suc (j - Suc i)" by linarith
    with Cons.IH [OF *] Cons.prems(2) False show ?thesis
      by (auto simp: same_key_def c_strncmp_eq_def)
  qed
qed simp

lemma recs_ok_update: "recs_ok rs \<Longrightarrow> rec_ok r \<Longrightarrow> recs_ok (rs[i := r])"
  using set_update_subset_insert [of rs i r] by auto

lemma userdb_find_cong: "same_key k' k \<Longrightarrow> userdb_find k' db = userdb_find k db"
proof -
  assume "same_key k' k"
  then have "find_loop k' b i = find_loop k b i" for b i
    by (induction k b i rule: find_loop.induct)
      (subst (1 2) find_loop.simps, simp add: Let_def same_key_def c_strncmp_eq_def)
  then show ?thesis by (simp add: userdb_find_def split: option.split)
qed

lemma userdb_find_SomeD:
  assumes "db_ok db" and "userdb_find k db = Some (r, l)"
  obtains rs i where "db = Some (db_image rs)" "recs_ok rs" "db_lookup k 0 rs = Some (r, i)"
    "l = REC_SIZE * i" "i < length rs" "rs ! i = r"
proof -
  from assms(1) obtain rs where rs: "db = Some (db_image rs)" "recs_ok rs" by (rule db_okE)
  with assms(2) obtain i where i: "db_lookup k 0 rs = Some (r, i)" "l = REC_SIZE * i"
    by (auto simp: userdb_find_image)
  with db_lookupD [OF i(1)] rs show ?thesis by (auto intro: that)
qed

lemma userdb_put_image:
  "recs_ok rs \<Longrightarrow> rec_ok r \<Longrightarrow> i < length rs \<Longrightarrow>
   userdb_put (REC_SIZE * i) r (Some (db_image rs)) = Some (db_image (rs[i := r]))"
  by (simp add: userdb_put_def userdb_update_image)

interpretation udb: account_store db_ok rec_ok ur_name userdb_find userdb_put
proof unfold_locales
  show "same_key k' k \<Longrightarrow> userdb_find k' s = userdb_find k s" for k' k s by (rule userdb_find_cong)
next
  fix s k r l
  assume "db_ok s" "userdb_find k s = Some (r, l)"
  then show "rec_ok r \<and> same_key k (ur_name r)"
    by (rule userdb_find_SomeD) (use db_lookupD in \<open>auto dest: nth_mem\<close>)
next
  fix s k r l r'
  assume a: "db_ok s" "userdb_find k s = Some (r, l)" and r': "rec_ok r'"
  from a show "db_ok (userdb_put l r' s)"
  proof (rule userdb_find_SomeD)
    fix rs i
    assume b: "s = Some (db_image rs)" "recs_ok rs" "l = REC_SIZE * i" "i < length rs"
    from b(2) r' have "recs_ok (rs[i := r'])" by (rule recs_ok_update)
    then have "db_ok (Some (db_image (rs[i := r'])))" by (rule db_ok_image)
    with b r' show ?thesis by (simp only: userdb_put_image)
  qed
next
  fix s k r l r' k'
  assume a: "db_ok s" "userdb_find k s = Some (r, l)" "rec_ok r'" "ur_name r' = ur_name r"
  from a(1,2) show "userdb_find k' (userdb_put l r' s) = (if same_key k' k then Some (r', l) else userdb_find k' s)"
  proof (rule userdb_find_SomeD)
    fix rs i
    assume b: "s = Some (db_image rs)" "recs_ok rs" "db_lookup k 0 rs = Some (r, i)"
      "l = REC_SIZE * i" "i < length rs" "rs ! i = r"
    have "recs_ok (rs[i := r'])" using b(2) a(3) by (rule recs_ok_update)
    then have "userdb_find k' (Some (db_image (rs[i := r']))) =
        map_option (\<lambda>(r, i). (r, REC_SIZE * i)) (db_lookup k' 0 (rs[i := r']))" by (rule userdb_find_image)
    moreover have "userdb_find k' s = map_option (\<lambda>(r, i). (r, REC_SIZE * i)) (db_lookup k' 0 rs)"
      unfolding b(1) using b(2) by (rule userdb_find_image)
    moreover have "userdb_put l r' s = Some (db_image (rs[i := r']))"
      unfolding b(1) b(4) using b(2) a(3) b(5) by (rule userdb_put_image)
    ultimately show ?thesis
      using db_lookup_update [OF b(3) a(4), of k'] b(4) by simp
  qed
qed


text \<open>Whole writes at a found location are replacements.\<close>

lemma userdb_update_found:
  "REC_SIZE \<le> w \<Longrightarrow> db_ok db \<Longrightarrow> userdb_find k db = Some (r, l) \<Longrightarrow> rec_ok r' \<Longrightarrow>
   userdb_update_at w l r' db = (True, userdb_put l r' db)"
  by (auto simp: userdb_update_at_def userdb_put_def length_rec_enc db_ok_def split: option.splits)

lemma userdb_burn_found:
  assumes "REC_SIZE \<le> w" "db_ok db" "userdb_find k db = Some (r, l)"
  shows "userdb_burn_at w l db = (True, userdb_put l (burn_record r) db)"
  using assms(2,3)
proof (rule userdb_find_SomeD)
  fix rs i
  assume b: "db = Some (db_image rs)" "recs_ok rs" "l = REC_SIZE * i" "i < length rs" "rs ! i = r"
  then have "rec_ok (burn_record r)" by (auto intro: rec_ok_burn)
  with b(2) have "userdb_put (REC_SIZE * i) (burn_record r) (Some (db_image rs)) =
      Some (db_image (rs[i := burn_record r]))" using b(4) by (rule userdb_put_image)
  with userdb_burn_image [OF b(2) assms(1) b(4)] b show ?thesis by simp
qed

lemma db_lookup_map_name:
  "(\<And>r. ur_name (f r) = ur_name r) \<Longrightarrow>
   db_lookup k i (map f rs) = map_option (\<lambda>(r, j). (f r, j)) (db_lookup k i rs)"
  by (induction rs arbitrary: i) auto

lemma db_lookup_append:
  "db_lookup k i (rs @ rs') =
     (case db_lookup k i rs of Some x \<Rightarrow> Some x | None \<Rightarrow> db_lookup k (i + length rs) rs')"
proof (induction rs arbitrary: i)
  case (Cons r rs)
  from Cons.IH [of "Suc i"] show ?case by (simp split: option.split)
qed simp

section \<open>Correctness\<close>

text \<open>The 68 bytes of a record and the record determine each other: what is written is read back,
  and rewriting a record that was read leaves the file as it was.\<close>
theorem rec_roundtrip:
  "(rec_ok r \<longrightarrow> length (rec_enc r) = REC_SIZE \<and> rec_dec (rec_enc r) = r) \<and>
   (length bs = REC_SIZE \<longrightarrow> rec_ok (rec_dec bs) \<and> rec_enc (rec_dec bs) = bs)"
  by (simp add: length_rec_enc rec_dec_enc rec_ok_dec rec_enc_dec)

definition sample_record :: user_record where
  "sample_record = \<lparr>ur_key = cbuf 32 ''neo'', ur_money = 1000, ur_inventory_count = 0,
     ur_inventory_doc_ids = replicate 7 0\<rparr>"

lemma sample_record_ok: "rec_ok sample_record"
  by (simp add: sample_record_def rec_ok_def int32_range_def)

theorem rec_roundtrip_witness:
  "rec_dec (rec_enc sample_record) = sample_record \<and> rec_enc (rec_dec (rec_enc sample_record)) = rec_enc sample_record"
  using rec_roundtrip [of sample_record "rec_enc sample_record"] sample_record_ok by simp

text \<open>C7: On a file that is the image of a list of records, every operation with whole writes is its
  list counterpart: lookup is the first record with the key, append adds at the end, update and burn
  replace the record at the offset, and the round reset restores the starting money of every account
  that is not burned and no other.\<close>
theorem userdb_refines_list:
  assumes "recs_ok rs" and "rec_ok r" and "int32_range m" and "i < length rs"
    and "REC_SIZE \<le> w" and "\<forall>off. REC_SIZE \<le> wr off"
  shows "userdb_find k (Some (db_image rs)) = map_option (\<lambda>(r, i). (r, REC_SIZE * i)) (db_lookup k 0 rs) \<and>
    userdb_append w r (Some (db_image rs)) = (Some (REC_SIZE * length rs), Some (db_image (rs @ [r]))) \<and>
    userdb_update_at w (REC_SIZE * i) r (Some (db_image rs)) = (True, Some (db_image (rs[i := r]))) \<and>
    userdb_burn_at w (REC_SIZE * i) (Some (db_image rs)) =
      (True, Some (db_image (rs[i := (rs ! i)\<lparr>ur_money := -1, ur_inventory_count := 0,
         ur_inventory_doc_ids := replicate 7 0\<rparr>]))) \<and>
    userdb_reset_round wr m (Some (db_image rs)) =
      (True, Some (db_image (map (\<lambda>r. if ur_money r = -1 then r else
         r\<lparr>ur_money := m, ur_inventory_count := 0, ur_inventory_doc_ids := replicate 7 0\<rparr>) rs)))"
proof -
  have "reset_if_alive m = (\<lambda>r. if ur_money r = -1 then r else
         r\<lparr>ur_money := m, ur_inventory_count := 0, ur_inventory_doc_ids := replicate 7 0\<rparr>)"
    by (simp add: fun_eq_iff reset_if_alive_def userdb_is_burned_def reset_record_def)
  with userdb_find_image [OF assms(1), of k] userdb_append_image [OF assms(1,2,5)]
    userdb_update_image [OF assms(1,2,5,4)] userdb_burn_image [OF assms(1,5,4)]
    userdb_reset_image [OF assms(1,3), of wr] assms(6)
  show ?thesis by (simp add: burn_record_def)
qed

theorem userdb_refines_list_witness:
  "userdb_append 68 sample_record (Some (db_image [sample_record])) =
     (Some 68, Some (db_image [sample_record, sample_record]))"
  using userdb_refines_list [of "[sample_record]" sample_record 1000 0 68 "\<lambda>_. 68" "''neo''"] sample_record_ok
  by (simp add: int32_range_def)

text \<open>C12: Burning an account is permanent as far as the account file goes: the key stays burned after the
  round reset and after any new account is appended.\<close>
theorem burn_is_permanent:
  assumes "db_ok db" and "userdb_find k db = Some (r, l)" and "rec_ok new" and "int32_range m"
  shows "\<exists>r1 r2 r3 db1. userdb_burn_at REC_SIZE l db = (True, db1) \<and>
    userdb_find k db1 = Some (r1, l) \<and> userdb_is_burned r1 \<and>
    userdb_find k (snd (userdb_reset_round (\<lambda>_. REC_SIZE) m db1)) = Some (r2, l) \<and> userdb_is_burned r2 \<and>
    userdb_find k (snd (userdb_append REC_SIZE new db1)) = Some (r3, l) \<and> userdb_is_burned r3"
proof -
  let ?b = "burn_record r" and ?db1 = "userdb_put l (burn_record r) db"
  have rb: "rec_ok ?b" using udb.find_acc_ok [OF assms(1,2)] by (simp add: rec_ok_burn)
  have f1: "userdb_find k ?db1 = Some (?b, l)" using assms(1,2) rb by (rule udb.find_put_same) simp
  have burned: "userdb_is_burned ?b" "reset_if_alive m ?b = ?b"
    by (simp_all add: userdb_is_burned_def burn_record_def reset_if_alive_def)
  have ok1: "db_ok ?db1" using assms(1,2) rb by (rule udb.put_ok)
  from ok1 f1 have "userdb_find k (snd (userdb_reset_round (\<lambda>_. REC_SIZE) m ?db1)) = Some (?b, l) \<and>
      userdb_find k (snd (userdb_append REC_SIZE new ?db1)) = Some (?b, l)"
  proof (rule userdb_find_SomeD)
    fix rs i
    assume b: "?db1 = Some (db_image rs)" "recs_ok rs" "db_lookup k 0 rs = Some (?b, i)" "l = REC_SIZE * i"
    have "recs_ok (rs @ [new])" "recs_ok (map (reset_if_alive m) rs)"
      using b(2) assms(3,4) by (auto intro: rec_ok_reset)
    then show ?thesis
      using b burned assms(3,4) userdb_reset_image [OF b(2) assms(4)]
      by (simp add: userdb_append_image userdb_find_image db_lookup_map_name db_lookup_append del: set_append)
  qed
  with userdb_burn_found [OF le_refl assms(1,2)] f1 burned(1) show ?thesis by blast
qed

theorem burn_is_permanent_witness:
  "\<exists>db1. userdb_burn_at 68 0 (Some (db_image [sample_record])) = (True, db1) \<and>
     (\<exists>r. userdb_find ''neo'' (snd (userdb_reset_round (\<lambda>_. 68) 1000 db1)) = Some (r, 0) \<and> userdb_is_burned r)"
proof -
  have "ur_name sample_record = ''neo''"
    by (simp add: ur_name_def sample_record_def cstr_cbuf no_nul_def)
  then have "userdb_find ''neo'' (Some (db_image [sample_record])) = Some (sample_record, 0)"
    using sample_record_ok by (simp add: userdb_find_image)
  from burn_is_permanent [OF _ this sample_record_ok, of 1000] show ?thesis
    using sample_record_ok by (auto simp: int32_range_def)
qed

lemma ur_name_dec: "ur_name (rec_dec bs) = cstr (take 32 bs)"
  by (simp add: ur_name_def rec_dec_def bytes_at_def)

text \<open>A torn append loses later accounts: after a \<open>write\<close> that accepted 32 to 67 bytes of one new
  record, the next append reports success at the end of the file, but its record is not aligned with
  the 68-byte grid and its key is never found, so the account is created anew at each login.\<close>
theorem torn_append_hides_accounts:
  assumes "recs_ok rs" and "rec_ok torn" and "rec_ok r" and "32 \<le> w" and "w < REC_SIZE"
    and "db_lookup k 0 rs = None" and "\<not> same_key k (ur_name torn)"
  shows "let db = snd (userdb_append w torn (Some (db_image rs))) in
    fst (userdb_append REC_SIZE r db) = Some (REC_SIZE * length rs + w) \<and>
    userdb_find k (snd (userdb_append REC_SIZE r db)) = None"
proof -
  let ?t = "take w (rec_enc torn)"
  let ?c = "?t @ take (REC_SIZE - w) (rec_enc r)"
  let ?rest = "drop (REC_SIZE - w) (rec_enc r)"
  have len: "length (rec_enc torn) = REC_SIZE" "length (rec_enc r) = REC_SIZE" "length (db_image rs) = REC_SIZE * length rs"
    using assms(1-3) by (simp_all add: length_rec_enc length_db_image)
  have c: "length ?c = REC_SIZE" using len assms(5) by simp
  have img: "db_image rs @ ?t @ rec_enc r = db_image (rs @ [rec_dec ?c]) @ ?rest"
    using c by (simp add: db_image_append db_image_Cons rec_enc_dec)
  have "take 32 ?c = ur_key torn"
    using len assms(2,4) by (simp add: rec_enc_def rec_ok_def)
  then have name: "ur_name (rec_dec ?c) = ur_name torn" by (simp only: ur_name_dec) (simp add: ur_name_def)
  have "recs_ok (rs @ [rec_dec ?c])" using assms(1) c rec_ok_dec [of ?c] by simp
  moreover have "length ?rest < REC_SIZE" using len assms(4,5) by simp
  ultimately have "find_loop k (db_image (rs @ [rec_dec ?c]) @ ?rest) 0 =
      map_option (\<lambda>(r, i). (r, REC_SIZE * i)) (db_lookup k 0 (rs @ [rec_dec ?c]))"
    using find_loop_image [of ?rest "[]" "rs @ [rec_dec ?c]" k] by simp
  also have "\<dots> = None" using assms(6,7) name by (simp add: db_lookup_append same_key_def)
  finally have none: "find_loop k (db_image rs @ ?t @ rec_enc r) 0 = None" by (simp only: img)
  have a1: "snd (userdb_append w torn (Some (db_image rs))) = Some (db_image rs @ ?t)"
    using assms(5) by (simp add: userdb_append_def Let_def write_at_end)
  have "userdb_append REC_SIZE r (Some (db_image rs @ ?t)) =
      (Some (REC_SIZE * length rs + w), Some (db_image rs @ ?t @ rec_enc r))"
    using len assms(5) write_at_end [of "db_image rs @ ?t" "rec_enc r"]
    by (simp add: userdb_append_def Let_def)
  with none show ?thesis by (simp add: a1 userdb_find_def Let_def)
qed

theorem torn_append_hides_accounts_witness:
  "userdb_find ''trinity'' (snd (userdb_append 68 (sample_record\<lparr>ur_key := cbuf 32 ''trinity''\<rparr>)
     (snd (userdb_append 40 sample_record (Some []))))) = None"
proof -
  let ?r = "sample_record\<lparr>ur_key := cbuf 32 ''trinity''\<rparr>"
  have "rec_ok ?r" using sample_record_ok by (simp add: rec_ok_def)
  moreover have "ur_name sample_record = ''neo''"
    by (simp add: ur_name_def sample_record_def cstr_cbuf no_nul_def)
  then have "\<not> same_key ''trinity'' (ur_name sample_record)" by (simp add: same_key_def c_strncmp_eq_def)
  ultimately show ?thesis
    using torn_append_hides_accounts [of "[]" sample_record ?r 40 "''trinity''"] sample_record_ok
    by (simp add: Let_def)
qed

end
