(* ===== verification/Sandbox.thy ===== *)
theory Sandbox
  imports FileSys
begin

text \<open>
  \<open>src/server/sandbox.c\<close>: documents as files. A document on sale is \<open>./data/master/doc_N.dat\<close>; buying
  it renames the file into \<open>./data/users/KEY/\<close>, so that a document has one owner. Results 0 and -1 are
  booleans or options. \<open>w\<close> is the number of bytes a \<open>write\<close> accepts.
\<close>

section \<open>Document files\<close>

record doc_file =
  df_doc_id :: int
  df_tags :: tags
  df_base_price :: int
  df_name :: string  \<comment> \<open>the 64 bytes of \<open>name\<close>\<close>

abbreviation DOC_SIZE :: nat where
  "DOC_SIZE \<equiv> 76"

definition doc_ok :: "doc_file \<Rightarrow> bool" where
  "doc_ok d \<longleftrightarrow> int32_range (df_doc_id d) \<and> int32_range (df_base_price d) \<and> length (df_name d) = MAX_NAME_LEN"

definition doc_enc :: "doc_file \<Rightarrow> string" where
  "doc_enc d = i32 (df_doc_id d) @ le32 (df_tags d) @ i32 (df_base_price d) @ df_name d"

definition doc_dec :: "string \<Rightarrow> doc_file" where
  "doc_dec bs = \<lparr>df_doc_id = of_i32 (bytes_at 0 4 bs), df_tags = of_le32 (bytes_at 4 4 bs),
     df_base_price = of_i32 (bytes_at 8 4 bs), df_name = drop 12 bs\<rparr>"

section \<open>Paths\<close>

definition USERS_DIR :: string where "USERS_DIR = ''./data/users''"
definition MASTER_DIR :: string where "MASTER_DIR = ''./data/master''"
definition DATA_ROOT :: string where "DATA_ROOT = ''./data''"

text \<open>\<open>doc_%d.dat\<close>.\<close>

definition doc_name :: "int \<Rightarrow> string" where
  "doc_name doc_id = ''doc_'' @ show_int doc_id @ ''.dat''"

definition user_dir_path :: "key \<Rightarrow> string" where
  "user_dir_path key = c_snprintf 512 (USERS_DIR @ ''/'' @ key)"

definition master_doc_path :: "int \<Rightarrow> string" where
  "master_doc_path doc_id = c_snprintf 512 (MASTER_DIR @ ''/'' @ doc_name doc_id)"

definition user_doc_path :: "key \<Rightarrow> int \<Rightarrow> string" where
  "user_doc_path key doc_id = c_snprintf 512 (USERS_DIR @ ''/'' @ key @ ''/'' @ doc_name doc_id)"

section \<open>Operations\<close>

definition ensure_dir :: "string \<Rightarrow> fs \<Rightarrow> bool \<times> fs" where
  "ensure_dir path fs = (case sys_mkdir path fs of (r, fs') \<Rightarrow> (r \<noteq> MKDIR_ERROR, fs'))"

definition sandbox_global_init :: "fs \<Rightarrow> bool \<times> fs" where
  "sandbox_global_init fs =
     (case ensure_dir DATA_ROOT fs of (ok1, fs1) \<Rightarrow>
        if \<not> ok1 then (False, fs1)
        else (case ensure_dir MASTER_DIR fs1 of (ok2, fs2) \<Rightarrow>
          if \<not> ok2 then (False, fs2)
          else (case ensure_dir USERS_DIR fs2 of (ok3, fs3) \<Rightarrow>
            if \<not> ok3 then (False, fs3) else (True, fs3))))"

definition sandbox_user_init :: "key \<Rightarrow> fs \<Rightarrow> bool \<times> fs" where
  "sandbox_user_init key fs = ensure_dir (user_dir_path key) fs"

definition is_doc_name :: "string \<Rightarrow> bool" where
  "is_doc_name n \<longleftrightarrow> c_strncmp_eq 4 n ''doc_''"

definition sandbox_count :: "key \<Rightarrow> fs \<Rightarrow> int" where
  "sandbox_count key fs =
     (case sys_readdir (user_dir_path key) fs of
        None \<Rightarrow> -1
      | Some names \<Rightarrow>
          int (length (filter is_doc_name (filter (\<lambda>n. \<not> (n = ''.'' \<or> n = ''..'')) names))))"

definition sandbox_has :: "key \<Rightarrow> int \<Rightarrow> fs \<Rightarrow> bool" where
  "sandbox_has key doc_id fs = sys_stat (user_doc_path key doc_id) fs"

definition sandbox_buy :: "key \<Rightarrow> int \<Rightarrow> fs \<Rightarrow> bool \<times> fs" where
  "sandbox_buy key doc_id fs =
     (let from = master_doc_path doc_id; to = user_doc_path key doc_id in
      if \<not> sys_stat from fs then (False, fs)
      else (case sys_rename from to fs of (ok, fs') \<Rightarrow>
        if \<not> ok then (False, fs') else (True, sys_chmod to 256 fs')))"

definition sandbox_dispose :: "key \<Rightarrow> int \<Rightarrow> fs \<Rightarrow> bool \<times> fs" where
  "sandbox_dispose key doc_id fs = sys_unlink (user_doc_path key doc_id) fs"

definition sandbox_read_doc :: "key \<Rightarrow> int \<Rightarrow> fs \<Rightarrow> doc_file option" where
  "sandbox_read_doc key doc_id fs =
     (case sys_read_file (user_doc_path key doc_id) DOC_SIZE fs of
        None \<Rightarrow> None
      | Some bs \<Rightarrow> if length bs = DOC_SIZE then Some (doc_dec bs) else None)"

definition inven_item_of :: "doc_file \<Rightarrow> inven_item" where
  "inven_item_of df = \<lparr>ii_doc_id = df_doc_id df, ii_tags = df_tags df,
     ii_name = c_strncpy (MAX_NAME_LEN - 1) (cstr (df_name df)), ii_is_frozen = False\<rparr>"

fun list_loop :: "key \<Rightarrow> fs \<Rightarrow> nat \<Rightarrow> inven_item list \<Rightarrow> string list \<Rightarrow> inven_item list" where
  "list_loop key fs max_n out [] = out"
| "list_loop key fs max_n out (n # ns) =
     (if \<not> length out < max_n then out
      else if n = ''.'' \<or> n = ''..'' then list_loop key fs max_n out ns
      else if \<not> is_doc_name n then list_loop key fs max_n out ns
      else (case sandbox_read_doc key (atoi (drop 4 n)) fs of
              Some df \<Rightarrow> list_loop key fs max_n (out @ [inven_item_of df]) ns
            | None \<Rightarrow> list_loop key fs max_n out ns))"

definition sandbox_list :: "key \<Rightarrow> nat \<Rightarrow> fs \<Rightarrow> inven_item list" where
  "sandbox_list key max_n fs =
     (case sys_readdir (user_dir_path key) fs of
        None \<Rightarrow> []
      | Some names \<Rightarrow> list_loop key fs max_n [] names)"

definition master_write_doc :: "nat \<Rightarrow> doc_file \<Rightarrow> fs \<Rightarrow> bool \<times> fs" where
  "master_write_doc w doc fs =
     (case sys_write_file w (master_doc_path (df_doc_id doc)) 420 (doc_enc doc) fs of
        (n, fs') \<Rightarrow> (n = Some DOC_SIZE, fs'))"

definition master_remove_doc :: "int \<Rightarrow> fs \<Rightarrow> bool \<times> fs" where
  "master_remove_doc doc_id fs = sys_unlink (master_doc_path doc_id) fs"

fun purge_loop :: "string \<Rightarrow> string list \<Rightarrow> fs \<Rightarrow> fs" where
  "purge_loop dir_path [] fs = fs"
| "purge_loop dir_path (n # ns) fs =
     (if \<not> is_doc_name n then purge_loop dir_path ns fs
      else purge_loop dir_path ns (snd (sys_unlink (c_snprintf 1024 (dir_path @ ''/'' @ n)) fs)))"

text \<open>
  Unlinking the entry just read does not disturb the rest of the directory stream, so the names are
  those at the time of \<open>opendir\<close>.
\<close>

definition purge_docs_in :: "string \<Rightarrow> fs \<Rightarrow> fs" where
  "purge_docs_in dir_path fs =
     (case sys_readdir dir_path fs of
        None \<Rightarrow> fs
      | Some names \<Rightarrow> purge_loop dir_path names fs)"

definition sandbox_purge_user :: "key \<Rightarrow> fs \<Rightarrow> fs" where
  "sandbox_purge_user key fs = purge_docs_in (user_dir_path key) fs"

fun reset_dirs_loop :: "string list \<Rightarrow> fs \<Rightarrow> fs" where
  "reset_dirs_loop [] fs = fs"
| "reset_dirs_loop (n # ns) fs =
     (if n = ''.'' \<or> n = ''..'' then reset_dirs_loop ns fs
      else
        let user_path = c_snprintf 512 (USERS_DIR @ ''/'' @ n) in
        if sys_stat_dir user_path fs then reset_dirs_loop ns (purge_docs_in user_path fs)
        else reset_dirs_loop ns fs)"

definition sandbox_global_reset :: "fs \<Rightarrow> fs" where
  "sandbox_global_reset fs =
     (let fs1 = purge_docs_in MASTER_DIR fs in
      case sys_readdir USERS_DIR fs1 of
        None \<Rightarrow> fs1
      | Some names \<Rightarrow> reset_dirs_loop names fs1)"


section \<open>The layout of the data directory\<close>

text \<open>A key that is one path component of its own.\<close>

definition safe_key :: "key \<Rightarrow> bool" where
  "safe_key k \<longleftrightarrow> k \<noteq> [] \<and> k \<noteq> ''.'' \<and> k \<noteq> ''..'' \<and> CHR ''/'' \<notin> set k \<and> no_nul k \<and> length k < MAX_KEY_LEN"

definition data_dir :: "path \<Rightarrow> path" where "data_dir cwd = cwd @ [''data'']"
definition shop_dir :: "path \<Rightarrow> path" where "shop_dir cwd = cwd @ [''data'', ''master'']"
definition boxes_dir :: "path \<Rightarrow> path" where "boxes_dir cwd = cwd @ [''data'', ''users'']"
definition box_dir :: "path \<Rightarrow> key \<Rightarrow> path" where "box_dir cwd k = cwd @ [''data'', ''users'', k]"

datatype doc_loc = Shop int | Box key int

fun loc_path :: "path \<Rightarrow> doc_loc \<Rightarrow> path" where
  "loc_path cwd (Shop d) = shop_dir cwd @ [doc_name d]"
| "loc_path cwd (Box k d) = box_dir cwd k @ [doc_name d]"

definition canonical :: "string \<Rightarrow> bool" where
  "canonical n \<longleftrightarrow> n = doc_name (atoi (drop 4 n))"

definition dir_ok :: "path \<Rightarrow> path \<Rightarrow> bool" where
  "dir_ok cwd p \<longleftrightarrow> (under (shop_dir cwd) p \<longrightarrow> p = shop_dir cwd) \<and>
     (under (boxes_dir cwd) p \<longrightarrow> p = boxes_dir cwd \<or> (p = box_dir cwd (last p) \<and> safe_key (last p)))"

definition file_ok :: "path \<Rightarrow> path \<Rightarrow> bool" where
  "file_ok cwd p \<longleftrightarrow> (under (shop_dir cwd) p \<longrightarrow> p = shop_dir cwd @ [last p] \<and> canonical (last p)) \<and>
     (under (boxes_dir cwd) p \<longrightarrow> p = box_dir cwd (last (butlast p)) @ [last p] \<and> canonical (last p))"

definition sandbox_ok :: "fs \<Rightarrow> bool" where
  "sandbox_ok fs \<longleftrightarrow> (let cwd = fs_cwd fs in
     is_dir fs cwd \<and> is_dir fs (data_dir cwd) \<and> is_dir fs (shop_dir cwd) \<and> is_dir fs (boxes_dir cwd) \<and>
     distinct (map fst (fs_files fs)) \<and>
     (\<forall>p \<in> set (fs_dirs fs). dir_ok cwd p) \<and>
     (\<forall>p \<in> fst ` set (fs_files fs). file_ok cwd p \<and> \<not> is_dir fs p \<and> is_dir fs (butlast p)))"

definition has_box :: "key \<Rightarrow> fs \<Rightarrow> bool" where
  "has_box k fs \<longleftrightarrow> is_dir fs (box_dir (fs_cwd fs) k)"

lemma length_dirs:
  "length (shop_dir cwd) = length cwd + 2" "length (boxes_dir cwd) = length cwd + 2" "length (box_dir cwd k) = length cwd + 3"
  by (simp_all add: shop_dir_def boxes_dir_def box_dir_def)

text \<open>Where the documents are.\<close>

definition doc_at :: "fs \<Rightarrow> doc_loc \<rightharpoonup> string" where
  "doc_at fs l = map_option f_bytes (get_file fs (loc_path (fs_cwd fs) l))"

lemma doc_name_inject [simp]: "doc_name d = doc_name e \<longleftrightarrow> d = e"
  by (simp add: doc_name_def)

lemma loc_path_inject [simp]: "loc_path cwd l = loc_path cwd l' \<longleftrightarrow> l = l'"
  by (cases l; cases l') (auto simp: shop_dir_def box_dir_def)

lemma slash_show_int: "CHR ''/'' \<notin> set (show_int i)"
  using show_int_chars [of "CHR ''/''" i] by auto

lemma doc_name_plain: "CHR ''/'' \<notin> set (doc_name d)" "doc_name d \<noteq> []" "doc_name d \<noteq> ''.''" "doc_name d \<noteq> ''..''"
  by (simp_all add: doc_name_def slash_show_int)

lemma length_doc_name: "int32_range d \<Longrightarrow> length (doc_name d) \<le> 19"
  using length_show_int [of d] by (simp add: doc_name_def)

lemma is_doc_name_doc_name [simp]: "is_doc_name (doc_name d)"
  by (simp add: is_doc_name_def doc_name_def c_strncmp_eq_def)

lemma atoi_doc_name: "int32_range d \<Longrightarrow> atoi (drop 4 (doc_name d)) = d"
  by (simp add: doc_name_def atoi_show_int)

lemma canonical_doc_name [simp]: "int32_range d \<Longrightarrow> canonical (doc_name d)"
  by (simp add: canonical_def atoi_doc_name)

lemma int32_range_atoi: "int32_range (atoi s)"
proof -
  have "- (2 ^ 31) \<le> signed_take_bit 31 i \<and> signed_take_bit 31 i < 2 ^ 31" for i :: int
    using signed_take_bit_int_greater_eq_minus_exp [of 31 i] signed_take_bit_int_less_exp [of 31 i] by simp
  then show ?thesis by (simp add: atoi_def int32_range_def)
qed

lemma canonicalE:
  assumes "canonical n"
  obtains d where "int32_range d" "n = doc_name d"
  using assms int32_range_atoi unfolding canonical_def by blast

lemma sandbox_okD:
  assumes "sandbox_ok fs"
  shows "is_dir fs (fs_cwd fs)" "is_dir fs (data_dir (fs_cwd fs))" "is_dir fs (shop_dir (fs_cwd fs))"
    "is_dir fs (boxes_dir (fs_cwd fs))" "distinct (map fst (fs_files fs))"
    "p \<in> set (fs_dirs fs) \<Longrightarrow> dir_ok (fs_cwd fs) p"
    "p \<in> fst ` set (fs_files fs) \<Longrightarrow> file_ok (fs_cwd fs) p \<and> \<not> is_dir fs p \<and> is_dir fs (butlast p)"
  using assms by (auto simp: sandbox_ok_def Let_def)

lemma not_dir_loc:
  assumes "sandbox_ok fs"
  shows "\<not> is_dir fs (loc_path (fs_cwd fs) l)"
proof
  assume "is_dir fs (loc_path (fs_cwd fs) l)"
  then have "dir_ok (fs_cwd fs) (loc_path (fs_cwd fs) l)" using sandbox_okD(6) [OF assms] by (simp add: is_dir_def)
  then show False
    by (cases l) (auto simp: dir_ok_def under_def shop_dir_def boxes_dir_def box_dir_def)
qed

lemma file_ok_loc: "(case l of Shop d \<Rightarrow> int32_range d | Box k d \<Rightarrow> int32_range d) \<Longrightarrow> file_ok cwd (loc_path cwd l)"
  by (cases l) (auto simp: file_ok_def under_def shop_dir_def boxes_dir_def box_dir_def butlast_append)


section \<open>Path resolution\<close>

lemma c_snprintf_short: "length s < n \<Longrightarrow> c_snprintf n s = s"
  by (rule c_snprintf_id)

lemma take1_append: "a \<noteq> [] \<Longrightarrow> take 1 (a @ b) = take 1 a"
  by (cases a) auto

lemma resolve_master_dir: "sandbox_ok fs \<Longrightarrow> resolve fs MASTER_DIR = Some (shop_dir (fs_cwd fs))"
  and resolve_users_dir: "sandbox_ok fs \<Longrightarrow> resolve fs USERS_DIR = Some (boxes_dir (fs_cwd fs))"
  using sandbox_okD(1,2) [of fs]
  by (simp_all add: resolve_def MASTER_DIR_def USERS_DIR_def data_dir_def shop_dir_def boxes_dir_def)

text \<open>One more component below a resolved directory.\<close>

lemma walk_append: "walk fs cur (cs @ ds) = (case walk fs cur cs of None \<Rightarrow> None | Some p \<Rightarrow> walk fs p ds)"
  by (induction cs arbitrary: cur) simp_all

lemma resolve_append:
  assumes "s \<noteq> []"
  shows "resolve fs (s @ CHR ''/'' # n) = (case resolve fs s of None \<Rightarrow> None | Some p \<Rightarrow> walk fs p (split_path n))"
  unfolding resolve_def take1_append [OF assms] split_path_slash walk_append by (rule refl)

lemma resolve_below:
  assumes "resolve fs s = Some d" and "is_dir fs d" and "s \<noteq> []"
    and "n \<noteq> []" "n \<noteq> ''.''" "n \<noteq> ''..''" "CHR ''/'' \<notin> set n"
  shows "resolve fs (s @ ''/'' @ n) = Some (d @ [n])"
  using assms by (simp add: resolve_append split_path_plain)

lemma resolve_below_none:
  assumes "resolve fs s = Some d" and "\<not> is_dir fs d" and "s \<noteq> []" and "n \<noteq> []" "CHR ''/'' \<notin> set n"
  shows "resolve fs (s @ ''/'' @ n) = None"
  using assms by (simp add: resolve_append split_path_plain)

lemma boxes_simp: "boxes_dir cwd @ [k] = box_dir cwd k"
  by (simp add: boxes_dir_def box_dir_def)

lemma resolve_user_dir:
  assumes "sandbox_ok fs" "safe_key k"
  shows "resolve fs (user_dir_path k) = Some (box_dir (fs_cwd fs) k)"
proof -
  have "resolve fs (USERS_DIR @ ''/'' @ k) = Some (boxes_dir (fs_cwd fs) @ [k])"
    by (rule resolve_below [OF resolve_users_dir [OF assms(1)] sandbox_okD(4) [OF assms(1)]])
      (use assms(2) in \<open>auto simp: safe_key_def USERS_DIR_def\<close>)
  moreover have "c_snprintf 512 (USERS_DIR @ ''/'' @ k) = USERS_DIR @ ''/'' @ k"
    using assms(2) by (intro c_snprintf_short) (simp add: safe_key_def USERS_DIR_def)
  ultimately show ?thesis by (simp only: user_dir_path_def boxes_simp)
qed

lemma resolve_master_doc:
  assumes "sandbox_ok fs" "int32_range d"
  shows "resolve fs (master_doc_path d) = Some (loc_path (fs_cwd fs) (Shop d))"
proof -
  have "resolve fs (MASTER_DIR @ ''/'' @ doc_name d) = Some (shop_dir (fs_cwd fs) @ [doc_name d])"
    by (rule resolve_below [OF resolve_master_dir [OF assms(1)] sandbox_okD(3) [OF assms(1)]])
      (auto simp: doc_name_plain MASTER_DIR_def)
  moreover have "c_snprintf 512 (MASTER_DIR @ ''/'' @ doc_name d) = MASTER_DIR @ ''/'' @ doc_name d"
    using length_doc_name [OF assms(2)] by (intro c_snprintf_short) (simp add: MASTER_DIR_def)
  ultimately show ?thesis by (simp only: master_doc_path_def loc_path.simps)
qed

lemma user_doc_path_eq:
  assumes "safe_key k" "int32_range d"
  shows "user_doc_path k d = (USERS_DIR @ ''/'' @ k) @ ''/'' @ doc_name d"
  using assms(1) length_doc_name [OF assms(2)]
  by (simp add: user_doc_path_def safe_key_def USERS_DIR_def c_snprintf_short)

lemma resolve_user_doc:
  assumes "sandbox_ok fs" "safe_key k" "int32_range d"
  shows "resolve fs (user_doc_path k d) =
    (if has_box k fs then Some (loc_path (fs_cwd fs) (Box k d)) else None)"
proof -
  have dir: "resolve fs (USERS_DIR @ ''/'' @ k) = Some (box_dir (fs_cwd fs) k)"
    using resolve_user_dir [OF assms(1,2)] assms(2)
    by (simp add: user_dir_path_def safe_key_def USERS_DIR_def c_snprintf_short)
  have ne: "USERS_DIR @ ''/'' @ k \<noteq> []" by (simp add: USERS_DIR_def)
  show ?thesis
  proof (cases "has_box k fs")
    case True
    then have "resolve fs ((USERS_DIR @ ''/'' @ k) @ ''/'' @ doc_name d) = Some (box_dir (fs_cwd fs) k @ [doc_name d])"
      by (intro resolve_below dir ne doc_name_plain) (simp add: has_box_def)
    with True show ?thesis by (simp only: user_doc_path_eq [OF assms(2,3)] loc_path.simps if_True)
  next
    case False
    then have "resolve fs ((USERS_DIR @ ''/'' @ k) @ ''/'' @ doc_name d) = None"
      by (intro resolve_below_none [OF dir] ne doc_name_plain) (simp add: has_box_def)
    with False show ?thesis by (simp only: user_doc_path_eq [OF assms(2,3)] if_False)
  qed
qed


section \<open>Operations on documents\<close>

fun loc_id :: "doc_loc \<Rightarrow> int" where
  "loc_id (Shop d) = d"
| "loc_id (Box k d) = d"

abbreviation place_file :: "fs \<Rightarrow> doc_loc \<Rightarrow> file_node \<Rightarrow> fs" where
  "place_file fs l f \<equiv> fs\<lparr>fs_files := AList.update (loc_path (fs_cwd fs) l) f (fs_files fs)\<rparr>"

abbreviation drop_file :: "fs \<Rightarrow> doc_loc \<Rightarrow> fs" where
  "drop_file fs l \<equiv> fs\<lparr>fs_files := AList.delete (loc_path (fs_cwd fs) l) (fs_files fs)\<rparr>"

abbreviation file_at :: "fs \<Rightarrow> doc_loc \<Rightarrow> file_node option" where
  "file_at fs l \<equiv> get_file fs (loc_path (fs_cwd fs) l)"

lemma sandbox_ok_place:
  assumes "sandbox_ok fs" "int32_range (loc_id l)" "is_dir fs (butlast (loc_path (fs_cwd fs) l))"
  shows "sandbox_ok (place_file fs l f)"
proof -
  have "file_ok (fs_cwd fs) (loc_path (fs_cwd fs) l)"
    using assms(2) by (intro file_ok_loc) (cases l; simp)
  then show ?thesis
    using sandbox_okD [OF assms(1)] not_dir_loc [OF assms(1), of l] assms(3)
    by (simp add: sandbox_ok_def Let_def distinct_update dom_update)
qed

lemma sandbox_ok_drop:
  assumes "sandbox_ok fs"
  shows "sandbox_ok (drop_file fs l)"
proof -
  let ?fs = "AList.delete (loc_path (fs_cwd fs) l) (fs_files fs)"
  have "fst ` set ?fs \<subseteq> fst ` set (fs_files fs)" by (rule dom_delete_subset)
  then have "\<forall>p \<in> fst ` set ?fs. file_ok (fs_cwd fs) p \<and> \<not> is_dir fs p \<and> is_dir fs (butlast p)"
    using sandbox_okD(7) [OF assms] by blast
  moreover have "distinct (map fst ?fs)" using sandbox_okD(5) [OF assms] by (rule distinct_delete)
  ultimately show ?thesis using sandbox_okD(1-4,6) [OF assms] by (simp add: sandbox_ok_def Let_def)
qed

lemma doc_at_place: "doc_at (place_file fs l f) = (doc_at fs)(l \<mapsto> f_bytes f)"
  by (auto simp: doc_at_def fun_eq_iff get_file_update)

lemma doc_at_drop: "doc_at (drop_file fs l) = (doc_at fs)(l := None)"
  by (auto simp: doc_at_def fun_eq_iff get_file_delete)

lemma doc_at_None: "doc_at fs l = None \<longleftrightarrow> file_at fs l = None"
  by (simp add: doc_at_def)

lemma has_box_files [simp]: "has_box k (fs\<lparr>fs_files := x\<rparr>) = has_box k fs"
  by (simp add: has_box_def)

lemma butlast_loc [simp]:
  "butlast (loc_path cwd (Shop d)) = shop_dir cwd" "butlast (loc_path cwd (Box k d)) = box_dir cwd k"
  by (simp_all add: butlast_append)

lemma sandbox_has_eq:
  "sandbox_ok fs \<Longrightarrow> safe_key k \<Longrightarrow> int32_range d \<Longrightarrow>
   sandbox_has k d fs \<longleftrightarrow> has_box k fs \<and> doc_at fs (Box k d) \<noteq> None"
  using not_dir_loc [of fs "Box k d"]
  by (simp add: sandbox_has_def sys_stat_def resolve_user_doc sys_exists_def doc_at_None del: loc_path.simps)

lemma sandbox_dispose_eq:
  "sandbox_ok fs \<Longrightarrow> safe_key k \<Longrightarrow> int32_range d \<Longrightarrow>
   sandbox_dispose k d fs =
     (if has_box k fs \<and> doc_at fs (Box k d) \<noteq> None then (True, drop_file fs (Box k d)) else (False, fs))"
  using not_dir_loc [of fs "Box k d"]
  by (simp add: sandbox_dispose_def sys_unlink_def resolve_user_doc doc_at_None del: loc_path.simps)

lemma master_remove_eq:
  "sandbox_ok fs \<Longrightarrow> int32_range d \<Longrightarrow>
   master_remove_doc d fs = (if doc_at fs (Shop d) \<noteq> None then (True, drop_file fs (Shop d)) else (False, fs))"
  using not_dir_loc [of fs "Shop d"]
  by (simp add: master_remove_doc_def sys_unlink_def resolve_master_doc doc_at_None del: loc_path.simps)

text \<open>A purchase moves the file and makes it read-only; every other file stays.\<close>

lemma sandbox_buy_eq:
  assumes "sandbox_ok fs" "safe_key k" "int32_range d"
  shows "sandbox_buy k d fs =
    (case file_at fs (Shop d) of
       None \<Rightarrow> (False, fs)
     | Some f \<Rightarrow>
         if has_box k fs
         then (True, place_file (drop_file fs (Shop d)) (Box k d) (f\<lparr>f_mode := 256\<rparr>))
         else (False, fs))"
proof -
  note ok = not_dir_loc [OF assms(1)]
  have src: "resolve fs (master_doc_path d) = Some (loc_path (fs_cwd fs) (Shop d))"
    by (rule resolve_master_doc [OF assms(1,3)])
  have dst: "resolve fs (user_doc_path k d) = (if has_box k fs then Some (loc_path (fs_cwd fs) (Box k d)) else None)"
    by (rule resolve_user_doc [OF assms])
  show ?thesis
  proof (cases "file_at fs (Shop d)")
    case None
    then show ?thesis using ok [of "Shop d"]
      by (simp add: sandbox_buy_def Let_def sys_stat_def src sys_exists_def del: loc_path.simps)
  next
    case (Some f)
    have ne: "loc_path (fs_cwd fs) (Shop d) \<noteq> loc_path (fs_cwd fs) (Box k d)" by (simp del: loc_path.simps)
    show ?thesis
    proof (cases "has_box k fs")
      case True
      then have "is_dir fs (butlast (loc_path (fs_cwd fs) (Box k d)))" by (simp only: butlast_loc has_box_def)
      with True Some ok ne show ?thesis
        by (simp add: sandbox_buy_def Let_def sys_stat_def src dst sys_exists_def sys_rename_def sys_chmod_def
            get_file_update_any del: loc_path.simps butlast_loc)
    next
      case False
      with Some ok show ?thesis
        by (simp add: sandbox_buy_def Let_def sys_stat_def src dst sys_exists_def sys_rename_def del: loc_path.simps)
    qed
  qed
qed

lemma master_write_eq:
  assumes "sandbox_ok fs" "doc_ok doc" "DOC_SIZE \<le> w"
    and "\<forall>f. file_at fs (Shop (df_doc_id doc)) = Some f \<longrightarrow> mode_has S_IWUSR (f_mode f)"
  shows "\<exists>f. master_write_doc w doc fs = (True, place_file fs (Shop (df_doc_id doc)) f) \<and> f_bytes f = doc_enc doc"
proof -
  have d: "int32_range (df_doc_id doc)" using assms(2) by (simp add: doc_ok_def)
  have len: "length (doc_enc doc) = DOC_SIZE" using assms(2) by (simp add: doc_ok_def doc_enc_def)
  have "is_dir fs (butlast (loc_path (fs_cwd fs) (Shop (df_doc_id doc))))"
    using sandbox_okD(3) [OF assms(1)] by (simp only: butlast_loc)
  with assms(3,4) len not_dir_loc [OF assms(1), of "Shop (df_doc_id doc)"] show ?thesis
    by (cases "file_at fs (Shop (df_doc_id doc))")
      (auto simp: master_write_doc_def sys_write_file_def resolve_master_doc [OF assms(1) d]
        simp del: loc_path.simps butlast_loc)
qed


section \<open>The contract of a document store\<close>

text \<open>At most one copy of a document exists, in the shop or in one box.\<close>

definition one_copy :: "(doc_loc \<rightharpoonup> 'd) \<Rightarrow> bool" where
  "one_copy m \<longleftrightarrow> (\<forall>l l'. loc_id l = loc_id l' \<longrightarrow> m l \<noteq> None \<longrightarrow> m l' \<noteq> None \<longrightarrow> l = l')"

lemma one_copy_move: "one_copy m \<Longrightarrow> m l \<noteq> None \<Longrightarrow> loc_id l = loc_id l' \<Longrightarrow> one_copy (m(l := None, l' := x))"
  unfolding one_copy_def by (metis fun_upd_apply)

lemma one_copy_remove: "one_copy m \<Longrightarrow> one_copy (m(l := None))"
  unfolding one_copy_def by (metis fun_upd_apply)

lemma one_copy_fresh: "one_copy m \<Longrightarrow> (\<And>l'. loc_id l' = loc_id l \<Longrightarrow> m l' = None) \<Longrightarrow> one_copy (m(l \<mapsto> x))"
  unfolding one_copy_def by (metis fun_upd_apply)

locale doc_store =
  fixes ok :: "'s \<Rightarrow> bool" and box :: "key \<Rightarrow> 's \<Rightarrow> bool" and docs :: "'s \<Rightarrow> doc_loc \<rightharpoonup> 'd"
    and buy :: "key \<Rightarrow> int \<Rightarrow> 's \<Rightarrow> bool \<times> 's" and dispose :: "key \<Rightarrow> int \<Rightarrow> 's \<Rightarrow> bool \<times> 's"
    and withdraw :: "int \<Rightarrow> 's \<Rightarrow> bool \<times> 's"
  assumes buy_some: "ok s \<Longrightarrow> safe_key k \<Longrightarrow> int32_range d \<Longrightarrow> box k s \<Longrightarrow> docs s (Shop d) = Some x \<Longrightarrow>
      \<exists>s'. buy k d s = (True, s') \<and> ok s' \<and> docs s' = (docs s)(Shop d := None, Box k d \<mapsto> x) \<and> box k' s' = box k' s"
    and buy_none: "ok s \<Longrightarrow> safe_key k \<Longrightarrow> int32_range d \<Longrightarrow> docs s (Shop d) = None \<or> \<not> box k s \<Longrightarrow> buy k d s = (False, s)"
    and dispose_some: "ok s \<Longrightarrow> safe_key k \<Longrightarrow> int32_range d \<Longrightarrow> box k s \<Longrightarrow> docs s (Box k d) \<noteq> None \<Longrightarrow>
      \<exists>s'. dispose k d s = (True, s') \<and> ok s' \<and> docs s' = (docs s)(Box k d := None) \<and> box k' s' = box k' s"
    and dispose_none: "ok s \<Longrightarrow> safe_key k \<Longrightarrow> int32_range d \<Longrightarrow> docs s (Box k d) = None \<or> \<not> box k s \<Longrightarrow> dispose k d s = (False, s)"
    and withdraw_any: "ok s \<Longrightarrow> int32_range d \<Longrightarrow>
      \<exists>s'. withdraw d s = (docs s (Shop d) \<noteq> None, s') \<and> ok s' \<and> docs s' = (docs s)(Shop d := None) \<and> box k' s' = box k' s"
begin

text \<open>A document is sold once.\<close>

lemma buy_once:
  assumes "ok s" "safe_key k" "int32_range d" "buy k d s = (True, s')" "safe_key k'"
  shows "buy k' d s' = (False, s')"
proof -
  from assms(1-4) have b: "box k s" "docs s (Shop d) \<noteq> None" using buy_none [OF assms(1-3)] by fastforce+
  then obtain x where "docs s (Shop d) = Some x" by auto
  from buy_some [OF assms(1-3) b(1) this, of k'] assms(4)
  have "ok s'" "docs s' (Shop d) = None" by auto
  then show ?thesis using assms(5,3) by (intro buy_none) simp_all
qed

lemma buy_one_copy:
  assumes "ok s" "safe_key k" "int32_range d" "one_copy (docs s)"
  shows "one_copy (docs (snd (buy k d s)))"
proof (cases "docs s (Shop d) = None \<or> \<not> box k s")
  case True
  with buy_none [OF assms(1-3)] assms(4) show ?thesis by simp
next
  case False
  then obtain x where x: "docs s (Shop d) = Some x" "box k s" by auto
  obtain s' where "buy k d s = (True, s')" "docs s' = (docs s)(Shop d := None, Box k d \<mapsto> x)"
    using buy_some [OF assms(1-3) x(2,1)] by blast
  moreover have "one_copy ((docs s)(Shop d := None, Box k d \<mapsto> x))"
    using assms(4) x by (intro one_copy_move) simp_all
  ultimately show ?thesis by simp
qed

lemma dispose_one_copy:
  assumes "ok s" "safe_key k" "int32_range d" "one_copy (docs s)"
  shows "one_copy (docs (snd (dispose k d s)))"
proof (cases "docs s (Box k d) = None \<or> \<not> box k s")
  case True
  with dispose_none [OF assms(1-3)] assms(4) show ?thesis by simp
next
  case False
  then obtain s' where "dispose k d s = (True, s')" "docs s' = (docs s)(Box k d := None)"
    using dispose_some [OF assms(1-3)] by blast
  then show ?thesis using one_copy_remove [OF assms(4), of "Box k d"] by simp
qed

lemma withdraw_one_copy:
  assumes "ok s" "int32_range d" "one_copy (docs s)"
  shows "one_copy (docs (snd (withdraw d s)))"
proof -
  obtain s' where "snd (withdraw d s) = s'" "docs s' = (docs s)(Shop d := None)"
    using withdraw_any [OF assms(1,2)] by (metis snd_conv)
  then show ?thesis using one_copy_remove [OF assms(3), of "Shop d"] by simp
qed

end

interpretation box: doc_store sandbox_ok has_box doc_at sandbox_buy sandbox_dispose master_remove_doc
proof unfold_locales
  fix s k d x k'
  assume a: "sandbox_ok s" "safe_key k" "int32_range d" "has_box k s" "doc_at s (Shop d) = Some x"
  then obtain f where f: "file_at s (Shop d) = Some f" "f_bytes f = x" by (auto simp: doc_at_def)
  let ?s = "place_file (drop_file s (Shop d)) (Box k d) (f\<lparr>f_mode := 256\<rparr>)"
  have "sandbox_buy k d s = (True, ?s)" using sandbox_buy_eq [OF a(1-3)] f a(4) by (simp del: loc_path.simps)
  moreover have "sandbox_ok ?s"
    using sandbox_ok_place [OF sandbox_ok_drop [OF a(1)], of "Box k d" "Shop d"] a(3,4)
    by (simp add: has_box_def butlast_append)
  moreover have "doc_at ?s = (doc_at s)(Shop d := None, Box k d \<mapsto> x)"
    using doc_at_place [of "drop_file s (Shop d)" "Box k d" "f\<lparr>f_mode := 256\<rparr>"] doc_at_drop [of s "Shop d"] f(2)
    by simp
  ultimately show "\<exists>s'. sandbox_buy k d s = (True, s') \<and> sandbox_ok s' \<and>
      doc_at s' = (doc_at s)(Shop d := None, Box k d \<mapsto> x) \<and> has_box k' s' = has_box k' s"
    by (intro exI [of _ ?s]) simp
next
  fix s k d
  assume "sandbox_ok s" "safe_key k" "int32_range d" "doc_at s (Shop d) = None \<or> \<not> has_box k s"
  then show "sandbox_buy k d s = (False, s)"
    by (simp add: sandbox_buy_eq doc_at_None del: loc_path.simps split: option.split) auto
next
  fix s k d k'
  assume "sandbox_ok s" "safe_key k" "int32_range d" "has_box k s" "doc_at s (Box k d) \<noteq> None"
  then show "\<exists>s'. sandbox_dispose k d s = (True, s') \<and> sandbox_ok s' \<and>
      doc_at s' = (doc_at s)(Box k d := None) \<and> has_box k' s' = has_box k' s"
    by (intro exI [of _ "drop_file s (Box k d)"])
      (simp add: sandbox_dispose_eq sandbox_ok_drop doc_at_drop del: loc_path.simps)
next
  fix s k d
  assume "sandbox_ok s" "safe_key k" "int32_range d" "doc_at s (Box k d) = None \<or> \<not> has_box k s"
  then show "sandbox_dispose k d s = (False, s)" by (auto simp: sandbox_dispose_eq)
next
  fix s d k'
  assume a: "sandbox_ok s" "int32_range d"
  show "\<exists>s'. master_remove_doc d s = (doc_at s (Shop d) \<noteq> None, s') \<and> sandbox_ok s' \<and>
      doc_at s' = (doc_at s)(Shop d := None) \<and> has_box k' s' = has_box k' s"
  proof (cases "doc_at s (Shop d) = None")
    case True
    then have "(doc_at s)(Shop d := None) = doc_at s" by auto
    with True a show ?thesis by (intro exI [of _ s]) (simp add: master_remove_eq)
  next
    case False
    with a show ?thesis
      by (intro exI [of _ "drop_file s (Shop d)"])
        (simp add: master_remove_eq sandbox_ok_drop doc_at_drop del: loc_path.simps)
  qed
qed


section \<open>What a directory holds\<close>

lemma doc_at_set: "doc_at fs l \<noteq> None \<longleftrightarrow> loc_path (fs_cwd fs) l \<in> fst ` set (fs_files fs)"
  by (simp add: doc_at_None get_file_None del: loc_path.simps)

lemma under_box: "p \<noteq> [] \<Longrightarrow> butlast p = box_dir cwd k \<Longrightarrow> under (boxes_dir cwd) p"
  by (cases p rule: rev_cases) (simp_all add: under_def box_dir_def boxes_dir_def)

lemma under_shop: "p \<noteq> [] \<Longrightarrow> butlast p = shop_dir cwd \<Longrightarrow> under (shop_dir cwd) p"
  by (cases p rule: rev_cases) (simp_all add: under_def shop_dir_def)

lemma no_dir_in:
  assumes "sandbox_ok fs" "p \<in> set (fs_dirs fs)" "p \<noteq> []"
  shows "butlast p \<noteq> box_dir (fs_cwd fs) k" "butlast p \<noteq> shop_dir (fs_cwd fs)"
proof -
  have ok: "dir_ok (fs_cwd fs) p" using assms(1,2) by (rule sandbox_okD)
  show "butlast p \<noteq> box_dir (fs_cwd fs) k"
  proof
    assume b: "butlast p = box_dir (fs_cwd fs) k"
    with ok under_box [OF assms(3) b] have "p = boxes_dir (fs_cwd fs) \<or> p = box_dir (fs_cwd fs) (last p)"
      by (auto simp: dir_ok_def)
    then have "length p \<le> length (fs_cwd fs) + 3"
      by (elim disjE) (drule arg_cong [of _ _ length], simp add: length_dirs)+
    moreover have "length p = length (butlast p) + 1" using assms(3) by simp
    ultimately show False by (simp add: b length_dirs)
  qed
  show "butlast p \<noteq> shop_dir (fs_cwd fs)"
  proof
    assume b: "butlast p = shop_dir (fs_cwd fs)"
    with ok under_shop [OF assms(3) b] have "p = shop_dir (fs_cwd fs)" by (simp add: dir_ok_def)
    moreover have "p = shop_dir (fs_cwd fs) @ [last p]" using assms(3) b by (metis append_butlast_last_id)
    ultimately show False by simp
  qed
qed

text \<open>A directory that holds documents only: the shop, or the box of a key.\<close>

definition docs_dir :: "path \<Rightarrow> key option \<Rightarrow> path" where
  "docs_dir cwd own = (case own of None \<Rightarrow> shop_dir cwd | Some k \<Rightarrow> box_dir cwd k)"

definition docs_loc :: "key option \<Rightarrow> int \<Rightarrow> doc_loc" where
  "docs_loc own d = (case own of None \<Rightarrow> Shop d | Some k \<Rightarrow> Box k d)"

lemma docs_loc_path: "loc_path cwd (docs_loc own d) = docs_dir cwd own @ [doc_name d]"
  by (cases own) (simp_all add: docs_loc_def docs_dir_def)

definition docs_in :: "key option \<Rightarrow> fs \<Rightarrow> int set" where
  "docs_in own fs = {d. doc_at fs (docs_loc own d) \<noteq> None}"

lemma file_canonical:
  assumes "sandbox_ok fs" "p \<in> fst ` set (fs_files fs)" "p \<noteq> []" "butlast p = docs_dir (fs_cwd fs) own"
  shows "canonical (last p)"
  using sandbox_okD(7) [OF assms(1,2)] under_box [OF assms(3)] under_shop [OF assms(3)] assms(4)
  by (cases own) (auto simp: file_ok_def docs_dir_def)

lemma docs_in_range: "sandbox_ok fs \<Longrightarrow> d \<in> docs_in own fs \<Longrightarrow> int32_range d"
proof -
  assume a: "sandbox_ok fs" "d \<in> docs_in own fs"
  then have "docs_dir (fs_cwd fs) own @ [doc_name d] \<in> fst ` set (fs_files fs)"
    by (simp only: docs_in_def mem_Collect_eq doc_at_set docs_loc_path)
  then have "canonical (doc_name d)" using file_canonical [OF a(1), of "docs_dir (fs_cwd fs) own @ [doc_name d]" own] by simp
  then show "int32_range d" by (metis canonicalE doc_name_inject)
qed

lemma dir_names_docs:
  assumes "sandbox_ok fs"
  shows "distinct (dir_names fs (docs_dir (fs_cwd fs) own))"
    and "set (dir_names fs (docs_dir (fs_cwd fs) own)) = doc_name ` docs_in own fs"
proof -
  let ?D = "docs_dir (fs_cwd fs) own" and ?q = "\<lambda>p. p \<noteq> [] \<and> butlast p = docs_dir (fs_cwd fs) own"
  let ?ps = "filter ?q (map fst (fs_files fs))"
  have "filter ?q (fs_dirs fs) = []"
    using no_dir_in [OF assms] by (cases own) (auto simp: filter_empty_conv docs_dir_def)
  then have names: "dir_names fs ?D = map last ?ps" by (simp add: dir_names_def)
  have last_inj: "p = p'" if "?q p" "?q p'" "last p = last p'" for p p'
    using that by (metis append_butlast_last_id)
  have "inj_on last (set ?ps)"
  proof (rule inj_onI)
    fix p p'
    assume "p \<in> set ?ps" "p' \<in> set ?ps" and l: "last p = last p'"
    then have "?q p" "?q p'" by simp_all
    then show "p = p'" using l by (rule last_inj)
  qed
  moreover have "distinct ?ps" using sandbox_okD(5) [OF assms] by simp
  ultimately show "distinct (dir_names fs ?D)" by (simp only: names distinct_map)
  show "set (dir_names fs ?D) = doc_name ` docs_in own fs"
  proof
    show "set (dir_names fs ?D) \<subseteq> doc_name ` docs_in own fs"
    proof
      fix n
      assume "n \<in> set (dir_names fs ?D)"
      then obtain p where p: "p \<in> fst ` set (fs_files fs)" "p \<noteq> []" "butlast p = ?D" "n = last p"
        by (auto simp: names)
      from file_canonical [OF assms p(1-3)] obtain d where d: "last p = doc_name d" by (rule canonicalE)
      have "p = ?D @ [doc_name d]" using p(2,3) d by (metis append_butlast_last_id)
      then have "d \<in> docs_in own fs" using p(1) by (simp only: docs_in_def mem_Collect_eq doc_at_set docs_loc_path)
      with p(4) d show "n \<in> doc_name ` docs_in own fs" by simp
    qed
    show "doc_name ` docs_in own fs \<subseteq> set (dir_names fs ?D)"
    proof
      fix n
      assume "n \<in> doc_name ` docs_in own fs"
      then obtain d where n: "n = doc_name d" and "doc_at fs (docs_loc own d) \<noteq> None"
        by (auto simp: docs_in_def)
      then have d: "n = doc_name d" "?D @ [doc_name d] \<in> fst ` set (fs_files fs)"
        by (simp_all only: doc_at_set docs_loc_path)
      then have "?D @ [doc_name d] \<in> set ?ps" by simp
      then have "last (?D @ [doc_name d]) \<in> last ` set ?ps" by (rule imageI)
      then show "n \<in> set (dir_names fs ?D)" by (simp only: names set_map last_snoc d(1))
    qed
  qed
qed

lemma finite_docs_in: "sandbox_ok fs \<Longrightarrow> finite (docs_in own fs)"
  by (rule finite_imageD [of doc_name]) (use dir_names_docs(2) [of fs own] in \<open>auto intro: inj_onI simp flip: dir_names_docs(2)\<close>)


lemma is_doc_name_dots: "\<not> is_doc_name ''.''" "\<not> is_doc_name ''..''"
  by (simp_all add: is_doc_name_def c_strncmp_eq_def)

lemma dir_names_docs_names:
  assumes "sandbox_ok fs" "n \<in> set (dir_names fs (docs_dir (fs_cwd fs) own))"
  shows "is_doc_name n" "n \<noteq> ''.''" "n \<noteq> ''..''" "canonical n"
proof -
  obtain d where d: "d \<in> docs_in own fs" "n = doc_name d" using assms by (auto simp: dir_names_docs(2))
  then show "is_doc_name n" "n \<noteq> ''.''" "n \<noteq> ''..''" "canonical n"
    using docs_in_range [OF assms(1) d(1)] doc_name_plain by simp_all
qed

lemma card_docs_in: "sandbox_ok fs \<Longrightarrow> card (docs_in own fs) = length (dir_names fs (docs_dir (fs_cwd fs) own))"
proof -
  assume ok: "sandbox_ok fs"
  have "card (docs_in own fs) = card (doc_name ` docs_in own fs)" by (simp add: card_image inj_on_def)
  then show ?thesis using dir_names_docs [OF ok, of own] distinct_card by metis
qed

lemma readdir_box:
  "sandbox_ok fs \<Longrightarrow> safe_key k \<Longrightarrow> has_box k fs \<Longrightarrow>
   sys_readdir (user_dir_path k) fs = Some (''.'' # ''..'' # dir_names fs (docs_dir (fs_cwd fs) (Some k)))"
  by (simp add: sys_readdir_def resolve_user_dir has_box_def docs_dir_def)

lemma sandbox_count_eq:
  assumes "sandbox_ok fs" "safe_key k" "has_box k fs"
  shows "sandbox_count k fs = int (card (docs_in (Some k) fs))"
proof -
  let ?ns = "dir_names fs (docs_dir (fs_cwd fs) (Some k))"
  have "filter is_doc_name (filter (\<lambda>n. \<not> (n = ''.'' \<or> n = ''..'')) ?ns) = ?ns"
    using dir_names_docs_names [OF assms(1)] by (simp add: filter_id_conv)
  then show ?thesis using assms by (simp add: sandbox_count_def readdir_box card_docs_in)
qed

section \<open>Listing\<close>

lemma list_loop_eq:
  "length out \<le> k \<Longrightarrow> list_loop key fs k out ns =
     take k (out @ List.map_filter (\<lambda>n. if n = ''.'' \<or> n = ''..'' \<or> \<not> is_doc_name n then None
        else map_option inven_item_of (sandbox_read_doc key (atoi (drop 4 n)) fs)) ns)"
proof (induction ns arbitrary: out)
  case (Cons n ns)
  show ?case
  proof (cases "length out < k")
    case True
    then show ?thesis using Cons.IH Cons.prems
      by (auto simp: map_filter_simps take_Cons' split: option.split)
  next
    case False
    with Cons.prems show ?thesis by simp
  qed
qed (simp add: map_filter_simps)

text \<open>The document a file holds.\<close>

definition doc_of :: "fs \<Rightarrow> key \<Rightarrow> int \<Rightarrow> doc_file" where
  "doc_of fs k d = doc_dec (case doc_at fs (Box k d) of None \<Rightarrow> [] | Some bs \<Rightarrow> take DOC_SIZE bs)"

definition box_readable :: "key \<Rightarrow> fs \<Rightarrow> bool" where
  "box_readable k fs \<longleftrightarrow> (\<forall>(p, f) \<in> set (fs_files fs). butlast p = box_dir (fs_cwd fs) k \<longrightarrow>
     DOC_SIZE \<le> length (f_bytes f) \<and> mode_has S_IRUSR (f_mode f))"

lemma read_doc_eq:
  assumes "sandbox_ok fs" "safe_key k" "has_box k fs" "box_readable k fs" "d \<in> docs_in (Some k) fs"
  shows "sandbox_read_doc k d fs = Some (doc_of fs k d)"
proof -
  have d: "int32_range d" using docs_in_range [OF assms(1,5)] .
  from assms(5) obtain f where f: "file_at fs (Box k d) = Some f"
    by (auto simp: docs_in_def docs_loc_def doc_at_def simp del: loc_path.simps)
  then have "(loc_path (fs_cwd fs) (Box k d), f) \<in> set (fs_files fs)" by (simp only: get_file_def map_of_SomeD)
  with assms(4) have "DOC_SIZE \<le> length (f_bytes f)" "mode_has S_IRUSR (f_mode f)"
    by (auto simp: box_readable_def butlast_append)
  with f show ?thesis
    by (simp add: sandbox_read_doc_def sys_read_file_def resolve_user_doc [OF assms(1,2) d] assms(3) doc_of_def
        doc_at_def del: loc_path.simps)
qed

lemma sandbox_list_eq:
  assumes "sandbox_ok fs" "safe_key k" "has_box k fs" "box_readable k fs"
  shows "sandbox_list k m fs = take m (map (\<lambda>n. inven_item_of (doc_of fs k (atoi (drop 4 n))))
    (dir_names fs (docs_dir (fs_cwd fs) (Some k))))"
proof -
  let ?ns = "dir_names fs (docs_dir (fs_cwd fs) (Some k))"
  let ?f = "\<lambda>n. if n = ''.'' \<or> n = ''..'' \<or> \<not> is_doc_name n then None
        else map_option inven_item_of (sandbox_read_doc k (atoi (drop 4 n)) fs)"
  have "?f n = Some (inven_item_of (doc_of fs k (atoi (drop 4 n))))" if "n \<in> set ?ns" for n
  proof -
    from that obtain d where d: "d \<in> docs_in (Some k) fs" "n = doc_name d"
      using dir_names_docs(2) [OF assms(1), of "Some k"] by auto
    then have "sandbox_read_doc k (atoi (drop 4 n)) fs = Some (doc_of fs k (atoi (drop 4 n)))"
      using read_doc_eq [OF assms d(1)] docs_in_range [OF assms(1) d(1)] by (simp add: atoi_doc_name)
    with dir_names_docs_names [OF assms(1) that] show ?thesis by simp
  qed
  then have "List.map_filter ?f ns = map (\<lambda>n. inven_item_of (doc_of fs k (atoi (drop 4 n)))) ns"
    if "set ns \<subseteq> set ?ns" for ns
    using that by (induction ns) (auto simp: map_filter_simps)
  from this [OF subset_refl] show ?thesis
    using readdir_box [OF assms(1-3)] by (simp add: sandbox_list_def list_loop_eq map_filter_simps is_doc_name_dots)
qed


section \<open>Purges\<close>

definition purged :: "key option \<Rightarrow> fs \<Rightarrow> fs" where
  "purged own fs = fs\<lparr>fs_files := filter (\<lambda>(p, f). \<not> (p \<noteq> [] \<and> butlast p = docs_dir (fs_cwd fs) own)) (fs_files fs)\<rparr>"

lemma purged_frame [simp]:
  "fs_cwd (purged own fs) = fs_cwd fs" "fs_dirs (purged own fs) = fs_dirs fs" "is_dir (purged own fs) p = is_dir fs p"
  "has_box k (purged own fs) = has_box k fs"
  by (simp_all add: purged_def)

lemma map_of_filter_key: "map_of (filter (\<lambda>(p, f). Q p) xs) p = (if Q p then map_of xs p else None)"
  by (induction xs) auto

lemma get_file_purged:
  "get_file (purged own fs) p = (if p \<noteq> [] \<and> butlast p = docs_dir (fs_cwd fs) own then None else get_file fs p)"
  using map_of_filter_key [of "\<lambda>p. \<not> (p \<noteq> [] \<and> butlast p = docs_dir (fs_cwd fs) own)" "fs_files fs" p]
  by (simp add: purged_def get_file_def)

lemma sandbox_ok_purged: "sandbox_ok fs \<Longrightarrow> sandbox_ok (purged own fs)"
proof -
  assume ok: "sandbox_ok fs"
  have "set (fs_files (purged own fs)) \<subseteq> set (fs_files fs)" by (auto simp: purged_def)
  then have "\<forall>p \<in> fst ` set (fs_files (purged own fs)). file_ok (fs_cwd fs) p \<and> \<not> is_dir fs p \<and> is_dir fs (butlast p)"
    using sandbox_okD(7) [OF ok] by blast
  moreover have "distinct (map fst (fs_files (purged own fs)))"
    using sandbox_okD(5) [OF ok] by (simp add: purged_def distinct_map_filter)
  ultimately show ?thesis using sandbox_okD(1-4,6) [OF ok] by (simp add: sandbox_ok_def Let_def)
qed

lemma purge_loop_eq:
  assumes "path \<noteq> []" "length path < 1000" "is_dir fs D"
  shows "resolve fs path = Some D \<Longrightarrow> \<forall>n \<in> set ns. \<exists>d. int32_range d \<and> n = doc_name d \<and> \<not> is_dir fs (D @ [n]) \<Longrightarrow>
    purge_loop path ns fs = fs\<lparr>fs_files := filter (\<lambda>(p, f). p \<notin> (\<lambda>n. D @ [n]) ` set ns) (fs_files fs)\<rparr>"
  using assms(3)
proof (induction ns arbitrary: fs)
  case Nil
  have "filter (\<lambda>(p, f). True) xs = xs" for xs :: "(path \<times> file_node) list" by (simp add: split_def)
  then show ?case by simp
next
  case (Cons n ns)
  then obtain d where d: "int32_range d" "n = doc_name d" "\<not> is_dir fs (D @ [n])" by auto
  have path: "c_snprintf 1024 (path @ ''/'' @ n) = path @ ''/'' @ n"
    using length_doc_name [OF d(1)] assms(2) d(2) by (intro c_snprintf_short) simp
  have "resolve fs (path @ ''/'' @ n) = Some (D @ [n])"
    using Cons.prems(1,3) assms(1) unfolding d(2) by (intro resolve_below doc_name_plain) auto
  then have res: "resolve fs (path @ CHR ''/'' # n) = Some (D @ [n])" by simp
  let ?fs = "fs\<lparr>fs_files := AList.delete (D @ [n]) (fs_files fs)\<rparr>"
  have unl: "snd (sys_unlink (path @ ''/'' @ n) fs) = ?fs"
  proof (cases "get_file fs (D @ [n])")
    case None
    then have "AList.delete (D @ [n]) (fs_files fs) = fs_files fs" by (simp add: get_file_None)
    with None show ?thesis by (simp add: sys_unlink_def res)
  next
    case (Some f)
    with d(3) show ?thesis by (simp add: sys_unlink_def res)
  qed
  have "purge_loop path ns ?fs = ?fs\<lparr>fs_files := filter (\<lambda>(p, f). p \<notin> (\<lambda>n. D @ [n]) ` set ns) (fs_files ?fs)\<rparr>"
    using Cons.prems by (intro Cons.IH) auto
  also have "filter (\<lambda>(p, f). p \<notin> (\<lambda>n. D @ [n]) ` set ns) (fs_files ?fs) =
      filter (\<lambda>(p, f). p \<notin> (\<lambda>n. D @ [n]) ` set (n # ns)) (fs_files fs)"
    by (auto simp: AList.delete_eq intro!: filter_cong)
  finally have "purge_loop path ns ?fs =
      fs\<lparr>fs_files := filter (\<lambda>(p, f). p \<notin> (\<lambda>n. D @ [n]) ` set (n # ns)) (fs_files fs)\<rparr>" by simp
  moreover have "purge_loop path (n # ns) fs = purge_loop path ns ?fs"
    unfolding purge_loop.simps(2) path unl by (simp add: d(2))
  ultimately show ?case by (simp only:)
qed

lemma purge_docs_in_eq:
  assumes "sandbox_ok fs" "resolve fs path = Some (docs_dir (fs_cwd fs) own)" "is_dir fs (docs_dir (fs_cwd fs) own)"
    "path \<noteq> []" "length path < 1000"
  shows "purge_docs_in path fs = purged own fs"
proof -
  let ?D = "docs_dir (fs_cwd fs) own" and ?ns = "dir_names fs (docs_dir (fs_cwd fs) own)"
  have ns: "\<forall>n \<in> set ?ns. \<exists>d. int32_range d \<and> n = doc_name d \<and> \<not> is_dir fs (?D @ [n])"
  proof
    fix n
    assume n: "n \<in> set ?ns"
    then obtain d where "int32_range d" "n = doc_name d"
      using dir_names_docs_names(4) [OF assms(1)] by (metis canonicalE)
    moreover have "\<not> is_dir fs (?D @ [doc_name d])" for d
      using not_dir_loc [OF assms(1), of "docs_loc own d"] by (simp add: docs_loc_path)
    ultimately show "\<exists>d. int32_range d \<and> n = doc_name d \<and> \<not> is_dir fs (?D @ [n])" by auto
  qed
  have member: "p \<notin> (\<lambda>n. ?D @ [n]) ` set ?ns \<longleftrightarrow> \<not> (p \<noteq> [] \<and> butlast p = ?D)"
    if pf: "(p, f) \<in> set (fs_files fs)" for p f
  proof (cases "p \<noteq> [] \<and> butlast p = ?D")
    case True
    then have "last p \<in> set ?ns" using pf by (force simp: dir_names_def)
    moreover have "p = ?D @ [last p]" using True by (metis append_butlast_last_id)
    ultimately show ?thesis using True by blast
  next
    case False
    then show ?thesis by auto
  qed
  have "filter (\<lambda>(p, f). p \<notin> (\<lambda>n. ?D @ [n]) ` set ?ns) (fs_files fs) =
      filter (\<lambda>(p, f). \<not> (p \<noteq> [] \<and> butlast p = ?D)) (fs_files fs)"
    by (rule filter_cong [OF refl]) (use member in auto)
  then have "fs\<lparr>fs_files := filter (\<lambda>(p, f). p \<notin> (\<lambda>n. ?D @ [n]) ` set ?ns) (fs_files fs)\<rparr> = purged own fs"
    by (simp add: purged_def)
  with purge_loop_eq [OF assms(4,5,3,2) ns] show ?thesis
    by (simp add: purge_docs_in_def sys_readdir_def assms(2,3) is_doc_name_dots)
qed

lemma sandbox_purge_user_eq:
  assumes "sandbox_ok fs" "safe_key k"
  shows "sandbox_purge_user k fs = (if has_box k fs then purged (Some k) fs else fs)"
proof (cases "has_box k fs")
  case True
  have "user_dir_path k = USERS_DIR @ ''/'' @ k" "length k < 32"
    using assms(2) by (simp_all add: user_dir_path_def safe_key_def USERS_DIR_def c_snprintf_short)
  then have "user_dir_path k \<noteq> []" "length (user_dir_path k) < 1000" by (simp_all add: USERS_DIR_def)
  with True purge_docs_in_eq [OF assms(1), of "user_dir_path k" "Some k"] resolve_user_dir [OF assms]
  show ?thesis by (simp add: sandbox_purge_user_def docs_dir_def has_box_def)
next
  case False
  then show ?thesis
    using resolve_user_dir [OF assms] by (simp add: sandbox_purge_user_def purge_docs_in_def sys_readdir_def has_box_def)
qed


lemma no_file_at_box:
  assumes "sandbox_ok fs"
  shows "get_file fs (box_dir (fs_cwd fs) k) = None"
proof (rule ccontr)
  assume "get_file fs (box_dir (fs_cwd fs) k) \<noteq> None"
  then have "box_dir (fs_cwd fs) k \<in> fst ` set (fs_files fs)" by (metis get_file_None)
  then have "file_ok (fs_cwd fs) (box_dir (fs_cwd fs) k)" using sandbox_okD(7) [OF assms] by blast
  moreover have "under (boxes_dir (fs_cwd fs)) (box_dir (fs_cwd fs) k)"
    by (simp add: under_def boxes_dir_def box_dir_def)
  ultimately have "box_dir (fs_cwd fs) k = box_dir (fs_cwd fs) (last (butlast (box_dir (fs_cwd fs) k))) @ [last (box_dir (fs_cwd fs) k)]"
    by (simp add: file_ok_def)
  from arg_cong [OF this, of length] show False by (simp add: length_dirs)
qed

lemma dir_ok_box: "safe_key k \<Longrightarrow> dir_ok cwd (box_dir cwd k)"
  by (auto simp: dir_ok_def under_def shop_dir_def box_dir_def)

lemma sandbox_user_init_eq:
  assumes "sandbox_ok fs" "safe_key k"
  shows "sandbox_user_init k fs =
    (True, if has_box k fs then fs else fs\<lparr>fs_dirs := fs_dirs fs @ [box_dir (fs_cwd fs) k]\<rparr>)"
  using no_file_at_box [OF assms(1), of k]
  by (simp add: sandbox_user_init_def ensure_dir_def sys_mkdir_def resolve_user_dir [OF assms] sys_exists_def has_box_def)

lemma sandbox_ok_user_init:
  assumes "sandbox_ok fs" "safe_key k"
  shows "sandbox_ok (snd (sandbox_user_init k fs))" "has_box k (snd (sandbox_user_init k fs))"
    "doc_at (snd (sandbox_user_init k fs)) = doc_at fs"
proof -
  have nofile: "p \<noteq> box_dir (fs_cwd fs) k" if "p \<in> fst ` set (fs_files fs)" for p
    using no_file_at_box [OF assms(1), of k] that unfolding get_file_None by blast
  show "sandbox_ok (snd (sandbox_user_init k fs))"
    using sandbox_okD [OF assms(1)] nofile dir_ok_box [OF assms(2)] assms
    by (simp add: sandbox_user_init_eq [OF assms] sandbox_ok_def Let_def is_dir_def)
  show "has_box k (snd (sandbox_user_init k fs))" by (simp add: sandbox_user_init_eq [OF assms] has_box_def is_dir_def)
  show "doc_at (snd (sandbox_user_init k fs)) = doc_at fs"
    by (simp add: sandbox_user_init_eq [OF assms] doc_at_def fun_eq_iff)
qed

lemma boxes_names:
  assumes "sandbox_ok fs"
  shows "n \<in> set (dir_names fs (boxes_dir (fs_cwd fs))) \<longleftrightarrow> has_box n fs"
    and "has_box n fs \<Longrightarrow> safe_key n"
proof -
  have safe: "safe_key n" if "has_box n fs" for n
    using sandbox_okD(6) [OF assms, of "box_dir (fs_cwd fs) n"] that
    by (auto simp: has_box_def is_dir_def dir_ok_def under_def box_dir_def boxes_dir_def)
  then show "has_box n fs \<Longrightarrow> safe_key n" .
  have nofile: "butlast p \<noteq> boxes_dir (fs_cwd fs)" if "p \<in> fst ` set (fs_files fs)" "p \<noteq> []" for p
  proof
    assume b: "butlast p = boxes_dir (fs_cwd fs)"
    then have p: "p = boxes_dir (fs_cwd fs) @ [last p]" using that(2) by (metis append_butlast_last_id)
    then have "under (boxes_dir (fs_cwd fs)) p" by (metis under_append)
    with sandbox_okD(7) [OF assms that(1)] have "p = box_dir (fs_cwd fs) (last (butlast p)) @ [last p]"
      by (simp add: file_ok_def)
    from arg_cong [OF this, of length] have "length p = length (fs_cwd fs) + 4" by (simp add: length_dirs)
    moreover have "length p = length (fs_cwd fs) + 3" using arg_cong [OF p, of length] by (simp add: length_dirs)
    ultimately show False by simp
  qed
  show "n \<in> set (dir_names fs (boxes_dir (fs_cwd fs))) \<longleftrightarrow> has_box n fs"
  proof
    assume "n \<in> set (dir_names fs (boxes_dir (fs_cwd fs)))"
    then obtain p where p: "p \<in> set (fs_dirs fs) \<or> p \<in> fst ` set (fs_files fs)" "p \<noteq> []"
      "butlast p = boxes_dir (fs_cwd fs)" "n = last p"
      by (auto simp: dir_names_def)
    then have eq: "p = box_dir (fs_cwd fs) n" by (metis append_butlast_last_id boxes_simp)
    from p(1,2,3) nofile have "p \<in> set (fs_dirs fs)" by blast
    then show "has_box n fs" by (simp only: has_box_def is_dir_def eq)
  next
    assume "has_box n fs"
    then have "box_dir (fs_cwd fs) n \<in> set (fs_dirs fs)" by (simp add: has_box_def is_dir_def)
    moreover have "butlast (box_dir (fs_cwd fs) n) = boxes_dir (fs_cwd fs)" "last (box_dir (fs_cwd fs) n) = n"
      "box_dir (fs_cwd fs) n \<noteq> []"
      by (simp_all add: box_dir_def boxes_dir_def butlast_append)
    ultimately have "last (box_dir (fs_cwd fs) n) \<in>
        last ` {p \<in> set (fs_dirs fs). p \<noteq> [] \<and> butlast p = boxes_dir (fs_cwd fs)}"
      by (intro imageI) simp
    with \<open>last (box_dir (fs_cwd fs) n) = n\<close> show "n \<in> set (dir_names fs (boxes_dir (fs_cwd fs)))"
      by (simp add: dir_names_def)
  qed
qed

lemma reset_dirs_loop_eq:
  "sandbox_ok fs \<Longrightarrow> \<forall>n \<in> set ns. has_box n fs \<or> n = ''.'' \<or> n = ''..'' \<Longrightarrow>
   reset_dirs_loop ns fs = fold (\<lambda>k. purged (Some k)) (filter (\<lambda>n. has_box n fs) ns) fs"
proof (induction ns arbitrary: fs)
  case (Cons n ns)
  show ?case
  proof (cases "has_box n fs")
    case True
    have safe: "safe_key n" by (rule boxes_names(2) [OF Cons.prems(1) True])
    then have path: "c_snprintf 512 (USERS_DIR @ ''/'' @ n) = user_dir_path n" "n \<noteq> ''.''" "n \<noteq> ''..''"
      by (simp_all add: user_dir_path_def safe_key_def)
    have "sys_stat_dir (user_dir_path n) fs"
      using True by (simp add: sys_stat_dir_def resolve_user_dir [OF Cons.prems(1) safe] has_box_def)
    moreover have "purge_docs_in (user_dir_path n) fs = purged (Some n) fs"
      using sandbox_purge_user_eq [OF Cons.prems(1) safe] True by (simp add: sandbox_purge_user_def)
    moreover have "reset_dirs_loop ns (purged (Some n) fs) =
        fold (\<lambda>k. purged (Some k)) (filter (\<lambda>n. has_box n (purged (Some n) fs)) ns) (purged (Some n) fs)"
      using Cons.IH [OF sandbox_ok_purged [OF Cons.prems(1)], of "Some n"] Cons.prems(2) by simp
    ultimately show ?thesis
      using True path(2,3) unfolding reset_dirs_loop.simps(2) path(1) Let_def by simp
  next
    case False
    with Cons show ?thesis by auto
  qed
qed simp


lemma fold_purged:
  "fs_cwd (fold (\<lambda>k. purged (Some k)) ks fs) = fs_cwd fs"
  "fs_dirs (fold (\<lambda>k. purged (Some k)) ks fs) = fs_dirs fs"
  "get_file (fold (\<lambda>k. purged (Some k)) ks fs) p =
     (if p \<noteq> [] \<and> (\<exists>k \<in> set ks. butlast p = box_dir (fs_cwd fs) k) then None else get_file fs p)"
  "sandbox_ok fs \<Longrightarrow> sandbox_ok (fold (\<lambda>k. purged (Some k)) ks fs)"
  by (induction ks arbitrary: fs) (auto simp: get_file_purged docs_dir_def sandbox_ok_purged)

lemma sandbox_global_reset_eq:
  assumes "sandbox_ok fs"
  shows "sandbox_ok (sandbox_global_reset fs)" "fs_dirs (sandbox_global_reset fs) = fs_dirs fs"
    "fs_cwd (sandbox_global_reset fs) = fs_cwd fs"
    "get_file (sandbox_global_reset fs) p =
       (if p \<noteq> [] \<and> (butlast p = shop_dir (fs_cwd fs) \<or> (\<exists>k. has_box k fs \<and> butlast p = box_dir (fs_cwd fs) k))
        then None else get_file fs p)"
proof -
  let ?fs1 = "purged None fs" and ?ns = "dir_names fs (boxes_dir (fs_cwd fs))"
  have ok1: "sandbox_ok ?fs1" using assms by (rule sandbox_ok_purged)
  have p1: "purge_docs_in MASTER_DIR fs = ?fs1"
    using assms sandbox_okD(3) [OF assms] resolve_master_dir [OF assms]
    by (intro purge_docs_in_eq) (simp_all add: docs_dir_def MASTER_DIR_def)
  have names: "set (dir_names ?fs1 (boxes_dir (fs_cwd ?fs1))) = {k. has_box k fs}"
    using boxes_names(1) [OF ok1] by auto
  have dots: "\<not> has_box ''.'' ?fs1" "\<not> has_box ''..'' ?fs1"
    using boxes_names(2) [OF ok1] by (auto simp: safe_key_def)
  define ks where "ks = filter (\<lambda>n. has_box n ?fs1) (''.'' # ''..'' # dir_names ?fs1 (boxes_dir (fs_cwd ?fs1)))"
  have ks: "set ks = {k. has_box k fs}" using names dots by (auto simp: ks_def)
  have "reset_dirs_loop (''.'' # ''..'' # dir_names ?fs1 (boxes_dir (fs_cwd ?fs1))) ?fs1 =
      fold (\<lambda>k. purged (Some k)) ks ?fs1"
    unfolding ks_def using names by (intro reset_dirs_loop_eq [OF ok1]) auto
  moreover have "sys_readdir USERS_DIR ?fs1 = Some (''.'' # ''..'' # dir_names ?fs1 (boxes_dir (fs_cwd ?fs1)))"
    using resolve_users_dir [OF ok1] sandbox_okD(4) [OF ok1] by (simp add: sys_readdir_def)
  ultimately have eq: "sandbox_global_reset fs = fold (\<lambda>k. purged (Some k)) ks ?fs1"
    by (simp add: sandbox_global_reset_def p1 Let_def)
  show "sandbox_ok (sandbox_global_reset fs)" "fs_dirs (sandbox_global_reset fs) = fs_dirs fs"
    "fs_cwd (sandbox_global_reset fs) = fs_cwd fs"
    by (simp_all add: eq fold_purged ok1)
  show "get_file (sandbox_global_reset fs) p =
       (if p \<noteq> [] \<and> (butlast p = shop_dir (fs_cwd fs) \<or> (\<exists>k. has_box k fs \<and> butlast p = box_dir (fs_cwd fs) k))
        then None else get_file fs p)"
    by (auto simp: eq fold_purged get_file_purged docs_dir_def ks)
qed

lemma doc_at_has_box:
  assumes "sandbox_ok fs" "doc_at fs (Box k d) \<noteq> None"
  shows "has_box k fs"
proof -
  have "loc_path (fs_cwd fs) (Box k d) \<in> fst ` set (fs_files fs)" using assms(2) by (simp only: doc_at_set)
  then have "is_dir fs (butlast (loc_path (fs_cwd fs) (Box k d)))" using sandbox_okD(7) [OF assms(1)] by blast
  then show ?thesis by (simp only: butlast_loc has_box_def)
qed

section \<open>Correctness\<close>

definition sample_doc :: doc_file where
  "sample_doc = \<lparr>df_doc_id = 124, df_tags = 18, df_base_price = 800, df_name = cbuf 64 ''report''\<rparr>"

definition sample_fs :: fs where
  "sample_fs = \<lparr>fs_cwd = [''srv''], fs_dirs = [[''srv''], [''srv'', ''data''], [''srv'', ''data'', ''master''],
     [''srv'', ''data'', ''users''], [''srv'', ''data'', ''users'', ''neo''], [''srv'', ''data'', ''users'', ''trinity'']],
     fs_files = [([''srv'', ''data'', ''master'', doc_name 124], \<lparr>f_bytes = doc_enc sample_doc, f_mode = 420\<rparr>)]\<rparr>"

lemma sample_safe [simp]: "safe_key ''neo''" "safe_key ''trinity''"
  by (simp_all add: safe_key_def no_nul_def)

lemma sample_fs_ok: "sandbox_ok sample_fs"
  by (simp add: sample_fs_def sandbox_ok_def Let_def is_dir_def data_dir_def shop_dir_def boxes_dir_def box_dir_def
      dir_ok_def file_ok_def under_def int32_range_def)

lemma sample_fs_sel [simp]: "has_box ''neo'' sample_fs" "has_box ''trinity'' sample_fs"
    "doc_at sample_fs (Shop 124) = Some (doc_enc sample_doc)"
  by (simp_all add: sample_fs_def has_box_def is_dir_def box_dir_def doc_at_def get_file_def shop_dir_def)

lemma sample_docs: "doc_at sample_fs l \<noteq> None \<longleftrightarrow> l = Shop 124"
proof -
  have "fs_files sample_fs = [(loc_path (fs_cwd sample_fs) (Shop 124), \<lparr>f_bytes = doc_enc sample_doc, f_mode = 420\<rparr>)]"
    by (simp add: sample_fs_def shop_dir_def)
  then show ?thesis unfolding doc_at_set by (simp del: loc_path.simps)
qed

text \<open>Buying moves the document: on success the shop no longer has it, the buyer's box has the same
  bytes read-only, and every other file is untouched; when the shop does not have it or the buyer has no
  sandbox, the call fails and nothing changes.\<close>
theorem sandbox_buy_moves:
  assumes "sandbox_ok fs" "safe_key k" "int32_range d"
  shows "(case doc_at fs (Shop d) of
      None \<Rightarrow> sandbox_buy k d fs = (False, fs)
    | Some bs \<Rightarrow>
        if \<not> has_box k fs then sandbox_buy k d fs = (False, fs)
        else \<exists>fs'. sandbox_buy k d fs = (True, fs') \<and> sandbox_ok fs' \<and>
          doc_at fs' = (doc_at fs)(Shop d := None, Box k d \<mapsto> bs) \<and>
          map_option f_mode (get_file fs' (loc_path (fs_cwd fs) (Box k d))) = Some 256 \<and>
          (\<forall>p. p = loc_path (fs_cwd fs) (Shop d) \<or> p = loc_path (fs_cwd fs) (Box k d) \<or>
             get_file fs' p = get_file fs p))"
proof (cases "doc_at fs (Shop d)")
  case None
  then show ?thesis using box.buy_none [OF assms] by simp
next
  case (Some bs)
  show ?thesis
  proof (cases "has_box k fs")
    case False
    with Some show ?thesis using box.buy_none [OF assms] by simp
  next
    case True
    obtain fs' where fs': "sandbox_buy k d fs = (True, fs')" "sandbox_ok fs'"
      "doc_at fs' = (doc_at fs)(Shop d := None, Box k d \<mapsto> bs)"
      using box.buy_some [OF assms True Some] by blast
    from Some obtain f where "file_at fs (Shop d) = Some f" by (auto simp: doc_at_def)
    then have "fs' = place_file (drop_file fs (Shop d)) (Box k d) (f\<lparr>f_mode := 256\<rparr>)"
      using sandbox_buy_eq [OF assms] fs'(1) True by simp
    then have "map_option f_mode (get_file fs' (loc_path (fs_cwd fs) (Box k d))) = Some 256"
      "p = loc_path (fs_cwd fs) (Shop d) \<or> p = loc_path (fs_cwd fs) (Box k d) \<or> get_file fs' p = get_file fs p" for p
      by (simp_all add: get_file_def update_conv' delete_conv' del: loc_path.simps)
    with Some True fs' show ?thesis by (auto simp del: loc_path.simps)
  qed
qed

theorem sandbox_buy_moves_witness:
  "\<exists>fs'. sandbox_buy ''neo'' 124 sample_fs = (True, fs') \<and> doc_at fs' (Box ''neo'' 124) = Some (doc_enc sample_doc) \<and>
     doc_at fs' (Shop 124) = None"
proof -
  have "int32_range 124" by (simp add: int32_range_def)
  from sandbox_buy_moves [OF sample_fs_ok sample_safe(1) this] show ?thesis by auto
qed


text \<open>A document exists once: buying, disposing of, withdrawing and publishing a new identifier all keep
  at most one copy of each document, and a document that was bought cannot be bought again by anyone.\<close>
theorem documents_have_one_copy:
  assumes "sandbox_ok fs" "one_copy (doc_at fs)" "safe_key k" "safe_key k'" "int32_range d" "doc_ok doc" "DOC_SIZE \<le> w"
  shows "one_copy (doc_at (snd (sandbox_buy k d fs))) \<and> one_copy (doc_at (snd (sandbox_dispose k d fs))) \<and>
    one_copy (doc_at (snd (master_remove_doc d fs))) \<and>
    ((\<forall>l. loc_id l = df_doc_id doc \<longrightarrow> doc_at fs l = None) \<longrightarrow> one_copy (doc_at (snd (master_write_doc w doc fs)))) \<and>
    (fst (sandbox_buy k d fs) \<longrightarrow> \<not> fst (sandbox_buy k' d (snd (sandbox_buy k d fs))))"
proof (intro conjI impI)
  show "one_copy (doc_at (snd (sandbox_buy k d fs)))" by (rule box.buy_one_copy [OF assms(1,3,5,2)])
  show "one_copy (doc_at (snd (sandbox_dispose k d fs)))" by (rule box.dispose_one_copy [OF assms(1,3,5,2)])
  show "one_copy (doc_at (snd (master_remove_doc d fs)))" by (rule box.withdraw_one_copy [OF assms(1,5,2)])
next
  assume fresh: "\<forall>l. loc_id l = df_doc_id doc \<longrightarrow> doc_at fs l = None"
  then have none: "doc_at fs (Shop (df_doc_id doc)) = None" by simp
  obtain f where "master_write_doc w doc fs = (True, place_file fs (Shop (df_doc_id doc)) f)"
    using master_write_eq [OF assms(1,6,7)] none by (auto simp: doc_at_None simp del: loc_path.simps)
  then have "doc_at (snd (master_write_doc w doc fs)) = (doc_at fs)(Shop (df_doc_id doc) \<mapsto> f_bytes f)"
    by (simp add: doc_at_place del: loc_path.simps)
  then show "one_copy (doc_at (snd (master_write_doc w doc fs)))"
    using fresh by (simp only:) (rule one_copy_fresh [OF assms(2)], simp)
next
  assume "fst (sandbox_buy k d fs)"
  then have "sandbox_buy k d fs = (True, snd (sandbox_buy k d fs))" by (metis prod.collapse)
  then show "\<not> fst (sandbox_buy k' d (snd (sandbox_buy k d fs)))"
    using box.buy_once [OF assms(1,3,5) _ assms(4)] by simp
qed

theorem documents_have_one_copy_witness:
  "\<not> fst (sandbox_buy ''trinity'' 124 (snd (sandbox_buy ''neo'' 124 sample_fs)))"
proof -
  have r: "int32_range 124" by (simp add: int32_range_def)
  have "doc_ok sample_doc" by (simp add: sample_doc_def doc_ok_def int32_range_def)
  have "one_copy (doc_at sample_fs)" using sample_docs by (simp add: one_copy_def)
  moreover have "fst (sandbox_buy ''neo'' 124 sample_fs)"
    using box.buy_some [OF sample_fs_ok sample_safe(1) r sample_fs_sel(1,3), of "''neo''"] by auto
  ultimately show ?thesis
    using documents_have_one_copy [OF sample_fs_ok _ sample_safe r \<open>doc_ok sample_doc\<close> order_refl] by blast
qed

lemma doc_dec_enc: "doc_ok d \<Longrightarrow> doc_dec (doc_enc d) = d \<and> length (doc_enc d) = DOC_SIZE"
  by (simp add: doc_ok_def doc_dec_def doc_enc_def bytes_at_def)

text \<open>What is published is what the buyer reads: after \<open>master_write_doc\<close> and \<open>sandbox_buy\<close>,
  \<open>sandbox_read_doc\<close> gives the buyer exactly the published document.\<close>
theorem publish_buy_read:
  assumes "sandbox_ok fs" "safe_key k" "has_box k fs" "doc_ok doc" "DOC_SIZE \<le> w"
    and "doc_at fs (Shop (df_doc_id doc)) = None"
  shows "\<exists>fs1 fs2. master_write_doc w doc fs = (True, fs1) \<and> sandbox_buy k (df_doc_id doc) fs1 = (True, fs2) \<and>
    sandbox_has k (df_doc_id doc) fs2 \<and> sandbox_read_doc k (df_doc_id doc) fs2 = Some doc"
proof -
  let ?d = "df_doc_id doc"
  have d: "int32_range ?d" using assms(4) by (simp add: doc_ok_def)
  obtain f where f: "master_write_doc w doc fs = (True, place_file fs (Shop ?d) f)" "f_bytes f = doc_enc doc"
    using master_write_eq [OF assms(1,4,5)] assms(6) by (auto simp: doc_at_None simp del: loc_path.simps)
  let ?fs1 = "place_file fs (Shop ?d) f"
  let ?fs2 = "place_file (drop_file ?fs1 (Shop ?d)) (Box k ?d) (f\<lparr>f_mode := 256\<rparr>)"
  have ok1: "sandbox_ok ?fs1"
    using sandbox_ok_place [OF assms(1), of "Shop ?d" f] d sandbox_okD(3) [OF assms(1)] by (simp add: butlast_append)
  have "file_at ?fs1 (Shop ?d) = Some f" by (simp add: get_file_update del: loc_path.simps)
  then have buy: "sandbox_buy k ?d ?fs1 = (True, ?fs2)"
    using sandbox_buy_eq [OF ok1 assms(2) d] assms(3) by (simp del: loc_path.simps)
  have ok2: "sandbox_ok ?fs2"
    using sandbox_ok_place [OF sandbox_ok_drop [OF ok1, of "Shop ?d"], of "Box k ?d" "f\<lparr>f_mode := 256\<rparr>"] d assms(3)
    by (simp add: butlast_append has_box_def)
  have at2: "file_at ?fs2 (Box k ?d) = Some (f\<lparr>f_mode := 256\<rparr>)" by (simp add: get_file_update_any del: loc_path.simps)
  have "sandbox_has k ?d ?fs2"
    using at2 sandbox_has_eq [OF ok2 assms(2) d] assms(3) by (simp add: doc_at_def del: loc_path.simps)
  moreover have "sandbox_read_doc k ?d ?fs2 = Some doc"
    using at2 resolve_user_doc [OF ok2 assms(2) d] assms(3) f(2) doc_dec_enc [OF assms(4)]
    by (simp add: sandbox_read_doc_def sys_read_file_def mode_has_def del: loc_path.simps)
  ultimately show ?thesis using f(1) buy by (simp only:) blast
qed

theorem publish_buy_read_witness:
  "\<exists>fs1 fs2. master_write_doc 76 (sample_doc\<lparr>df_doc_id := 7\<rparr>) sample_fs = (True, fs1) \<and>
     sandbox_buy ''neo'' 7 fs1 = (True, fs2) \<and> sandbox_read_doc ''neo'' 7 fs2 = Some (sample_doc\<lparr>df_doc_id := 7\<rparr>)"
proof -
  have "doc_ok (sample_doc\<lparr>df_doc_id := 7\<rparr>)" by (simp add: sample_doc_def doc_ok_def int32_range_def)
  moreover have "doc_at sample_fs (Shop (df_doc_id (sample_doc\<lparr>df_doc_id := 7\<rparr>))) = None"
    by (simp add: sample_fs_def doc_at_def get_file_def shop_dir_def)
  ultimately show ?thesis
    using publish_buy_read [OF sample_fs_ok sample_safe(1) sample_fs_sel(1), of _ 76] by fastforce
qed


lemma sandbox_list_ids:
  assumes "sandbox_ok fs" "safe_key k" "has_box k fs" "box_readable k fs"
    and "\<forall>d \<in> docs_in (Some k) fs. df_doc_id (doc_of fs k d) = d"
  shows "sandbox_count k fs = int (card (docs_in (Some k) fs)) \<and>
    length (sandbox_list k m fs) = min m (card (docs_in (Some k) fs)) \<and>
    distinct (map ii_doc_id (sandbox_list k m fs)) \<and>
    set (map ii_doc_id (sandbox_list k m fs)) \<subseteq> docs_in (Some k) fs \<and>
    (card (docs_in (Some k) fs) \<le> m \<longrightarrow> set (map ii_doc_id (sandbox_list k m fs)) = docs_in (Some k) fs)"
proof -
  let ?ns = "dir_names fs (docs_dir (fs_cwd fs) (Some k))"
  let ?id = "\<lambda>n. atoi (drop 4 n)"
  have id: "ii_doc_id (inven_item_of (doc_of fs k (?id n))) = ?id n \<and> ?id n \<in> docs_in (Some k) fs" if "n \<in> set ?ns" for n
  proof -
    from that obtain d where d: "d \<in> docs_in (Some k) fs" "n = doc_name d"
      using dir_names_docs(2) [OF assms(1), of "Some k"] by auto
    then show ?thesis using assms(5) docs_in_range [OF assms(1) d(1)] by (simp add: inven_item_of_def atoi_doc_name)
  qed
  have "inj_on ?id (set ?ns)"
    using dir_names_docs_names(4) [OF assms(1)] unfolding canonical_def by (intro inj_onI) metis
  then have dist: "distinct (map ?id ?ns)" using dir_names_docs(1) [OF assms(1), of "Some k"] by (simp add: distinct_map)
  have "set (map ?id ?ns) = ?id ` doc_name ` docs_in (Some k) fs"
    using dir_names_docs(2) [OF assms(1), of "Some k"] by simp
  also have "\<dots> = docs_in (Some k) fs"
    using docs_in_range [OF assms(1)] by (force simp: image_image atoi_doc_name)
  finally have set_ids: "set (map ?id ?ns) = docs_in (Some k) fs" .
  have "map ii_doc_id (map (\<lambda>n. inven_item_of (doc_of fs k (?id n))) ?ns) = map ?id ?ns"
    using id by simp
  then have ids: "map ii_doc_id (sandbox_list k m fs) = take m (map ?id ?ns)"
    by (simp only: sandbox_list_eq [OF assms(1-4)] take_map [symmetric])
  moreover have "length (sandbox_list k m fs) = min m (card (docs_in (Some k) fs))"
    by (simp add: sandbox_list_eq [OF assms(1-4)] card_docs_in [OF assms(1)] min.commute)
  moreover have "card (docs_in (Some k) fs) \<le> m \<Longrightarrow> take m (map ?id ?ns) = map ?id ?ns"
    by (simp add: card_docs_in [OF assms(1)])
  ultimately show ?thesis
    using dist set_ids sandbox_count_eq [OF assms(1-3)] set_take_subset [of m "map ?id ?ns"]
    by (auto simp only: distinct_take)
qed

text \<open>The box of a user and its listing agree: \<open>sandbox_count\<close> is the number of documents owned, and
  \<open>sandbox_list\<close> shows owned documents only, each once, as many as fit, hence all of them when they fit.\<close>
theorem sandbox_list_exact:
  assumes "sandbox_ok fs" "safe_key k" "has_box k fs" "box_readable k fs"
    and "\<forall>d \<in> docs_in (Some k) fs. df_doc_id (doc_of fs k d) = d"
  shows "sandbox_count k fs = int (card (docs_in (Some k) fs)) \<and>
    length (sandbox_list k m fs) = min m (card (docs_in (Some k) fs)) \<and>
    distinct (map ii_doc_id (sandbox_list k m fs)) \<and>
    set (map ii_doc_id (sandbox_list k m fs)) \<subseteq> docs_in (Some k) fs \<and>
    (card (docs_in (Some k) fs) \<le> m \<longrightarrow> set (map ii_doc_id (sandbox_list k m fs)) = docs_in (Some k) fs)"
  by (rule sandbox_list_ids [OF assms])

definition sample_fs_bought :: fs where
  "sample_fs_bought = sample_fs\<lparr>fs_files := [([''srv'', ''data'', ''users'', ''neo'', doc_name 124],
     \<lparr>f_bytes = doc_enc sample_doc, f_mode = 256\<rparr>)]\<rparr>"

lemma sample_bought:
  "sandbox_ok sample_fs_bought" "has_box ''neo'' sample_fs_bought" "box_readable ''neo'' sample_fs_bought"
  "docs_in (Some ''neo'') sample_fs_bought = {124}" "doc_of sample_fs_bought ''neo'' 124 = sample_doc"
proof -
  have doc: "doc_ok sample_doc" by (simp add: sample_doc_def doc_ok_def int32_range_def)
  show "sandbox_ok sample_fs_bought"
    by (simp add: sample_fs_bought_def sample_fs_def sandbox_ok_def Let_def is_dir_def data_dir_def shop_dir_def
        boxes_dir_def box_dir_def dir_ok_def file_ok_def under_def int32_range_def)
  show "has_box ''neo'' sample_fs_bought" by (simp add: sample_fs_bought_def sample_fs_def has_box_def is_dir_def box_dir_def)
  show "box_readable ''neo'' sample_fs_bought"
    using doc_dec_enc [OF doc] by (simp add: sample_fs_bought_def box_readable_def mode_has_def)
  show "docs_in (Some ''neo'') sample_fs_bought = {124}"
    by (auto simp: docs_in_def docs_loc_def sample_fs_bought_def sample_fs_def doc_at_def get_file_def box_dir_def)
  show "doc_of sample_fs_bought ''neo'' 124 = sample_doc"
    using doc_dec_enc [OF doc]
    by (simp add: doc_of_def sample_fs_bought_def sample_fs_def doc_at_def get_file_def box_dir_def)
qed

theorem sandbox_list_exact_witness:
  "sandbox_count ''neo'' sample_fs_bought = 1 \<and> set (map ii_doc_id (sandbox_list ''neo'' 7 sample_fs_bought)) = {124}"
proof -
  have "\<forall>d \<in> docs_in (Some ''neo'') sample_fs_bought. df_doc_id (doc_of sample_fs_bought ''neo'' d) = d"
    by (simp add: sample_bought(4,5)) (simp add: sample_doc_def)
  from sandbox_list_exact [OF sample_bought(1) sample_safe(1) sample_bought(2,3) this, of 7] show ?thesis
    by (simp add: sample_bought(4))
qed

text \<open>The round reset leaves no document in the shop or in any box, keeps every directory, and touches
  no file outside them.\<close>
theorem sandbox_global_reset_clean:
  assumes "sandbox_ok fs"
  shows "sandbox_ok (sandbox_global_reset fs) \<and> doc_at (sandbox_global_reset fs) = Map.empty \<and>
    fs_dirs (sandbox_global_reset fs) = fs_dirs fs \<and>
    (\<forall>p. \<not> under (shop_dir (fs_cwd fs)) p \<longrightarrow> \<not> under (boxes_dir (fs_cwd fs)) p \<longrightarrow>
       get_file (sandbox_global_reset fs) p = get_file fs p)"
proof (intro conjI)
  note eq = sandbox_global_reset_eq [OF assms]
  show "sandbox_ok (sandbox_global_reset fs)" "fs_dirs (sandbox_global_reset fs) = fs_dirs fs" by (rule eq)+
  have "doc_at (sandbox_global_reset fs) l = None" for l
  proof (cases l)
    case (Shop d)
    then show ?thesis by (simp add: doc_at_None eq butlast_append)
  next
    case (Box k d)
    show ?thesis
    proof (cases "has_box k fs")
      case True
      then have "loc_path (fs_cwd fs) (Box k d) \<noteq> [] \<and> butlast (loc_path (fs_cwd fs) (Box k d)) = box_dir (fs_cwd fs) k"
        by (simp add: butlast_append)
      with True Box show ?thesis unfolding doc_at_None eq(3) eq(4) by auto
    next
      case False
      then have "doc_at fs (Box k d) = None" using doc_at_has_box [OF assms] by blast
      then show ?thesis unfolding Box doc_at_None eq(3) eq(4) by simp
    qed
  qed
  then show "doc_at (sandbox_global_reset fs) = Map.empty" by auto
  show "\<forall>p. \<not> under (shop_dir (fs_cwd fs)) p \<longrightarrow> \<not> under (boxes_dir (fs_cwd fs)) p \<longrightarrow>
       get_file (sandbox_global_reset fs) p = get_file fs p"
    using under_box under_shop by (auto simp: eq(4))
qed

theorem sandbox_global_reset_clean_witness:
  "doc_at sample_fs_bought (Box ''neo'' 124) \<noteq> None \<and> doc_at (sandbox_global_reset sample_fs_bought) = Map.empty"
  using sandbox_global_reset_clean [OF sample_bought(1)] sample_bought(4)
  by (auto simp: docs_in_def docs_loc_def)

lemma sandbox_purge_user_at:
  assumes "sandbox_ok fs" "safe_key k"
  shows "sandbox_ok (sandbox_purge_user k fs) \<and> docs_in (Some k) (sandbox_purge_user k fs) = {} \<and>
    doc_at (sandbox_purge_user k fs) = (\<lambda>l. case l of Box k' d \<Rightarrow> if k' = k then None else doc_at fs l | Shop d \<Rightarrow> doc_at fs l)"
proof -
  have at: "doc_at (sandbox_purge_user k fs) l =
      (case l of Box k' d \<Rightarrow> if k' = k then None else doc_at fs l | Shop d \<Rightarrow> doc_at fs l)" for l
  proof (cases "has_box k fs")
    case True
    then show ?thesis
      by (cases l) (auto simp: sandbox_purge_user_eq [OF assms] doc_at_def get_file_purged docs_dir_def butlast_append
          shop_dir_def box_dir_def)
  next
    case False
    then have "doc_at fs (Box k d) = None" for d using doc_at_has_box [OF assms(1)] by blast
    with False show ?thesis by (cases l) (auto simp: sandbox_purge_user_eq [OF assms])
  qed
  moreover have "sandbox_ok (sandbox_purge_user k fs)"
    by (simp add: sandbox_purge_user_eq [OF assms] sandbox_ok_purged assms(1))
  ultimately show ?thesis by (simp add: fun_eq_iff docs_in_def docs_loc_def)
qed

lemma sandbox_purge_user_docs:
  assumes "sandbox_ok fs" "safe_key k"
  shows "sandbox_ok (sandbox_purge_user k fs)" "docs_in (Some k) (sandbox_purge_user k fs) = {}"
    "k' \<noteq> k \<Longrightarrow> docs_in (Some k') (sandbox_purge_user k fs) = docs_in (Some k') fs"
    "docs_in None (sandbox_purge_user k fs) = docs_in None fs"
  using sandbox_purge_user_at [OF assms] by (simp_all add: docs_in_def docs_loc_def)

text \<open>Purging one user removes that user's documents and nothing else.\<close>
theorem sandbox_purge_user_exact:
  assumes "sandbox_ok fs" "safe_key k"
  shows "sandbox_ok (sandbox_purge_user k fs) \<and> docs_in (Some k) (sandbox_purge_user k fs) = {} \<and>
    doc_at (sandbox_purge_user k fs) = (\<lambda>l. case l of Box k' d \<Rightarrow> if k' = k then None else doc_at fs l | Shop d \<Rightarrow> doc_at fs l)"
  by (rule sandbox_purge_user_at [OF assms])

theorem sandbox_purge_user_exact_witness:
  "docs_in (Some ''neo'') (sandbox_purge_user ''neo'' sample_fs_bought) = {} \<and>
   docs_in (Some ''neo'') (sandbox_purge_user ''trinity'' sample_fs_bought) = {124}"
  using sandbox_purge_user_exact [OF sample_bought(1) sample_safe(1)]
    sandbox_purge_user_exact [OF sample_bought(1) sample_safe(2)] sample_bought(4)
  by (simp add: docs_in_def docs_loc_def)


section \<open>Keys that are not one path component\<close>

text \<open>
  Login accepts any key of 1 to 31 bytes. The key \<open>../master\<close> makes the shop itself its sandbox.
\<close>

definition master_key :: key where
  "master_key = ''../master''"

lemma resolve_master_key_doc:
  assumes "sandbox_ok fs" "int32_range d"
  shows "resolve fs (user_doc_path master_key d) = Some (loc_path (fs_cwd fs) (Shop d))"
proof -
  have len: "length (doc_name d) \<le> 19" by (rule length_doc_name [OF assms(2)])
  have "user_doc_path master_key d = (USERS_DIR @ ''/'' @ master_key) @ ''/'' @ doc_name d"
    using len by (simp add: user_doc_path_def master_key_def USERS_DIR_def c_snprintf_short)
  moreover have "resolve fs (USERS_DIR @ ''/'' @ master_key) = Some (shop_dir (fs_cwd fs))"
    using sandbox_okD(1,2,4) [OF assms(1)]
    by (simp add: resolve_def USERS_DIR_def master_key_def data_dir_def boxes_dir_def shop_dir_def butlast_append)
  moreover have "resolve fs ((USERS_DIR @ ''/'' @ master_key) @ ''/'' @ doc_name d) = Some (shop_dir (fs_cwd fs) @ [doc_name d])"
    by (rule resolve_below [OF calculation(2) sandbox_okD(3) [OF assms(1)]])
      (simp_all add: USERS_DIR_def doc_name_plain)
  ultimately show ?thesis by (simp only: loc_path.simps)
qed

text \<open>C13: The sandbox of a key is not confined to that key: for the key \<open>../master\<close>, which login accepts, every
  document on sale whose file is whole and readable (as \<open>master_write_doc\<close> leaves it) counts as owned, is read
  with its contents, and is destroyed on request, without being bought. The file tree is well formed and the
  identifier in range.\<close>
theorem master_key_owns_the_shop:
  assumes "sandbox_ok fs" "int32_range d"
    and "file_at fs (Shop d) = Some f" "mode_has S_IRUSR (f_mode f)" "DOC_SIZE \<le> length (f_bytes f)"
  shows "\<not> safe_key master_key \<and> length master_key < MAX_KEY_LEN \<and> no_nul master_key \<and>
    sandbox_user_init master_key fs = (True, fs) \<and> sandbox_has master_key d fs \<and>
    sandbox_read_doc master_key d fs = Some (doc_dec (take DOC_SIZE (f_bytes f))) \<and>
    fst (sandbox_dispose master_key d fs) \<and> doc_at (snd (sandbox_dispose master_key d fs)) = (doc_at fs)(Shop d := None)"
proof -
  note res = resolve_master_key_doc [OF assms(1,2)]
  have dir: "resolve fs (user_dir_path master_key) = Some (shop_dir (fs_cwd fs))"
    using sandbox_okD(1,2,4) [OF assms(1)]
    by (simp add: user_dir_path_def c_snprintf_short resolve_def USERS_DIR_def master_key_def data_dir_def
        boxes_dir_def shop_dir_def butlast_append)
  have "sandbox_user_init master_key fs = (True, fs)"
    using dir sandbox_okD(3) [OF assms(1)]
    by (simp add: sandbox_user_init_def ensure_dir_def sys_mkdir_def sys_exists_def)
  moreover have "sandbox_has master_key d fs"
    using res assms(3) by (simp add: sandbox_has_def sys_stat_def sys_exists_def del: loc_path.simps)
  moreover have "sandbox_read_doc master_key d fs = Some (doc_dec (take DOC_SIZE (f_bytes f)))"
    using res assms(3-5) by (simp add: sandbox_read_doc_def sys_read_file_def del: loc_path.simps)
  moreover have "sandbox_dispose master_key d fs = (True, drop_file fs (Shop d))"
    using res assms(3) not_dir_loc [OF assms(1), of "Shop d"]
    by (simp add: sandbox_dispose_def sys_unlink_def del: loc_path.simps)
  moreover have "\<not> safe_key master_key" "length master_key < MAX_KEY_LEN" "no_nul master_key"
    by (simp_all add: safe_key_def master_key_def no_nul_def)
  ultimately show ?thesis using doc_at_drop [of fs "Shop d"] by simp
qed

theorem master_key_owns_the_shop_witness:
  "sandbox_has ''../master'' 124 sample_fs \<and> sandbox_read_doc ''../master'' 124 sample_fs = Some sample_doc"
proof -
  have doc: "doc_ok sample_doc" by (simp add: sample_doc_def doc_ok_def int32_range_def)
  have "file_at sample_fs (Shop 124) = Some \<lparr>f_bytes = doc_enc sample_doc, f_mode = 420\<rparr>"
    by (simp add: sample_fs_def get_file_def shop_dir_def)
  moreover have "mode_has S_IRUSR 420" "int32_range 124" by (simp_all add: mode_has_def int32_range_def)
  ultimately show ?thesis
    using master_key_owns_the_shop [OF sample_fs_ok, of 124] doc_dec_enc [OF doc] by (simp add: master_key_def)
qed

text \<open>Started in an empty directory, \<open>sandbox_global_init\<close> makes a data directory in which every
  contract above holds, and a login with a one-component key adds a sandbox and nothing else.\<close>
theorem sandbox_init_establishes:
  assumes "fs_dirs fs = [fs_cwd fs]" "fs_files fs = []" "safe_key k"
  shows "let fs1 = snd (sandbox_global_init fs) in
    fst (sandbox_global_init fs) \<and> sandbox_ok fs1 \<and> doc_at fs1 = Map.empty \<and>
    (let fs2 = snd (sandbox_user_init k fs1) in
     fst (sandbox_user_init k fs1) \<and> sandbox_ok fs2 \<and> has_box k fs2 \<and> doc_at fs2 = Map.empty)"
proof -
  let ?c = "fs_cwd fs"
  let ?fs1 = "fs\<lparr>fs_dirs := [?c, data_dir ?c, shop_dir ?c, boxes_dir ?c]\<rparr>"
  have init: "sandbox_global_init fs = (True, ?fs1)"
    using assms(1,2)
    by (simp add: sandbox_global_init_def ensure_dir_def sys_mkdir_def sys_exists_def resolve_def DATA_ROOT_def
        MASTER_DIR_def USERS_DIR_def is_dir_def get_file_def data_dir_def shop_dir_def boxes_dir_def)
  have ok: "sandbox_ok ?fs1"
    using assms(2)
    by (auto simp: sandbox_ok_def Let_def is_dir_def dir_ok_def under_def data_dir_def shop_dir_def boxes_dir_def box_dir_def)
  have none: "doc_at ?fs1 = Map.empty" using assms(2) by (simp add: fun_eq_iff doc_at_def get_file_def)
  show ?thesis
    using sandbox_ok_user_init [OF ok assms(3)] none ok sandbox_user_init_eq [OF ok assms(3)]
    by (simp add: init)
qed

theorem sandbox_init_establishes_witness:
  "sandbox_ok (snd (sandbox_global_init \<lparr>fs_cwd = [''srv''], fs_dirs = [[''srv'']], fs_files = []\<rparr>))"
  using sandbox_init_establishes [of "\<lparr>fs_cwd = [''srv''], fs_dirs = [[''srv'']], fs_files = []\<rparr>", OF _ _ sample_safe(1)]
  by (simp add: Let_def)

end
