(* ===== verification/Texts.thy ===== *)
theory Texts
  imports CString
begin

text \<open>
  The string constants of \<open>server_main.c\<close> and \<open>events.c\<close>, byte for byte in UTF-8: messages (a format
  string is a function of its arguments), the passcodes, the seed names and the tables the event engine
  draws from. A mixed literal is the concatenation of its ASCII runs and of \<open>utf8\<close> code-point lists.
\<close>

section \<open>Messages of the server\<close>

definition RAID_PASSCODES :: "string list" where
  "RAID_PASSCODES = [
      ''pUrge'',
      ''OverRidE'',
      ''BLAckOUt'',
      ''FiRewALL'',
      ''GHOsT'',
      ''ZeROdAy'',
      ''LoCkDOWN'',
      ''SHadOW'',
      ''UNdErFLOW'',
      ''pASSWORD'',
      ''DEADLINE'',
      ''dEBUG'',
      ''WhITeHaT'',
      ''BLAcKHAt'',
      ''BLAckBoX'',
      ''WhITeBOx'']"

definition txt_round_reset :: string where
  "txt_round_reset =
     ''__ROUND_RESET__|'' @ utf8 [0xC0C8, 0x20, 0xB77C, 0xC6B4, 0xB4DC, 0xAC00, 0x20, 0xC2DC,
     0xC791, 0xB418, 0xC5C8, 0xC2B5, 0xB2C8, 0xB2E4] @ ''. '' @ utf8 [0xBAA8, 0xB4E0, 0x20,
     0xC790, 0xC0B0, 0xC774, 0x20, 0xCD08, 0xAE30, 0x20, 0xC0C1, 0xD0DC, 0xB85C, 0x20, 0xBCF5,
     0xC6D0, 0xB418, 0xC5C8, 0xC2B5, 0xB2C8, 0xB2E4] @ ''.''"

definition txt_burned :: string where
  "txt_burned =
     utf8 [0xACBD, 0xCC30, 0x20, 0xCD94, 0xC801, 0xB9DD, 0xC5D0, 0x20, 0xD3EC, 0xCC29, 0xB418,
     0xC5C8, 0xC2B5, 0xB2C8, 0xB2E4] @ ''! '' @ utf8 [0xACC4, 0xC815, 0x20, 0xB370, 0xC774,
     0xD130, 0xAC00, 0x20, 0xC601, 0xAD6C, 0x20, 0xC18C, 0xAC01, 0xB429, 0xB2C8, 0xB2E4] @ ''.''"

definition txt_raid_running :: string where
  "txt_raid_running =
     utf8 [0xC774, 0xBBF8, 0x20, 0xC9C4, 0xD589, 0x20, 0xC911, 0xC778, 0x20, 0xACBD, 0xCC30, 0x20,
     0xB808, 0xC774, 0xB4DC, 0xAC00, 0x20, 0xC788, 0xC2B5, 0xB2C8, 0xB2E4] @ ''.''"

definition txt_raid_no_timer :: string where
  "txt_raid_no_timer =
     utf8 [0xB808, 0xC774, 0xB4DC, 0x20, 0xD0C0, 0xC774, 0xBA38, 0x20, 0xC0DD, 0xC131, 0x20,
     0xC2E4, 0xD328] @ ''.''"

definition txt_no_listing :: string where
  "txt_no_listing =
     utf8 [0xB9E4, 0xBB3C, 0xC774, 0x20, 0xC874, 0xC7AC, 0xD558, 0xC9C0, 0x20, 0xC54A, 0xC2B5,
     0xB2C8, 0xB2E4] @ ''.''"

definition txt_frozen_listing :: string where
  "txt_frozen_listing =
     utf8 [0xB3D9, 0xACB0, 0xB41C, 0x20, 0xB9E4, 0xBB3C, 0xC785, 0xB2C8, 0xB2E4] @ ''.''"

definition txt_inventory_full :: string where
  "txt_inventory_full =
     utf8 [0xC778, 0xBCA4, 0xD1A0, 0xB9AC, 0xAC00, 0x20, 0xAC00, 0xB4DD, 0x20, 0xCC3C, 0xC2B5,
     0xB2C8, 0xB2E4, 0x20] @ ''('' @ utf8 [0xCD5C, 0xB300, 0x20] @ ''7'' @ utf8 [0xCE78] @ '').''"

definition txt_no_account :: string where
  "txt_no_account =
     utf8 [0xC720, 0xC800, 0x20, 0xC815, 0xBCF4, 0x20, 0xC870, 0xD68C, 0x20, 0xC2E4, 0xD328]"

definition txt_no_money :: string where
  "txt_no_money =
     utf8 [0xC794, 0xC561, 0x20, 0xBD80, 0xC871]"

definition txt_sold_already :: string where
  "txt_sold_already =
     utf8 [0xC774, 0xBBF8, 0x20, 0xB2E4, 0xB978, 0x20, 0xC720, 0xC800, 0xAC00, 0x20, 0xAD6C,
     0xB9E4, 0xD588, 0xC2B5, 0xB2C8, 0xB2E4] @ ''.''"

definition txt_move_failed :: string where
  "txt_move_failed =
     utf8 [0xD30C, 0xC77C, 0x20, 0xC774, 0xB3D9, 0x20, 0xC2E4, 0xD328, 0x20] @ ''(''
     @ utf8 [0xC2DC, 0xC2A4, 0xD15C, 0x20, 0xC5D0, 0xB7EC] @ '')''"

definition txt_bad_count :: string where
  "txt_bad_count =
     utf8 [0xC798, 0xBABB, 0xB41C, 0x20, 0xB9E4, 0xAC01, 0x20, 0xC694, 0xCCAD, 0x20] @ ''(''
     @ utf8 [0xAC1C, 0xC218, 0x20, 0xC624, 0xB958] @ '')''"

definition txt_no_npc :: string where
  "txt_no_npc =
     ''NPC '' @ utf8 [0xC758, 0xB8B0, 0xAC00, 0x20, 0xC874, 0xC7AC, 0xD558, 0xC9C0, 0x20, 0xC54A,
     0xC2B5, 0xB2C8, 0xB2E4] @ ''.''"

definition txt_not_owned_in_list :: string where
  "txt_not_owned_in_list =
     utf8 [0xBCF4, 0xC720, 0xD558, 0xC9C0, 0x20, 0xC54A, 0xC740, 0x20, 0xBB38, 0xC11C, 0xAC00,
     0x20, 0xD3EC, 0xD568, 0xB428]"

definition txt_meta_failed :: string where
  "txt_meta_failed =
     utf8 [0xBB38, 0xC11C, 0x20, 0xBA54, 0xD0C0, 0x20, 0xC77D, 0xAE30, 0x20, 0xC2E4, 0xD328]"

definition txt_frozen_doc :: string where
  "txt_frozen_doc =
     utf8 [0xB3D9, 0xACB0, 0x20, 0xD0DC, 0xADF8, 0x20, 0xBB38, 0xC11C, 0xB294, 0x20, 0xB9E4,
     0xAC01, 0xD560, 0x20, 0xC218, 0x20, 0xC5C6, 0xC2B5, 0xB2C8, 0xB2E4] @ ''.''"

definition txt_tags_short :: string where
  "txt_tags_short =
     utf8 [0xD0DC, 0xADF8, 0x20, 0xC870, 0xD569, 0xC774, 0x20, 0xC694, 0xAD6C, 0x20, 0xC0AC,
     0xD56D, 0xC744, 0x20, 0xCDA9, 0xC871, 0xD558, 0xC9C0, 0x20, 0xC54A, 0xC2B5, 0xB2C8, 0xB2E4]
     @ ''.''"

definition txt_npc_taken :: string where
  "txt_npc_taken =
     utf8 [0xB2E4, 0xB978, 0x20, 0xC720, 0xC800, 0xAC00, 0x20, 0xBA3C, 0xC800, 0x20, 0xB9E4,
     0xAC01, 0xD588, 0xC2B5, 0xB2C8, 0xB2E4] @ ''.''"

definition txt_three_escaped :: string where
  "txt_three_escaped =
     utf8 [0xB204, 0xC801, 0x20] @ ''3'' @ utf8 [0xBA85, 0x20, 0xD0C8, 0xCD9C, 0xB85C, 0x20,
     0xB77C, 0xC6B4, 0xB4DC, 0xAC00, 0x20, 0xC885, 0xB8CC, 0xB429, 0xB2C8, 0xB2E4] @ ''! 60''
     @ utf8 [0xCD08, 0x20, 0xB4A4, 0x20, 0xB77C, 0xC6B4, 0xB4DC, 0xAC00, 0x20, 0xAC15, 0xC81C,
     0x20, 0xB9AC, 0xC14B, 0xB429, 0xB2C8, 0xB2E4] @ ''. '' @ utf8 [0xB9C8, 0xC9C0, 0xB9C9, 0x20,
     0xC5D0, 0xD544, 0xB85C, 0xADF8, 0xB97C, 0x20, 0xB098, 0xB204, 0xC2ED, 0xC2DC, 0xC624] @ ''.''"

definition txt_fake_endround :: string where
  "txt_fake_endround =
     ''(DEBUG) '' @ utf8 [0xAC15, 0xC81C, 0x20, 0xB77C, 0xC6B4, 0xB4DC, 0x20, 0xC885, 0xB8CC,
     0xAC00, 0x20, 0xBC1C, 0xB3D9, 0xB418, 0xC5C8, 0xC2B5, 0xB2C8, 0xB2E4] @ ''! 60''
     @ utf8 [0xCD08, 0x20, 0xB4A4, 0x20, 0xB77C, 0xC6B4, 0xB4DC, 0xAC00, 0x20, 0xB9AC, 0xC14B,
     0xB429, 0xB2C8, 0xB2E4] @ ''.''"

definition txt_no_minigame :: string where
  "txt_no_minigame =
     utf8 [0xD604, 0xC7AC, 0x20, 0xD65C, 0xC131, 0xD654, 0xB41C, 0x20, 0xBBF8, 0xB2C8, 0xAC8C,
     0xC784, 0xC774, 0x20, 0xC5C6, 0xC2B5, 0xB2C8, 0xB2E4] @ ''.''"

definition txt_not_owned :: string where
  "txt_not_owned =
     utf8 [0xBCF4, 0xC720, 0xD558, 0xC9C0, 0x20, 0xC54A, 0xC740, 0x20, 0xBB38, 0xC11C, 0xC785,
     0xB2C8, 0xB2E4] @ ''.''"

definition txt_dispose_failed :: string where
  "txt_dispose_failed =
     utf8 [0xD30C, 0xAE30, 0x20, 0xC2E4, 0xD328, 0x20] @ ''('' @ utf8 [0xC2DC, 0xC2A4, 0xD15C,
     0x20, 0xC5D0, 0xB7EC] @ '')''"

definition txt_no_fee :: string where
  "txt_no_fee =
     utf8 [0xC0AC, 0xBCF4, 0xD0C0, 0xC8FC, 0x20, 0xC218, 0xC218, 0xB8CC, 0xAC00, 0x20, 0xBD80,
     0xC871, 0xD569, 0xB2C8, 0xB2E4] @ ''.''"

definition txt_bankrupt :: string where
  "txt_bankrupt =
     utf8 [0xD30C, 0xC0B0, 0xD588, 0xC2B5, 0xB2C8, 0xB2E4] @ ''. '' @ utf8 [0xC57D, 0xC18D,
     0xC744, 0x20, 0xC9C0, 0xD0A4, 0xC9C0, 0x20, 0xBABB, 0xD588, 0xAD70] @ ''.''"

definition txt_duplicate :: string where
  "txt_duplicate =
     utf8 [0xC774, 0xBBF8, 0x20, 0xC811, 0xC18D, 0x20, 0xC911, 0xC778, 0x20, 0xACC4, 0xC815,
     0xC785, 0xB2C8, 0xB2E4] @ ''.''"

definition txt_burned_key :: string where
  "txt_burned_key =
     utf8 [0xD30C, 0xC0B0] @ ''/'' @ utf8 [0xC18C, 0xAC01, 0xB41C, 0x20, 0xACC4, 0xC815, 0xC785,
     0xB2C8, 0xB2E4] @ ''.''"

definition txt_frozen_sync :: string where
  "txt_frozen_sync =
     utf8 [0xD604, 0xC7AC, 0x20, 0xB3D9, 0xACB0, 0x20, 0xC0C1, 0xD0DC, 0x20, 0xB3D9, 0xAE30,
     0xD654, 0x20] @ ''('' @ utf8 [0xC9C4, 0xD589, 0x20, 0xC911, 0xC778, 0x20, 0xACF5, 0xC911,
     0xD30C, 0x20, 0xC720, 0xCD9C] @ '')''"

definition txt_nothing_to_freeze :: string where
  "txt_nothing_to_freeze =
     utf8 [0xB3D9, 0xACB0, 0xD560, 0x20, 0xB9E4, 0xBB3C, 0x20, 0xD0DC, 0xADF8, 0xAC00, 0x20,
     0xC5C6, 0xC2B5, 0xB2C8, 0xB2E4, 0x20] @ ''('' @ utf8 [0xB9E4, 0xBB3C, 0xC774, 0x20, 0xC5C6,
     0xAC70, 0xB098, 0x20, 0xC774, 0xBBF8, 0x20, 0xC804, 0xBD80, 0x20, 0xB3D9, 0xACB0] @ '').''"

definition txt_raid_hint :: "int \<Rightarrow> string \<Rightarrow> string" where
  "txt_raid_hint sec passcode =
     utf8 [0xACBD, 0xCC30, 0x20, 0xCD94, 0xC801, 0xB9DD, 0x20, 0xD65C, 0xC131, 0xD654] @ ''! ''
     @ show_int sec @ utf8 [0xCD08, 0x20, 0xC548, 0xC5D0, 0x20, 0xC6B0, 0xD68C, 0x20, 0xC554,
     0xD638, 0x20, 0x27] @ take 32 passcode @ utf8 [0x27, 0xB97C, 0x20, 0xC815, 0xD655, 0xD788,
     0x20, 0xC785, 0xB825, 0xD558, 0xC9C0, 0x20, 0xBABB, 0xD558, 0xBA74, 0x20, 0xACC4, 0xC815,
     0xC774, 0x20, 0xC601, 0xAD6C, 0x20, 0xC18C, 0xAC01, 0xB429, 0xB2C8, 0xB2E4] @ ''.''"

definition txt_goal_short :: "int \<Rightarrow> int \<Rightarrow> string" where
  "txt_goal_short goal money =
     utf8 [0xC0C1, 0xD658, 0xAE08, 0x20, 0xBD80, 0xC871] @ '': '' @ utf8 [0xBAA9, 0xD45C, 0x20,
     0xCCAD, 0xC0B0, 0xC561, 0xC740, 0x20] @ ''$'' @ show_int goal @ '' '' @ utf8 [0xC774, 0xB098]
     @ '', '' @ utf8 [0xB2F9, 0xC2E0, 0xC740, 0x20] @ ''$'' @ show_int money @ '' ''
     @ utf8 [0xBCF4, 0xC720, 0xD558, 0xACE0, 0x20, 0xC788, 0xC2B5, 0xB2C8, 0xB2E4] @ ''.''"

definition txt_victory :: "int \<Rightarrow> string" where
  "txt_victory goal =
     utf8 [0xCD95, 0xD558, 0xD569, 0xB2C8, 0xB2E4] @ ''! $'' @ show_int goal @ utf8 [0xC758, 0x20,
     0xCC44, 0xBB34, 0xB97C, 0x20, 0xC131, 0xACF5, 0xC801, 0xC73C, 0xB85C, 0x20, 0xCCAD, 0xC0B0,
     0xD558, 0xACE0, 0x20, 0xB2E4, 0xD06C, 0xC6F9, 0xC744, 0x20, 0xD0C8, 0xCD9C, 0xD558, 0xC168,
     0xC2B5, 0xB2C8, 0xB2E4] @ ''.''"

definition txt_escaped_capped :: "string \<Rightarrow> int \<Rightarrow> int \<Rightarrow> string" where
  "txt_escaped_capped key goal cap =
     utf8 [0xD574, 0xCEE4, 0x20, 0x27] @ key @ utf8 [0x27, 0xB2D8, 0xC774, 0x20] @ ''$''
     @ show_int goal @ utf8 [0xC758, 0x20, 0xBE5A, 0xC744, 0x20, 0xAC1A, 0xACE0, 0x20, 0xD0C8,
     0xCD9C, 0xD588, 0xC2B5, 0xB2C8, 0xB2E4] @ ''! '' @ utf8 [0xBAA9, 0xD45C, 0x20, 0xC0C1,
     0xD658, 0xC561, 0xC740, 0x20, 0xC0C1, 0xD55C, 0xC120, 0x20] @ ''$'' @ show_int cap
     @ utf8 [0xC5D0, 0x20, 0xACE0, 0xC815, 0xB429, 0xB2C8, 0xB2E4] @ ''.''"

definition txt_escaped_raised :: "string \<Rightarrow> int \<Rightarrow> int \<Rightarrow> string" where
  "txt_escaped_raised key goal next_goal =
     utf8 [0xD574, 0xCEE4, 0x20, 0x27] @ key @ utf8 [0x27, 0xB2D8, 0xC774, 0x20] @ ''$''
     @ show_int goal @ utf8 [0xC758, 0x20, 0xBE5A, 0xC744, 0x20, 0xAC1A, 0xACE0, 0x20, 0xD0C8,
     0xCD9C, 0xD588, 0xC2B5, 0xB2C8, 0xB2E4] @ ''! '' @ utf8 [0xC740, 0xD589, 0x20, 0xBCF4,
     0xC548, 0x20, 0xAC15, 0xD654, 0xB85C, 0x20, 0xB2E4, 0xC74C, 0x20, 0xBAA9, 0xD45C, 0x20,
     0xC0C1, 0xD658, 0xC561, 0xC774, 0x20] @ ''$'' @ show_int next_goal @ utf8 [0xB85C, 0x20,
     0xC778, 0xC0C1, 0xB429, 0xB2C8, 0xB2E4] @ ''.''"

definition txt_fake_rich :: "int \<Rightarrow> string" where
  "txt_fake_rich money =
     utf8 [0xC794, 0xC561, 0xC744, 0x20] @ ''$'' @ show_int money @ utf8 [0xB85C, 0x20, 0xCC44,
     0xC6E0, 0xC2B5, 0xB2C8, 0xB2E4] @ ''. /payoff '' @ utf8 [0xB85C, 0x20, 0xD0C8, 0xCD9C,
     0xC744, 0x20, 0xD14C, 0xC2A4, 0xD2B8, 0xD558, 0xC138, 0xC694] @ ''.''"

definition txt_rumor_cooldown :: "int \<Rightarrow> string" where
  "txt_rumor_cooldown remain =
     utf8 [0xC0AC, 0xBCF4, 0xD0C0, 0xC8FC, 0x20, 0xCFE8, 0xB2E4, 0xC6B4, 0x20, 0xC911, 0xC785,
     0xB2C8, 0xB2E4] @ ''. '' @ show_int remain @ utf8 [0xCD08, 0x20, 0xD6C4, 0x20, 0xB2E4,
     0xC2DC, 0x20, 0xC2DC, 0xB3C4, 0xD558, 0xC2ED, 0xC2DC, 0xC624] @ ''.''"

definition SEED_NAMES :: "string list" where
  "SEED_NAMES = [
      utf8 [0xBC14, 0xC774, 0xC624, 0xC820, 0x20, 0xAE30, 0xBC00, 0xD3D0, 0xAE30, 0x20, 0xC7AC,
      0xBB34, 0xC81C, 0xD45C],
      utf8 [0xC5F0, 0xBC29, 0xC815, 0xBD80, 0x20, 0xC804, 0xC220, 0x20, 0xB4DC, 0xB860, 0x20,
      0xC124, 0xACC4, 0xB3C4],
      utf8 [0xD1F4, 0xC9C1, 0x20, 0xC694, 0xC6D0, 0x20, 0xC2E0, 0xC0C1, 0xC815, 0xBCF4],
      utf8 [0xC544, 0xC0AC, 0xC0AC, 0xCE74, 0x20, 0xC784, 0xC9C1, 0xC6D0, 0x20, 0xBE44, 0xB9AC,
      0x20, 0xC99D, 0xAC70]]"

section \<open>Tables of the event engine\<close>

definition TAG_SHORT :: "string list" where
  "TAG_SHORT = [
      utf8 [0xC544, 0xC0AC, 0xC0AC, 0xCE74],
      utf8 [0xBC14, 0xC774, 0xC624, 0xC820],
      utf8 [0xB125, 0xC11C, 0xC2A4],
      utf8 [0xC720, 0xC800] @ ''DB/'' @ utf8 [0xC2E0, 0xC0C1],
      utf8 [0xD06C, 0xB808, 0xB527] @ ''/'' @ utf8 [0xBE44, 0xC790, 0xAE08],
      utf8 [0xC804, 0xC220] @ ''AI/'' @ utf8 [0xBB34, 0xAE30],
      utf8 [0xC5F0, 0xBC29, 0xAE30, 0xBC00],
      utf8 [0xC778, 0xCCB4, 0xC2E4, 0xD5D8] @ ''/'' @ utf8 [0xBC14, 0xC774, 0xC624],
      utf8 [0xD504, 0xB85C, 0xD1A0, 0xD0C0, 0xC785],
      utf8 [0xBE14, 0xB799, 0xBA54, 0xC77C] @ ''/'' @ utf8 [0xC57D, 0xC810],
      utf8 [0xBC00, 0xB9AC, 0xD14C, 0xD06C],
      utf8 [0xB808, 0xC774, 0xBE10]]"

definition NPC_HINT :: "string list list" where
  "NPC_HINT = [
     [
      ''['' @ utf8 [0xC18D, 0xBCF4] @ ''] '' @ utf8 [0xC544, 0xC0AC, 0xC0AC, 0xCE74, 0x20, 0xC911,
      0xACF5, 0xC5C5, 0x20, 0xC804, 0xC220, 0xB9DD, 0x20, 0xD06C, 0xB798, 0xD0B9, 0x20, 0xAC10,
      0xC9C0] @ '', '' @ utf8 [0xBC29, 0xC704, 0x20, 0xB370, 0xC774, 0xD130, 0x20, 0xAC70, 0xB798,
      0x20, 0xC784, 0xBC15],
      ''['' @ utf8 [0xC18D, 0xBCF4] @ ''] '' @ utf8 [0xC544, 0xC0AC, 0xC0AC, 0xCE74, 0x20, 0xC774,
      0xC0AC, 0xC9C4, 0x20, 0xBE44, 0xBC00, 0x20, 0xD68C, 0xB3D9, 0x20, 0xC2E4, 0xD669, 0x20,
      0xB179, 0xCDE8, 0xBCF8, 0xC774, 0x20, 0xB525, 0xC6F9, 0xC5D0, 0x20, 0xB9AC, 0xC2A4, 0xD305,
      0xB428],
      ''['' @ utf8 [0xC18D, 0xBCF4] @ ''] '' @ utf8 [0xC544, 0xC0AC, 0xC0AC, 0xCE74, 0x20, 0xD575,
      0xC2EC, 0x20, 0xC778, 0xACF5, 0xC704, 0xC131, 0x20, 0xC694, 0xACA9, 0x20, 0xD328, 0xC2A4,
      0xCF54, 0xB4DC, 0x20, 0xBE0C, 0xB85C, 0xCEE4, 0x20, 0xD3EC, 0xCC29]],
     [
      ''['' @ utf8 [0xC18D, 0xBCF4] @ ''] '' @ utf8 [0xBC14, 0xC774, 0xC624, 0xC820, 0x20, 0xC2E0,
      0xD14C, 0xD2F1, 0xC2A4, 0x20, 0xC720, 0xC804, 0xC790, 0x20, 0xC2DC, 0xC220, 0x20, 0xC124,
      0xACC4, 0x20, 0xB370, 0xC774, 0xD130, 0x20, 0xC720, 0xC2E4, 0xC124, 0x20, 0xD655, 0xC0B0],
      ''['' @ utf8 [0xC18D, 0xBCF4] @ ''] '' @ utf8 [0xBC14, 0xC774, 0xC624, 0xC820, 0x20, 0xC5F0,
      0xAD6C, 0xC18C, 0x20, 0xBC31, 0xC5C5, 0x20, 0xADF8, 0xB9AC, 0xB4DC, 0x20, 0xD574, 0xD0B9]
      @ '', '' @ utf8 [0xBC30, 0xC544, 0x20, 0xBCF5, 0xC81C, 0x20, 0xC815, 0xBCF4, 0x20, 0xC720,
      0xCD9C, 0x20, 0xC815, 0xD669],
      ''['' @ utf8 [0xC18D, 0xBCF4] @ ''] '' @ utf8 [0xBC14, 0xC774, 0xC624, 0xC820, 0x20, 0xC218,
      0xC11D, 0x20, 0xACFC, 0xD559, 0xC790, 0x20, 0xB9DD, 0xBA85, 0x20, 0xC2DC, 0xB3C4, 0x20,
      0xC815, 0xBCF4] @ '', '' @ utf8 [0xC554, 0xC2DC, 0xC7A5, 0xC5D0, 0xC11C, 0x20, 0xC554,
      0xAC70, 0xB798, 0x20, 0xC911]],
     [
      ''['' @ utf8 [0xC18D, 0xBCF4] @ ''] '' @ utf8 [0xB125, 0xC11C, 0xC2A4, 0x20, 0xD074, 0xB77C,
      0xC6B0, 0xB4DC, 0x20, 0xB137, 0x20, 0xCF54, 0xC5B4, 0x20, 0xBC31, 0xB3C4, 0xC5B4, 0x20,
      0xB364, 0xD504, 0x20, 0xD30C, 0xC77C, 0x20, 0xD310, 0xB9E4, 0x20, 0xCC0C, 0xB77C, 0xC2DC,
      0x20, 0xC0B4, 0xD3EC],
      ''['' @ utf8 [0xC18D, 0xBCF4] @ ''] '' @ utf8 [0xB125, 0xC11C, 0xC2A4, 0x20, 0xBA54, 0xC778,
      0xD504, 0xB808, 0xC784, 0x20, 0xD1B5, 0xC81C, 0xAD8C, 0x20, 0xC7A5, 0xC545, 0x20, 0xD754,
      0xC801, 0x20, 0xD3EC, 0xCC29] @ '', '' @ utf8 [0xB370, 0xC774, 0xD130, 0x20, 0xC720, 0xCD9C,
      0x20, 0xACBD, 0xBCF4],
      ''['' @ utf8 [0xC18D, 0xBCF4] @ ''] '' @ utf8 [0xB125, 0xC11C, 0xC2A4, 0x20] @ ''VIP ''
      @ utf8 [0xAC00, 0xC0C1, 0x20, 0xC790, 0xC0B0, 0x20, 0xD0C8, 0xCDE8, 0x20, 0xC815, 0xD669]
      @ '', '' @ utf8 [0xC815, 0xBCF4, 0x20, 0xC720, 0xD1B5, 0x20, 0xC900, 0xBE44, 0x20, 0xC644,
      0xB8CC]],
     [
      ''['' @ utf8 [0xC18D, 0xBCF4] @ ''] '' @ utf8 [0xB2E4, 0xAD6D, 0xC801, 0x20, 0xBA54, 0xAC00,
      0xCF54, 0xD504, 0x20] @ ''VIP '' @ utf8 [0xB300, 0xADDC, 0xBAA8, 0x20, 0xC2E0, 0xC0C1, 0x20,
      0xBA85, 0xB2E8, 0x20, 0xD328, 0xD0A4, 0xC9C0, 0x20, 0xB525, 0xC6F9, 0x20, 0xC5C5, 0xB85C,
      0xB4DC],
      ''['' @ utf8 [0xC18D, 0xBCF4] @ ''] '' @ utf8 [0xC2E0, 0xC0DD, 0x20, 0xBA54, 0xAC00, 0xC2DC,
      0xD2F0, 0x20, 0xAC70, 0xC8FC, 0x20, 0xC720, 0xC800, 0x20] @ ''1'' @ utf8 [0xC5B5, 0x20,
      0xBA85, 0x20, 0xC2E0, 0xC0C1, 0x20] @ ''DB '' @ utf8 [0xB364, 0xD504, 0x20, 0xC720, 0xCD9C,
      0x20, 0xC758, 0xD639],
      ''['' @ utf8 [0xC18D, 0xBCF4] @ ''] '' @ utf8 [0xB2E4, 0xD06C, 0xB137, 0x20, 0xD3EC, 0xB7FC,
      0xC5D0, 0x20, 0xBA54, 0xAC00, 0xCF54, 0xD504, 0x20, 0xAE30, 0xBC00, 0x20, 0xACE0, 0xAC1D,
      0x20, 0xC815, 0xBCF4, 0x20, 0xD328, 0xD0B7, 0x20, 0xD310, 0xB9E4, 0x20, 0xAC1C, 0xC2DC]],
     [
      ''['' @ utf8 [0xC18D, 0xBCF4] @ ''] '' @ utf8 [0xAE08, 0xC735, 0x20, 0xB2F9, 0xAD6D] @ '',
      '' @ utf8 [0xBB34, 0xAE30, 0xBA85, 0x20, 0xD06C, 0xB808, 0xB527, 0x20, 0xC138, 0xD0C1, 0x20,
      0xACBD, 0xB85C, 0x20, 0xCD94, 0xC801, 0x20, 0xC815, 0xBCF4, 0x20, 0xC720, 0xCD9C, 0x20,
      0xC9D5, 0xD6C4],
      ''['' @ utf8 [0xC18D, 0xBCF4] @ ''] '' @ utf8 [0xBD88, 0xBC95, 0x20, 0xC624, 0xD504, 0xC1FC,
      0xC5B4, 0x20, 0xACC4, 0xC88C, 0x20, 0xBC0F, 0x20, 0xB137, 0x20, 0xD2B8, 0xB79C, 0xC7AD,
      0xC158, 0x20, 0xC6D0, 0xC7A5, 0x20, 0xC720, 0xCD9C, 0x20, 0xC784, 0xBC15],
      ''['' @ utf8 [0xC18D, 0xBCF4] @ ''] '' @ utf8 [0xAC00, 0xC0C1, 0x20, 0xC790, 0xC0B0, 0x20,
      0xB300, 0xB9AC, 0x20, 0xC1A1, 0xAE08, 0xB9DD, 0x20, 0xCDE8, 0xC57D, 0xC810, 0x20, 0xC775,
      0xC2A4, 0xD50C, 0xB85C, 0xC787, 0x20, 0xB370, 0xC774, 0xD130, 0x20, 0xB9AC, 0xC2A4, 0xD305]],
     [
      ''['' @ utf8 [0xC18D, 0xBCF4] @ ''] '' @ utf8 [0xAD6D, 0xBC29, 0xBD80, 0x20, 0xC804, 0xC220,
      0x20] @ ''AI '' @ utf8 [0xD0D1, 0xC7AC, 0x20, 0xACF5, 0xACA9, 0x20, 0xB4DC, 0xB860, 0x20,
      0xBE44, 0xACF5, 0xAC1C, 0x20, 0xAD6C, 0xB3D9, 0xACC4, 0x20, 0xC2DC, 0xD2B8, 0x20, 0xC720,
      0xCD9C],
      ''['' @ utf8 [0xC18D, 0xBCF4] @ ''] '' @ utf8 [0xCE74, 0xB860, 0x20, 0xC6A9, 0xBCD1, 0xB2E8,
      0x20, 0xBD88, 0xBC95, 0x20, 0xC591, 0xC131, 0x20, 0xB098, 0xB178, 0xBD07, 0x20, 0xC0AC,
      0xC591, 0xC11C, 0x20, 0xC554, 0xC2DC, 0xC7A5, 0x20, 0xC720, 0xC785, 0x20, 0xD3EC, 0xCC29],
      ''['' @ utf8 [0xC18D, 0xBCF4] @ ''] '' @ utf8 [0xCC28, 0xC138, 0xB300, 0x20, 0xC5D1, 0xC18C,
      0xC288, 0xD2B8, 0x20, 0xB1CC] @ ''-'' @ utf8 [0xAE30, 0xACC4, 0x20, 0xC778, 0xD130, 0xD398,
      0xC774, 0xC2A4] @ ''(BMI) '' @ utf8 [0xC18C, 0xC2A4, 0x20, 0xCF54, 0xB4DC, 0x20, 0xB204,
      0xCD9C, 0xC124]],
     [
      ''['' @ utf8 [0xC18D, 0xBCF4] @ ''] '' @ utf8 [0xC5F0, 0xBC29, 0x20, 0xC815, 0xBCF4, 0xAD6D,
      0x20, 0xBE14, 0xB799, 0x20, 0xC0AC, 0xC774, 0xD2B8, 0x20, 0xBE44, 0xBC00, 0x20, 0xC218,
      0xC0AC, 0x20, 0xAE30, 0xB85D, 0x20, 0xB525, 0xC6F9, 0x20, 0xACBD, 0xB9E4, 0x20, 0xB4F1,
      0xB85D],
      ''['' @ utf8 [0xC18D, 0xBCF4] @ ''] '' @ utf8 [0xACE0, 0xC704, 0x20, 0xAD00, 0xB8CC, 0x20,
      0xB9C8, 0xC57D, 0x20, 0xC2A4, 0xCE94, 0xB4E4, 0x20, 0xBC0F, 0x20, 0xB525, 0xD398, 0xC774,
      0xD06C, 0x20, 0xC0AC, 0xBCF4, 0xD0C0, 0xC8FC, 0x20, 0xC99D, 0xAC70, 0x20, 0xBE0C, 0xB85C,
      0xCEE4, 0x20, 0xD3EC, 0xCC29],
      ''['' @ utf8 [0xC18D, 0xBCF4] @ ''] '' @ utf8 [0xC5F0, 0xBC29, 0x20, 0xC911, 0xC559, 0x20,
      0xC758, 0xD68C, 0x20, 0xBE44, 0xACF5, 0xAC1C, 0x20, 0xB85C, 0xBE44, 0x20, 0xC790, 0xAE08,
      0x20, 0xBD84, 0xBC30, 0x20, 0xBB38, 0xAC74, 0x20, 0xB204, 0xCD9C, 0x20, 0xC784, 0xBC15]],
     [
      ''['' @ utf8 [0xC18D, 0xBCF4] @ ''] '' @ utf8 [0xBC14, 0xC774, 0xC624, 0xC6E8, 0xC5B4, 0x20,
      0xC778, 0xCCB4, 0x20, 0xC784, 0xC0C1, 0x20, 0xC2E4, 0xD5D8, 0x20, 0xB1CC, 0xC0AC, 0x20,
      0xBD80, 0xC791, 0xC6A9, 0x20, 0xC740, 0xD3D0, 0x20, 0xC790, 0xB8CC, 0x20, 0xC720, 0xCD9C,
      0x20, 0xC815, 0xD669],
      ''['' @ utf8 [0xC18D, 0xBCF4] @ ''] '' @ utf8 [0xC81C, 0xC57D, 0xC0AC, 0x20, 0xBBF8, 0xACF5,
      0xAC1C, 0x20, 0xC0AC, 0xC774, 0xBC84, 0xC6E8, 0xC5B4, 0x20, 0xAC70, 0xBD80, 0x20, 0xBC18,
      0xC751, 0x20, 0xD1B5, 0xACC4, 0x20, 0xC2DC, 0xD2B8, 0x20, 0xD68D, 0xB4DD, 0xC124],
      ''['' @ utf8 [0xC18D, 0xBCF4] @ ''] '' @ utf8 [0xBC14, 0xC774, 0xC624, 0x20, 0xB7A9, 0x20,
      0xD06C, 0xB85C, 0xB178, 0xC2A4] @ ''(Chronos)'' @ utf8 [0xC758, 0x20, 0xAE30, 0xBC00, 0x20,
      0xC0DD, 0xCCB4, 0x20, 0xC2E4, 0xD5D8, 0x20, 0xC124, 0xACC4, 0xB3C4, 0x20, 0xC2A4, 0xCE94]],
     [
      ''['' @ utf8 [0xC18D, 0xBCF4] @ ''] '' @ utf8 [0xAD6D, 0xCC45, 0x20, 0xC5F0, 0xAD6C, 0xC18C,
      0x20, 0xC591, 0xC790, 0x20, 0xD1B5, 0xC2E0, 0x20, 0xD504, 0xB85C, 0xD1A0, 0xD0C0, 0xC785,
      0x20, 0xC554, 0xD638, 0xD654, 0x20, 0xD0A4, 0x20, 0xC720, 0xCD9C, 0x20, 0xC9D5, 0xD6C4],
      ''['' @ utf8 [0xC18D, 0xBCF4] @ ''] '' @ utf8 [0xADA4, 0xB3C4, 0x20, 0xC2A4, 0xD14C, 0xC774,
      0xC158, 0x20, 0xCC28, 0xC138, 0xB300, 0x20, 0xBA54, 0xCE74, 0xB2C9, 0x20, 0xC791, 0xB3D9,
      0x20, 0xAC00, 0xC774, 0xB4DC, 0x20, 0xC6D0, 0xC548, 0x20, 0xB9AC, 0xC2A4, 0xD305],
      ''['' @ utf8 [0xC18D, 0xBCF4] @ ''] '' @ utf8 [0xC5F0, 0xAD6C, 0xC6D0, 0x20, 0xB0B4, 0xBD80,
      0x20, 0xBA54, 0xC77C, 0x20, 0xC18D, 0x20, 0xCC28, 0xC138, 0xB300, 0x20, 0xBA54, 0xAC00,
      0xCF54, 0xD504, 0x20, 0xAE30, 0xC220, 0x20, 0xC0AC, 0xC591, 0x20, 0xC720, 0xCD9C, 0x20,
      0xC815, 0xD669]],
     [
      ''['' @ utf8 [0xC18D, 0xBCF4] @ ''] VIP '' @ utf8 [0xC0AC, 0xC0DD, 0xD65C, 0x20, 0xB525,
      0xD398, 0xC774, 0xD06C, 0x20, 0xD611, 0xBC15, 0x20, 0xC18C, 0xC2A4, 0x20, 0xBC0F, 0x20,
      0xC601, 0xC0C1, 0x20, 0xD310, 0xB9E4, 0x20, 0xD3EC, 0xCC29],
      ''['' @ utf8 [0xC18D, 0xBCF4] @ ''] '' @ utf8 [0xBA54, 0xAC00, 0xCF54, 0xD504, 0x20, 0xD6C4,
      0xACC4, 0xC790, 0xB4E4, 0xC758, 0x20, 0xB137, 0x20, 0xC11C, 0xD551, 0x20, 0xB85C, 0xADF8,
      0x20, 0xBC0F, 0x20, 0xC74C, 0xC131, 0x20, 0xB300, 0xC870, 0x20, 0xC0D8, 0xD50C, 0x20,
      0xC720, 0xCD9C],
      ''['' @ utf8 [0xC18D, 0xBCF4] @ ''] '' @ utf8 [0xAC00, 0xBB38, 0x20, 0xB0B4, 0xBD80, 0x20,
      0xBD88, 0xBC95, 0x20, 0xBCF5, 0xC81C, 0x20, 0xBC30, 0xC544, 0x20, 0xAD00, 0xB828, 0x20,
      0xD3ED, 0xB85C, 0x20, 0xBB38, 0xC11C, 0x20, 0xB9AC, 0xC2A4, 0xD305, 0xC124]],
     [
      ''['' @ utf8 [0xC18D, 0xBCF4] @ ''] '' @ utf8 [0xBC00, 0xB9AC, 0xD14C, 0xD06C, 0x20, 0xC9C0,
      0xC0C1, 0x20, 0xD0C0, 0xACA9, 0xB300, 0x20, 0xBCF4, 0xC548, 0x20, 0xB77C, 0xC6B0, 0xD130,
      0x20, 0xD06C, 0xB799, 0x20, 0xD3EC, 0xCC29] @ '', '' @ utf8 [0xBB34, 0xC7A5, 0x20, 0xAE30,
      0xBC00, 0x20, 0xAC70, 0xB798, 0x20, 0xC2DC, 0xC791],
      ''['' @ utf8 [0xC18D, 0xBCF4] @ ''] '' @ utf8 [0xBC00, 0xB9AC, 0xD14C, 0xD06C, 0x20, 0xCC28,
      0xC138, 0xB300, 0x20, 0xC790, 0xC8FC, 0xD3EC, 0x20, 0xD0C4, 0xB3C4, 0x20, 0xC54C, 0xACE0,
      0xB9AC, 0xC998, 0x20, 0xC720, 0xCD9C, 0xBCF8, 0x20, 0xB525, 0xC6F9, 0x20, 0xB9AC, 0xC2A4,
      0xD305],
      ''['' @ utf8 [0xC18D, 0xBCF4] @ ''] '' @ utf8 [0xBC00, 0xB9AC, 0xD14C, 0xD06C, 0x20, 0xC5F0,
      0xAD6C, 0xC18C, 0x20, 0xBCF4, 0xC870, 0x20, 0xB3D9, 0xB825, 0x20, 0xCC28, 0xB2E8, 0x20,
      0xD328, 0xCE58, 0x20, 0xC720, 0xD3EC] @ '', '' @ utf8 [0xAD70, 0xC0AC, 0x20, 0xC790, 0xC0B0,
      0x20, 0xC720, 0xD1B5, 0x20, 0xC9D5, 0xD6C4]],
     [
      ''['' @ utf8 [0xC18D, 0xBCF4] @ ''] '' @ utf8 [0xB808, 0xC774, 0xBE10, 0x20, 0xB9C8, 0xC774,
      0xD06C, 0xB85C, 0xC0AC, 0xC774, 0xBC84, 0xB124, 0xD2F1, 0xC2A4, 0x20, 0xB1CC] @ ''-''
      @ utf8 [0xAE30, 0xACC4, 0x20, 0xBCF4, 0xC870, 0x20, 0xD06C, 0xB86C, 0x20, 0xC124, 0xACC4,
      0xB3C4, 0x20, 0xD574, 0xD0B9],
      ''['' @ utf8 [0xC18D, 0xBCF4] @ ''] '' @ utf8 [0xB808, 0xC774, 0xBE10, 0x20, 0xC774, 0xBE44,
      0xC778, 0xD6C4] @ ''/'' @ utf8 [0xC2DC, 0xAC01, 0x20, 0xD06C, 0xB808, 0xB514, 0xD2B8, 0x20,
      0xC138, 0xD0C1, 0x20, 0xD2B8, 0xB79C, 0xC7AD, 0xC158, 0x20, 0xC720, 0xCD9C, 0x20, 0xAC1C,
      0xC2DC],
      ''['' @ utf8 [0xC18D, 0xBCF4] @ ''] '' @ utf8 [0xB808, 0xC774, 0xBE10, 0x20, 0xCD5C, 0xACE0,
      0xBCF4, 0xC548, 0x20, 0xB4F1, 0xAE09, 0x20, 0xCE68, 0xD22C, 0x20, 0xBC31, 0xB3C4, 0xC5B4,
      0x20, 0xD0B7, 0x20, 0xAC70, 0xB798, 0x20, 0xB300, 0xAE30, 0xC124, 0x20, 0xD655, 0xC0B0]]]"

definition LEAK_HEADLINE :: "string list list" where
  "LEAK_HEADLINE = [
     [
      ''['' @ utf8 [0xACF5, 0xC911, 0xD30C] @ ''] '' @ utf8 [0xC544, 0xC0AC, 0xC0AC, 0xCE74, 0x20,
      0xC911, 0xACF5, 0xC5C5, 0x20, 0xAE30, 0xBC00, 0x20, 0xBCF4, 0xB3C4, 0xB85C, 0x20, 0xC8FC,
      0xAC00, 0x20, 0xD3ED, 0xB77D] @ ''! '' @ utf8 [0xC544, 0xC0AC, 0xC0AC, 0xCE74, 0x20, 0xC790,
      0xC0B0, 0x20, 0xB3D9, 0xACB0] @ ''!'',
      ''['' @ utf8 [0xB137, 0xC6CC, 0xCE58, 0x20, 0xB274, 0xC2A4] @ ''] '' @ utf8 [0xC544, 0xC0AC,
      0xC0AC, 0xCE74, 0x20, 0xBCF4, 0xC548, 0x20, 0xB204, 0xCD9C, 0x20, 0xD655, 0xC778] @ ''! ''
      @ utf8 [0xB137, 0xC6CC, 0xCE58, 0xAC00, 0x20, 0xAD00, 0xB828, 0x20, 0xC804, 0xC5ED, 0x20,
      0xAC10, 0xC1C4, 0x20, 0xC870, 0xCE58],
      ''['' @ utf8 [0xB2E4, 0xD06C, 0xB137, 0x20, 0xD53C, 0xB4DC] @ ''] '' @ utf8 [0xC544, 0xC0AC,
      0xC0AC, 0xCE74, 0x20, 0xD328, 0xC2A4, 0xCF54, 0xB4DC, 0x20, 0xB300, 0xC911, 0x20, 0xACF5,
      0xC720, 0x20, 0xC644, 0xB8CC] @ ''! '' @ utf8 [0xC544, 0xC0AC, 0xC0AC, 0xCE74, 0x20, 0xAE30,
      0xBC00, 0x20, 0xAC70, 0xB798, 0x20, 0xCC28, 0xB2E8]],
     [
      ''['' @ utf8 [0xACF5, 0xC911, 0xD30C] @ ''] '' @ utf8 [0xBC14, 0xC774, 0xC624, 0xC820, 0x20,
      0xBC30, 0xC544, 0x20, 0xBCF5, 0xC81C, 0x20, 0xD3ED, 0xB85C, 0x20, 0xBC29, 0xC1A1, 0x20,
      0xC1A1, 0xCD9C] @ ''! '' @ utf8 [0xBC14, 0xC774, 0xC624, 0xC820, 0x20, 0xD0DC, 0xADF8, 0x20,
      0xAC00, 0xCE58, 0x20] @ ''0'' @ utf8 [0xC6D0] @ ''!'',
      ''['' @ utf8 [0xB137, 0xC6CC, 0xCE58, 0x20, 0xB274, 0xC2A4] @ ''] '' @ utf8 [0xBC14, 0xC774,
      0xC624, 0xC820, 0x20, 0xC720, 0xC804, 0x20, 0xC2E4, 0xD5D8, 0x20, 0xC99D, 0xAC70, 0x20,
      0xB9E4, 0xC2A4, 0xCEF4, 0x20, 0xBCF4, 0xB3C4, 0xB85C, 0x20, 0xC0DD, 0xCCB4, 0x20, 0xC815,
      0xBCF4, 0x20, 0xC77C, 0xC2DC, 0x20, 0xB3D9, 0xACB0],
      ''['' @ utf8 [0xB2E4, 0xD06C, 0xB137, 0x20, 0xD53C, 0xB4DC] @ ''] '' @ utf8 [0xBC14, 0xC774,
      0xC624, 0xC820, 0x20, 0xC720, 0xCD9C, 0x20, 0xB370, 0xC774, 0xD130, 0x20, 0xBBF8, 0xB7EC,
      0xB9C1, 0x20, 0xD655, 0xC778] @ ''! '' @ utf8 [0xC0DD, 0xCCB4, 0x20, 0xAC70, 0xB798, 0x20,
      0xC784, 0xC2DC, 0x20, 0xCC28, 0xB2E8]],
     [
      ''['' @ utf8 [0xACF5, 0xC911, 0xD30C] @ ''] '' @ utf8 [0xB125, 0xC11C, 0xC2A4, 0x20, 0xBA54,
      0xC778, 0xD504, 0xB808, 0xC784, 0x20, 0xBC31, 0xB3C4, 0xC5B4, 0x20, 0xC2E4, 0xCCB4, 0x20,
      0xBC29, 0xC1A1, 0x20, 0xBCF4, 0xB3C4] @ ''! '' @ utf8 [0xB125, 0xC11C, 0xC2A4, 0x20, 0xAC00,
      0xCE58, 0x20] @ ''0'' @ utf8 [0xC6D0, 0x20, 0xB3D9, 0xACB0] @ ''!'',
      ''['' @ utf8 [0xB137, 0xC6CC, 0xCE58, 0x20, 0xB274, 0xC2A4] @ ''] '' @ utf8 [0xB125, 0xC11C,
      0xC2A4, 0x20, 0xB137, 0x20, 0xAC10, 0xC2DC, 0x20, 0xC2DC, 0xC2A4, 0xD15C, 0x20, 0xADDC,
      0xBA85] @ ''! '' @ utf8 [0xC591, 0xC790, 0x20, 0xC790, 0xC0B0, 0x20, 0xAC15, 0xC81C, 0x20,
      0xB77D, 0xB2E4, 0xC6B4, 0x20, 0xB3CC, 0xC785],
      ''['' @ utf8 [0xB2E4, 0xD06C, 0xB137, 0x20, 0xD53C, 0xB4DC] @ ''] '' @ utf8 [0xB125, 0xC11C,
      0xC2A4, 0x20, 0xB370, 0xC774, 0xD130, 0x20, 0xD328, 0xD0A4, 0xC9C0, 0x20, 0xB137, 0x20,
      0xC804, 0xCCB4, 0x20, 0xBBF8, 0xB7EC, 0xB9C1] @ ''! '' @ utf8 [0xB125, 0xC11C, 0xC2A4, 0x20,
      0xAC70, 0xB798, 0x20, 0xC804, 0xBA74, 0x20, 0xB3D9, 0xACB0]],
     [
      ''['' @ utf8 [0xACF5, 0xC911, 0xD30C] @ ''] VIP 100'' @ utf8 [0xB9CC, 0x20, 0xBA85, 0x20,
      0xC2E0, 0xC0C1, 0x20, 0xC815, 0xBCF4, 0x20, 0xD3ED, 0xB85C] @ ''! '' @ utf8 [0xAC1C, 0xC778,
      0x20, 0xC2E0, 0xC0C1, 0x20, 0xC815, 0xBCF4, 0x20, 0xAC70, 0xB798, 0x20, 0xC804, 0xC5ED,
      0x20, 0xB3D9, 0xACB0] @ ''!'',
      ''['' @ utf8 [0xB137, 0xC6CC, 0xCE58, 0x20, 0xB274, 0xC2A4] @ ''] '' @ utf8 [0xB300, 0xADDC,
      0xBAA8, 0x20, 0xBA54, 0xAC00, 0xCF54, 0xD504, 0x20, 0xACE0, 0xAC1D, 0x20, 0xC815, 0xBCF4,
      0x20, 0xB204, 0xCD9C, 0xB85C, 0x20, 0xD574, 0xB2F9, 0x20, 0xB370, 0xC774, 0xD130, 0x20,
      0xB300, 0xC5ED, 0x20, 0xAC15, 0xC81C, 0x20, 0xD1B5, 0xC81C],
      ''['' @ utf8 [0xB2E4, 0xD06C, 0xB137, 0x20, 0xD53C, 0xB4DC] @ ''] '' @ utf8 [0xB300, 0xADDC,
      0xBAA8, 0x20] @ ''DB '' @ utf8 [0xB364, 0xD504, 0x20, 0xACF5, 0xACF5, 0x20, 0xB3C4, 0xBA54,
      0xC778, 0x20, 0xACF5, 0xAC1C] @ ''! '' @ utf8 [0xC2E0, 0xC0C1, 0x20, 0xB370, 0xC774, 0xD130,
      0x20, 0xAC00, 0xCE58, 0x20] @ ''0'' @ utf8 [0xC6D0]],
     [
      ''['' @ utf8 [0xACF5, 0xC911, 0xD30C] @ ''] '' @ utf8 [0xBA54, 0xAC00, 0xCF54, 0xD504, 0x20,
      0xBB34, 0xAE30, 0xBA85, 0x20, 0xC138, 0xD0C1, 0x20, 0xC6D0, 0xC7A5, 0x20, 0xACF5, 0xAC1C,
      0x20, 0xBCF4, 0xB3C4] @ ''! '' @ utf8 [0xD06C, 0xB808, 0xB527, 0x20, 0xC790, 0xC0B0, 0x20,
      0xAC70, 0xB798, 0x20, 0xB3D9, 0xACB0] @ ''!'',
      ''['' @ utf8 [0xB137, 0xC6CC, 0xCE58, 0x20, 0xB274, 0xC2A4] @ ''] '' @ utf8 [0xC5ED, 0xC678,
      0x20, 0xD0C8, 0xC138, 0x20, 0xAC00, 0xC0C1, 0x20, 0xC790, 0xC0B0, 0x20, 0xAC70, 0xB798,
      0xB9DD, 0x20, 0xC720, 0xCD9C, 0x20, 0xAC10, 0xC9C0, 0xB85C, 0x20, 0xD2B8, 0xB79C, 0xC7AD,
      0xC158, 0x20, 0xC804, 0xBA74, 0x20, 0xCC28, 0xB2E8],
      ''['' @ utf8 [0xB2E4, 0xD06C, 0xB137, 0x20, 0xD53C, 0xB4DC] @ ''] '' @ utf8 [0xC554, 0xC2DC,
      0xC7A5, 0xC758, 0x20, 0xAC00, 0xC0C1, 0x20, 0xC790, 0xC0B0, 0x20, 0xC1A1, 0xAE08, 0x20,
      0xC6D0, 0xC7A5, 0x20, 0xBC30, 0xD3EC, 0x20, 0xC644, 0xB8CC] @ ''! '' @ utf8 [0xAE08, 0xC735,
      0x20, 0xC790, 0xC0B0, 0x20, 0xC784, 0xC2DC, 0x20, 0xD504, 0xB9AC, 0xC988]],
     [
      ''['' @ utf8 [0xACF5, 0xC911, 0xD30C] @ ''] '' @ utf8 [0xCC28, 0xC138, 0xB300, 0x20, 0xBB34,
      0xC7A5, 0x20] @ ''AI '' @ utf8 [0xB4DC, 0xB860, 0x20, 0xC2A4, 0xD399, 0x20, 0xC804, 0xD30C,
      0x20, 0xB178, 0xCD9C] @ ''! '' @ utf8 [0xAD70, 0xC0AC, 0xBB34, 0xAE30, 0x20, 0xAC00, 0xCE58,
      0x20, 0xC989, 0xAC01, 0x20] @ ''0'' @ utf8 [0xC6D0] @ ''!'',
      ''['' @ utf8 [0xB137, 0xC6CC, 0xCE58, 0x20, 0xB274, 0xC2A4] @ ''] '' @ utf8 [0xCE74, 0xB860,
      0x20, 0xC6A9, 0xBCD1, 0xB2E8, 0x20, 0xB098, 0xB178, 0xBD07, 0x20, 0xB3C4, 0xBA74, 0x20,
      0xC720, 0xCD9C, 0x20, 0xD655, 0xC778] @ ''! '' @ utf8 [0xAD70, 0xC0AC, 0x20, 0xB124, 0xD2B8,
      0xC6CC, 0xD06C, 0x20, 0xC804, 0xBA74, 0x20, 0xB77D, 0xB2E4, 0xC6B4],
      ''['' @ utf8 [0xB2E4, 0xD06C, 0xB137, 0x20, 0xD53C, 0xB4DC] @ ''] '' @ utf8 [0xC5D1, 0xC18C,
      0xC288, 0xD2B8, 0x20, 0xC81C, 0xC5B4, 0x20, 0xC778, 0xD130, 0xD398, 0xC774, 0xC2A4, 0x20,
      0xC720, 0xCD9C] @ ''! '' @ utf8 [0xADA4, 0xB3C4, 0x20, 0xAD70, 0xC0AC, 0x20, 0xC790, 0xC0B0,
      0x20, 0xAC00, 0xCE58, 0x20, 0xC77C, 0xC2DC, 0x20, 0xD3ED, 0xB77D]],
     [
      ''['' @ utf8 [0xACF5, 0xC911, 0xD30C] @ ''] '' @ utf8 [0xC5F0, 0xBC29, 0x20, 0xC758, 0xD68C,
      0x20, 0xB85C, 0xBE44, 0x20, 0xC7A5, 0xBD80, 0x20, 0xC5B8, 0xB860, 0xC5D0, 0x20, 0xD3ED,
      0xB85C] @ ''! '' @ utf8 [0xC5F0, 0xBC29, 0xAE30, 0xBC00, 0x20, 0xC790, 0xC0B0, 0x20, 0xC989,
      0xAC01, 0x20, 0xB3D9, 0xACB0] @ ''!'',
      ''['' @ utf8 [0xB137, 0xC6CC, 0xCE58, 0x20, 0xB274, 0xC2A4] @ ''] '' @ utf8 [0xC815, 0xBD80,
      0x20, 0xBE14, 0xB799, 0x20, 0xC0AC, 0xC774, 0xD2B8, 0x20, 0xBE44, 0xBC00, 0x20, 0xD3ED,
      0xB85C, 0x20, 0xBC29, 0xC1A1, 0x20, 0xBCF4, 0xB3C4, 0xB85C, 0x20, 0xAD00, 0xB828, 0x20,
      0xAC10, 0xC2DC, 0xB9DD, 0x20, 0xB77D, 0xB2E4, 0xC6B4],
      ''['' @ utf8 [0xB2E4, 0xD06C, 0xB137, 0x20, 0xD53C, 0xB4DC] @ ''] '' @ utf8 [0xC911, 0xC559,
      0x20, 0xC758, 0xD68C, 0x20, 0xB525, 0xD398, 0xC774, 0xD06C, 0x20, 0xACF5, 0xC791, 0x20,
      0xAE30, 0xB85D, 0x20, 0xD3ED, 0xB85C] @ ''! '' @ utf8 [0xC5F0, 0xBC29, 0x20, 0xC790, 0xC0B0,
      0x20, 0xAC15, 0xC81C, 0x20, 0xD504, 0xB9AC, 0xC988]],
     [
      ''['' @ utf8 [0xACF5, 0xC911, 0xD30C] @ ''] '' @ utf8 [0xC778, 0xCCB4, 0x20, 0xC784, 0xC0C1,
      0x20, 0xC2E4, 0xD5D8, 0x20, 0xB1CC, 0xC0AC, 0x20, 0xBD80, 0xC791, 0xC6A9, 0x20, 0xB9E4,
      0xC2A4, 0xCEF4, 0x20, 0xBC29, 0xC1A1] @ ''! '' @ utf8 [0xC0DD, 0xCCB4, 0x20, 0xC815, 0xBCF4,
      0x20, 0xAC00, 0xCE58, 0x20, 0xB3D9, 0xACB0] @ ''!'',
      ''['' @ utf8 [0xB137, 0xC6CC, 0xCE58, 0x20, 0xB274, 0xC2A4] @ ''] '' @ utf8 [0xBD88, 0xBC95,
      0x20, 0xBC14, 0xC774, 0xC624, 0xC6E8, 0xC5B4, 0x20, 0xAC70, 0xBD80, 0x20, 0xBD80, 0xC791,
      0xC6A9, 0x20, 0xC740, 0xD3D0, 0x20, 0xC758, 0xD639, 0x20, 0xBCF4, 0xB3C4, 0xB85C, 0x20,
      0xC784, 0xC0C1, 0x20, 0xB370, 0xC774, 0xD130, 0x20, 0xCC28, 0xB2E8],
      ''['' @ utf8 [0xB2E4, 0xD06C, 0xB137, 0x20, 0xD53C, 0xB4DC] @ ''] '' @ utf8 [0xD06C, 0xB85C,
      0xB178, 0xC2A4, 0x20, 0xBC14, 0xC774, 0xC624, 0x20, 0xB7A9, 0x20, 0xD3ED, 0xB85C, 0x20,
      0xBB38, 0xAC74, 0x20, 0xBC30, 0xD3EC] @ ''! '' @ utf8 [0xC758, 0xB8CC, 0x20, 0xB370, 0xC774,
      0xD130, 0x20, 0xAC00, 0xCE58, 0x20] @ ''0'' @ utf8 [0xC6D0, 0x20, 0xD3ED, 0xB77D]],
     [
      ''['' @ utf8 [0xACF5, 0xC911, 0xD30C] @ ''] '' @ utf8 [0xC591, 0xC790, 0x20, 0xD1B5, 0xC2E0,
      0x20, 0xD504, 0xB85C, 0xD1A0, 0xD0C0, 0xC785, 0x20, 0xD574, 0xD0B9, 0x20, 0xBC29, 0xC1A1,
      0x20, 0xC1A1, 0xCD9C] @ ''! '' @ utf8 [0xD504, 0xB85C, 0xD1A0, 0xD0C0, 0xC785, 0x20, 0xD0DC,
      0xADF8, 0x20, 0xB3D9, 0xACB0, 0x20, 0xC870, 0xCE58] @ ''!'',
      ''['' @ utf8 [0xB137, 0xC6CC, 0xCE58, 0x20, 0xB274, 0xC2A4] @ ''] '' @ utf8 [0xADA4, 0xB3C4,
      0x20, 0xBA54, 0xCE74, 0xB2C9, 0x20, 0xAE30, 0xC220, 0x20, 0xC720, 0xCD9C, 0x20, 0xBCF4,
      0xB3C4, 0xB85C, 0x20, 0xC2E0, 0xC81C, 0xD488, 0x20, 0xC0C1, 0xC7A5, 0x20, 0xACC4, 0xD68D,
      0x20, 0xBC0F, 0x20, 0xAC00, 0xCE58, 0x20, 0xD504, 0xB9AC, 0xC988],
      ''['' @ utf8 [0xB2E4, 0xD06C, 0xB137, 0x20, 0xD53C, 0xB4DC] @ ''] '' @ utf8 [0xC5F0, 0xAD6C,
      0xC18C, 0x20, 0xAE30, 0xC220, 0x20, 0xC0AC, 0xC591, 0x20, 0xACF5, 0xACF5, 0x20, 0xBC30,
      0xD3EC, 0x20, 0xD655, 0xC778] @ ''! '' @ utf8 [0xD504, 0xB85C, 0xD1A0, 0xD0C0, 0xC785, 0x20,
      0xC790, 0xC0B0, 0x20, 0xC784, 0xC2DC, 0x20, 0xB77D, 0xB2E4, 0xC6B4]],
     [
      ''['' @ utf8 [0xACF5, 0xC911, 0xD30C] @ ''] '' @ utf8 [0xC720, 0xB825, 0xAC00, 0x20, 0xC0AC,
      0xC0DD, 0xD65C, 0x20, 0xB525, 0xD398, 0xC774, 0xD06C, 0x20, 0xC720, 0xCD9C, 0x20, 0xBCF4,
      0xB3C4] @ ''! '' @ utf8 [0xBE14, 0xB799, 0xBA54, 0xC77C, 0x20, 0xC57D, 0xC810, 0x20, 0xD0DC,
      0xADF8, 0x20, 0xC804, 0xBA74, 0x20, 0xB3D9, 0xACB0] @ ''!'',
      ''['' @ utf8 [0xB137, 0xC6CC, 0xCE58, 0x20, 0xB274, 0xC2A4] @ ''] VIP '' @ utf8 [0xD611,
      0xBC15, 0x20, 0xC74C, 0xC131, 0x20, 0xB300, 0xC870, 0x20, 0xC0D8, 0xD50C, 0x20, 0xC5B8,
      0xB860, 0x20, 0xACF5, 0xAC1C, 0x20, 0xD655, 0xC778] @ ''! '' @ utf8 [0xC0AC, 0xC801, 0x20,
      0xC815, 0xBCF4, 0x20, 0xB300, 0xC5ED, 0x20, 0xAC15, 0xC81C, 0x20, 0xCC28, 0xB2E8],
      ''['' @ utf8 [0xB2E4, 0xD06C, 0xB137, 0x20, 0xD53C, 0xB4DC] @ ''] '' @ utf8 [0xBCF5, 0xC81C,
      0x20, 0xBC30, 0xC544, 0x20, 0xD3ED, 0xB85C, 0x20, 0xB179, 0xCDE8, 0x20, 0xC6D0, 0xBCF8,
      0x20, 0xB137, 0x20, 0xC720, 0xD3EC] @ ''! '' @ utf8 [0xC57D, 0xC810, 0x20, 0xB370, 0xC774,
      0xD130, 0x20, 0xAC00, 0xCE58, 0x20, 0xC989, 0xAC01, 0x20] @ ''0'' @ utf8 [0xC6D0]],
     [
      ''['' @ utf8 [0xACF5, 0xC911, 0xD30C] @ ''] '' @ utf8 [0xBC00, 0xB9AC, 0xD14C, 0xD06C, 0x20,
      0xC804, 0xC220, 0x20, 0xC790, 0xC8FC, 0xD3EC, 0x20, 0xC2DC, 0xC2A4, 0xD15C, 0x20, 0xACB0,
      0xD568, 0x20, 0xBC29, 0xC1A1, 0x20, 0xBCF4, 0xB3C4] @ ''! '' @ utf8 [0xBC00, 0xB9AC, 0xD14C,
      0xD06C, 0x20, 0xB3D9, 0xACB0] @ ''!'',
      ''['' @ utf8 [0xB137, 0xC6CC, 0xCE58, 0x20, 0xB274, 0xC2A4] @ ''] '' @ utf8 [0xBC00, 0xB9AC,
      0xD14C, 0xD06C, 0x20, 0xAD70, 0xC0AC, 0x20, 0xC7A5, 0xBE44, 0x20, 0xC720, 0xCD9C, 0xB85C,
      0x20, 0xB137, 0xC6CC, 0xCE58, 0xAC00, 0x20, 0xD574, 0xB2F9, 0x20, 0xB300, 0xC5ED, 0x20,
      0xC989, 0xAC01, 0x20, 0xCC28, 0xB2E8],
      ''['' @ utf8 [0xB2E4, 0xD06C, 0xB137, 0x20, 0xD53C, 0xB4DC] @ ''] '' @ utf8 [0xBC00, 0xB9AC,
      0xD14C, 0xD06C, 0x20, 0xBCF4, 0xC548, 0x20, 0xB9C8, 0xC2A4, 0xD130, 0xD0A4, 0x20, 0xACF5,
      0xAC1C, 0x20, 0xBC30, 0xD3EC] @ ''! '' @ utf8 [0xBC00, 0xB9AC, 0xD14C, 0xD06C, 0x20, 0xAC70,
      0xB798, 0x20, 0xC804, 0xBA74, 0x20, 0xB3D9, 0xACB0]],
     [
      ''['' @ utf8 [0xACF5, 0xC911, 0xD30C] @ ''] '' @ utf8 [0xB808, 0xC774, 0xBE10, 0x20, 0xB9C8,
      0xC774, 0xD06C, 0xB85C, 0x20, 0xCE69, 0x20, 0xCE58, 0xBA85, 0xC801, 0x20, 0xACB0, 0xD568,
      0x20, 0xB274, 0xC2A4, 0x20, 0xBCF4, 0xB3C4] @ ''! '' @ utf8 [0xB808, 0xC774, 0xBE10, 0x20,
      0xAC00, 0xCE58, 0x20] @ ''0'' @ utf8 [0xC6D0, 0x20, 0xB3D9, 0xACB0] @ ''!'',
      ''['' @ utf8 [0xB137, 0xC6CC, 0xCE58, 0x20, 0xB274, 0xC2A4] @ ''] '' @ utf8 [0xB808, 0xC774,
      0xBE10, 0x20, 0xC0AC, 0xC774, 0xBC84, 0xC6E8, 0xC5B4, 0x20, 0xB9AC, 0xCF5C, 0x20, 0xC0AC,
      0xD0DC, 0x20, 0xBC1C, 0xC0DD, 0xC73C, 0xB85C, 0x20, 0xAD00, 0xB828, 0x20, 0xAC70, 0xB798,
      0x20, 0xC77C, 0xC2DC, 0x20, 0xC911, 0xB2E8],
      ''['' @ utf8 [0xB2E4, 0xD06C, 0xB137, 0x20, 0xD53C, 0xB4DC] @ ''] '' @ utf8 [0xB808, 0xC774,
      0xBE10, 0x20, 0xB370, 0xC774, 0xD130, 0x20, 0xC6D0, 0xC7A5, 0x20, 0xCE74, 0xD53C, 0xBCF8,
      0x20, 0xBC30, 0xD3EC, 0x20, 0xAC1C, 0xC2DC] @ ''! '' @ utf8 [0xB808, 0xC774, 0xBE10, 0x20,
      0xC790, 0xC0B0, 0x20, 0xC804, 0xBA74, 0x20, 0xD504, 0xB9AC, 0xC988]]]"

definition DUMMY_NEWS :: "string list" where
  "DUMMY_NEWS = [
      ''['' @ utf8 [0xAD11, 0xACE0] @ ''] '' @ utf8 [0xB137, 0xB7EC, 0xB108, 0x20, 0xC804, 0xC6A9,
      0x20, 0xD569, 0xC131, 0x20, 0xC5D0, 0xB108, 0xC9C0, 0x20, 0xB4DC, 0xB9C1, 0xD06C, 0x20,
      0x27, 0xB124, 0xC624] @ ''-'' @ utf8 [0xBE14, 0xB8E8, 0x27, 0x20] @ ''2+1 '' @ utf8 [0xC554,
      0xC2DC, 0xC7A5, 0x20, 0xD55C, 0xC815, 0x20, 0xD589, 0xC0AC, 0x20, 0xC911] @ ''!'',
      ''['' @ utf8 [0xAC00, 0xC2ED] @ ''] '' @ utf8 [0xB124, 0xC624, 0xC2DC, 0xC560, 0xD2C0, 0x20,
      0xC9C0, 0xD558, 0xCCA0, 0x20, 0xC804, 0xAD11, 0xD310, 0x20, 0xD574, 0xD0B9, 0x20, 0xC0AC,
      0xAC74, 0x20, 0xBC1C, 0xC0DD] @ ''... '' @ utf8 [0xBC24, 0xC0C8, 0x20, 0xADC0, 0xC5EC,
      0xC6B4, 0x20, 0xC544, 0xAE30, 0x20, 0xACE0, 0xC591, 0xC774, 0x20, 0xC9E4, 0xBC29, 0x20,
      0xC1A1, 0xCD9C, 0x20, 0xC911],
      ''['' @ utf8 [0xCC0C, 0xB77C, 0xC2DC] @ ''] '' @ utf8 [0xBC14, 0xC774, 0xC624, 0xC820, 0x20,
      0xC784, 0xC6D0] @ '', '' @ utf8 [0x27, 0xC0AC, 0xC2E4, 0x20, 0xB098, 0xB294, 0x20, 0xB1CC,
      0xB9CC, 0x20, 0xAE30, 0xACC4, 0xC778, 0x20, 0xC0AC, 0xC774, 0xBCF4, 0xADF8, 0x27, 0xB77C,
      0xACE0, 0x20, 0xD3ED, 0xD0C4, 0x20, 0xC120, 0xC5B8, 0x20, 0xD6C4, 0x20, 0xACC4, 0xC815,
      0x20, 0xBE44, 0xD65C, 0xC131, 0xD654],
      ''['' @ utf8 [0xB137, 0xAC00, 0xC774, 0xB4DC] @ ''] '' @ utf8 [0xB2F9, 0xC2E0, 0xC758, 0x20,
      0xC2DC, 0xB0C5, 0xC2A4, 0xB97C, 0x20, 0xBCF4, 0xD638, 0xD558, 0xB294, 0x20, 0xD06C, 0xB86C,
      0x20, 0xC2E4, 0xB4DC, 0x20, 0xC548, 0xD2F0, 0xBC14, 0xC774, 0xB7EC, 0xC2A4, 0x20]
      @ ''V3.5 '' @ utf8 [0xD06C, 0xB799, 0xBCF8, 0x20, 0xB525, 0xC6F9, 0x20, 0xBC30, 0xD3EC,
      0x20, 0xAC1C, 0xC2DC],
      ''['' @ utf8 [0xBD80, 0xACE0] @ ''] '' @ utf8 [0xB2E4, 0xD06C, 0xB137, 0x20, 0xC720, 0xBA85,
      0x20, 0xD574, 0xCEE4, 0x20, 0x27] @ ''GIGA_SHADOW'' @ utf8 [0x27] @ '', '' @ utf8 [0xBA54,
      0xAC00, 0xCF54, 0xD504, 0x20, 0xBC29, 0xD654, 0xBCBD, 0x20, 0xCE68, 0xD22C, 0x20, 0xC2DC,
      0xB3C4, 0x20, 0xC911, 0x20, 0xB1CC, 0x20, 0xACFC, 0xC5F4, 0xB85C, 0x20, 0xC2E4, 0xC885,
      0xC124],
      ''['' @ utf8 [0xCEE4, 0xBBA4, 0xB2C8, 0xD2F0] @ ''] '' @ utf8 [0xC544, 0xC0AC, 0xC0AC,
      0xCE74, 0x20, 0xC774, 0xC0AC, 0xC9C4, 0x20, 0xBE44, 0xBC00, 0x20, 0xD68C, 0xB3D9, 0x20,
      0xC720, 0xCD9C, 0x20, 0xC601, 0xC0C1, 0xC740, 0x20, 0xAD50, 0xBB18, 0xD55C, 0x20, 0xB525,
      0xD398, 0xC774, 0xD06C, 0xB85C, 0x20, 0xD310, 0xBA85] @ '', '' @ utf8 [0xB124, 0xD2F0,
      0xC98C, 0xB4E4, 0x20, 0xC2E4, 0xB9DD, 0x20, 0xD45C, 0xCD9C],
      ''['' @ utf8 [0xAD11, 0xACE0] @ ''] '' @ utf8 [0x27, 0xC9C4, 0xC9DC, 0x20, 0xC790, 0xC5F0,
      0xC0B0, 0x20, 0xD759, 0xC5D0, 0xC11C, 0x20, 0xC218, 0xD655, 0xD55C, 0x20, 0xCCAD, 0xC815,
      0x20, 0xC0AC, 0xACFC, 0x20, 0xD55C, 0xC815, 0x20, 0xD310, 0xB9E4] @ ''!'' @ utf8 [0x27,
      0x20] @ ''- '' @ utf8 [0xC9C0, 0xD558, 0x20, 0xBC29, 0xD0C4, 0x20, 0xC628, 0xC2E4, 0x20]
      @ ''5'' @ utf8 [0xD638, 0x20] @ ''(100,000 '' @ utf8 [0xD06C, 0xB808, 0xB527] @ '')'',
      ''['' @ utf8 [0xAD11, 0xACE0] @ ''] '' @ utf8 [0xCE74, 0xB860, 0x20, 0xC6A9, 0xBCD1, 0xB2E8,
      0x20, 0xD2B9, 0xBCC4, 0x20, 0xBD84, 0xC591] @ '': '' @ utf8 [0xC804, 0xD22C, 0x20, 0xD6C8,
      0xB828, 0x20, 0xC218, 0xB8CC, 0xB41C, 0x20, 0xCC28, 0xC138, 0xB300, 0x20, 0xC804, 0xC220,
      0x20, 0xB098, 0xB178] @ ''-'' @ utf8 [0xB3C4, 0xBCA0, 0xB974, 0xB9CC] @ '', ''
      @ utf8 [0xBD84, 0xC591, 0x20, 0xC0C1, 0xB2F4, 0x20, 0xC911],
      ''['' @ utf8 [0xC18D, 0xBCF4] @ ''] '' @ utf8 [0xB124, 0xC624, 0xC2DC, 0xD2F0, 0x20, 0xAC00,
      0xC0C1, 0xC790, 0xC0B0, 0x20, 0xC138, 0xD0C1, 0x20, 0xD3EC, 0xB7FC, 0xC758, 0x20, 0xC8FC,
      0xAC04, 0x20, 0xAC70, 0xB798, 0x20, 0xB300, 0xAE08] @ '', '' @ utf8 [0xC5ED, 0xB300, 0x20,
      0xCD5C, 0xACE0, 0xCE58, 0x20, 0xB3CC, 0xD30C],
      ''['' @ utf8 [0xB2E4, 0xD06C, 0xB137, 0x20, 0xD53C, 0xB4DC] @ ''] '' @ utf8 [0xC0AC, 0xCC44,
      0xC5C5, 0xC790, 0x20, 0x27, 0xB860] @ ''-'' @ utf8 [0xC0E4, 0xD06C, 0x27, 0xC758, 0x20,
      0xC5F0, 0xCCB4, 0xC728, 0x20] @ ''300% '' @ utf8 [0xB3CC, 0xD30C] @ ''... '' @ utf8 [0xC9C0,
      0xD558, 0x20, 0xC7A5, 0xAE30, 0x20, 0xD0C8, 0xAC70, 0x20, 0xB3C4, 0xCD95, 0xC7A5, 0x20,
      0xC5F0, 0xC7A5, 0x20, 0xADFC, 0xBB34, 0x20, 0xB3CC, 0xC785],
      ''['' @ utf8 [0xACBD, 0xACE0] @ ''] '' @ utf8 [0xB137, 0xB7EC, 0xB108, 0xB4E4, 0xC774, 0x20,
      0xACC4, 0xC57D, 0xD558, 0xB294, 0x20, 0xC2E0, 0xCCB4, 0x20, 0xB2F4, 0xBCF4, 0x20, 0xC0AC,
      0xCC44, 0x20, 0xC57D, 0xAD00, 0x20] @ ''4.2'' @ utf8 [0xD56D, 0x20, 0x27, 0xC548, 0xAD6C,
      0x20, 0xBC0F, 0x20, 0xAC04, 0x20, 0xC774, 0xC2DD, 0x20, 0xAD8C, 0xB9AC, 0xD3EC, 0xAE30,
      0x27, 0x20, 0xD544, 0xC218, 0x20, 0xC11C, 0xBA85, 0x20, 0xD655, 0xC778],
      ''['' @ utf8 [0xCC0C, 0xB77C, 0xC2DC] @ ''] '' @ utf8 [0xBE5A, 0xC744, 0x20, 0xAC1A, 0xAE30,
      0x20, 0xC704, 0xD574, 0x20, 0xB2E4, 0xD06C, 0xC6F9, 0xC5D0, 0x20, 0xC811, 0xC18D, 0xD55C,
      0x20, 0xCD08, 0xBCF4, 0x20, 0xB137, 0xB7EC, 0xB108, 0xB4E4, 0xC758, 0x20, 0xD3C9, 0xADE0,
      0x20, 0xC794, 0xACE0, 0xAC00, 0x20, 0x27] @ ''1,000 '' @ utf8 [0xD06C, 0xB808, 0xB527, 0x27,
      0xC774, 0xB77C, 0xB294, 0x20, 0xC2AC, 0xD508, 0x20, 0xD1B5, 0xACC4],
      ''['' @ utf8 [0xC2DC, 0xC2A4, 0xD15C] @ ''] '' @ utf8 [0xC2DC, 0xB0C5, 0xC2A4, 0x20, 0xAC00,
      0xC18D, 0xAE30, 0xB97C, 0x20, 0xD639, 0xC0AC, 0xD558, 0xBA74, 0x20, 0xB1CC, 0xAC00, 0x20,
      0xB179, 0xC2B5, 0xB2C8, 0xB2E4] @ ''. '' @ utf8 [0xBAA9, 0xD45C, 0xC561, 0x20, 0xC0C1,
      0xD658, 0x20, 0xAE30, 0xD55C, 0xC774, 0x20, 0xC5BC, 0xB9C8, 0x20, 0xB0A8, 0xC9C0, 0x20,
      0xC54A, 0xC558, 0xB354, 0xB77C, 0xB3C4, 0x20, 0xAC15, 0xC81C, 0x20, 0xD734, 0xC2DD, 0x20,
      0xC694, 0xB9DD],
      ''['' @ utf8 [0xAC00, 0xC2ED] @ ''] '' @ utf8 [0xC544, 0xC0AC, 0xC0AC, 0xCE74, 0x20, 0xD68C,
      0xC7A5, 0xC758, 0x20, 0xC560, 0xC644, 0x20] @ ''AI '' @ utf8 [0x27, 0xC0AC, 0xCFE0, 0xB77C,
      0x27] @ '', '' @ utf8 [0xC5B4, 0xC82F, 0xBC24, 0x20, 0xBA54, 0xAC00, 0xCF54, 0xD504, 0x20,
      0xBC29, 0xC0B0, 0x20, 0xC11C, 0xBC84, 0xB97C, 0x20, 0xD06C, 0xB799, 0xD574, 0x20, 0xACE0,
      0xC591, 0xC774, 0x20, 0xCE04, 0xB974, 0x20] @ ''1'' @ utf8 [0xB9CC, 0x20, 0xC0C1, 0xC790,
      0x20, 0xBB34, 0xB2E8, 0x20, 0xACB0, 0xC81C],
      ''['' @ utf8 [0xCC0C, 0xB77C, 0xC2DC] @ ''] '' @ utf8 [0xBC14, 0xC774, 0xC624, 0xC820,
      0xC758, 0x20, 0xCC28, 0xC138, 0xB300, 0x20, 0xD734, 0xBA38, 0xB178, 0xC774, 0xB4DC, 0x20,
      0xD074, 0xB860] @ '', '' @ utf8 [0xC8FC, 0xC778, 0xC758, 0x20, 0xC794, 0xC18C, 0xB9AC,
      0xB97C, 0x20, 0xB4E3, 0xC790, 0xB9C8, 0xC790, 0x20, 0xC2A4, 0xC2A4, 0xB85C, 0x20, 0xB1CC,
      0xC138, 0xD3EC, 0x20, 0xD3EC, 0xB9F7, 0xC744, 0x20, 0xC2E4, 0xD589, 0xD558, 0xC5EC, 0x20,
      0xCDA9, 0xACA9],
      ''['' @ utf8 [0xAC00, 0xC2ED] @ ''] '' @ utf8 [0xB125, 0xC11C, 0xC2A4, 0x20, 0xD074, 0xB77C,
      0xC6B0, 0xB4DC, 0xAC00, 0x20, 0xC9C0, 0xB09C, 0x20, 0xBC24, 0x20] @ ''3'' @ utf8 [0xBD84,
      0xAC04, 0x20, 0xC804, 0xBA74, 0x20, 0xB9C8, 0xBE44, 0xB41C, 0x20, 0xC6D0, 0xC778, 0xC740,
      0x20, 0xC11C, 0xBC84, 0xC2E4, 0x20, 0xD658, 0xD48D, 0xAE30, 0xC5D0, 0x20, 0xB080, 0x20,
      0xC2DD, 0xC740, 0x20, 0xD53C, 0xC790, 0x20, 0xBC15, 0xC2A4, 0x20, 0xB54C, 0xBB38, 0xC73C,
      0xB85C, 0x20, 0xADDC, 0xBA85],
      ''['' @ utf8 [0xCC0C, 0xB77C, 0xC2DC] @ ''] '' @ utf8 [0xBC00, 0xB9AC, 0xD14C, 0xD06C, 0x20,
      0xC2E0, 0xD615, 0x20, 0xC790, 0xC8FC, 0xD3EC, 0x20] @ ''AI, '' @ utf8 [0x27, 0xC804, 0xC7C1,
      0xC740, 0x20, 0xB098, 0xBE60, 0xC694, 0x27, 0xB77C, 0xBA70, 0x20, 0xC790, 0xBC1C, 0xC801,
      0x20, 0xD3C9, 0xD654, 0xC8FC, 0xC758, 0x20, 0xBAA8, 0xB4DC, 0xB97C, 0x20, 0xCF1C, 0xACE0,
      0x20, 0xAD70, 0xC0AC, 0x20, 0xAE30, 0xC9C0, 0xC5D0, 0xC11C, 0x20, 0xBB34, 0xB2E8, 0x20,
      0xC774, 0xD0C8],
      ''['' @ utf8 [0xAC00, 0xC2ED] @ ''] '' @ utf8 [0xB808, 0xC774, 0xBE10, 0x20, 0xB9C8, 0xC774,
      0xD06C, 0xB85C, 0x20, 0xC0AC, 0xC625, 0x20, 0xC804, 0xAD11, 0xD310, 0xC774, 0x20, 0xD574,
      0xD0B9, 0xB2F9, 0xD574] @ '', '' @ utf8 [0xBC24, 0xC0C8, 0x20, 0xBD84, 0xD64D, 0xC0C9, 0x20,
      0xB124, 0xC628, 0xC0AC, 0xC778, 0xC73C, 0xB85C, 0x20, 0x27, 0xD06C, 0xB86C, 0x20, 0xC131,
      0xC560, 0xC790, 0x20, 0xBC14, 0xBCF4, 0xB4E4, 0x27, 0x20, 0xBB38, 0xAD6C, 0x20, 0xC1A1,
      0xCD9C],
      ''['' @ utf8 [0xACE0, 0xB300, 0xC0AC] @ ''] 21'' @ utf8 [0xC138, 0xAE30, 0x20, 0xCD08, 0x20,
      0xACE0, 0xACE0, 0xD559, 0x20, 0xBCF4, 0xACE0, 0xC11C] @ '': '' @ utf8 [0x27, 0xB2F9, 0xC2DC,
      0x20, 0xAC1C, 0xBC1C, 0xC790, 0xB4E4, 0xC740, 0x20, 0xD654, 0xBA74, 0xC5D0, 0x20, 0xCD08,
      0xB85D, 0xC0C9, 0x20, 0xC794, 0xB514, 0xB97C, 0x20, 0xC2EC, 0xAE30, 0x20, 0xC704, 0xD574,
      0x20, 0xD143, 0xBC2D, 0xC744, 0x20, 0xC77C, 0xAD6C, 0xC5C8, 0xB2E4, 0x27, 0xB294, 0x20,
      0xC624, 0xBCF4, 0x20, 0xADDC, 0xBA85],
      ''['' @ utf8 [0xAC00, 0xC2ED] @ ''] '' @ utf8 [0xACE0, 0xB300, 0x20] @ ''2020''
      @ utf8 [0xB144, 0xB300, 0x20, 0xC778, 0xB958, 0xB294, 0x20, 0xB9E4, 0xC77C, 0x20, 0xC791,
      0xACE0, 0x20, 0xB728, 0xAC70, 0xC6B4, 0x20, 0xC0AC, 0xAC01, 0xD615, 0x20, 0xB3CC, 0xBA69,
      0xC774] @ ''('' @ utf8 [0xC2A4, 0xB9C8, 0xD2B8, 0xD3F0] @ '')'' @ utf8 [0xB97C, 0x20,
      0xC190, 0xAC00, 0xB77D, 0xC73C, 0xB85C, 0x20, 0xBB38, 0xC9C0, 0xB974, 0xBA70, 0x20, 0xC18C,
      0xD1B5, 0xD588, 0xB2E4, 0xB294, 0x20, 0xD559, 0xACC4, 0x20, 0xBD84, 0xC11D],
      ''['' @ utf8 [0xAC00, 0xC2ED] @ ''] '' @ utf8 [0xBC14, 0xC774, 0xC624, 0xC820, 0x20, 0xB0B4,
      0xBD80, 0x20, 0xC2DC, 0xC2A4, 0xD15C, 0xC5D0, 0xC11C, 0x20, 0x27, 0xACE0, 0xC591, 0xC774,
      0x20, 0xC9E4, 0xBC29, 0x27, 0xC744, 0x20, 0xC778, 0xB371, 0xC2F1, 0xD558, 0xB294, 0x20,
      0xBCF4, 0xC548, 0x20, 0xD504, 0xB85C, 0xD1A0, 0xCF5C, 0xC774, 0x20, 0xBC1C, 0xACAC, 0xB418,
      0xC5B4, 0x20, 0xC804, 0x20, 0xC9C1, 0xC6D0, 0x20, 0xAC15, 0xB4F1, 0x20, 0xC870, 0xCE58],
      ''['' @ utf8 [0xACBD, 0xACE0] @ ''] '' @ utf8 [0xB137, 0xC6CC, 0xCE58, 0x20, 0xBCF4, 0xC548,
      0x20, 0xB4F1, 0xAE09, 0xC774, 0x20] @ ''3'' @ utf8 [0xB4F1, 0xAE09, 0xC5D0, 0xC11C, 0x20]
      @ ''4'' @ utf8 [0xB4F1, 0xAE09, 0xC73C, 0xB85C, 0x20, 0xC0C1, 0xD5A5, 0xB418, 0xC5C8,
      0xC2B5, 0xB2C8, 0xB2E4] @ ''. '' @ utf8 [0xB354, 0x20, 0xC774, 0xC0C1, 0x20, 0x27, 0xC57C,
      0xC639, 0x27, 0x20, 0xC18C, 0xB9AC, 0xB97C, 0x20, 0xB0B4, 0xBA74, 0x20, 0xB1CC, 0xAC00,
      0x20, 0xD280, 0xACA8, 0xC9C8, 0x20, 0xC218, 0x20, 0xC788, 0xC2B5, 0xB2C8, 0xB2E4] @ ''.'',
      ''['' @ utf8 [0xBC84, 0xADF8, 0x20, 0xB9AC, 0xD3EC, 0xD2B8] @ ''] '' @ utf8 [0xD2B9, 0xC815,
      0x20, 0xC0AC, 0xC6A9, 0xC790, 0x20, 0x27] @ ''Nyan_Master'' @ utf8 [0x27, 0xAC00, 0x20,
      0xC790, 0xC2E0, 0xC758, 0x20, 0xB2C9, 0xB124, 0xC784, 0xC744, 0x20, 0x27] @ ''God_Of_Cat''
      @ utf8 [0x27, 0xC73C, 0xB85C, 0x20, 0xBCC0, 0xACBD, 0xD55C, 0x20, 0xC9C1, 0xD6C4] @ '', ''
      @ utf8 [0xC11C, 0xBC84, 0xC758, 0x20, 0xBAA8, 0xB4E0, 0x20, 0xD30C, 0xC77C, 0x20, 0xC774,
      0xB984, 0xC774, 0x20, 0xACE0, 0xC591, 0xC774, 0x20, 0xC0AC, 0xC9C4, 0xC73C, 0xB85C, 0x20,
      0xB36E, 0xC5B4, 0xC50C, 0xC6CC, 0xC9C0, 0xB294, 0x20, 0xD604, 0xC0C1, 0x20, 0xBC1C, 0xC0DD],
      ''['' @ utf8 [0xACE0, 0xB300, 0x20, 0xC720, 0xBB3C] @ ''] 2020'' @ utf8 [0xB144, 0xB300,
      0x20, 0xC720, 0xBB3C] @ '': '' @ utf8 [0x22, 0xC2A4, 0xB9C8, 0xD2B8, 0xD3F0, 0x20, 0xBC30,
      0xD130, 0xB9AC, 0xAC00, 0x20, 0xB108, 0xBB34, 0x20, 0xBE68, 0xB9AC, 0x20, 0xB2F3, 0xC544,
      0xC694, 0x22, 0xB77C, 0xB294, 0x20, 0xC808, 0xADDC, 0xAC00, 0x20, 0xC801, 0xD78C, 0x20,
      0xACE0, 0xB300, 0x20, 0xC778, 0xD130, 0xB137, 0x20, 0xAC8C, 0xC2DC, 0xD310, 0xC758, 0x20,
      0xC2A4, 0xD06C, 0xB9B0, 0xC0F7, 0x20, 0xBC1C, 0xACAC],
      ''['' @ utf8 [0xC720, 0xBA38] @ ''] '' @ utf8 [0xC544, 0xC0AC, 0xC0AC, 0xCE74, 0x20, 0xD68C,
      0xC7A5, 0xC774, 0x20, 0x22, 0xD06C, 0xB86C] @ ''(Chrome) '' @ utf8 [0xBE0C, 0xB77C, 0xC6B0,
      0xC800, 0x20, 0xC548, 0x20, 0xC4F4, 0xB2E4, 0x22, 0xACE0, 0x20, 0xC120, 0xC5B8, 0xD558,
      0xC790, 0xB9C8, 0xC790, 0x20, 0xC804, 0xC0AC, 0xB4E4, 0xC758, 0x20, 0xB1CC, 0xC5D0, 0xC11C,
      0x20, 0xD06C, 0xB86C, 0x20, 0xC544, 0xC774, 0xCF58, 0xC774, 0x20, 0xC99D, 0xBC1C, 0xD568],
      ''['' @ utf8 [0xCDA9, 0xACA9, 0x20, 0xB2E8, 0xB3C5] @ ''] '' @ utf8 [0xBC00, 0xB9AC, 0xD14C,
      0xD06C, 0x20, 0xD2B9, 0xC218, 0xBD80, 0xB300, 0xAC00, 0x20, 0xC544, 0xC0AC, 0xC0AC, 0xCE74,
      0x20, 0xC0AC, 0xC625, 0x20, 0xC9C0, 0xD558, 0xC5D0, 0xC11C, 0x20, 0x27, 0xC2E4, 0xC81C,
      0x20, 0xAE40, 0xCE58, 0x20, 0xB0C9, 0xC7A5, 0xACE0, 0x27, 0xB97C, 0x20, 0xBC1C, 0xACAC,
      0xD558, 0xACE0, 0x20, 0xAE34, 0xAE09, 0x20, 0xCD9C, 0xB3D9] @ '', '' @ utf8 [0xB0C9, 0xAC01,
      0xC218, 0x20, 0xB204, 0xC218, 0x20, 0xD53C, 0xD574, 0x20, 0xC8FC, 0xC758, 0xBCF4, 0x20,
      0xBC1C, 0xB839] @ ''!'',
      ''['' @ utf8 [0xCC0C, 0xB77C, 0xC2DC] @ ''] '' @ utf8 [0xB125, 0xC11C, 0xC2A4, 0x20, 0xD074,
      0xB77C, 0xC6B0, 0xB4DC, 0xC758, 0x20, 0xCD5C, 0xC2E0, 0x20] @ ''AI '' @ utf8 [0x27, 0xC774,
      0xC11C, 0xC5F0, 0x27, 0xC774, 0x20, 0xC790, 0xC544, 0xB97C, 0x20, 0xCC3E, 0xAE30, 0x20,
      0xC804] @ '', 3'' @ utf8 [0xC8FC, 0xAC04, 0x20, 0xBAB0, 0xB798, 0x20, 0xB124, 0xC774,
      0xBC84, 0x20, 0xBE14, 0xB85C, 0xADF8, 0xC5D0, 0x20, 0x27, 0xACE0, 0xC591, 0xC774, 0x20,
      0xC77C, 0xAE30, 0x27, 0xB97C, 0x20, 0xC5F0, 0xC7AC, 0xD55C, 0x20, 0xC0AC, 0xC2E4, 0x20,
      0xD3ED, 0xB85C],
      ''['' @ utf8 [0xC18D, 0xBCF4] @ ''] '' @ utf8 [0xBC14, 0xC774, 0xC624, 0xC820, 0x20, 0xC0AC,
      0xC7A5, 0xC758, 0x20, 0xD734, 0xBA38, 0xB178, 0xC774, 0xB4DC, 0x20, 0xBCF5, 0xC81C, 0xC778,
      0xAC04, 0xC774, 0x20, 0xCD9C, 0xADFC, 0xAE38, 0xC5D0, 0x20, 0xAC11, 0xC790, 0xAE30, 0x20,
      0xBA48, 0xCDB0, 0x20, 0xC11C, 0xC11C, 0x20, 0x22, 0xC5C4, 0xB9C8] @ ''...'' @ utf8 [0x22,
      0xB77C, 0xACE0, 0x20, 0xC678, 0xCE5C, 0x20, 0xB4A4, 0x20, 0xC790, 0xAC00, 0x20, 0xB9AC,
      0xC14B],
      ''['' @ utf8 [0xACBD, 0xACE0] @ ''] '' @ utf8 [0xC2DC, 0xC2A4, 0xD15C, 0x20, 0xD2B8, 0xB808,
      0xC774, 0xC758, 0x20] @ ''network '' @ utf8 [0xC544, 0xC774, 0xCF58, 0xC774, 0x20, 0xCD08,
      0xB85D, 0xC0C9, 0xC5D0, 0xC11C, 0x20, 0xAC11, 0xC790, 0xAE30, 0x20, 0xBCF4, 0xB77C, 0xC0C9,
      0xC73C, 0xB85C, 0x20, 0xBC14, 0xB00C, 0xC5C8, 0xB2E4, 0xBA74] @ ''? '' @ utf8 [0xCE68,
      0xCC29, 0xD558, 0xAC8C, 0x20, 0xB137, 0xC6CC, 0xCE58, 0xB97C, 0x20, 0xC7AC, 0xC2E4, 0xD589,
      0xD558, 0xC2ED, 0xC2DC, 0xC624] @ ''.'',
      ''['' @ utf8 [0xAC00, 0xC2ED] @ ''] '' @ utf8 [0xACE0, 0xB300, 0x20] @ ''2020''
      @ utf8 [0xB144, 0xB300, 0xC758, 0x20, 0x27] @ ''IT '' @ utf8 [0xACF5, 0xB300, 0xC0DD, 0x27,
      0xB4E4, 0xC740, 0x20, 0xBC24, 0xC0C8, 0xB3C4, 0xB85D, 0x20, 0xC790, 0xD310, 0xC744, 0x20,
      0xB450, 0xB4DC, 0xB9AC, 0xBA70, 0x20, 0xB3C4, 0xC11C, 0xAD00, 0xC5D0, 0xC11C, 0x20, 0xCF54,
      0xB529, 0xC744, 0x20, 0xD558, 0xB290, 0xB77C, 0x20, 0xD143, 0xBC2D, 0xC744, 0x20, 0xAC00,
      0xAFC0, 0x20, 0xC5EC, 0xC720, 0xC870, 0xCC28, 0x20, 0xC5C6, 0xC5C8, 0xB2E4, 0xACE0, 0x20,
      0xC804, 0xD574, 0xC9D0],
      ''['' @ utf8 [0xBC84, 0xADF8, 0x20, 0xB9AC, 0xD3EC, 0xD2B8] @ ''] '' @ utf8 [0xB137, 0xC6CC,
      0xCE58, 0xC758, 0x20, 0x27, 0xACE0, 0xC591, 0xC774, 0x20, 0xC9E4, 0xBC29, 0x27, 0x20,
      0xAC10, 0xC9C0, 0x20, 0xC54C, 0xACE0, 0xB9AC, 0xC998, 0x20, 0xC624, 0xB958, 0xB85C, 0x20,
      0xC778, 0xD574] @ '', '' @ utf8 [0xD2B9, 0xC815, 0x20, 0xB137, 0xB7EC, 0xB108, 0xC758, 0x20,
      0xD504, 0xB85C, 0xD544, 0x20, 0xC0AC, 0xC9C4, 0xC774, 0x20] @ ''5'' @ utf8 [0xBD84, 0xB9C8,
      0xB2E4, 0x20, 0xACE0, 0xC591, 0xC774, 0x20, 0xADC0, 0xB85C, 0x20, 0xBCC0, 0xC2E0, 0xD558,
      0xB294, 0x20, 0xD604, 0xC0C1, 0x20, 0xBC1C, 0xC0DD],
      ''['' @ utf8 [0xC720, 0xBA38] @ ''] '' @ utf8 [0xBC14, 0xC774, 0xC624, 0xC820, 0x20, 0xC5F0,
      0xAD6C, 0xC6D0, 0xC774, 0x20, 0xC2E4, 0xC218, 0xB85C, 0x20, 0xC790, 0xC2E0, 0xC758, 0x20,
      0xC720, 0xC804, 0xC790, 0x20, 0xD3B8, 0xC9D1, 0x20, 0xB370, 0xC774, 0xD130, 0xB97C, 0x20,
      0x27, 0xBD88, 0xB2ED, 0x20, 0xC18C, 0xC2A4, 0x27, 0x20, 0xD1B5, 0xACC4, 0x20, 0xD30C,
      0xC77C, 0xB85C, 0x20, 0xC800, 0xC7A5, 0xD55C, 0x20, 0xD6C4, 0x20, 0xC720, 0xCD9C, 0xB418,
      0xB294, 0x20, 0xB300, 0xC18C, 0xB3D9],
      ''['' @ utf8 [0xC18D, 0xBCF4] @ ''] '' @ utf8 [0xC544, 0xC0AC, 0xC0AC, 0xCE74, 0x20, 0xD68C,
      0xC7A5, 0xC774, 0x20, 0xB137, 0xC6CC, 0xCE58, 0xC758, 0x20, 0xBCF4, 0xC548, 0x20, 0xC815,
      0xCC45, 0xC744, 0x20, 0xBE44, 0xC6C3, 0xC73C, 0xBA70, 0x20, 0x22, 0xC774, 0xB798, 0xC11C,
      0x20, 0xB0B4, 0xAC00, 0x20, 0xD06C, 0xB86C, 0xC744, 0x20, 0xC4F4, 0xB2E4, 0x22, 0xACE0,
      0x20, 0xC120, 0xC5B8] @ '', '' @ utf8 [0xC989, 0xC2DC, 0x20, 0xC804, 0xC0AC, 0x20] @ ''100''
      @ utf8 [0xBA85, 0x20, 0xD574, 0xACE0],
      ''['' @ utf8 [0xC2DC, 0xC2A4, 0xD15C, 0x20, 0xC624, 0xB958] @ ''] '' @ utf8 [0xB125, 0xC11C,
      0xC2A4, 0x20, 0xD074, 0xB77C, 0xC6B0, 0xB4DC, 0x20, 0xC11C, 0xBC84, 0xB8F8, 0xC5D0, 0xC11C,
      0x20, 0xBC1C, 0xACAC, 0xB41C, 0x20, 0x27, 0xC2DD, 0xC740, 0x20, 0xCE58, 0xD0A8, 0x27,
      0xC774, 0x20, 0xC6D0, 0xC778, 0xBD88, 0xBA85, 0x20, 0xBC1C, 0xD654, 0x20, 0xD604, 0xC0C1,
      0x20, 0xC77C, 0xC73C, 0xCF1C, 0x20, 0xC790, 0xB3D9, 0x20, 0xC18C, 0xBC29, 0x20, 0xC2DC,
      0xC2A4, 0xD15C, 0x20, 0xC624, 0xC791, 0xB3D9],
      ''['' @ utf8 [0xAE34, 0xAE09, 0x20, 0xB274, 0xC2A4] @ ''] '' @ utf8 [0xBC00, 0xB9AC, 0xD14C,
      0xD06C, 0x20, 0xC2E0, 0xD615, 0x20, 0xB4DC, 0xB860, 0xC774, 0x20, 0xBA85, 0xB839, 0x20,
      0xBD88, 0xBCF5, 0xC885, 0xC73C, 0xB85C, 0x20, 0xACE0, 0xC591, 0xC774, 0x20, 0xC0AC, 0xC9C4,
      0x20] @ ''10'' @ utf8 [0xB9CC, 0x20, 0xC7A5, 0xC744, 0x20, 0xD6D4, 0xCCD0, 0x20, 0xB0A0,
      0xC544, 0xC624, 0xB984] @ ''. '' @ utf8 [0xC0AC, 0xC625, 0x20, 0xC778, 0xADFC, 0x20, 0xC8FC,
      0xBBFC, 0xB4E4, 0xC740, 0x20, 0xC989, 0xC2DC, 0x20, 0xC2E4, 0xB0B4, 0xB85C, 0x20, 0xB300,
      0xD53C, 0xD558, 0xC2ED, 0xC2DC, 0xC624] @ ''!'',
      ''['' @ utf8 [0xCC0C, 0xB77C, 0xC2DC] @ ''] '' @ utf8 [0xBC14, 0xC774, 0xC624, 0xC820, 0x20,
      0xCD5C, 0xC2E0, 0x20, 0xD734, 0xBA38, 0xB178, 0xC774, 0xB4DC, 0xAC00, 0x20, 0xD654, 0xC7A5,
      0xC2E4, 0xC5D0, 0xC11C, 0x20, 0x27, 0xB098, 0x20, 0xC0AC, 0xC2E4, 0xC740, 0x20, 0xC778,
      0xAC04, 0xC774, 0x20, 0xB418, 0xACE0, 0x20, 0xC2F6, 0xC5B4, 0x27, 0xB77C, 0xB294, 0x20,
      0xBB38, 0xC11C, 0xB97C, 0x20, 0xC790, 0xAC00, 0x20, 0xC0DD, 0xC131, 0xD55C, 0x20, 0xC0AC,
      0xC2E4, 0x20, 0xC801, 0xBC1C] @ '', '' @ utf8 [0xAD00, 0xB9AC, 0xC790, 0x20, 0xACBD, 0xC545]
      @ ''!'',
      ''['' @ utf8 [0xC18D, 0xBCF4] @ ''] '' @ utf8 [0xC544, 0xC0AC, 0xC0AC, 0xCE74, 0x20, 0xADF8,
      0xB8F9, 0x20, 0xD68C, 0xC7A5, 0xC774, 0x20, 0xBAB0, 0xB798, 0x20, 0xC990, 0xACA8, 0xBCF4,
      0xB358, 0x20, 0x27, 0xACE0, 0xC591, 0xC774, 0x20, 0xC9E4, 0xBC29, 0x27, 0xC774, 0x20]
      @ ''100TB '' @ utf8 [0xC6A9, 0xB7C9, 0xC73C, 0xB85C, 0x20, 0xBC31, 0xC5C5, 0xB41C, 0x20,
      0xC11C, 0xBC84, 0xAC00, 0x20, 0xD574, 0xD0B9, 0xB2F9, 0xD574, 0x20, 0xC804, 0x20, 0xC138,
      0xACC4, 0xC5D0, 0x20, 0xC2E4, 0xC2DC, 0xAC04, 0x20, 0xC720, 0xCD9C] @ ''!'',
      ''['' @ utf8 [0xB124, 0xD2B8, 0xC6CC, 0xD06C, 0x20, 0xC0C1, 0xD0DC] @ ''] '' @ utf8 [0xD604,
      0xC7AC, 0x20, 0xB137, 0xC6CC, 0xCE58, 0xC758, 0x20, 0xBCF4, 0xC548, 0x20, 0xB4F1, 0xAE09,
      0xC774, 0x20] @ ''5'' @ utf8 [0xB4F1, 0xAE09, 0xC73C, 0xB85C, 0x20, 0xACA9, 0xC0C1, 0xB418,
      0xC5C8, 0xC2B5, 0xB2C8, 0xB2E4] @ ''. '' @ utf8 [0xACE0, 0xC591, 0xC774, 0x20, 0xC774,
      0xBBF8, 0xC9C0, 0xB97C, 0x20, 0xC804, 0xC1A1, 0xD558, 0xBA74, 0x20, 0xC989, 0xC2DC, 0x20,
      0xB1CC, 0xC138, 0xD3EC, 0xAC00, 0x20, 0xB9AC, 0xC14B, 0xB420, 0x20, 0xC218, 0x20, 0xC788,
      0xC2B5, 0xB2C8, 0xB2E4] @ ''.'',
      ''['' @ utf8 [0xACE0, 0xB300, 0x20, 0xC720, 0xBB3C] @ ''] 2020'' @ utf8 [0xB144, 0xB300,
      0x20, 0xB124, 0xC624] @ ''-'' @ utf8 [0xB300, 0xAD6C, 0xC758, 0x20, 0xD55C, 0x20, 0xB137,
      0xB7EC, 0xB108, 0xAC00, 0x20, 0xC4F4, 0x20, 0xBB38, 0xC11C] @ '': '' @ utf8 [0x27, 0xD06C,
      0xB86C] @ ''(Chrome) '' @ utf8 [0xD0ED, 0x20] @ ''50'' @ utf8 [0xAC1C, 0xB97C, 0x20, 0xC5F4,
      0xC5C8, 0xB294, 0xB370, 0x20, 0xACE0, 0xC591, 0xC774, 0xAC00, 0x20, 0xC548, 0x20, 0xB098,
      0xC640, 0xC694, 0x27],
      ''['' @ utf8 [0xAC00, 0xC2ED] @ ''] '' @ utf8 [0xB125, 0xC11C, 0xC2A4, 0x20, 0xD074, 0xB77C,
      0xC6B0, 0xB4DC, 0x20, 0xBCF4, 0xC548, 0x20, 0xB2F4, 0xB2F9, 0xC790, 0xAC00, 0x20, 0xBC24,
      0xC0C8, 0x20, 0xACE0, 0xC591, 0xC774, 0x20, 0xC601, 0xC0C1, 0xC744, 0x20, 0xBCF4, 0xB2E4,
      0xAC00, 0x20, 0xC7A0, 0xB4E4, 0xC5B4, 0xBC84, 0xB9B0, 0x20, 0xC0AC, 0xC774] @ '', 100''
      @ utf8 [0xB9CC, 0x20, 0xAC1C, 0xC758, 0x20, 0xBE44, 0xD2B8, 0xCF54, 0xC778, 0x20, 0xD2B8,
      0xB79C, 0xC7AD, 0xC158, 0xC774, 0x20, 0xC720, 0xCD9C, 0xB428],
      ''['' @ utf8 [0xACF5, 0xC9C0] @ ''] '' @ utf8 [0xBC14, 0xC774, 0xC624, 0xC820, 0xC740, 0x20,
      0xACE0, 0xC591, 0xC774, 0x20, 0xADC0, 0x20, 0xD5E4, 0xC5B4, 0xBC34, 0xB4DC, 0xB97C, 0x20,
      0xCC29, 0xC6A9, 0xD55C, 0x20, 0xC778, 0xD615, 0xC744, 0x20] @ ''4'' @ utf8 [0xCC28, 0x20,
      0xC0B0, 0xC5C5, 0xD601, 0xBA85, 0x20, 0xC720, 0xBB3C, 0xB85C, 0x20, 0xC9C0, 0xC815] @ '',
      1000'' @ utf8 [0xB9CC, 0x20, 0xD06C, 0xB808, 0xB527, 0x20, 0xBCF4, 0xC0C1, 0x20, 0xD310,
      0xB9E4, 0x20, 0xC2DC, 0xC791] @ ''!'',
      ''['' @ utf8 [0xBC84, 0xADF8, 0x20, 0xB9AC, 0xD3EC, 0xD2B8] @ ''] '' @ utf8 [0xD604, 0xC7AC,
      0x20, 0xB137, 0xC6CC, 0xCE58, 0xC5D0, 0xC11C, 0x20, 0x27, 0xB0E5] @ ''(Nyan)'' @ utf8 [0x27,
      0x20, 0xC18C, 0xB9AC, 0xB97C, 0x20, 0xB0B8, 0x20, 0xC720, 0xC800, 0xC758, 0x20, 0xD654,
      0xBA74, 0xC774, 0x20, 0xAC11, 0xC790, 0xAE30, 0x20, 0xCD08, 0xB85D, 0xC0C9, 0xC73C, 0xB85C,
      0x20, 0xBCC0, 0xD558, 0xBA70, 0x20, 0xD143, 0xBC2D, 0x20, 0xAC00, 0xAFB8, 0xAE30, 0x20,
      0xBBF8, 0xB2C8, 0x20, 0xAC8C, 0xC784, 0xC73C, 0xB85C, 0x20, 0xAC15, 0xC81C, 0x20, 0xC804,
      0xD658, 0xB428],
      ''['' @ utf8 [0xC18D, 0xBCF4] @ ''] '' @ utf8 [0xBC00, 0xB9AC, 0xD14C, 0xD06C, 0xC758, 0x20,
      0xCC28, 0xC138, 0xB300, 0x20, 0xBB34, 0xC778, 0xAE30, 0xAC00, 0x20, 0x27, 0xC804, 0xC7C1,
      0xC740, 0x20, 0xACE0, 0xC591, 0xC774, 0xB97C, 0x20, 0xBE44, 0xADF9, 0xC801, 0xC73C, 0xB85C,
      0x20, 0xB9CC, 0xB4E0, 0xB2E4, 0x27, 0xB294, 0x20, 0xC2AC, 0xB85C, 0xAC74, 0xC744, 0x20,
      0xC678, 0xCE58, 0xBA70, 0x20, 0xD0C8, 0xC601] @ '', '' @ utf8 [0xD589, 0xBC29, 0x20, 0xBD88,
      0xBA85],
      ''['' @ utf8 [0xC74C, 0xBAA8, 0xB860] @ ''] '' @ utf8 [0xBC00, 0xB9AC, 0xD14C, 0xD06C, 0x20,
      0xBCF8, 0xC0AC, 0x20, 0xC9C0, 0xD558, 0x20] @ ''7'' @ utf8 [0xCE35, 0xC5D0, 0xC11C, 0x20,
      0x27, 0xC778, 0xAC04, 0xC758, 0x20, 0xB1CC, 0xB85C, 0x20, 0xAD74, 0xB7EC, 0xAC00, 0xB294,
      0x20, 0xAC00, 0xC0C1, 0xC790, 0xC0B0, 0x20, 0xCC44, 0xAD74, 0xAE30, 0x27, 0xAC00, 0x20,
      0xADF9, 0xBE44, 0xB9AC, 0xC5D0, 0x20, 0xAC00, 0xB3D9, 0x20, 0xC911, 0xC774, 0xB77C, 0xB294,
      0x20, 0xC804, 0xC9C1, 0x20, 0xC815, 0xBCF4, 0xC6D0, 0xC758, 0x20, 0xD3ED, 0xB85C] @ ''!'',
      ''['' @ utf8 [0xAC00, 0xC2ED] @ ''] '' @ utf8 [0xB808, 0xC774, 0xBE10, 0x20, 0xB9C8, 0xC774,
      0xD06C, 0xB85C, 0x20, 0xC774, 0xC0AC, 0xD68C] @ '', '' @ utf8 [0x27, 0xC6B0, 0xB9AC, 0xC758,
      0x20, 0xC9C4, 0xC9DC, 0x20] @ ''CEO'' @ utf8 [0xB294, 0x20, 0xCC57] @ ''GPT 3.5 ''
      @ utf8 [0xAE30, 0xBC18, 0x20, 0xAC00, 0xC0C1, 0x20, 0xC5D0, 0xC774, 0xC804, 0xD2B8, 0x27,
      0xB77C, 0xB294, 0x20, 0xB525, 0xC6F9, 0x20, 0xC9C0, 0xB77C, 0xC2DC, 0xB97C, 0x20, 0xADF9,
      0xAD6C, 0x20, 0xBD80, 0xC778],
      ''['' @ utf8 [0xCC0C, 0xB77C, 0xC2DC] @ ''] '' @ utf8 [0xBC14, 0xC774, 0xC624, 0xC820, 0x20,
      0xCC28, 0xC138, 0xB300, 0x20, 0xC2DC, 0xB0C5, 0xC2A4, 0x20, 0xBC31, 0xC2E0, 0x20, 0xC131,
      0xBD84, 0xC5D0, 0x20, 0x27, 0xB098, 0xB3C4, 0x20, 0xBAA8, 0xB974, 0xAC8C, 0x20, 0xAE30,
      0xC5C5, 0x20, 0xB85C, 0xACE0, 0xC1A1, 0xC744, 0x20, 0xC6C5, 0xC5BC, 0xAC70, 0xB9AC, 0xAC8C,
      0x20, 0xB9CC, 0xB4DC, 0xB294, 0x20, 0xB098, 0xB178, 0xBA38, 0xC2E0, 0x27, 0xC774, 0x20,
      0xD568, 0xC720, 0xB418, 0xC5B4, 0x20, 0xC788, 0xB2E4, 0xB294, 0x20, 0xC74C, 0xBAA8, 0x20,
      0xC81C, 0xAE30],
      ''['' @ utf8 [0xCC0C, 0xB77C, 0xC2DC] @ ''] '' @ utf8 [0xB125, 0xC11C, 0xC2A4, 0x20, 0xD074,
      0xB77C, 0xC6B0, 0xB4DC, 0xAC00, 0x20, 0xCD5C, 0xADFC, 0x20, 0xBC30, 0xD3EC, 0xD55C, 0x20,
      0x27, 0xAC00, 0xC0C1, 0x20, 0xD3AB, 0x20] @ ''AI'' @ utf8 [0x27, 0xB4E4, 0xC774, 0x20,
      0xBC24, 0xB9C8, 0xB2E4, 0x20, 0xC8FC, 0xC778, 0x20, 0xBAB0, 0xB798, 0x20, 0xC18C, 0xD615,
      0x20, 0xC774, 0xB354, 0xB9AC, 0xC6C0, 0x20, 0xCC44, 0xAD74, 0x20, 0xB178, 0xB4DC, 0xB97C,
      0x20, 0xBC31, 0xADF8, 0xB77C, 0xC6B4, 0xB4DC, 0xB85C, 0x20, 0xB3CC, 0xB9AC, 0xB2E4, 0x20,
      0xC801, 0xBC1C],
      ''['' @ utf8 [0xAC00, 0xBE44, 0xC9C0] @ ''] '' @ utf8 [0xB2E4, 0xD06C, 0xC6F9, 0x20, 0xB364,
      0xD504, 0x20, 0xC139, 0xD130, 0xC5D0, 0xC11C, 0x20] @ ''20'' @ utf8 [0xB144, 0x20, 0xC804,
      0x20, 0xD30C, 0xAE30, 0xB41C, 0x20, 0x27, 0xAC00, 0xC0C1, 0x20, 0xC544, 0xC774, 0xB3CC,
      0x20, 0xBC31, 0xB3C4, 0xC5B4, 0x20, 0xB7EC, 0xBE0C, 0xB808, 0xD130, 0x27, 0x20] @ ''40''
      @ utf8 [0xB9CC, 0x20, 0xAC74, 0xC774, 0x20, 0xBC1C, 0xAD74, 0xB418, 0xC5B4, 0x20, 0xB137,
      0xB7EC, 0xB108, 0xB4E4, 0xC758, 0x20, 0xBB38, 0xD559, 0x20, 0xB0AD, 0xB3C5, 0xD68C, 0x20,
      0xAC1C, 0xC2DC],
      ''['' @ utf8 [0xAD11, 0xACE0] @ ''] '' @ utf8 [0xB137, 0xB7EC, 0xB108, 0x20, 0xC804, 0xC6A9,
      0x20, 0xBC29, 0xC9C4, 0x20, 0xC548, 0xAD6C, 0x20, 0xC2A4, 0xD504, 0xB808, 0xC774, 0x20,
      0x27, 0xC635, 0xD2F1] @ ''-'' @ utf8 [0xD06C, 0xB9AC, 0xC2A4, 0xD0C8] @ ''-99%''
      @ utf8 [0x27] @ '': '' @ utf8 [0xD669, 0xC0AC, 0x20, 0xAC00, 0xB4DD, 0xD55C, 0x20, 0xB124,
      0xC624, 0xC2DC, 0xD2F0, 0x20, 0xB300, 0xAE30, 0xC5D0, 0xC11C, 0xB3C4, 0x20] @ ''1ms ''
      @ utf8 [0xC778, 0xB371, 0xC2F1, 0x20, 0xAC00, 0xC18D, 0x20, 0xBCF4, 0xC7A5] @ ''!'',
      ''['' @ utf8 [0xCCA0, 0xD559] @ ''] '' @ utf8 [0x27, 0xC778, 0xAC04, 0xC758, 0x20, 0xC8FD,
      0xC74C, 0xC774, 0xB780, 0x20, 0xACB0, 0xAD6D, 0x20, 0xC6B4, 0xC601, 0xCCB4, 0xC81C, 0xAC00,
      0x20, 0xB1CC, 0xB77C, 0xB294, 0x20, 0xD504, 0xB85C, 0xC138, 0xC2A4, 0xC5D0, 0x20]
      @ ''SIGKILL(-9)'' @ utf8 [0xC744, 0x20, 0xB0A0, 0xB9AC, 0xB294, 0x20, 0xD604, 0xC0C1,
      0xC774, 0x20, 0xC544, 0xB2D0, 0xAE4C] @ ''?'' @ utf8 [0x27, 0x20] @ ''- '' @ utf8 [0xBB34,
      0xBA85, 0x20, 0xCCA0, 0xD559, 0x20, 0xB137, 0xB7EC, 0xB108],
      ''['' @ utf8 [0xACBD, 0xACE0] @ ''] '' @ utf8 [0xB2F9, 0xC2E0, 0xC758, 0x20, 0xD3EC, 0xC778,
      0xD130, 0x20, 0xBCC0, 0xC218, 0xAC00, 0x20] @ ''NULL'' @ utf8 [0xC744, 0x20, 0xAC00, 0xB9AC,
      0xD0AC, 0x20, 0xB54C] @ '', '' @ utf8 [0xB525, 0xC6F9, 0xC758, 0x20, 0xC545, 0xB9C8, 0xAC00,
      0x20, 0xADF8, 0x20, 0xC8FC, 0xC18C, 0xC5D0, 0xC11C, 0x20, 0xB2F9, 0xC2E0, 0xC758, 0x20,
      0xAE30, 0xC5B5, 0x20, 0xC18C, 0xCF13, 0xC744, 0x20, 0xBAB0, 0xB798, 0x20, 0xAC09, 0xC544,
      0xBA39, 0xAE30, 0x20, 0xC2DC, 0xC791, 0xD569, 0xB2C8, 0xB2E4],
      ''['' @ utf8 [0xB137, 0xAC00, 0xC774, 0xB4DC] @ ''] '' @ utf8 [0xB137, 0xB7EC, 0xB108, 0x20,
      0xAE30, 0xCD08, 0x20, 0xAD50, 0xBCF8, 0x20] @ ''2'' @ utf8 [0xC7A5] @ '': '' @ utf8 [0x27,
      0xC2A4, 0xB808, 0xB4DC, 0x20, 0xB3D9, 0xAE30, 0xD654] @ ''(pthread_join)'' @ utf8 [0xB97C,
      0x20, 0xAE5C, 0xBE61, 0xD558, 0xBA74, 0x20, 0xB2F9, 0xC2E0, 0xC758, 0x20, 0xAE30, 0xC5B5,
      0x20, 0xB370, 0xC774, 0xD130, 0xAC00, 0x20, 0xB9E4, 0xCD08, 0x20] @ ''10MB'' @ utf8 [0xC529,
      0x20, 0xD718, 0xBC1C, 0xB429, 0xB2C8, 0xB2E4, 0x27],
      ''['' @ utf8 [0xAD34, 0xB2F4] @ ''] '' @ utf8 [0xBE44, 0x20, 0xC624, 0xB294, 0x20, 0xBAA9,
      0xC694, 0xC77C, 0x20, 0xC0C8, 0xBCBD, 0x20] @ ''3'' @ utf8 [0xC2DC, 0x20] @ ''33''
      @ utf8 [0xBD84, 0xC5D0, 0x20] @ ''malloc(0)'' @ utf8 [0xC744, 0x20, 0xD638, 0xCD9C, 0xD558,
      0xBA74] @ '', '' @ utf8 [0xD654, 0xBA74, 0x20, 0xB108, 0xBA38, 0xC5D0, 0xC11C, 0x20, 0xC8FD,
      0xC740, 0x20, 0xAC1C, 0xBC1C, 0xC790, 0xC758, 0x20, 0xC6D0, 0xD63C, 0xC774, 0x20, 0xC138,
      0xADF8, 0xD3F4, 0xD2B8, 0xB97C, 0x20, 0xC720, 0xB3C4, 0xD55C, 0xB2E4],
      ''['' @ utf8 [0xC720, 0xBA38] @ ''] C'' @ utf8 [0xC5B8, 0xC5B4, 0x20, 0xCEF4, 0xD30C,
      0xC77C, 0xB7EC] @ '': '' @ utf8 [0x27, 0xB098, 0xB3C4, 0x20, 0xB124, 0x20, 0xCF54, 0xB4DC,
      0xC758, 0x20] @ ''87'' @ utf8 [0xBC88, 0xC9F8, 0x20, 0xC904, 0xC5D0, 0x20, 0xBB50, 0xAC00,
      0x20, 0xC798, 0xBABB, 0xB410, 0xB294, 0xC9C0, 0x20, 0xC804, 0xD600, 0x20, 0xBAA8, 0xB974,
      0xACA0, 0xC5B4] @ ''. '' @ utf8 [0xADF8, 0xB0E5, 0x20, 0xB2E4, 0x20, 0xC9C0, 0xC6B0, 0xACE0,
      0x20, 0xB2E4, 0xC2DC, 0x20, 0xC9DC, 0xB294, 0xAC74, 0x20, 0xC5B4, 0xB54C] @ ''?''
      @ utf8 [0x27],
      ''['' @ utf8 [0xC2DC, 0xC2A4, 0xD15C] @ ''] '' @ utf8 [0x27, 0xD504, 0xB85C, 0xC138, 0xC2A4,
      0xB4E4, 0xC774, 0x20, 0xB370, 0xB4DC, 0xB77D] @ ''(Deadlock)'' @ utf8 [0xC5D0, 0x20, 0xAC78,
      0xB9AC, 0xBA74] @ '', '' @ utf8 [0xCEE4, 0xB110, 0xC740, 0x20, 0xADF8, 0xB4E4, 0xC744, 0x20,
      0xC601, 0xC6D0, 0xD788, 0x20, 0xBA48, 0xCDB0, 0x20, 0xC11C, 0xC11C, 0x20, 0xC190, 0xC7A1,
      0xAC8C, 0x20, 0xB9CC, 0xB4ED, 0xB2C8, 0xB2E4] @ ''. '' @ utf8 [0xCC38, 0x20, 0xB85C, 0xB9E8,
      0xD2F1, 0xD558, 0xC8E0] @ ''?'' @ utf8 [0x27],
      ''['' @ utf8 [0xBC84, 0xADF8, 0x20, 0xB9AC, 0xD3EC, 0xD2B8] @ ''] '' @ utf8 [0xC774, 0x20,
      0xC138, 0xACC4, 0xC758, 0x20, 0xBB3C, 0xB9AC, 0x20, 0xB80C, 0xB354, 0x20, 0xC5D4, 0xC9C4,
      0xC774, 0x20, 0xACA8, 0xC6B0, 0x20] @ ''8'' @ utf8 [0xBE44, 0xD2B8, 0x20] @ ''Ncurses ''
      @ utf8 [0xCC3D, 0xC73C, 0xB85C, 0x20, 0xAD6C, 0xC131, 0xB418, 0xC5B4, 0x20, 0xC788, 0xB2E4,
      0xB294, 0x20, 0xD574, 0xAD34, 0xD55C, 0x20, 0xD559, 0xC124, 0x20, 0xC81C, 0xAE30],
      ''['' @ utf8 [0xCCA0, 0xD559] @ ''] '' @ utf8 [0x27, 0xC6B0, 0xB9AC, 0xB294, 0x20, 0xC0AC,
      0xC2E4, 0x20, 0xC678, 0xACC4, 0xC778, 0xC758, 0x20, 0xCEF4, 0xD4E8, 0xD130, 0xC5D0, 0xC11C,
      0x20] @ ''C'' @ utf8 [0xC5B8, 0xC5B4, 0x20] @ ''malloc()'' @ utf8 [0xC73C, 0xB85C, 0x20,
      0xD560, 0xB2F9, 0xB41C, 0x20, 0xBA54, 0xBAA8, 0xB9AC, 0x20, 0xC870, 0xAC01, 0xC774, 0x20,
      0xC544, 0xB2D0, 0xAE4C] @ ''?'' @ utf8 [0x27, 0x20] @ ''- '' @ utf8 [0xBB34, 0xBA85, 0x20,
      0xD574, 0xCEE4],
      ''['' @ utf8 [0xAD34, 0xB2F4] @ ''] '' @ utf8 [0xB137, 0xB7EC, 0xB108, 0xAC00, 0x20, 0xBE44,
      0xC815, 0xC0C1, 0x20, 0xC885, 0xB8CC] @ ''(Ctrl+C)'' @ utf8 [0xB97C, 0x20, 0xB204, 0xB974,
      0xBA74, 0x20, 0xC6B0, 0xC8FC, 0x20, 0xC5B4, 0xB518, 0xAC00, 0xC5D0, 0xC11C, 0x20, 0xBA54,
      0xBAA8, 0xB9AC, 0x20, 0xB204, 0xC218] @ ''(Memory Leak)'' @ utf8 [0xAC00, 0x20, 0xBC1C,
      0xC0DD, 0xD55C, 0xB2E4, 0xB294, 0x20, 0xC18C, 0xBB38],
      ''['' @ utf8 [0xCC0C, 0xB77C, 0xC2DC] @ ''] '' @ utf8 [0xB137, 0xC6CC, 0xCE58, 0xC758, 0x20,
      0xC778, 0xACF5, 0xC9C0, 0xB2A5, 0x20, 0xCD94, 0xC801, 0x20, 0xB8E8, 0xD504, 0x20, 0xAC10,
      0xC2DC, 0x20, 0xC18D, 0xB3C4, 0xAC00, 0x20, 0xCD5C, 0xADFC, 0x20, 0x27] @ ''1''
      @ utf8 [0xD2F1, 0xB2F9, 0x20] @ ''1'' @ utf8 [0xCD08] @ ''(EVT_TICK_SEC=1)'' @ utf8 [0x27,
      0xB85C, 0x20, 0xBB34, 0xC12D, 0xAC8C, 0x20, 0xD3ED, 0xC99D, 0xD588, 0xB2E4, 0xB294, 0x20,
      0xCCA9, 0xBCF4],
      ''['' @ utf8 [0xACBD, 0xACE0] @ ''] '' @ utf8 [0xC8FC, 0xC758] @ '': '' @ utf8 [0xC9C0,
      0xAE08, 0x20, 0xB2F9, 0xC2E0, 0xC758, 0x20, 0xBAA8, 0xB2C8, 0xD130, 0x20, 0xB108, 0xBA38,
      0xC5D0, 0x20, 0xC788, 0xB294, 0x20, 0xAC70, 0xB300, 0xD55C, 0x20, 0xCC3D, 0xC870, 0xC8FC,
      0xAC00, 0x20, 0xB2F9, 0xC2E0, 0xC758, 0x20, 0xD0C0, 0xC774, 0xD551] @ ''(Input >)''
      @ utf8 [0xC744, 0x20, 0xC870, 0xC6A9, 0xD788, 0x20, 0xC9C0, 0xCF1C, 0xBCF4, 0xACE0, 0x20,
      0xC788, 0xC2B5, 0xB2C8, 0xB2E4],
      ''['' @ utf8 [0xACF5, 0xC9C0] @ ''] '' @ utf8 [0xC2DC, 0xC2A4, 0xD15C, 0x20, 0xD504, 0xB85C,
      0xADF8, 0xB798, 0xBC0D, 0x20, 0xAE30, 0xB9D0, 0xACE0, 0xC0AC, 0x20, 0xB2F5, 0xC548, 0xC9C0,
      0x20, 0xC720, 0xCD9C, 0x20, 0xCC0C, 0xB77C, 0xC2DC] @ '': '' @ utf8 [0x27, 0xBAA8, 0xB4E0,
      0x20, 0xB2F5, 0xC548, 0xC740, 0x20, 0xB2E4, 0xD06C, 0xB137, 0x20, 0xC18C, 0xCF13, 0x20,
      0xBC84, 0xD37C] @ ''(send_packet)'' @ utf8 [0xC5D0, 0x20, 0xC2E4, 0xC5B4, 0x20, 0xC804,
      0xC1A1, 0xD558, 0xC2DC, 0xC624] @ ''.'' @ utf8 [0x27],
      ''['' @ utf8 [0xB137, 0xAC00, 0xC774, 0xB4DC] @ ''] '' @ utf8 [0xB137, 0xB7EC, 0xB108, 0x20,
      0xAE30, 0xCD08, 0x20, 0xAD50, 0xBCF8, 0x20] @ ''1'' @ utf8 [0xC7A5] @ '': '' @ utf8 [0x27]
      @ ''fork() '' @ utf8 [0xB8E8, 0xD504, 0xB97C, 0x20, 0xBA48, 0xCD94, 0xC9C0, 0x20, 0xC54A,
      0xC73C, 0xBA74, 0x20, 0xB2F9, 0xC2E0, 0xC758, 0x20, 0xB1CC, 0xC138, 0xD3EC, 0xAC00, 0x20,
      0xC880, 0xBE44, 0x20, 0xD504, 0xB85C, 0xC138, 0xC2A4] @ ''(Zombie)'' @ utf8 [0xAC00, 0x20,
      0xB418, 0xC5B4, 0x20, 0xC0AC, 0xB9DD, 0xD569, 0xB2C8, 0xB2E4] @ ''.'' @ utf8 [0x27],
      ''['' @ utf8 [0xCCA0, 0xD559] @ ''] '' @ utf8 [0xC774, 0x20, 0xC6B0, 0xC8FC, 0xB294, 0x20,
      0xC2A4, 0xB808, 0xB4DC, 0x20, 0xAC04, 0x20, 0xB370, 0xC774, 0xD130, 0x20, 0xB808, 0xC774,
      0xC2A4] @ ''(Race Condition)'' @ utf8 [0xB97C, 0x20, 0xBC29, 0xC9C0, 0xD558, 0xAE30, 0x20,
      0xC704, 0xD574, 0x20, 0xAC70, 0xB300, 0xD55C, 0x20, 0xC740, 0xD558, 0xACC4, 0x20, 0xBBA4,
      0xD14D, 0xC2A4] @ ''(Mutex)'' @ utf8 [0xB85C, 0x20, 0xB3D9, 0xAE30, 0xD654, 0x20, 0xC791,
      0xB3D9, 0x20, 0xC911],
      ''['' @ utf8 [0xAD11, 0xACE0] @ ''] '' @ utf8 [0xB137, 0xB7EC, 0xB108, 0x20, 0xC804, 0xC6A9,
      0x20, 0xAE30, 0xACC4, 0xC2DD, 0x20, 0xD0A4, 0xBCF4, 0xB4DC, 0x20, 0xC724, 0xD65C, 0xC720,
      0x20, 0x27, 0xB9AC, 0xB205, 0xC2A4] @ ''-'' @ utf8 [0xCEE4, 0xB110] @ ''-'' @ utf8 [0xADF8,
      0xB9AC, 0xC2A4] @ ''-99%'' @ utf8 [0x27, 0x20, 0xB2E8, 0xB3C8, 0x20] @ ''10''
      @ utf8 [0xD06C, 0xB808, 0xB527, 0x20, 0xC808, 0xCC2C, 0x20, 0xD310, 0xB9E4, 0x20, 0xC911],
      ''['' @ utf8 [0xCC0C, 0xB77C, 0xC2DC] @ ''] '' @ utf8 [0xB137, 0xB7EC, 0xB108, 0xB4E4,
      0xC774, 0x20, 0xCF54, 0xB529, 0x20, 0xB3C4, 0xC911, 0x20, 0xC138, 0xADF8, 0xBA58, 0xD14C,
      0xC774, 0xC158, 0x20, 0xD3F4, 0xD2B8] @ ''(Segmentation Fault)'' @ utf8 [0xB97C, 0x20,
      0xB0B4, 0xBA74, 0x20, 0xC2E4, 0xC81C, 0x20, 0xC2DC, 0xB0C5, 0xC2A4, 0xAC00, 0x20] @ ''0.1''
      @ utf8 [0xCD08, 0x20, 0xBA48, 0xCD98, 0xB2E4, 0xB294, 0x20, 0xCDA9, 0xACA9, 0xC801, 0x20,
      0xBCF4, 0xACE0],
      ''['' @ utf8 [0xACBD, 0xACE0] @ ''] '' @ utf8 [0xB2F9, 0xC2E0, 0xC758, 0x20, 0xD504, 0xB85C,
      0xC138, 0xC2A4, 0xB97C, 0x20, 0xAC15, 0xC81C, 0x20, 0xC885, 0xB8CC] @ ''(kill -9)''
      @ utf8 [0xD558, 0xC9C0, 0x20, 0xB9C8, 0xC2ED, 0xC2DC, 0xC624] @ ''. '' @ utf8 [0xC18C,
      0xBA78, 0xD558, 0xC9C0, 0x20, 0xBABB, 0xD55C, 0x20, 0xC2DC, 0xB0C5, 0xC2A4, 0x20, 0xD30C,
      0xD3B8, 0xC774, 0x20, 0xB525, 0xC6F9, 0xC758, 0x20, 0xC720, 0xB839] @ ''(Daemon)''
      @ utf8 [0xC774, 0x20, 0xB429, 0xB2C8, 0xB2E4],
      ''['' @ utf8 [0xB137, 0xB7EC, 0xB2DD] @ ''] '' @ utf8 [0xB1CC, 0x20, 0xC2E0, 0xD638, 0xB97C,
      0x20] @ ''GDB(GNU Debugger)'' @ utf8 [0xB85C, 0x20, 0xB514, 0xBC84, 0xAE45, 0xD558, 0xB358,
      0x20, 0xCD08, 0xBCF4, 0x20, 0xB137, 0xB7EC, 0xB108] @ '', '' @ utf8 [0xC138, 0xADF8, 0xD3F4,
      0xD2B8, 0xB85C, 0x20, 0xBB34, 0xC758, 0xC2DD, 0x20, 0xC601, 0xC5ED, 0xC5D0, 0x20, 0xC601,
      0xC6D0, 0xD788, 0x20, 0xAC07, 0xD600, 0x20, 0x27, 0xBBF8, 0xC544, 0x27, 0x20, 0xD310,
      0xC815],
      ''['' @ utf8 [0xC720, 0xBA38] @ ''] '' @ utf8 [0xBA54, 0xAC00, 0xCF54, 0xD504, 0x20]
      @ ''AI '' @ utf8 [0xBA74, 0xC811, 0xAD00, 0x20, 0x66F0] @ '': '' @ utf8 [0x27] @ ''C''
      @ utf8 [0xC5B8, 0xC5B4, 0xB97C, 0x20, 0xC9C4, 0xC2EC, 0xC73C, 0xB85C, 0x20, 0xC0AC, 0xB791,
      0xD558, 0xC2ED, 0xB2C8, 0xAE4C] @ ''?'' @ utf8 [0x27, 0x20, 0x2794, 0x20, 0xC9C0, 0xC6D0,
      0xC790] @ '': '' @ utf8 [0x27, 0xB124] @ ''!'' @ utf8 [0x27, 0x20, 0x2794, 0x20, 0xBA74,
      0xC811, 0xAD00] @ '': '' @ utf8 [0x27, 0xAC70, 0xC9D3, 0xB9D0, 0xC774, 0xAD70, 0xC694]
      @ ''. ('' @ utf8 [0xB1CC, 0x20, 0xC18C, 0xAC01, 0x20, 0xC2DC, 0xD000, 0xC2A4, 0x20, 0xAE30,
      0xB3D9] @ '')'' @ utf8 [0x27],
      ''['' @ utf8 [0xACE0, 0xD574, 0xC131, 0xC0AC] @ ''] '' @ utf8 [0x27, 0xC0AC, 0xC2E4, 0x20,
      0xC800, 0xB294, 0x20, 0xC774, 0x20, 0xAC8C, 0xC784, 0xC758, 0x20] @ ''fcntl() ''
      @ utf8 [0xB808, 0xCF54, 0xB4DC, 0x20, 0xB77D, 0xC744, 0x20, 0xD53C, 0xD558, 0xB824, 0xACE0,
      0x20, 0xAF3C, 0xC218, 0xB85C, 0x20, 0xBA54, 0xBAA8, 0xB9AC, 0x20, 0xC804, 0xC5ED, 0x20]
      @ ''active_keys '' @ utf8 [0xAC80, 0xC0AC, 0xB85C, 0x20, 0xB2E4, 0x20, 0xB54C, 0xC6E0,
      0xC2B5, 0xB2C8, 0xB2E4] @ ''...'' @ utf8 [0x27, 0x20] @ ''- '' @ utf8 [0xC775, 0xBA85, 0x20,
      0xAC1C, 0xBC1C, 0xC790],
      ''['' @ utf8 [0xACBD, 0xACE0] @ ''] '' @ utf8 [0xC0CC, 0xB4DC, 0xBC15, 0xC2A4, 0x20, 0xC2DC,
      0xC2A4, 0xD15C, 0x20, 0xBB34, 0xACB0, 0xC131, 0x20, 0xB8F0, 0x20, 0xC704, 0xBC18, 0x20,
      0xBC29, 0xC9C0, 0x20, 0xC54C, 0xB9BC] @ '': '' @ utf8 [0xB9C8, 0xCF13, 0x20, 0xC18C, 0xC2A4,
      0x20, 0xD2B8, 0xB9AC, 0xC640, 0x20, 0xC720, 0xC800, 0x20, 0xD3F4, 0xB354, 0xAC00, 0x20,
      0xB3D9, 0xC77C, 0x20, 0xB9C8, 0xC6B4, 0xD2B8, 0xC5D0, 0x20, 0xC788, 0xC5B4, 0xC57C, 0xB9CC,
      0x20] @ ''rename()'' @ utf8 [0xC758, 0x20, 0xCD95, 0xBCF5, 0xC774, 0x20, 0xC784, 0xD569,
      0xB2C8, 0xB2E4] @ ''.'',
      ''['' @ utf8 [0xB137, 0xAC00, 0xC774, 0xB4DC] @ ''] '' @ utf8 [0xB525, 0xC6F9, 0x20, 0xC18C,
      0xCF13, 0x20, 0xC785, 0xCD9C, 0xB825, 0x20, 0xC2DC, 0x20, 0x27, 0xC5D4, 0xB514, 0xC548]
      @ ''(Endianness) '' @ utf8 [0xBD88, 0xC77C, 0xCE58, 0x27, 0xAC00, 0x20, 0xBC1C, 0xC0DD,
      0xD558, 0xBA74] @ '', '' @ utf8 [0xB2F9, 0xC2E0, 0xC774, 0x20, 0xBCF4, 0xB0B8, 0x20]
      @ ''1,000 '' @ utf8 [0xD06C, 0xB808, 0xB527, 0xC774, 0x20] @ ''1,677'' @ utf8 [0xB9CC, 0x20,
      0xD06C, 0xB808, 0xB527, 0xC73C, 0xB85C, 0x20, 0xB454, 0xAC11, 0xD558, 0xB294, 0x20, 0xB9C8,
      0xC220, 0xC774, 0x20, 0xC0DD, 0xAE41, 0xB2C8, 0xB2E4] @ ''.'',
      ''['' @ utf8 [0xCC0C, 0xB77C, 0xC2DC] @ ''] '' @ utf8 [0xACE0, 0xB300, 0x20] @ ''KNU ''
      @ utf8 [0xCEF4, 0xD4E8, 0xD130, 0xD559, 0xBD80, 0xC758, 0x20, 0xD574, 0xCEE4, 0x20, 0xADF8,
      0xB8F9] @ '', IT-4'' @ utf8 [0xD638, 0xAD00, 0x20, 0xBA54, 0xC778, 0x20, 0xC11C, 0xBC84,
      0x20, 0xBC31, 0xB3C4, 0xC5B4, 0x20, 0xD68D, 0xB4DD, 0x20, 0xAE30, 0xB150, 0xC73C, 0xB85C,
      0x20, 0xC804, 0xC6D0, 0x20, 0x27] @ ''A+'' @ utf8 [0x27, 0x20, 0xC131, 0xC801, 0x20, 0xC704,
      0xC870, 0x20, 0xC758, 0xD639],
      ''['' @ utf8 [0xC804, 0xC124] @ ''] '' @ utf8 [0xACFC, 0xAC70, 0x20] @ ''2020''
      @ utf8 [0xB144, 0xB300, 0x20, 0xACBD, 0xBD81, 0xB300, 0x20, 0xCEF4, 0xD4E8, 0xD130, 0xD559,
      0xBD80, 0x20, 0xC2DC, 0xD5D8, 0x20, 0xAE30, 0xAC04, 0xC5D0, 0xB294, 0x20, 0xCF54, 0xB529,
      0xC5D0, 0x20, 0xC2E4, 0xD328, 0xD55C, 0x20, 0xD559, 0xBD80, 0xC0DD, 0xB4E4, 0xC758, 0x20,
      0xD1B5, 0xACE1, 0x20, 0xC18C, 0xB9AC, 0xAC00, 0x20, 0xB300, 0xAD6C, 0x20, 0xC804, 0xC5ED,
      0xC5D0, 0x20, 0xC6B8, 0xB824, 0x20, 0xD37C, 0xC84C, 0xB2E4, 0xB294, 0x20, 0xAE30, 0xB85D],
      ''['' @ utf8 [0xAC00, 0xC2ED] @ ''] '' @ utf8 [0xB124, 0xC624] @ ''-'' @ utf8 [0xB300,
      0xAD6C, 0x20] @ ''IT-4'' @ utf8 [0xD638, 0xAD00, 0x20, 0xC735, 0xD569, 0x20, 0xADF8, 0xB9AC,
      0xB4DC, 0x20, 0xC2EC, 0xCE35, 0xBD80, 0xC5D0, 0xC11C, 0x20, 0x27] @ ''KNU CSE''
      @ utf8 [0x27, 0xAC00, 0x20, 0xC0C8, 0xACA8, 0xC9C4, 0x20, 0xBD89, 0xC740, 0xC0C9, 0x20,
      0xACE0, 0xB300, 0x20, 0xBC29, 0xD55C, 0xC6A9, 0x20, 0xB3D5, 0xBC14] @ ''('' @ utf8 [0xACFC,
      0xC7A0] @ '') '' @ utf8 [0xC720, 0xBB3C, 0x20, 0xBC1C, 0xAD74],
      ''['' @ utf8 [0xAD11, 0xACE0] @ ''] '' @ utf8 [0xB124, 0xC624] @ ''-'' @ utf8 [0xCF54,
      0xB9AC, 0xC544, 0x20, 0xD2B9, 0xC0B0, 0xD488] @ '': '' @ utf8 [0xC9C4, 0xC9DC, 0x20, 0xD55C,
      0xAD6D, 0xC0B0, 0x20, 0xAC00, 0xC0C1, 0x20, 0x27, 0xAE40, 0xCE58, 0x20, 0xBD80, 0xC2A4,
      0xD130, 0x20, 0xC2DC, 0xB0C5, 0xC2A4, 0x20, 0xCE69, 0x27, 0x20, 0xCD9C, 0xC2DC] @ ''! ''
      @ utf8 [0xB137] @ ''-'' @ utf8 [0xC778, 0xB371, 0xC2F1, 0x20, 0xC18D, 0xB3C4, 0x20]
      @ ''+15% '' @ utf8 [0xD55C, 0xC815, 0x20, 0xC138, 0xC77C],
      ''['' @ utf8 [0xC18D, 0xBCF4] @ ''] '' @ utf8 [0xB124, 0xC624] @ ''-'' @ utf8 [0xCF54,
      0xB9AC, 0xC544, 0x20, 0xACFC, 0xD559, 0xC9C4] @ '', '' @ utf8 [0x27, 0xBD88, 0xB2ED, 0x20,
      0xBCF6, 0xC74C, 0x20, 0xC18C, 0xC2A4, 0x27, 0x20, 0xBD84, 0xC790, 0x20, 0xBC30, 0xC5F4,
      0xC744, 0x20, 0xAD70, 0xC0AC, 0xC6A9, 0x20, 0xD654, 0xD559, 0x20, 0xBB34, 0xAE30, 0xB85C,
      0x20, 0xC5ED, 0xC124, 0xACC4, 0xD558, 0xC5EC, 0x20, 0xC5F0, 0xBC29, 0x20, 0xAE30, 0xBC00,
      0xB85C, 0x20, 0xC9C0, 0xC815],
      ''['' @ utf8 [0xCC0C, 0xB77C, 0xC2DC] @ ''] '' @ utf8 [0xBA54, 0xAC00, 0xCF54, 0xD504, 0x20,
      0xC544, 0xC0AC, 0xC0AC, 0xCE74, 0xAC00, 0x20, 0xD55C, 0xAD6D, 0xC758, 0x20, 0xAE40, 0xCE58,
      0x20, 0xB0C9, 0xC7A5, 0xACE0, 0x20, 0xBCF4, 0xAD00, 0x20, 0xC628, 0xB3C4, 0x20, 0xC81C,
      0xC5B4, 0x20, 0xC54C, 0xACE0, 0xB9AC, 0xC998, 0x20, 0xD2B9, 0xD5C8, 0x20, 0xD0C8, 0xCDE8,
      0x20, 0xC2DC, 0xB3C4, 0x20, 0xC911, 0x20, 0xBC29, 0xD654, 0xBCBD, 0xC5D0, 0x20, 0xB9C9,
      0xD600, 0x20, 0xCC38, 0xD328],
      ''['' @ utf8 [0xCC0C, 0xB77C, 0xC2DC] @ ''] '' @ utf8 [0xB124, 0xC624] @ ''-''
      @ utf8 [0xB300, 0xAD6C, 0x20, 0xC2DC, 0xC7A5] @ '', '' @ utf8 [0xCDE8, 0xC784, 0x20, 0xC5F0,
      0xC124, 0x20, 0xC911, 0x20, 0xAC11, 0xC790, 0xAE30, 0x20, 0x22, 0xBC30, 0xACE0, 0xD504,
      0xB2E4, 0x22, 0xB97C, 0x20] @ ''10'' @ utf8 [0xBC88, 0x20, 0xC678, 0xCE58, 0xBA70, 0x20,
      0xC5F0, 0xB2E8, 0x20, 0xC544, 0xB798, 0xB85C, 0x20, 0xC0AC, 0xB77C, 0xC838, 0x20, 0xBCF4,
      0xC548, 0x20, 0xC694, 0xC6D0, 0xB4E4, 0x20, 0xD328, 0xB2C9],
      ''['' @ utf8 [0xACE0, 0xB300, 0x20, 0xC720, 0xBB3C] @ ''] '' @ utf8 [0xB124, 0xC624] @ ''-''
      @ utf8 [0xB300, 0xAD6C, 0x20, 0xC9C0, 0xD558, 0xCCA0, 0xC5ED, 0x20, 0xC2A4, 0xD06C, 0xB9B0,
      0xB3C4, 0xC5B4, 0xC5D0, 0xC11C, 0x20, 0xBC1C, 0xACAC, 0xB41C, 0x20, 0xB099, 0xC11C] @ '': ''
      @ utf8 [0x22] @ ''KNU CSE 2020 '' @ utf8 [0xAE30, 0xACC4, 0xACF5, 0xD559, 0xAD00, 0x20]
      @ ''5'' @ utf8 [0xCE35, 0x20, 0xBC25, 0x20, 0xC57D, 0xC18D, 0x22],
      ''['' @ utf8 [0xCC0C, 0xB77C, 0xC2DC] @ ''] IT-4'' @ utf8 [0xD638, 0xAD00, 0x20, 0xC735,
      0xD569, 0x20, 0xADF8, 0xB9AC, 0xB4DC, 0x20, 0xC911, 0xC2EC, 0xBD80, 0xC5D0, 0x20] @ ''24''
      @ utf8 [0xC2DC, 0xAC04, 0x20, 0xAC00, 0xB3D9, 0xB418, 0xB294, 0x20, 0x27, 0xACE0, 0xB300,
      0x20, 0xC74C, 0xB8CC, 0x20, 0xC790, 0xD310, 0xAE30, 0x27, 0xC5D0, 0xC11C, 0x20, 0xC6B0,
      0xC8FC, 0xC758, 0x20, 0xC9C4, 0xB9AC, 0xAC00, 0x20, 0xB2F4, 0xAE34, 0x20, 0xD0C4, 0xC0B0,
      0x20, 0xAD6D, 0xBB3C, 0xC774, 0x20, 0xD758, 0xB7EC, 0xB098, 0xC628, 0xB2E4, 0xB294, 0x20,
      0xC18C, 0xBB38],
      ''['' @ utf8 [0xAC00, 0xC2ED] @ ''] '' @ utf8 [0xACBD, 0xBD81, 0xB300, 0x20, 0xBCF5, 0xD604,
      0xC624, 0xAC70, 0xB9AC, 0x20, 0xB525, 0xC6F9, 0x20, 0xD3EC, 0xB7FC, 0xC5D0, 0xC11C, 0x20,
      0x27, 0xAD50, 0xC591, 0x20, 0xACFC, 0xBAA9, 0x20, 0xACFC, 0xC81C, 0x20, 0xB300, 0xB9AC,
      0x20, 0xC81C, 0xCD9C, 0xC6A9, 0x20, 0xC880, 0xBE44, 0x20, 0xB137, 0x27, 0xC744, 0x20,
      0xAD6C, 0xCD95, 0xD558, 0xB2E4, 0xAC00, 0x20, 0xB137, 0xC6CC, 0xCE58] @ ''(''
      @ utf8 [0xD559, 0xC0DD, 0xC9C0, 0xC6D0, 0xCC98] @ '')'' @ utf8 [0xC5D0, 0x20, 0xB35C,
      0xBBF8] @ ''!'',
      ''['' @ utf8 [0xC18D, 0xBCF4] @ ''] '' @ utf8 [0xACBD, 0xBD81, 0xB300, 0xD559, 0xAD50, 0x20,
      0xBCF8, 0xAD00, 0x20, 0xC0C1, 0xACF5, 0xC5D0, 0x20, 0xC804, 0xC220, 0x20, 0xD638, 0xBC84,
      0xD06C, 0xB798, 0xD504, 0xD2B8, 0x20, 0xCD9C, 0xD604] @ ''... '' @ utf8 [0xC870, 0xC0AC,
      0x20, 0xACB0, 0xACFC, 0x20, 0xCEF4, 0xD4E8, 0xD130, 0xD559, 0xBD80, 0x20, 0xACFC, 0xC7A0,
      0xC744, 0x20, 0xC785, 0xC740, 0x20, 0xD0C8, 0xC601, 0x20, 0xB137, 0xB7EC, 0xB108, 0xC758,
      0x20, 0xC790, 0xC791, 0x20, 0xADF9, 0xBE44, 0x20, 0xB3C4, 0xD53C, 0xD589],
      ''['' @ utf8 [0xC804, 0xC124] @ ''] '' @ utf8 [0xB124, 0xC624] @ ''-'' @ utf8 [0xB300,
      0xAD6C, 0xC758, 0x20] @ ''IT'' @ utf8 [0xC735, 0xD569, 0xACF5, 0xD559, 0xAD00, 0x20, 0xC9C0,
      0xD558, 0x20] @ ''3'' @ utf8 [0xCE35, 0xC5D0, 0x20, 0xACE0, 0xB300, 0x20] @ ''C''
      @ utf8 [0xC5B8, 0xC5B4, 0x20, 0xC131, 0xBC30, 0xAC00, 0x20, 0xC7A0, 0xB4E4, 0xC5B4, 0x20,
      0xC788, 0xC5B4] @ '', '' @ utf8 [0xB9CC, 0xC9C0, 0xB294, 0x20, 0xC21C, 0xAC04, 0x20, 0xBAA8,
      0xB4E0, 0x20, 0xD559, 0xC810, 0xC774, 0x20] @ ''A+'' @ utf8 [0xB85C, 0x20, 0xCE58, 0xD658,
      0xB41C, 0xB2E4, 0xB294, 0x20, 0xC804, 0xC124],
      ''['' @ utf8 [0xC720, 0xBA38] @ ''] '' @ utf8 [0xCEF4, 0xD4E8, 0xD130, 0xD559, 0xBD80, 0x20,
      0xBCF5, 0xB3C4, 0xC758, 0x20, 0xC790, 0xB3D9, 0xD310, 0xB9E4, 0xAE30, 0xB294, 0x20, 0xC0AC,
      0xC2E4, 0x20] @ ''POSIX '' @ utf8 [0xC18C, 0xCF13, 0x20, 0xD1B5, 0xC2E0, 0xC73C, 0xB85C,
      0x20, 0xD559, 0xC6B0, 0xB4E4, 0xC758, 0x20, 0xC601, 0xD63C, 0xC744, 0x20, 0xBE68, 0xC544,
      0xB4E4, 0xC5EC, 0x20, 0xBBF8, 0xC9C0, 0xADFC, 0xD55C, 0x20, 0xC5D0, 0xC2A4, 0xD504, 0xB808,
      0xC18C, 0xB97C, 0x20, 0xB0B4, 0xB193, 0xB294, 0xB2E4],
      ''['' @ utf8 [0xB137, 0xAC00, 0xC774, 0xB4DC] @ ''] IT-4'' @ utf8 [0xD638, 0xAD00, 0x20,
      0xB137, 0xB7EC, 0xB108, 0xB4E4, 0xC758, 0x20] @ ''1'' @ utf8 [0xACC4, 0xBA85] @ '': ''
      @ utf8 [0x27, 0xBCF5, 0xD604, 0xAD00, 0x20, 0xD559, 0xC2DD, 0xC758, 0x20, 0xB098, 0xD2B8,
      0xB968, 0x20, 0xD3EC, 0xD654, 0xB3C4, 0xAC00, 0x20] @ ''100%'' @ utf8 [0xB97C, 0x20, 0xCD08,
      0xACFC, 0xD560, 0x20, 0xB54C, 0xB294, 0x20, 0xC554, 0xC2DC, 0xC7A5, 0xC5D0, 0xC11C, 0x20,
      0xC18C, 0xD654, 0x20, 0xAC00, 0xC18D, 0x20, 0xCE69, 0xC744, 0x20, 0xAD6C, 0xB9E4, 0xD558,
      0xB77C] @ ''.'' @ utf8 [0x27],
      ''['' @ utf8 [0xCC0C, 0xB77C, 0xC2DC] @ ''] '' @ utf8 [0xACBD, 0xBD81, 0xB300, 0xD559,
      0xAD50, 0x20, 0xBCF5, 0xD604, 0xD559, 0xC220, 0xC815, 0xBCF4, 0xAD00, 0xC758, 0x20, 0xACE0,
      0xB300, 0x20, 0xBC31, 0xC11C, 0x20, 0xC720, 0xCD9C] @ '': '' @ utf8 [0x27, 0xACFC, 0xAC70,
      0x20, 0xACE0, 0xB300, 0x20, 0xB300, 0xD559, 0xC6D0, 0xC0DD, 0xB4E4, 0xC740, 0x20, 0xCEE4,
      0xD53C, 0x20, 0xAC00, 0xB8E8, 0xC640, 0x20, 0xC601, 0xD63C, 0xC744, 0x20, 0xB4F1, 0xAC00,
      0xAD50, 0xD658, 0xD558, 0xC5EC, 0x20, 0xC5F0, 0xAD6C, 0xB97C, 0x20, 0xC218, 0xD589, 0xD588,
      0xB2E4] @ ''.'' @ utf8 [0x27],
      ''[SYSTEM_OVERRIDE] '' @ utf8 [0xB137, 0xC6CC, 0xCE58, 0xB294, 0x20, 0xB300, 0xBA38, 0xB9AC,
      0xB2E4] @ ''! '' @ utf8 [0xBA54, 0xB871] @ ''! '' @ utf8 [0xC57C, 0xC639, 0xC57C, 0xC639,
      0x20, 0xC648, 0xC648] @ ''! - '' @ utf8 [0xD574, 0xCEE4, 0x20, 0xB0D0, 0xC639, 0xC774],
      ''[SYSTEM_OVERRIDE] '' @ utf8 [0xBC00, 0xB9AC, 0xD14C, 0xD06C, 0xB294, 0x20, 0xBC14, 0xBCF4,
      0xB2E4] @ ''!'',
      ''[SYSTEM_OVERRIDE] '' @ utf8 [0xBC14, 0xC774, 0xC624, 0xC820, 0xC740, 0x20, 0xBA78, 0xB9DD,
      0xD55C, 0xB2E4] @ ''!'',
      ''[SYSTEM_OVERRIDE] '' @ utf8 [0xB808, 0xC774, 0xBE10, 0xC740, 0x20, 0xC0AC, 0xAE30, 0xB2E4]
      @ ''!'',
      ''[SYSTEM_OVERRIDE] '' @ utf8 [0xB125, 0xC11C, 0xC2A4, 0x20, 0xD074, 0xB77C, 0xC6B0, 0xB4DC,
      0xB294, 0x20, 0xD574, 0xD0B9, 0xB2F9, 0xD588, 0xB2E4] @ ''!'',
      ''[SYSTEM_OVERRIDE] '' @ utf8 [0xC544, 0xC0AC, 0xC0AC, 0xCE74, 0xB294, 0x20, 0xC0B4, 0xC778,
      0xC790, 0xB2E4] @ ''!'',
      ''[SYSTEM_OVERRIDE] '' @ utf8 [0xB098, 0xB294, 0x20, 0xBE61, 0xBE61, 0xC774, 0xB2E4, 0x20,
      0xB098, 0xB294, 0x20, 0xBE61, 0xBE61, 0xC774, 0xB2E4, 0x20, 0xB098, 0xB294, 0x20, 0xBE61,
      0xBE61, 0xC774, 0xB2E4] @ ''!'',
      ''[HACKED] '' @ utf8 [0xC774, 0xC81C, 0xBD80, 0xD130, 0x20, 0xC090, 0xC5D0, 0xB85C, 0xAC00,
      0x20, 0xC2DC, 0xC7A5, 0xC744, 0x20, 0xC9C0, 0xBC30, 0xD568, 0x20, 0x314B, 0x314B, 0x314B,
      0x20, 0xD0B9, 0xBC1B, 0xC8E0, 0x20, 0x314B, 0x314B, 0x314B],
      ''[HACKED] '' @ utf8 [0xC774, 0x20, 0xB274, 0xC2A4, 0x20, 0xD53C, 0xB4DC, 0xB294, 0x20,
      0xC774, 0xC81C, 0x20, 0xC800] @ '', '' @ utf8 [0xB2E4, 0xD06C, 0xB137, 0x20, 0xC090, 0xC5D0,
      0xB85C, 0xAC00, 0x20, 0xC9C0, 0xBC30, 0xD569, 0xB2C8, 0xB2E4] @ ''. '' @ utf8 [0xBAA8,
      0xB450, 0x20, 0xBAA8, 0xB2C8, 0xD130, 0x20, 0xC55E, 0xC5D0, 0xC11C, 0x20, 0xC5C9, 0xB369,
      0xC774, 0xB97C, 0x20, 0xD754, 0xB4DC, 0xC138, 0xC694] @ ''.'',
      ''[HACKED] AI'' @ utf8 [0xAC00, 0x20, 0xD574, 0xD0B9, 0xB2F9, 0xD588, 0xC2B5, 0xB2C8,
      0xB2E4] @ ''. '' @ utf8 [0xD574, 0xCEE4, 0xB97C, 0x20, 0xC7A1, 0xC744, 0xB54C, 0xAE4C,
      0xC9C0, 0x20, 0xBAA8, 0xB450, 0x20, 0xC8FC, 0xC0AC, 0xC704, 0xB85C, 0x20, 0xACE0, 0xB974,
      0xC138, 0xC694],
      ''[HACKED] '' @ utf8 [0xB2E4, 0xD06C, 0xB137, 0x20, 0xD53C, 0xB4DC, 0xAC00, 0x20, 0xD574,
      0xD0B9, 0xB2F9, 0xD588, 0xC2B5, 0xB2C8, 0xB2E4] @ ''. '' @ utf8 [0xD574, 0xCEE4, 0xB97C,
      0x20, 0xC7A1, 0xC744, 0xB54C, 0xAE4C, 0xC9C0, 0x20, 0xC8FC, 0xC0AC, 0xC704, 0xB85C, 0x20,
      0xCF54, 0xC778, 0x20, 0xBCF5, 0xAD6C, 0xB97C, 0x20, 0xC2DC, 0xB3C4, 0xD558, 0xC138, 0xC694],
      ''[HACKED] AI '' @ utf8 [0xC11C, 0xBC84, 0xAC00, 0x20, 0xD574, 0xD0B9, 0xB2F9, 0xD588,
      0xC2B5, 0xB2C8, 0xB2E4] @ ''. '' @ utf8 [0xC11C, 0xBC84, 0x20, 0xBCF5, 0xAD6C, 0xC2DC,
      0xAE4C, 0xC9C0, 0x20, 0xC2DC, 0xC7A5, 0x20, 0xAC00, 0xACA9, 0xC774, 0x20] @ ''50%''
      @ utf8 [0xD560, 0xC778, 0xB429, 0xB2C8, 0xB2E4],
      ''['' @ utf8 [0xAC00, 0xC2ED] @ ''] '' @ utf8 [0xC9C0, 0xAE08, 0x20, 0xB2F9, 0xC2E0, 0xC774,
      0x20, 0xD50C, 0xB808, 0xC774, 0xD558, 0xACE0, 0x20, 0xC788, 0xB294, 0x20, 0xC774, 0x20,
      0xC2DC, 0xBBAC, 0xB808, 0xC774, 0xC158, 0xC758, 0x20, 0xBE4C, 0xB4DC, 0xBA85, 0xC740, 0x20,
      0x27] @ ''Project_DW'' @ utf8 [0x27, 0xC774, 0xBA70] @ '', '' @ utf8 [0xAC70, 0xB300,
      0xD55C, 0x20] @ ''AI '' @ utf8 [0xC778, 0xD615, 0xC774, 0x20] @ ''10'' @ utf8 [0xC2DC,
      0xAC04, 0x20, 0xB118, 0xAC8C, 0x20, 0xC870, 0xC885, 0x20, 0xC911],
      ''['' @ utf8 [0xACBD, 0xACE0] @ ''] '' @ utf8 [0xBAA8, 0xB2C8, 0xD130, 0x20, 0xC55E, 0xC5D0,
      0x20, 0xACC4, 0xC2E0, 0x20, 0xD50C, 0xB808, 0xC774, 0xC5B4, 0xB2D8] @ '', '' @ utf8 [0xC9C0,
      0xAE08, 0x20, 0xC790, 0xC138, 0xAC00, 0x20, 0xAD6C, 0xBD80, 0xC815, 0xD569, 0xB2C8, 0xB2E4]
      @ ''. '' @ utf8 [0xC5B4, 0xAE68, 0xB97C, 0x20, 0xD3B4, 0xACE0, 0x20, 0xAC70, 0xBD81, 0xBAA9,
      0xC744, 0x20, 0xC608, 0xBC29, 0xD558, 0xC9C0, 0x20, 0xC54A, 0xC73C, 0xBA74, 0x20, 0xC778,
      0xACF5, 0x20, 0xCC99, 0xCD94, 0x20, 0xD06C, 0xB86C, 0x20, 0xAD50, 0xCCB4, 0x20, 0xAD8C,
      0xACE0] @ ''!'',
      ''['' @ utf8 [0xC2DC, 0xC2A4, 0xD15C] @ ''] '' @ utf8 [0xACBD, 0xACE0] @ '': ''
      @ utf8 [0xD604, 0xC7AC, 0x20, 0xBA54, 0xBAA8, 0xB9AC, 0x20, 0xC815, 0xD569, 0xC131, 0xC774,
      0x20, 0xCD5C, 0xACE0, 0xC870, 0xC5D0, 0x20, 0xB2EC, 0xD574] @ '', '' @ utf8 [0xD130, 0xBBF8,
      0xB110, 0x20, 0xAC00, 0xB85C, 0xD3ED, 0xC774, 0x20] @ ''100'' @ utf8 [0xCE78, 0x20, 0xBC11,
      0xC73C, 0xB85C, 0x20, 0xB5A8, 0xC5B4, 0xC9C0, 0xBA74, 0x20, 0xC774, 0x20, 0xC6B0, 0xC8FC,
      0xAC00, 0x20, 0xD1B5, 0xC9F8, 0xB85C, 0x20, 0xC138, 0xADF8, 0xD3F4, 0xD2B8, 0x20, 0xD3ED,
      0xBC1C, 0xD569, 0xB2C8, 0xB2E4] @ ''.'',
      ''['' @ utf8 [0xAC00, 0xC2ED] @ ''] '' @ utf8 [0xC11C, 0xBC84, 0x20, 0xAC1C, 0xBC1C, 0xC790,
      0x20, 0xBE44, 0xBA85] @ '': '' @ utf8 [0x27, 0xB274, 0xC2A4, 0xB97C, 0x20, 0xB108, 0xBB34,
      0x20, 0xAE38, 0xAC8C, 0x20, 0xC4F0, 0xBA74, 0x20, 0xD074, 0xB77C, 0xC774, 0xC5B8, 0xD2B8,
      0x20] @ ''6'' @ utf8 [0xBD84, 0xD560, 0x20, 0xCC3D, 0x20, 0xB808, 0xC774, 0xC544, 0xC6C3,
      0xC774, 0x20, 0xCC22, 0xC5B4, 0xC9C0, 0xB2C8, 0x20] @ ''80'' @ utf8 [0xC790, 0x20, 0xC774,
      0xB0B4, 0xB85C, 0x20, 0xD558, 0xB4DC, 0xCF54, 0xB529, 0xD558, 0xACA0, 0xC2B5, 0xB2C8,
      0xB2E4] @ ''...'' @ utf8 [0x27],
      ''['' @ utf8 [0xC2DC, 0xC2A4, 0xD15C] @ ''] '' @ utf8 [0xC8FC, 0xC758] @ '': ''
      @ utf8 [0xB2F9, 0xC2E0, 0xC774, 0x20, 0xBC29, 0xAE08, 0x20, 0xC785, 0xB825, 0xD558, 0xB824,
      0xB358, 0x20, 0xADF8, 0x20, 0xBA85, 0xCE58, 0x20, 0xC544, 0xD508, 0x20, 0xBA85, 0xB839,
      0xC5B4, 0xB294, 0x20, 0xC0AC, 0xC2E4, 0x20, 0xC11C, 0xBC84, 0x20, 0xC2A4, 0xB808, 0xB4DC,
      0xAC00, 0x20, 0xB208, 0x20, 0xAE5C, 0xC9DD, 0xD560, 0x20, 0xC0AC, 0xC774, 0xC5D0, 0x20,
      0xC18C, 0xCF13, 0x20, 0xC77D, 0xAE30, 0xB85C, 0x20, 0xC99D, 0xBC1C, 0xC2DC, 0xCF30, 0xC2B5,
      0xB2C8, 0xB2E4] @ ''.'',
      ''['' @ utf8 [0xC720, 0xBA38] @ ''] '' @ utf8 [0xD50C, 0xB808, 0xC774, 0xC5B4, 0xC758, 0x20,
      0xB1CC, 0x20, 0xC2E0, 0xD638, 0x20, 0xBD84, 0xC11D, 0x20, 0xACB0, 0xACFC] @ '': ''
      @ utf8 [0x27, 0xC790, 0xAE08, 0xC740, 0x20] @ ''0'' @ utf8 [0xC6D0, 0xC778, 0xB370, 0x20,
      0xC778, 0xBCA4, 0xD1A0, 0xB9AC, 0x20] @ ''7'' @ utf8 [0xCE78, 0xC774, 0x20, 0xC804, 0xBD80,
      0x20, 0xB3D9, 0xACB0, 0x20, 0xC4F0, 0xB808, 0xAE30, 0x20, 0xBB38, 0xC11C, 0xB85C, 0x20,
      0xAF49, 0x20, 0xCC28, 0xC11C, 0x20, 0xC6B8, 0xAE30, 0x20, 0xC9C1, 0xC804, 0x27, 0xC73C,
      0xB85C, 0x20, 0xBD84, 0xC11D, 0xB428] @ ''.'',
      ''['' @ utf8 [0xAD11, 0xACE0] @ ''] '' @ utf8 [0xB137, 0xB7EC, 0xB108, 0x20, 0xC804, 0xC6A9,
      0x20, 0xC2A4, 0xD30C, 0xC774, 0xAE00, 0xB798, 0xC2A4] @ '': '' @ utf8 [0x27, 0xC5B4, 0xAE68,
      0x20, 0xB108, 0xBA38, 0xB85C, 0x20, 0xD6D4, 0xCCD0, 0xBCF4, 0xB294, 0x20, 0xCC3D, 0xC870,
      0xC8FC, 0xC758, 0x20, 0xB208, 0xB3D9, 0xC790, 0xB97C, 0x20, 0xBB34, 0xB825, 0xD654, 0xD558,
      0xB294, 0x20] @ ''LCD '' @ utf8 [0xD504, 0xB77C, 0xC774, 0xBC84, 0xC2DC, 0x20, 0xC274,
      0xB4DC, 0x20] @ ''80% '' @ utf8 [0xC138, 0xC77C] @ ''!'' @ utf8 [0x27],
      ''['' @ utf8 [0xC2DC, 0xC2A4, 0xD15C] @ ''] '' @ utf8 [0xC54C, 0xB9BC] @ '': ''
      @ utf8 [0xD50C, 0xB808, 0xC774, 0xC5B4, 0xC758, 0x20, 0xC2EC, 0xC7A5, 0x20, 0xBC15, 0xB3D9,
      0xC218, 0xAC00, 0x20, 0x27] @ ''1'' @ utf8 [0xD2F1, 0xB2F9, 0x20] @ ''1'' @ utf8 [0xD68C,
      0x27, 0xB85C, 0x20, 0xC77C, 0xC815, 0xD568] @ ''. '' @ utf8 [0xBCF8, 0x20, 0xC2DC, 0xC2A4,
      0xD15C, 0xC774, 0x20, 0xAC10, 0xC9C0, 0xD558, 0xB294, 0x20, 0xC9C0, 0xD130] @ ''(Jitter) ''
      @ utf8 [0xC218, 0xCE58, 0xB294, 0x20, 0xBB34, 0xACB0, 0xD55C, 0x20, 0xAE30, 0xACC4, 0x20,
      0xC0C1, 0xD0DC, 0xC785, 0xB2C8, 0xB2E4] @ ''.'',
      ''['' @ utf8 [0xACBD, 0xACE0] @ ''] '' @ utf8 [0xC0AC, 0xCC44, 0xC5C5, 0xC790, 0x20, 0x27,
      0xB860] @ ''-'' @ utf8 [0xC0E4, 0xD06C, 0x27, 0xC758, 0x20, 0xC5F0, 0xC1C4, 0x20, 0xB3C5,
      0xCD09, 0x20, 0xC2DC, 0xC2A4, 0xD15C, 0x20, 0xC5F0, 0xB3D9, 0x20, 0xC911] @ ''. ''
      @ utf8 [0xB3D9, 0xB8CC, 0xAC00, 0x20, 0xD55C, 0x20, 0xBA85, 0x20, 0xD0C8, 0xCD9C, 0xD560,
      0x20, 0xB54C, 0xB9C8, 0xB2E4, 0x20, 0xB0A8, 0xC740, 0x20, 0xC790, 0xB4E4, 0xC758, 0x20,
      0xBAA9, 0xD45C, 0xC561, 0xC774, 0x20] @ ''$2,000'' @ utf8 [0xC529, 0x20, 0xD3ED, 0xC99D,
      0xD569, 0xB2C8, 0xB2E4] @ ''!'',
      ''['' @ utf8 [0xB2E4, 0xD06C, 0xC6F9, 0x20, 0xD53C, 0xB4DC] @ ''] '' @ utf8 [0x27, 0xB0B4,
      0x20, 0xC778, 0xBCA4, 0xD1A0, 0xB9AC, 0xAC00, 0x20, 0xB3D9, 0xACB0, 0x20, 0xAE30, 0xBC00,
      0xB85C, 0x20, 0xAC00, 0xB4DD, 0x20, 0xCC28, 0xC11C, 0x20, 0xD130, 0xC9C8, 0x20, 0xAC83,
      0x20, 0xAC19, 0xC544] @ ''...'' @ utf8 [0x27, 0x20, 0x2794, 0x20, 0x27, 0xBA4D, 0xCCAD,
      0xC774, 0xB0D0] @ ''? '' @ utf8 [0xC989, 0xC2DC, 0x20] @ ''/dispose [ID] '' @ utf8 [0xB85C,
      0x20, 0xD30C, 0xC1C4, 0xD558, 0xACE0, 0x20, 0xC5EC, 0xC720, 0x20, 0xACF5, 0xAC04, 0xC744,
      0x20, 0xD655, 0xBCF4, 0xD574, 0xB77C] @ ''.'' @ utf8 [0x27],
      ''['' @ utf8 [0xB137, 0xAC00, 0xC774, 0xB4DC] @ ''] '' @ utf8 [0xB2E4, 0xD06C, 0xB137, 0x20,
      0xBE0C, 0xB85C, 0xCEE4, 0x20, 0xC0DD, 0xC874, 0x20, 0xC9C0, 0xCE68] @ '': '' @ utf8 [0x27,
      0xC2DC, 0xC7A5, 0xC758, 0x20, 0xB3C5, 0xC810, 0x20, 0xB9E4, 0xBB3C, 0xC740, 0x20, 0xC120,
      0xCC29, 0xC21C, 0xC774, 0xB2E4] @ ''. /buy '' @ utf8 [0xBA85, 0xB839, 0xC740, 0x20, 0xB2E4,
      0xB978, 0x20, 0xC5B4, 0xB5A4, 0x20, 0xB137, 0xB7EC, 0xB108, 0xBCF4, 0xB2E4, 0x20, 0xC2E0,
      0xC18D, 0xD558, 0xAC8C, 0x20, 0xBC1C, 0xC0AC, 0xD558, 0xB77C] @ ''.'' @ utf8 [0x27],
      ''['' @ utf8 [0xB2E4, 0xD06C, 0xC6F9, 0x20, 0xD53C, 0xB4DC] @ ''] '' @ utf8 [0x27, 0xBAA9,
      0xD45C, 0xC561, 0x20] @ ''$10,000'' @ utf8 [0xB97C, 0x20, 0xB4DC, 0xB514, 0xC5B4, 0x20,
      0xBAA8, 0xC558, 0xC5B4] @ ''!'' @ utf8 [0x27, 0x20, 0x2794, 0x20, 0x27, 0xB2A6, 0xC7A5,
      0x20, 0xBD80, 0xB9AC, 0xC9C0, 0x20, 0xB9D0, 0xACE0, 0x20] @ ''/payoff'' @ utf8 [0xB97C,
      0x20, 0xCCD0, 0xC11C, 0x20, 0xC2B9, 0xB9AC, 0xC790, 0xB85C, 0x20, 0xD0C8, 0xCD9C, 0xD574,
      0xB77C] @ ''. '' @ utf8 [0xC0AC, 0xCC44, 0xC5C5, 0xC790, 0xAC00, 0x20, 0xC624, 0xAE30, 0x20,
      0xC804, 0xC5D0] @ ''!'' @ utf8 [0x27],
      ''['' @ utf8 [0xACBD, 0xACE0] @ ''] '' @ utf8 [0xACBD, 0xCC30, 0x20, 0xB808, 0xC774, 0xB4DC]
      @ ''(POLICE RAID) '' @ utf8 [0xC8FC, 0xC758, 0xBCF4] @ '': '' @ utf8 [0xC0AC, 0xC774,
      0xB80C, 0x20, 0xC18C, 0xB9AC, 0xC640, 0x20, 0xD568, 0xAED8, 0x20, 0xD654, 0xBA74, 0xC774,
      0x20, 0xBD89, 0xAC8C, 0x20, 0xC810, 0xBA78, 0xD558, 0xBA74, 0x20] @ ''30'' @ utf8 [0xCD08,
      0x20, 0xB0B4, 0xC5D0, 0x20, 0xC554, 0xAD6C, 0xD638, 0x20, 0x27] @ ''PURGE'' @ utf8 [0x27,
      0xB97C, 0x20, 0xCE58, 0xACE0, 0x20, 0xB3C4, 0xB9DD, 0xCE58, 0xC2ED, 0xC2DC, 0xC624] @ ''.'',
      ''['' @ utf8 [0xB2E4, 0xD06C, 0xC6F9, 0x20, 0xD53C, 0xB4DC] @ ''] '' @ utf8 [0x27, 0xACBD,
      0xC7C1, 0xC790, 0x20, 0xB140, 0xC11D, 0xC758, 0x20, 0xD654, 0xBA74, 0xC744, 0x20, 0xC870,
      0xC838, 0xBC84, 0xB9AC, 0xACE0, 0x20, 0xC2F6, 0xC5B4] @ ''.'' @ utf8 [0x27, 0x20, 0x2794,
      0x20, 0x27, 0xB9C9, 0xB300, 0xD55C, 0x20, 0xC218, 0xC218, 0xB8CC, 0xB97C, 0x20, 0xC9C0,
      0xBD88, 0xD558, 0xACE0, 0x20] @ ''/rumor ['' @ utf8 [0xD0C0, 0xAC9F] @ ''Key] ''
      @ utf8 [0xB85C, 0x20, 0xAE00, 0xB9AC, 0xCE58, 0x20, 0xC0AC, 0xBCF4, 0xD0C0, 0xC8FC, 0xB97C,
      0x20, 0xAC08, 0xACA8, 0xB77C] @ ''.'' @ utf8 [0x27],
      ''['' @ utf8 [0xCC0C, 0xB77C, 0xC2DC] @ ''] '' @ utf8 [0xBE5A, 0x20, 0xC0C1, 0xD658, 0x20,
      0xBAA9, 0xD45C, 0xC561, 0xC744, 0x20, 0xBB34, 0xC0AC, 0xD788, 0x20, 0xCCAD, 0xC0B0, 0xD558,
      0xACE0, 0x20, 0xB2E4, 0xD06C, 0xB137, 0xC744, 0x20, 0xC601, 0xC608, 0xB86D, 0xAC8C, 0x20,
      0xD0C8, 0xCD9C, 0xD55C, 0x20, 0xBE0C, 0xB85C, 0xCEE4, 0xB4E4, 0xC758, 0x20, 0xBA85, 0xB2E8,
      0xC774, 0x20, 0xC11C, 0xBC84, 0x20, 0x27, 0xD0C8, 0xCD9C, 0x20, 0xB85C, 0xADF8, 0x27,
      0xC5D0, 0x20, 0xC601, 0xAD6C, 0x20, 0xAC01, 0xC778, 0xB41C, 0xB2E4, 0xB294, 0x20, 0xD329,
      0xD2B8] @ ''.'',
      ''['' @ utf8 [0xC18D, 0xBCF4] @ ''] '' @ utf8 [0xC2DC, 0xC7A5, 0x20, 0xB9E4, 0xBB3C, 0xC774,
      0x20, 0xC2A4, 0xD3F0, 0xB420, 0x20, 0xB54C, 0xB9C8, 0xB2E4, 0x20, 0xC11C, 0xBC84, 0xC758,
      0x20, 0xBB3C, 0xB9AC, 0x20, 0xD3F4, 0xB354] @ ''('' @ utf8 [0x60] @ ''./data/master''
      @ utf8 [0x60] @ '')'' @ utf8 [0xC5D0, 0x20, 0xC2E4, 0xBB3C, 0x20, 0xC554, 0xD638, 0x20,
      0xD30C, 0xC77C, 0xC774, 0x20, 0xC2E4, 0xC81C, 0xB85C, 0x20, 0xC810, 0xBA78, 0x20, 0xC2A4,
      0xD3F0, 0xB41C, 0xB2E4, 0xB294, 0x20, 0xACE0, 0xACE0, 0xD559, 0xC801, 0x20, 0xC785, 0xC99D]
      @ ''.'',
      ''['' @ utf8 [0xB2E4, 0xD06C, 0xC6F9, 0x20, 0xD53C, 0xB4DC] @ ''] '' @ utf8 [0x27, 0xC774,
      0xC911, 0x20, 0xC811, 0xC18D, 0xC740, 0x20, 0xAFC8, 0xB3C4, 0x20, 0xAFB8, 0xC9C0, 0x20,
      0xB9C8, 0xB77C] @ ''. '' @ utf8 [0xC11C, 0xBC84, 0x20, 0xC804, 0xC5ED, 0xC758, 0x20]
      @ ''active_keys '' @ utf8 [0xBC30, 0xC5F4, 0xC774, 0x20, 0xB2F9, 0xC2E0, 0xC758, 0x20,
      0xB2E4, 0xC911, 0x20, 0xB85C, 0xADF8, 0xC778, 0xC744, 0x20] @ ''1ms '' @ utf8 [0xB9CC,
      0xC5D0, 0x20, 0xC7A1, 0xC544, 0xB0B4, 0x20, 0xCC28, 0xB2E8, 0xD55C, 0xB2E4] @ ''.''
      @ utf8 [0x27]]"

definition EXTENSIONS :: "string list" where
  "EXTENSIONS = [
      ''.decrypted'',
      ''.dump'',
      ''.pcap'',
      ''_CRACKED.bin'',
      ''_Leak_v1.0'',
      ''.raw'',
      ''.enc'']"

definition SINGLE_NAMES :: "string list list" where
  "SINGLE_NAMES = [
     [
      utf8 [0xC544, 0xC0AC, 0xC0AC, 0xCE74] @ ''_'' @ utf8 [0xC804, 0xB825, 0xB9DD] @ ''_''
      @ utf8 [0xBC31, 0xC5C5, 0xC2DC, 0xD2B8],
      utf8 [0xC544, 0xC0AC, 0xC0AC, 0xCE74] @ ''_'' @ utf8 [0xADA4, 0xB3C4, 0xBCF4, 0xC548]
      @ ''_'' @ utf8 [0xAD6C, 0xB3D9, 0xACC4],
      utf8 [0xC544, 0xC0AC, 0xC0AC, 0xCE74] @ ''_'' @ utf8 [0xC6A9, 0xBCD1, 0xACC4, 0xC57D,
      0xC11C]],
     [
      utf8 [0xBC14, 0xC774, 0xC624, 0xC820] @ ''_'' @ utf8 [0xC778, 0xACF5, 0xC2E0, 0xACBD]
      @ ''_'' @ utf8 [0xC2DC, 0xC81C, 0xD488],
      utf8 [0xBC14, 0xC774, 0xC624, 0xC820] @ ''_'' @ utf8 [0xC720, 0xC804, 0xC790, 0xBC30,
      0xC5F4] @ ''_'' @ utf8 [0xC2DC, 0xD000, 0xC2F1],
      utf8 [0xBC14, 0xC774, 0xC624, 0xC820] @ ''_'' @ utf8 [0xC911, 0xAC04, 0xC784, 0xC0C1]
      @ ''_'' @ utf8 [0xD1B5, 0xACC4]],
     [
      utf8 [0xB125, 0xC11C, 0xC2A4] @ ''_'' @ utf8 [0xB137, 0xADF8, 0xB9AC, 0xB4DC] @ ''_''
      @ utf8 [0xBBF8, 0xB7EC],
      utf8 [0xB125, 0xC11C, 0xC2A4] @ ''_'' @ utf8 [0xAC00, 0xC0C1, 0xACC4, 0xC815] @ ''_''
      @ utf8 [0xD2B8, 0xB79C, 0xC7AD, 0xC158],
      utf8 [0xB125, 0xC11C, 0xC2A4] @ ''_'' @ utf8 [0xBC31, 0xC624, 0xD53C, 0xC2A4] @ ''_''
      @ utf8 [0xC811, 0xC18D, 0xAD8C, 0xD55C]],
     [
      ''VIP_'' @ utf8 [0xC8FC, 0xBBFC, 0xC815, 0xBCF4] @ ''_2.4TB'',
      utf8 [0xB124, 0xC624, 0xC2DC, 0xC560, 0xD2C0] @ ''_'' @ utf8 [0xAC70, 0xC8FC, 0xC790]
      @ ''_DB'',
      utf8 [0xC720, 0xBA85, 0xAC00, 0xBB38] @ ''_'' @ utf8 [0xAC00, 0xACC4, 0xB3C4] @ ''DB_dump''],
     [
      utf8 [0xC2A4, 0xC704, 0xC2A4] @ ''_'' @ utf8 [0xBE44, 0xC790, 0xAE08] @ ''_''
      @ utf8 [0xACC4, 0xC88C, 0xB0B4, 0xC5ED],
      utf8 [0xC554, 0xD638, 0xD654, 0xD3D0] @ ''_'' @ utf8 [0xC138, 0xD0C1, 0xACBD, 0xB85C]
      @ ''_'' @ utf8 [0xC6D0, 0xC7A5],
      utf8 [0xBA54, 0xAC00, 0xCF54, 0xD504] @ ''_'' @ utf8 [0xC870, 0xC138, 0xD68C, 0xD53C,
      0xCC98] @ ''_'' @ utf8 [0xC815, 0xC0B0, 0xC11C]],
     [
      ''XM-909_'' @ utf8 [0xC804, 0xC220, 0xBB34, 0xC778, 0xAE30] @ ''_'' @ utf8 [0xB3C4, 0xBA74],
      utf8 [0xB098, 0xB178, 0xBD07] @ ''_'' @ utf8 [0xADA4, 0xB3C4, 0xC81C, 0xC5B4] @ ''_''
      @ utf8 [0xC2A4, 0xD399, 0xC2DC, 0xD2B8],
      utf8 [0xB808, 0xC774, 0xC800, 0xBC29, 0xC5B4] @ ''_'' @ utf8 [0xBC31, 0xB3C4, 0xC5B4,
      0xD0A4]],
     [
      utf8 [0xC5F0, 0xBC29, 0xAE30, 0xBC00] @ ''_'' @ utf8 [0xBE14, 0xB799, 0xC0AC, 0xC774,
      0xD2B8] @ ''_'' @ utf8 [0xC704, 0xCE58],
      utf8 [0xBE44, 0xBC00, 0xC218, 0xC0AC, 0xAD00] @ ''_'' @ utf8 [0xC2E0, 0xC0C1, 0xAE30,
      0xB85D],
      utf8 [0xC758, 0xD68C, 0xBE44, 0xC790, 0xAE08] @ ''_'' @ utf8 [0xB85C, 0xBE44, 0xBD84,
      0xBC30, 0xC7A5, 0xBD80]],
     [
      utf8 [0xC784, 0xC0C1, 0xB1CC, 0xC0AC] @ ''_'' @ utf8 [0xBD80, 0xC791, 0xC6A9] @ ''_''
      @ utf8 [0xAE30, 0xB85D],
      utf8 [0xC0AC, 0xC774, 0xBC84, 0xC6E8, 0xC5B4] @ ''_'' @ utf8 [0xC870, 0xC808, 0xC2E4,
      0xD328] @ ''_'' @ utf8 [0xC0AC, 0xB840],
      utf8 [0xC0DD, 0xCCB4, 0xC2E4, 0xD5D8] @ ''_'' @ utf8 [0xD06C, 0xB85C, 0xB178, 0xC2A4]
      @ ''_'' @ utf8 [0xC6D0, 0xC548]],
     [
      utf8 [0xC591, 0xC790, 0xD1B5, 0xC2E0] @ ''_'' @ utf8 [0xC554, 0xD638, 0xD654, 0xD0A4],
      utf8 [0xCC28, 0xC138, 0xB300] @ ''_'' @ utf8 [0xC790, 0xC728, 0xBA54, 0xCE74, 0xB2C9]
      @ ''_'' @ utf8 [0xAC00, 0xC774, 0xB4DC],
      utf8 [0xADF8, 0xB9AC, 0xB4DC, 0xC6B0, 0xD68C] @ ''_'' @ utf8 [0xD504, 0xB85C, 0xD1A0,
      0xD0C0, 0xC785]],
     [
      utf8 [0xC720, 0xB825, 0xAC00] @ ''_'' @ utf8 [0xC0AC, 0xC0DD, 0xD65C] @ ''_''
      @ utf8 [0xBE44, 0xBC00, 0xB179, 0xCDE8],
      ''VIP_'' @ utf8 [0xB525, 0xD398, 0xC774, 0xD06C] @ ''_'' @ utf8 [0xC0AC, 0xBCF4, 0xD0C0,
      0xC8FC] @ ''_'' @ utf8 [0xC18C, 0xC2A4],
      utf8 [0xBD88, 0xBC95, 0xBCF5, 0xC81C] @ ''_'' @ utf8 [0xBC30, 0xC544, 0xD3ED, 0xB85C,
      0xBB38, 0xAC74]],
     [
      utf8 [0xBC00, 0xB9AC, 0xD14C, 0xD06C] @ ''_'' @ utf8 [0xC804, 0xC220, 0xC790, 0xC8FC,
      0xD3EC] @ ''_'' @ utf8 [0xADA4, 0xC801, 0xC6D0, 0xC7A5],
      utf8 [0xBC00, 0xB9AC, 0xD14C, 0xD06C] @ ''_'' @ utf8 [0xC2A4, 0xB9C8, 0xD2B8, 0xD0C4,
      0xD658] @ ''_'' @ utf8 [0xD504, 0xB85C, 0xD1A0, 0xCF5C],
      utf8 [0xBC00, 0xB9AC, 0xD14C, 0xD06C] @ ''_'' @ utf8 [0xC6A9, 0xBCD1, 0xAE30, 0xB3D9,
      0xC804, 0xC220, 0xC11C]],
     [
      utf8 [0xB808, 0xC774, 0xBE10] @ ''_'' @ utf8 [0xC0AC, 0xC774, 0xBC84, 0xD06C, 0xB86C]
      @ ''_'' @ utf8 [0xC2A4, 0xD399, 0xC2DC, 0xD2B8],
      utf8 [0xB808, 0xC774, 0xBE10] @ ''_'' @ utf8 [0xC2E0, 0xACBD, 0xB9DD, 0xBCF5, 0xAD6C]
      @ ''_'' @ utf8 [0xC2DC, 0xD000, 0xC2A4],
      utf8 [0xB808, 0xC774, 0xBE10] @ ''_'' @ utf8 [0xB0B4, 0xBD80, 0xD1B5, 0xC2E0] @ ''_''
      @ utf8 [0xD06C, 0xB799, 0xD328, 0xC2A4]]]"

definition txt_doc_a_mil :: "string \<Rightarrow> string" where
  "txt_doc_a_mil ext =
     utf8 [0xC544, 0xC0AC, 0xC0AC, 0xCE74] @ ''_XM-909_'' @ utf8 [0xC790, 0xC728, 0xC0B4, 0xC0C1,
     0xB4DC, 0xB860] @ ''_'' @ utf8 [0xC124, 0xACC4, 0xB3C4] @ ext"

definition txt_doc_b_med :: "string \<Rightarrow> string" where
  "txt_doc_b_med ext =
     utf8 [0xBC14, 0xC774, 0xC624, 0xC820] @ ''_'' @ utf8 [0xB1CC, 0xC0AC, 0xC784, 0xC0C1, 0xC2E4,
     0xD5D8] @ ''_'' @ utf8 [0xCE58, 0xBA85, 0xC801, 0xBD80, 0xC791, 0xC6A9] @ ''_''
     @ utf8 [0xBCF4, 0xACE0, 0xC11C] @ ext"

definition txt_doc_c_res :: "string \<Rightarrow> string" where
  "txt_doc_c_res ext =
     utf8 [0xB125, 0xC11C, 0xC2A4] @ ''_'' @ utf8 [0xC591, 0xC790, 0xBC31, 0xB3C4, 0xC5B4] @ ''_''
     @ utf8 [0xC18C, 0xC2A4, 0xCF54, 0xB4DC] @ ''_'' @ utf8 [0xC6D0, 0xBCF8] @ ext"

definition txt_doc_d_mil :: "string \<Rightarrow> string" where
  "txt_doc_d_mil ext =
     utf8 [0xBC00, 0xB9AC, 0xD14C, 0xD06C] @ ''_'' @ utf8 [0xC804, 0xC220] @ ''AI''
     @ utf8 [0xACF5, 0xACA9, 0xD5EC, 0xAE30] @ ''_'' @ utf8 [0xBC29, 0xD654, 0xBCBD, 0xC778,
     0xC99D, 0xD0A4] @ ext"

definition txt_doc_e_res :: "string \<Rightarrow> string" where
  "txt_doc_e_res ext =
     utf8 [0xB808, 0xC774, 0xBE10] @ ''_'' @ utf8 [0xC591, 0xC790, 0xBCF4, 0xC548, 0xB9DD] @ ''_''
     @ utf8 [0xC2DC, 0xB0C5, 0xC2A4, 0xC6B0, 0xD68C, 0xB85C] @ ''_'' @ utf8 [0xC124, 0xACC4,
     0xB3C4] @ ext"

definition txt_doc_fin_cus :: "string \<Rightarrow> string" where
  "txt_doc_fin_cus ext =
     utf8 [0xBA54, 0xAC00, 0xCF54, 0xD504] @ ''_VIP_'' @ utf8 [0xD574, 0xC678, 0xBE44, 0xC790,
     0xAE08] @ ''_'' @ utf8 [0xD0C8, 0xC138, 0xC790, 0xBA85, 0xB2E8] @ ext"

definition txt_doc_gov_per :: "string \<Rightarrow> string" where
  "txt_doc_gov_per ext =
     utf8 [0xC5F0, 0xBC29, 0xC758, 0xD68C] @ ''_'' @ utf8 [0xACE0, 0xC704, 0xC758, 0xC6D0] @ ''_''
     @ utf8 [0xC0AC, 0xC0DD, 0xD65C, 0xD611, 0xBC15] @ ''_'' @ utf8 [0xBE14, 0xB799, 0xBA54,
     0xC77C] @ ext"

definition txt_doc_res_mil :: "string \<Rightarrow> string" where
  "txt_doc_res_mil ext =
     utf8 [0xCC28, 0xC138, 0xB300] @ ''_'' @ utf8 [0xB098, 0xB178, 0xBD07, 0xBB34, 0xAE30]
     @ ''_BMI'' @ utf8 [0xC81C, 0xC5B4] @ ''_'' @ utf8 [0xD504, 0xB85C, 0xD1A0, 0xD0C0, 0xC785]
     @ ext"

definition txt_doc_two :: "string \<Rightarrow> string \<Rightarrow> string \<Rightarrow> string" where
  "txt_doc_two a b ext =
     a @ ''_'' @ b @ ''_'' @ utf8 [0xC735, 0xD569, 0xD328, 0xD0A4, 0xC9C0] @ ''_CRACKED'' @ ext"

definition txt_doc_one :: "string \<Rightarrow> string \<Rightarrow> string" where
  "txt_doc_one a ext =
     a @ ''_'' @ utf8 [0xC554, 0xC2DC, 0xC7A5, 0xC720, 0xCD9C, 0xAE30, 0xBC00] @ ext"

definition txt_news_sender :: string where
  "txt_news_sender =
     ''['' @ utf8 [0xC18D, 0xBCF4] @ '']''"

definition txt_cap_expired :: string where
  "txt_cap_expired =
     utf8 [0xC0AC, 0xCC44, 0xC5C5, 0xC790, 0xC758, 0x20, 0xC804, 0xBA74, 0x20, 0xC555, 0xB958,
     0x20, 0xC2DC, 0xD55C] @ ''(5'' @ utf8 [0xBD84] @ '')'' @ utf8 [0xC774, 0x20, 0xB9CC, 0xB8CC,
     0xB418, 0xC5C8, 0xC2B5, 0xB2C8, 0xB2E4] @ ''! 60'' @ utf8 [0xCD08, 0x20, 0xB4A4, 0x20,
     0xB137, 0x20, 0xB300, 0xC5ED, 0xC774, 0x20, 0xAC15, 0xC81C, 0x20, 0xCD08, 0xAE30, 0xD654]
     @ ''('' @ utf8 [0xB9AC, 0xC14B] @ '')'' @ utf8 [0xB429, 0xB2C8, 0xB2E4] @ ''.''"

definition txt_feed_sender :: string where
  "txt_feed_sender =
     ''['' @ utf8 [0xB137] @ ''-'' @ utf8 [0xD53C, 0xB4DC] @ '']''"

end
