(* ===== verification/Server.thy ===== *)
theory Server
  imports Market UserDB Sandbox Texts
begin

text \<open>
  The state of the server process and the helpers every handler of \<open>server_main.c\<close> uses: the globals,
  the three stores, the environment (clock, \<open>rand\<close>, outcomes of writes and of \<open>pthread_create\<close>), the
  threads that were started and the packets that were sent. A handler is a function on this state; what
  it prints on the console is not modelled.
\<close>

section \<open>State\<close>

abbreviation MAX_CLIENTS :: nat where "MAX_CLIENTS \<equiv> 10"
abbreviation DEBT_RAISE_STEP :: int where "DEBT_RAISE_STEP \<equiv> 2000"
abbreviation DEBT_CAP :: int where "DEBT_CAP \<equiv> 14000"
abbreviation RUMOR_FEE :: int where "RUMOR_FEE \<equiv> 500"
abbreviation RUMOR_COOLDOWN_SEC :: int where "RUMOR_COOLDOWN_SEC \<equiv> 30"
abbreviation ROUND_END_COUNTDOWN_SEC :: int where "ROUND_END_COUNTDOWN_SEC \<equiv> 60"
abbreviation PERIODIC_RAID_TIME_LIMIT_SEC :: int where "PERIODIC_RAID_TIME_LIMIT_SEC \<equiv> 15"
abbreviation PERIODIC_RAID_MIN_INTERVAL :: int where "PERIODIC_RAID_MIN_INTERVAL \<equiv> 360"
abbreviation PERIODIC_RAID_MAX_INTERVAL :: int where "PERIODIC_RAID_MAX_INTERVAL \<equiv> 600"
abbreviation MARKET_PRICE_PER_TAG :: int where "MARKET_PRICE_PER_TAG \<equiv> 400"

record escape_entry =
  el_key :: key
  el_money_at_escape :: int
  el_escape_order :: int

definition zero_escape_entry :: escape_entry where
  "zero_escape_entry = \<lparr>el_key = [], el_money_at_escape = 0, el_escape_order = 0\<rparr>"

text \<open>The threads the server derives, with the argument each carries.\<close>

datatype thread =
    Client_handler sock
  | Event_thread
  | Round_end_timer
  | Periodic_raid_timeout
  | Leak_recovery tags int
  | Npc_sequence

record server =
  sv_market :: market
  sv_users :: users_dat
  sv_fs :: fs
  client_sockets :: "sock list"
  active_keys :: "key list"
  g_goal_money :: int
  g_escaped_count :: int
  g_round_end_active :: bool
  g_cap_reached_at :: time_t
  g_escape_log :: "escape_entry list"
  g_rumor_cd_until :: time_t
  g_periodic_raid_deadline :: time_t
  g_periodic_raid_pending_keys :: "key list"
  g_periodic_raid_passcode :: string
  g_doc_id_counter :: int
  g_npc_id_counter :: int
  sv_now :: time_t  \<comment> \<open>\<open>time(NULL)\<close>\<close>
  sv_rands :: "nat list"  \<comment> \<open>what \<open>rand()\<close> returns next; 0 when exhausted\<close>
  sv_writes :: "nat list"  \<comment> \<open>bytes the next \<open>write\<close>s accept; all of them when exhausted\<close>
  sv_pwrite :: "nat \<Rightarrow> nat"  \<comment> \<open>bytes a \<open>pwrite\<close> at an offset accepts\<close>
  sv_creates :: "bool list"  \<comment> \<open>outcomes of the next \<open>pthread_create\<close>s; success when exhausted\<close>
  sv_threads :: "(time_t \<times> thread) list"  \<comment> \<open>threads started, with the time of their start\<close>
  sv_out :: "(sock \<times> msg) list"  \<comment> \<open>packets sent, in order\<close>

section \<open>Environment\<close>

definition draw :: "server \<Rightarrow> nat \<times> server" where
  "draw s = (case sv_rands s of [] \<Rightarrow> (0, s) | r # rs \<Rightarrow> (r, s\<lparr>sv_rands := rs\<rparr>))"

abbreviation FULL_WRITE :: nat where "FULL_WRITE \<equiv> 1000"

definition next_write :: "server \<Rightarrow> nat \<times> server" where
  "next_write s = (case sv_writes s of [] \<Rightarrow> (FULL_WRITE, s) | w # ws \<Rightarrow> (w, s\<lparr>sv_writes := ws\<rparr>))"

definition pthread_create :: "thread \<Rightarrow> server \<Rightarrow> bool \<times> server" where
  "pthread_create t s =
     (case sv_creates s of
        [] \<Rightarrow> (True, s\<lparr>sv_threads := sv_threads s @ [(sv_now s, t)]\<rparr>)
      | b # bs \<Rightarrow>
          (b, s\<lparr>sv_creates := bs,
                sv_threads := (if b then sv_threads s @ [(sv_now s, t)] else sv_threads s)\<rparr>))"

section \<open>Sending\<close>

definition packet_send :: "sock \<Rightarrow> msg \<Rightarrow> server \<Rightarrow> server" where
  "packet_send sock m s = s\<lparr>sv_out := sv_out s @ [(sock, m)]\<rparr>"

definition broadcast_packet :: "msg \<Rightarrow> server \<Rightarrow> server" where
  "broadcast_packet m s =
     s\<lparr>sv_out := sv_out s @ map (\<lambda>k. (k, m)) (filter (\<lambda>k. k \<noteq> 0) (client_sockets s))\<rparr>"

text \<open>The socket of the first slot whose key is the target, as \<open>unicast_to_key\<close> finds it.\<close>

definition slot_of_key :: "key \<Rightarrow> server \<Rightarrow> sock option" where
  "slot_of_key target_key s =
     map_option fst (find (\<lambda>(k, key). k \<noteq> 0 \<and> c_strncmp_eq MAX_KEY_LEN key target_key)
       (zip (client_sockets s) (active_keys s)))"

definition unicast_to_key :: "key \<Rightarrow> msg \<Rightarrow> server \<Rightarrow> bool \<times> server" where
  "unicast_to_key target_key m s =
     (case slot_of_key target_key s of
        None \<Rightarrow> (False, s)
      | Some k \<Rightarrow> (True, packet_send k m s))"

definition send_error :: "sock \<Rightarrow> error_code \<Rightarrow> string \<Rightarrow> server \<Rightarrow> server" where
  "send_error sock code reason s = packet_send sock (Res_error code (c_strncpy (MAX_TEXT_LEN - 1) reason)) s"

definition chat_evt :: "string \<Rightarrow> string \<Rightarrow> msg" where
  "chat_evt sender_key text = Evt_chat (c_strncpy (MAX_KEY_LEN - 1) sender_key) text"

definition game_over :: "string \<Rightarrow> msg" where
  "game_over message = Evt_game_over (c_snprintf MAX_TEXT_LEN message)"

definition spawn_msg :: "market_slot \<Rightarrow> msg" where
  "spawn_msg sl = Evt_market_spawn (ms_doc_id sl) (ms_tags sl) (ms_base_price sl)
     (c_strncpy (MAX_NAME_LEN - 1) (ms_name sl))"

definition npc_spawn_msg :: "npc_slot \<Rightarrow> msg" where
  "npc_spawn_msg n = Evt_npc_spawn (ns_npc_id n) (ns_required_tags n) (ns_bounty n)"

section \<open>The stores\<close>

text \<open>\<open>market_add\<close> draws its lifespan only when it found a slot.\<close>

definition sv_market_add :: "int \<Rightarrow> tags \<Rightarrow> int \<Rightarrow> string \<Rightarrow> server \<Rightarrow> bool \<times> server" where
  "sv_market_add doc_id tags price name s =
     (if market_is_full (sv_market s) then (False, s)
      else (case draw s of (r, s1) \<Rightarrow>
        (case market_add (sv_now s1) r doc_id tags price name (sv_market s1) of
           (ok, m) \<Rightarrow> (ok, s1\<lparr>sv_market := m\<rparr>))))"

definition sv_npc_add :: "int \<Rightarrow> tags \<Rightarrow> int \<Rightarrow> server \<Rightarrow> bool \<times> server" where
  "sv_npc_add npc_id tags bounty s =
     (case npc_add (sv_now s) npc_id tags bounty (sv_market s) of (ok, m) \<Rightarrow> (ok, s\<lparr>sv_market := m\<rparr>))"

definition sv_update_at :: "nat \<Rightarrow> user_record \<Rightarrow> server \<Rightarrow> server" where
  "sv_update_at offset rec s =
     (case next_write s of (w, s1) \<Rightarrow>
        s1\<lparr>sv_users := snd (userdb_update_at w offset rec (sv_users s1))\<rparr>)"

definition sv_burn_at :: "nat \<Rightarrow> server \<Rightarrow> server" where
  "sv_burn_at offset s =
     (case next_write s of (w, s1) \<Rightarrow> s1\<lparr>sv_users := snd (userdb_burn_at w offset (sv_users s1))\<rparr>)"

definition sv_append :: "user_record \<Rightarrow> server \<Rightarrow> nat option \<times> server" where
  "sv_append rec s =
     (case next_write s of (w, s1) \<Rightarrow>
        (case userdb_append w rec (sv_users s1) of (r, db) \<Rightarrow> (r, s1\<lparr>sv_users := db\<rparr>)))"

definition sv_master_write :: "doc_file \<Rightarrow> server \<Rightarrow> bool \<times> server" where
  "sv_master_write doc s =
     (case next_write s of (w, s1) \<Rightarrow>
        (case master_write_doc w doc (sv_fs s1) of (ok, f) \<Rightarrow> (ok, s1\<lparr>sv_fs := f\<rparr>)))"


section \<open>Frames and laws\<close>

text \<open>No write is short.\<close>

definition full_writes :: "server \<Rightarrow> bool" where
  "full_writes s \<longleftrightarrow> (\<forall>w \<in> set (sv_writes s). DOC_SIZE \<le> w)"

lemma draw_eq: "snd (draw s) = s\<lparr>sv_rands := tl (sv_rands s)\<rparr>"
  by (cases "sv_rands s") (simp_all add: draw_def)

lemma next_write_eq: "snd (next_write s) = s\<lparr>sv_writes := tl (sv_writes s)\<rparr>"
  by (cases "sv_writes s") (simp_all add: next_write_def)

lemma sv_update_at_eq: "sv_update_at l r s = s\<lparr>sv_writes := tl (sv_writes s),
    sv_users := snd (userdb_update_at (fst (next_write s)) l r (sv_users s))\<rparr>"
  by (cases "sv_writes s") (simp_all add: sv_update_at_def next_write_def split: prod.split)

lemma sv_burn_at_eq: "sv_burn_at l s = s\<lparr>sv_writes := tl (sv_writes s),
    sv_users := snd (userdb_burn_at (fst (next_write s)) l (sv_users s))\<rparr>"
  by (cases "sv_writes s") (simp_all add: sv_burn_at_def next_write_def split: prod.split)

lemma sv_market_add_eq: "snd (sv_market_add d t p n s) =
    (if market_is_full (sv_market s) then s
     else s\<lparr>sv_rands := tl (sv_rands s),
       sv_market := snd (market_add (sv_now s) (fst (draw s)) d t p n (sv_market s))\<rparr>)"
  by (cases "sv_rands s") (simp_all add: sv_market_add_def draw_def split: prod.split)

lemma sv_npc_add_eq: "snd (sv_npc_add d t b s) = s\<lparr>sv_market := snd (npc_add (sv_now s) d t b (sv_market s))\<rparr>"
  by (simp add: sv_npc_add_def split: prod.split)

lemma sv_master_write_eq: "sv_master_write doc s =
    (fst (master_write_doc (fst (next_write s)) doc (sv_fs s)),
     s\<lparr>sv_writes := tl (sv_writes s), sv_fs := snd (master_write_doc (fst (next_write s)) doc (sv_fs s))\<rparr>)"
  by (cases "sv_writes s") (simp_all add: sv_master_write_def next_write_def split: prod.split)

lemma sv_append_eq: "sv_append r s =
    (fst (userdb_append (fst (next_write s)) r (sv_users s)),
     s\<lparr>sv_writes := tl (sv_writes s), sv_users := snd (userdb_append (fst (next_write s)) r (sv_users s))\<rparr>)"
  by (cases "sv_writes s") (simp_all add: sv_append_def next_write_def split: prod.split)

lemma draw_frame [simp]:
  "sv_market (snd (draw s)) = sv_market s" "sv_users (snd (draw s)) = sv_users s" "sv_fs (snd (draw s)) = sv_fs s"
  "sv_out (snd (draw s)) = sv_out s" "client_sockets (snd (draw s)) = client_sockets s" "sv_now (snd (draw s)) = sv_now s"
  "sv_writes (snd (draw s)) = sv_writes s" "active_keys (snd (draw s)) = active_keys s"
  by (simp_all add: draw_def split: list.split)

lemma next_write_frame [simp]:
  "sv_market (snd (next_write s)) = sv_market s" "sv_users (snd (next_write s)) = sv_users s"
  "sv_fs (snd (next_write s)) = sv_fs s" "sv_out (snd (next_write s)) = sv_out s"
  "client_sockets (snd (next_write s)) = client_sockets s" "active_keys (snd (next_write s)) = active_keys s"
  "sv_now (snd (next_write s)) = sv_now s" "sv_rands (snd (next_write s)) = sv_rands s"
  by (simp_all add: next_write_def split: list.split)

lemma next_write_full: "full_writes s \<Longrightarrow> DOC_SIZE \<le> fst (next_write s) \<and> full_writes (snd (next_write s))"
  by (auto simp: full_writes_def next_write_def split: list.split)

lemma packet_send_frame [simp]:
  "sv_market (packet_send k m s) = sv_market s" "sv_users (packet_send k m s) = sv_users s"
  "sv_fs (packet_send k m s) = sv_fs s" "client_sockets (packet_send k m s) = client_sockets s"
  "active_keys (packet_send k m s) = active_keys s" "sv_now (packet_send k m s) = sv_now s"
  "sv_writes (packet_send k m s) = sv_writes s" "sv_out (packet_send k m s) = sv_out s @ [(k, m)]"
  by (simp_all add: packet_send_def)

lemma broadcast_frame [simp]:
  "sv_market (broadcast_packet m s) = sv_market s" "sv_users (broadcast_packet m s) = sv_users s"
  "sv_fs (broadcast_packet m s) = sv_fs s" "client_sockets (broadcast_packet m s) = client_sockets s"
  "active_keys (broadcast_packet m s) = active_keys s" "sv_now (broadcast_packet m s) = sv_now s"
  "sv_writes (broadcast_packet m s) = sv_writes s"
  "sv_out (broadcast_packet m s) = sv_out s @ map (\<lambda>k. (k, m)) (filter (\<lambda>k. k \<noteq> 0) (client_sockets s))"
  by (simp_all add: broadcast_packet_def)

lemma send_error_frame [simp]:
  "sv_market (send_error k c r s) = sv_market s" "sv_users (send_error k c r s) = sv_users s"
  "sv_fs (send_error k c r s) = sv_fs s" "client_sockets (send_error k c r s) = client_sockets s"
  "active_keys (send_error k c r s) = active_keys s" "sv_writes (send_error k c r s) = sv_writes s"
  "sv_out (send_error k c r s) = sv_out s @ [(k, Res_error c (take 255 r))]"
  by (simp_all add: send_error_def c_strncpy_def)

lemma sv_market_add_frame [simp]:
  "sv_users (snd (sv_market_add d t p n s)) = sv_users s" "sv_fs (snd (sv_market_add d t p n s)) = sv_fs s"
  "sv_out (snd (sv_market_add d t p n s)) = sv_out s" "sv_writes (snd (sv_market_add d t p n s)) = sv_writes s"
  "client_sockets (snd (sv_market_add d t p n s)) = client_sockets s"
  "active_keys (snd (sv_market_add d t p n s)) = active_keys s"
  by (simp_all add: sv_market_add_def split: prod.split)
    (metis draw_frame snd_conv)+

lemma sv_update_frame [simp]:
  "sv_market (sv_update_at l r s) = sv_market s" "sv_fs (sv_update_at l r s) = sv_fs s"
  "sv_out (sv_update_at l r s) = sv_out s" "client_sockets (sv_update_at l r s) = client_sockets s"
  "active_keys (sv_update_at l r s) = active_keys s"
  by (simp_all add: sv_update_at_def split: prod.split) (metis next_write_frame snd_conv)+

text \<open>A whole write at a found location replaces the record.\<close>

lemma sv_update_found:
  assumes "full_writes s" "db_ok (sv_users s)" "userdb_find k (sv_users s) = Some (r, l)" "rec_ok r'"
  shows "sv_users (sv_update_at l r' s) = userdb_put l r' (sv_users s)" "full_writes (sv_update_at l r' s)"
proof -
  obtain w s1 where w: "next_write s = (w, s1)" by (cases "next_write s")
  then have "REC_SIZE \<le> w" "full_writes s1" "sv_users s1 = sv_users s"
    using next_write_full [OF assms(1)] next_write_frame(2) [of s] by simp_all
  then show "sv_users (sv_update_at l r' s) = userdb_put l r' (sv_users s)" "full_writes (sv_update_at l r' s)"
    using userdb_update_found [OF _ assms(2-4)] w by (simp_all add: sv_update_at_def full_writes_def)
qed

lemma sv_burn_found:
  assumes "full_writes s" "db_ok (sv_users s)" "userdb_find k (sv_users s) = Some (r, l)"
  shows "sv_users (sv_burn_at l s) = userdb_put l (burn_record r) (sv_users s)" "full_writes (sv_burn_at l s)"
proof -
  obtain w s1 where w: "next_write s = (w, s1)" by (cases "next_write s")
  then have "REC_SIZE \<le> w" "full_writes s1" "sv_users s1 = sv_users s"
    using next_write_full [OF assms(1)] next_write_frame(2) [of s] by simp_all
  then show "sv_users (sv_burn_at l s) = userdb_put l (burn_record r) (sv_users s)" "full_writes (sv_burn_at l s)"
    using userdb_burn_found [OF _ assms(2,3)] w by (simp_all add: sv_burn_at_def full_writes_def)
qed

lemma sv_burn_frame [simp]:
  "sv_market (sv_burn_at l s) = sv_market s" "sv_fs (sv_burn_at l s) = sv_fs s" "sv_out (sv_burn_at l s) = sv_out s"
  "client_sockets (sv_burn_at l s) = client_sockets s" "active_keys (sv_burn_at l s) = active_keys s"
  by (simp_all add: sv_burn_at_def split: prod.split) (metis next_write_frame snd_conv)+

text \<open>The balance change of one account: the account has the new amount, and no other account changes.\<close>

definition paid :: "key \<Rightarrow> int \<Rightarrow> users_dat \<Rightarrow> users_dat \<Rightarrow> bool" where
  "paid k amount db db' \<longleftrightarrow> (\<exists>r l. userdb_find k db = Some (r, l) \<and>
     userdb_find k db' = Some (r\<lparr>ur_money := ur_money r + amount\<rparr>, l) \<and>
     (\<forall>k'. \<not> same_key k' k \<longrightarrow> userdb_find k' db' = userdb_find k' db))"

lemma rec_ok_money: "rec_ok r \<Longrightarrow> int32_range m \<Longrightarrow> rec_ok (r\<lparr>ur_money := m\<rparr>)"
  by (simp add: rec_ok_def)

lemma sv_update_paid:
  assumes "full_writes s" "db_ok (sv_users s)" "userdb_find k (sv_users s) = Some (r, l)" "int32_range (ur_money r + amount)"
  shows "paid k amount (sv_users s) (sv_users (sv_update_at l (r\<lparr>ur_money := ur_money r + amount\<rparr>) s))"
    "db_ok (sv_users (sv_update_at l (r\<lparr>ur_money := ur_money r + amount\<rparr>) s))"
proof -
  let ?r = "r\<lparr>ur_money := ur_money r + amount\<rparr>"
  have r: "rec_ok ?r" using udb.find_acc_ok [OF assms(2,3)] assms(4) by (simp add: rec_ok_money)
  have eq: "sv_users (sv_update_at l ?r s) = userdb_put l ?r (sv_users s)" by (rule sv_update_found [OF assms(1-3) r])
  have n: "ur_name ?r = ur_name r" by simp
  show "paid k amount (sv_users s) (sv_users (sv_update_at l ?r s))"
    unfolding paid_def eq using assms(3) udb.find_put_same [OF assms(2,3) r n] udb.find_put_other [OF assms(2,3) r n] by blast
  show "db_ok (sv_users (sv_update_at l ?r s))" unfolding eq by (rule udb.put_ok [OF assms(2,3) r])
qed

end
