(* ===== verification/Trade.thy ===== *)
theory Trade
  imports Server
begin

text \<open>
  The trading requests of \<open>server_main.c\<close>: \<open>handle_buy\<close>, \<open>handle_sell\<close>, \<open>handle_dispose\<close> and
  \<open>handle_inventory\<close>, each as one function from the state at its call to the state at its return, with
  every early return of the code.
\<close>

section \<open>Handlers\<close>

text \<open>
  \<open>handle_buy\<close> from step 5 on: what the handler does once its checks have passed, with the record and the offset
  that step 4 read.
\<close>

definition buy_commit :: "sock \<Rightarrow> key \<Rightarrow> int \<Rightarrow> user_record \<Rightarrow> nat \<Rightarrow> server \<Rightarrow> server" where
  "buy_commit sock key doc_id rec offset s =
     (case market_take doc_id (sv_market s) of
        (Inl TAKE_FROZEN, m) \<Rightarrow> send_error sock ERR_DOC_FROZEN txt_frozen_listing (s\<lparr>sv_market := m\<rparr>)
      | (Inl TAKE_MISSING, m) \<Rightarrow> send_error sock ERR_DOC_NOT_FOUND txt_sold_already (s\<lparr>sv_market := m\<rparr>)
      | (Inr slot, m) \<Rightarrow>
          let s1 = s\<lparr>sv_market := m\<rparr> in
          (case sandbox_buy key doc_id (sv_fs s1) of
             (moved, f) \<Rightarrow>
               let s2 = s1\<lparr>sv_fs := f\<rparr> in
               if \<not> moved then
                 send_error sock ERR_DOC_NOT_FOUND txt_move_failed
                   (snd (sv_market_add (ms_doc_id slot) (ms_tags slot) (ms_base_price slot) (ms_name slot) s2))
               else
                 let rec = rec\<lparr>ur_money := ur_money rec - ms_base_price slot\<rparr>;
                     s3 = sv_update_at offset rec s2;
                     s4 = packet_send sock (Res_buy_ok doc_id (ur_money rec) (ms_tags slot)
                            (c_strncpy (MAX_NAME_LEN - 1) (ms_name slot))) s3
                 in broadcast_packet (Evt_market_remove doc_id) s4))"

definition handle_buy :: "sock \<Rightarrow> key \<Rightarrow> int \<Rightarrow> server \<Rightarrow> server" where
  "handle_buy sock key doc_id s =
     (case market_find doc_id (sv_market s) of
        None \<Rightarrow> send_error sock ERR_DOC_NOT_FOUND txt_no_listing s
      | Some slot \<Rightarrow>
          if ms_is_frozen slot then send_error sock ERR_DOC_FROZEN txt_frozen_listing s
          else if sandbox_count key (sv_fs s) \<ge> int MAX_INVEN_SIZE then
            send_error sock ERR_INVENTORY_FULL txt_inventory_full s
          else
            (case userdb_find key (sv_users s) of
               None \<Rightarrow> send_error sock ERR_INVALID_SESSION txt_no_account s
             | Some (rec, offset) \<Rightarrow>
                 if ur_money rec < ms_base_price slot then send_error sock ERR_NOT_ENOUGH_MONEY txt_no_money s
                 else buy_commit sock key doc_id rec offset s))"

text \<open>
  Step 2 of \<open>handle_sell\<close>: the submitted documents in order, with the tags collected so far. An error
  is the code and text of the refusal.
\<close>

fun collect_tags :: "key \<Rightarrow> server \<Rightarrow> int list \<Rightarrow> tags \<Rightarrow> (error_code \<times> string) + tags" where
  "collect_tags key s [] tag_union = Inr tag_union"
| "collect_tags key s (d # ds) tag_union =
     (if \<not> sandbox_has key d (sv_fs s) then Inl (ERR_DOC_NOT_FOUND, txt_not_owned_in_list)
      else
        (case sandbox_read_doc key d (sv_fs s) of
           None \<Rightarrow> Inl (ERR_DOC_NOT_FOUND, txt_meta_failed)
         | Some df \<Rightarrow>
             if is_tag_frozen (df_tags df) (sv_market s) then Inl (ERR_DOC_FROZEN, txt_frozen_doc)
             else collect_tags key s ds (tag_union OR df_tags df)))"

fun dispose_all :: "key \<Rightarrow> int list \<Rightarrow> fs \<Rightarrow> fs" where
  "dispose_all key [] f = f"
| "dispose_all key (d # ds) f = dispose_all key ds (snd (sandbox_dispose key d f))"

text \<open>
  The result of \<open>userdb_find\<close> is not checked at step 6: \<open>junk\<close> is what the uninitialised \<open>rec\<close> and
  \<open>offset\<close> hold when there is no account.
\<close>

definition handle_sell :: "user_record \<times> nat \<Rightarrow> sock \<Rightarrow> key \<Rightarrow> int \<Rightarrow> int \<Rightarrow> int list \<Rightarrow> server \<Rightarrow> server" where
  "handle_sell junk sock key npc_id n ids s =
     (if n \<le> 0 \<or> n > int MAX_INVEN_SIZE then send_error sock ERR_TAG_MISMATCH txt_bad_count s
      else
        let doc_ids = market_doc_sort_ids (take (nat n) ids) n in
        case npc_find npc_id (sv_market s) of
          None \<Rightarrow> send_error sock ERR_NPC_NOT_FOUND txt_no_npc s
        | Some npc \<Rightarrow>
            (case collect_tags key s doc_ids 0 of
               Inl (code, reason) \<Rightarrow> send_error sock code reason s
             | Inr tag_union \<Rightarrow>
                 if tag_union AND ns_required_tags npc \<noteq> ns_required_tags npc then
                   send_error sock ERR_TAG_MISMATCH txt_tags_short s
                 else
                   (case npc_take npc_id (sv_market s) of
                      (None, m) \<Rightarrow> send_error sock ERR_NPC_ALREADY_TAKEN txt_npc_taken (s\<lparr>sv_market := m\<rparr>)
                    | (Some npc, m) \<Rightarrow>
                        let s1 = s\<lparr>sv_market := m, sv_fs := dispose_all key doc_ids (sv_fs s)\<rparr>;
                            (rec, offset) = (case userdb_find key (sv_users s1) of Some ro \<Rightarrow> ro | None \<Rightarrow> junk);
                            rec = rec\<lparr>ur_money := ur_money rec + ns_bounty npc\<rparr>;
                            s2 = sv_update_at offset rec s1;
                            s3 = packet_send sock (Res_sell_ok (ns_bounty npc) (ur_money rec)) s2
                        in broadcast_packet (Evt_npc_despawn npc_id) s3)))"

definition handle_dispose :: "sock \<Rightarrow> key \<Rightarrow> int \<Rightarrow> server \<Rightarrow> server" where
  "handle_dispose sock key doc_id s =
     (if \<not> sandbox_has key doc_id (sv_fs s) then send_error sock ERR_DOC_NOT_FOUND txt_not_owned s
      else
        (case sandbox_dispose key doc_id (sv_fs s) of
           (ok, f) \<Rightarrow>
             if \<not> ok then send_error sock ERR_DOC_NOT_FOUND txt_dispose_failed (s\<lparr>sv_fs := f\<rparr>)
             else packet_send sock Res_dispose_ok (s\<lparr>sv_fs := f\<rparr>)))"

definition inven_items :: "key \<Rightarrow> server \<Rightarrow> inven_item list" where
  "inven_items key s =
     map (\<lambda>it. it\<lparr>ii_is_frozen := is_tag_frozen (ii_tags it) (sv_market s)\<rparr>)
       (sandbox_list key MAX_INVEN_SIZE (sv_fs s))"

definition handle_inventory :: "sock \<Rightarrow> key \<Rightarrow> server \<Rightarrow> server" where
  "handle_inventory sock key s =
     (let items = inven_items key s;
          money = (case userdb_find key (sv_users s) of Some (rec, offset) \<Rightarrow> ur_money rec | None \<Rightarrow> 0)
      in packet_send sock (Res_inven_info (int (length items)) items money) s)"


section \<open>Buying\<close>

text \<open>Orders have identifiers of their own, and nothing on a board has a negative price.\<close>

definition fair_board :: "market \<Rightarrow> bool" where
  "fair_board m \<longleftrightarrow> distinct (npc_ids m) \<and> (\<forall>sl \<in> set (g_market m). ms_active sl \<longrightarrow> 0 \<le> ms_base_price sl) \<and>
     (\<forall>n \<in> set (g_npc m). ns_active n \<longrightarrow> 0 \<le> ns_bounty n)"

lemma fair_market_side:
  "fair_board m \<Longrightarrow> 0 \<le> p \<Longrightarrow> fair_board (snd (market_add now r d t p n m))"
  "fair_board m \<Longrightarrow> fair_board (snd (market_take d m))" "fair_board m \<Longrightarrow> fair_board (freeze_tags t m)"
  "fair_board m \<Longrightarrow> fair_board (unfreeze_tags t m)" "fair_board m \<Longrightarrow> fair_board (snd (market_despawn_aged now k m))"
  by (auto simp: fair_board_def market_add_def market_take_def freeze_tags_def unfreeze_tags_def freeze_slot_def unfreeze_slot_def
      market_despawn_aged_eq Let_def split: option.split if_splits dest!: set_update_first)

lemma fair_npc_add: "fair_board m \<Longrightarrow> 0 \<le> b \<Longrightarrow> d \<notin> set (npc_ids m) \<Longrightarrow> fair_board (snd (npc_add now d t b m))"
  by (auto simp: fair_board_def npc_add_def npcs.fill_distinct dest!: set_update_first)

lemma fair_npc_take: "fair_board m \<Longrightarrow> fair_board (snd (npc_take d m))"
  by (auto simp: fair_board_def npc_take_def npcs.kill_distinct split: option.split dest!: set_update_first)

lemma fair_npc_age: "fair_board m \<Longrightarrow> fair_board (snd (npc_despawn_aged now base step k m))"
proof -
  have "npc_expired now base step n \<Longrightarrow> ns_active n" for n by (simp add: npc_expired_def)
  then show "fair_board m \<Longrightarrow> ?thesis" by (auto simp: fair_board_def npc_despawn_aged_eq npcs.expire_distinct)
qed

lemmas fair_ops = fair_market_side fair_npc_add fair_npc_take fair_npc_age

definition trade_ok :: "server \<Rightarrow> bool" where
  "trade_ok s \<longleftrightarrow> db_ok (sv_users s) \<and> sandbox_ok (sv_fs s) \<and> full_writes s \<and> distinct (market_ids (sv_market s)) \<and>
     fair_board (sv_market s)"

lemma market_take_found:
  assumes "distinct (market_ids m)" "market_find d m = Some sl" "\<not> ms_is_frozen sl"
  obtains m' where "market_take d m = (Inr sl, m')" "market_find d m' = None"
proof -
  have "market_take d m = (Inr sl, snd (market_take d m))" using assms(2,3) by (simp add: market_find_def market_take_def)
  moreover have "market_find d (snd (market_take d m)) = None"
    using assms(2,3) mkt.kill_absent [OF assms(1), of d]
    by (simp add: market_find_def market_take_def slot_map_None_iff flip: slot_map_find)
  ultimately show thesis by (rule that)
qed

definition refused :: "sock \<Rightarrow> server \<Rightarrow> server \<Rightarrow> bool" where
  "refused sock s s' \<longleftrightarrow> sv_users s' = sv_users s \<and> sv_fs s' = sv_fs s \<and>
     (\<exists>code reason. sv_out s' = sv_out s @ [(sock, Res_error code reason)])"

lemma refused_send_error [simp]: "refused sock s (send_error sock c r s)"
  by (simp add: refused_def)

lemma paid_buy:
  assumes "full_writes s" "db_ok (sv_users s)" "userdb_find k (sv_users s) = Some (r, l)" "0 \<le> p" "p \<le> ur_money r"
  shows "paid k (- p) (sv_users s) (sv_users (sv_update_at l (r\<lparr>ur_money := ur_money r - p\<rparr>) s))"
    "db_ok (sv_users (sv_update_at l (r\<lparr>ur_money := ur_money r - p\<rparr>) s))"
proof -
  have "rec_ok r" using udb.find_acc_ok [OF assms(2,3)] by simp
  then have "int32_range (ur_money r + - p)" using assms(4,5) by (auto simp: rec_ok_def int32_range_def)
  from sv_update_paid [OF assms(1-3) this]
  show "paid k (- p) (sv_users s) (sv_users (sv_update_at l (r\<lparr>ur_money := ur_money r - p\<rparr>) s))"
    "db_ok (sv_users (sv_update_at l (r\<lparr>ur_money := ur_money r - p\<rparr>) s))" by simp_all
qed

lemma market_find_mem: "market_find d m = Some sl \<Longrightarrow> sl \<in> set (g_market m) \<and> ms_active sl \<and> ms_doc_id sl = d"
  by (auto simp: market_find_def dest: find_set)

text \<open>Every path of a purchase.\<close>

lemma handle_buy_cases:
  assumes "trade_ok s" "safe_key key" "int32_range d" "has_box key (sv_fs s)"
  shows "let s' = handle_buy sock key d s in
    (refused sock s s' \<and> (sv_market s' = sv_market s \<or> doc_at (sv_fs s) (Shop d) = None)) \<or>
    (\<exists>slot r l. market_find d (sv_market s) = Some slot \<and> \<not> ms_is_frozen slot \<and> sandbox_count key (sv_fs s) < 7 \<and>
       userdb_find key (sv_users s) = Some (r, l) \<and> ms_base_price slot \<le> ur_money r \<and>
       paid key (- ms_base_price slot) (sv_users s) (sv_users s') \<and>
       doc_at (sv_fs s) (Shop d) \<noteq> None \<and>
       doc_at (sv_fs s') = (doc_at (sv_fs s))(Shop d := None, Box key d := doc_at (sv_fs s) (Shop d)) \<and>
       market_find d (sv_market s') = None \<and> market_take d (sv_market s) = (Inr slot, sv_market s') \<and>
       db_ok (sv_users s') \<and> sandbox_ok (sv_fs s') \<and>
       sv_out s' = sv_out s @ [(sock, Res_buy_ok d (ur_money r - ms_base_price slot) (ms_tags slot) (take 63 (ms_name slot)))] @
         map (\<lambda>k. (k, Evt_market_remove d)) (filter (\<lambda>k. k \<noteq> 0) (client_sockets s)))"
proof (cases "market_find d (sv_market s)")
  case None
  then show ?thesis by (simp add: handle_buy_def Let_def)
next
  case (Some slot)
  note slot = Some
  show ?thesis
  proof (cases "ms_is_frozen slot \<or> sandbox_count key (sv_fs s) \<ge> 7 \<or> userdb_find key (sv_users s) = None")
    case True
    with slot show ?thesis by (auto simp: handle_buy_def Let_def)
  next
    case False
    then obtain r l where rl: "userdb_find key (sv_users s) = Some (r, l)" by auto
    show ?thesis
    proof (cases "ms_base_price slot \<le> ur_money r")
      case poor: False
      with slot False rl show ?thesis by (simp add: handle_buy_def Let_def)
    next
      case rich: True
      note inv = assms(1) [unfolded trade_ok_def fair_board_def]
      obtain m where take: "market_take d (sv_market s) = (Inr slot, m)" and gone: "market_find d m = None"
        by (rule market_take_found [of "sv_market s" d slot]) (use inv slot False in auto)
      show ?thesis
      proof (cases "doc_at (sv_fs s) (Shop d)")
        case None
        then have "sandbox_buy key d (sv_fs s) = (False, sv_fs s)"
          using box.buy_none [OF _ assms(2,3), of "sv_fs s"] inv by simp
        with slot False rl rich take None show ?thesis by (simp add: handle_buy_def buy_commit_def Let_def refused_def)
      next
        case doc: (Some bs)
        obtain f where f: "sandbox_buy key d (sv_fs s) = (True, f)" "sandbox_ok f"
          "doc_at f = (doc_at (sv_fs s))(Shop d := None, Box key d \<mapsto> bs)"
          using box.buy_some [OF _ assms(2,3,4) doc, of key] inv by blast
        let ?s2 = "s\<lparr>sv_market := m, sv_fs := f\<rparr>"
        have p: "0 \<le> ms_base_price slot" using inv market_find_mem [OF slot] by simp
        have "full_writes ?s2" "db_ok (sv_users ?s2)" "userdb_find key (sv_users ?s2) = Some (r, l)"
          using inv rl by (simp_all add: full_writes_def)
        from paid_buy [OF this p rich]
        have "paid key (- ms_base_price slot) (sv_users s)
            (sv_users (sv_update_at l (r\<lparr>ur_money := ur_money r - ms_base_price slot\<rparr>) ?s2))"
          "db_ok (sv_users (sv_update_at l (r\<lparr>ur_money := ur_money r - ms_base_price slot\<rparr>) ?s2))" by simp_all
        then show ?thesis
          using slot False rl rich take gone f doc by (simp add: handle_buy_def buy_commit_def Let_def c_strncpy_def)
      qed
    qed
  qed
qed

text \<open>C2: A purchase is an exchange or nothing: either the buyer gets one error packet and no account and no
  document changes (the board too, unless the document's file was missing), or the buyer held fewer than
  7 documents, could pay, and then exactly the price leaves the buyer's account, no other account
  changes, the document moves from the shop to the buyer's box, its listing is gone, and the buyer is
  told the new balance and every client that the listing is gone. The buyer has a plain key (one path component) and a
  box, the stores are well formed and their writes whole.\<close>
theorem handle_buy_exchange:
  assumes "trade_ok s" "safe_key key" "int32_range d" "has_box key (sv_fs s)"
  shows "let s' = handle_buy sock key d s in
    (refused sock s s' \<and> (sv_market s' = sv_market s \<or> doc_at (sv_fs s) (Shop d) = None)) \<or>
    (\<exists>slot r l. market_find d (sv_market s) = Some slot \<and> \<not> ms_is_frozen slot \<and> sandbox_count key (sv_fs s) < 7 \<and>
       userdb_find key (sv_users s) = Some (r, l) \<and> ms_base_price slot \<le> ur_money r \<and>
       paid key (- ms_base_price slot) (sv_users s) (sv_users s') \<and>
       doc_at (sv_fs s) (Shop d) \<noteq> None \<and>
       doc_at (sv_fs s') = (doc_at (sv_fs s))(Shop d := None, Box key d := doc_at (sv_fs s) (Shop d)) \<and>
       market_find d (sv_market s') = None \<and>
       sv_out s' = sv_out s @ [(sock, Res_buy_ok d (ur_money r - ms_base_price slot) (ms_tags slot) (take 63 (ms_name slot)))] @
         map (\<lambda>k. (k, Evt_market_remove d)) (filter (\<lambda>k. k \<noteq> 0) (client_sockets s)))"
  unfolding Let_def
  by (rule disj_forward [OF handle_buy_cases [OF assms, of sock, unfolded Let_def]], assumption, elim ex_forward conjE, intro conjI)

definition sample_server :: server where
  "sample_server = \<lparr>sv_market = sample_market, sv_users = Some (db_image [sample_record]), sv_fs = sample_fs,
     client_sockets = [5, 6, 0, 0, 0, 0, 0, 0, 0, 0], active_keys = [''neo'', [], [], [], [], [], [], [], [], []],
     g_goal_money = GOAL_MONEY, g_escaped_count = 0, g_round_end_active = False, g_cap_reached_at = 0,
     g_escape_log = replicate 3 zero_escape_entry, g_rumor_cd_until = 0, g_periodic_raid_deadline = 0,
     g_periodic_raid_pending_keys = replicate 10 [], g_periodic_raid_passcode = [], g_doc_id_counter = 0,
     g_npc_id_counter = 0, sv_now = 1000, sv_rands = [], sv_writes = [], sv_pwrite = (\<lambda>_. FULL_WRITE),
     sv_creates = [], sv_threads = [], sv_out = []\<rparr>"

lemma sample_find: "userdb_find ''neo'' (Some (db_image [sample_record])) = Some (sample_record, 0)"
proof -
  have "ur_name sample_record = ''neo''" by (simp add: ur_name_def sample_record_def cstr_cbuf no_nul_def)
  then show ?thesis using sample_record_ok by (simp add: userdb_find_image)
qed

lemma sample_server_ok: "trade_ok sample_server"
  using sample_record_ok sample_fs_ok
  by (simp add: trade_ok_def fair_board_def sample_server_def full_writes_def sample_market_def zero_market_slot_def zero_npc_slot_def)

theorem handle_buy_exchange_witness:
  "let s' = handle_buy 5 ''neo'' 124 sample_server in
     refused 5 sample_server s' \<or> paid ''neo'' (- 800) (sv_users sample_server) (sv_users s')"
proof -
  have d: "int32_range 124" by (simp add: int32_range_def)
  have "has_box ''neo'' (sv_fs sample_server)" by (simp add: sample_server_def)
  moreover have "market_find 124 (sv_market sample_server) = Some (market_new_slot 0 7 0 124 18 800 ''report'')"
    by (simp add: sample_server_def sample_market_def market_find_def)
  ultimately show ?thesis
    using handle_buy_exchange [OF sample_server_ok sample_safe(1) d, of 5] by (auto simp: Let_def)
qed

section \<open>Selling\<close>

lemma collect_tags_Inr:
  "collect_tags key s ds t0 = Inr t \<Longrightarrow>
   (\<forall>d \<in> set ds. sandbox_has key d (sv_fs s) \<and>
      (\<exists>df. sandbox_read_doc key d (sv_fs s) = Some df \<and> \<not> is_tag_frozen (df_tags df) (sv_market s))) \<and>
   (\<forall>b. bit t b \<longleftrightarrow> bit t0 b \<or> (\<exists>d \<in> set ds. \<exists>df. sandbox_read_doc key d (sv_fs s) = Some df \<and> bit (df_tags df) b))"
proof (induction ds arbitrary: t0)
  case (Cons d ds)
  from Cons.prems obtain df where df: "sandbox_has key d (sv_fs s)" "sandbox_read_doc key d (sv_fs s) = Some df"
    "\<not> is_tag_frozen (df_tags df) (sv_market s)" "collect_tags key s ds (t0 OR df_tags df) = Inr t"
    by (auto split: if_splits option.splits)
  from Cons.IH [OF df(4)] df(1-3) show ?case by (auto simp: bit_or_iff)
qed simp

lemma dispose_all_eq:
  "sandbox_ok f \<Longrightarrow> safe_key k \<Longrightarrow> \<forall>d \<in> set ds. int32_range d \<Longrightarrow>
   sandbox_ok (dispose_all k ds f) \<and>
   doc_at (dispose_all k ds f) = (\<lambda>l. if \<exists>d \<in> set ds. l = Box k d then None else doc_at f l)"
proof (induction ds arbitrary: f)
  case (Cons d ds)
  have "sandbox_ok (snd (sandbox_dispose k d f)) \<and> doc_at (snd (sandbox_dispose k d f)) = (doc_at f)(Box k d := None)"
  proof (cases "doc_at f (Box k d) = None \<or> \<not> has_box k f")
    case True
    then have "doc_at f (Box k d) = None" using doc_at_has_box [OF Cons.prems(1)] by blast
    moreover have "sandbox_dispose k d f = (False, f)"
      using box.dispose_none [OF Cons.prems(1,2), of d] Cons.prems(3) True by simp
    ultimately show ?thesis using Cons.prems(1) by (simp add: fun_eq_iff)
  next
    case False
    then show ?thesis using box.dispose_some [OF Cons.prems(1,2), of d] Cons.prems(3) by fastforce
  qed
  with Cons.IH [of "snd (sandbox_dispose k d f)"] Cons.prems show ?case by (auto simp: fun_eq_iff)
qed simp

lemma npc_take_found:
  assumes "distinct (npc_ids m)" "npc_find d m = Some n"
  obtains m' where "npc_take d m = (Some n, m')" "npc_find d m' = None"
proof -
  have "npc_take d m = (Some n, snd (npc_take d m))" using assms(2) by (simp add: npc_find_def npc_take_def)
  moreover have "npc_find d (snd (npc_take d m)) = None"
    using assms(2) npcs.kill_absent [OF assms(1), of d]
    by (simp add: npc_find_def npc_take_def slot_map_None_iff flip: slot_map_find)
  ultimately show thesis by (rule that)
qed

lemma set_market_doc_sort_ids: "0 < n \<Longrightarrow> set (market_doc_sort_ids (take (nat n) ids) n) = set (take (nat n) ids)"
  by (simp add: market_doc_sort_ids_def qsort_sort)

text \<open>Every path of a sale.\<close>

lemma handle_sell_cases:
  assumes "trade_ok s" "safe_key key" "\<forall>d \<in> set ids. int32_range d"
    and acc: "userdb_find key (sv_users s) = Some (r, l)"
    and range: "\<forall>n \<in> set (g_npc (sv_market s)). ur_money r + ns_bounty n < 2 ^ 31"
  shows "let s' = handle_sell junk sock key npc_id n ids s; ds = set (take (nat n) ids) in
    (refused sock s s' \<and> sv_market s' = sv_market s) \<or>
    (\<exists>npc. 1 \<le> n \<and> n \<le> 7 \<and> npc_find npc_id (sv_market s) = Some npc \<and>
       (\<forall>d \<in> ds. sandbox_has key d (sv_fs s) \<and>
          (\<exists>df. sandbox_read_doc key d (sv_fs s) = Some df \<and> df_tags df AND g_frozen_tags (sv_market s) = 0)) \<and>
       (\<forall>b. bit (ns_required_tags npc) b \<longrightarrow>
          (\<exists>d \<in> ds. \<exists>df. sandbox_read_doc key d (sv_fs s) = Some df \<and> bit (df_tags df) b)) \<and>
       paid key (ns_bounty npc) (sv_users s) (sv_users s') \<and>
       doc_at (sv_fs s') = (\<lambda>l. if \<exists>d \<in> ds. l = Box key d then None else doc_at (sv_fs s) l) \<and>
       npc_find npc_id (sv_market s') = None \<and> npc_take npc_id (sv_market s) = (Some npc, sv_market s') \<and>
       db_ok (sv_users s') \<and> sandbox_ok (sv_fs s') \<and>
       sv_out s' = sv_out s @ [(sock, Res_sell_ok (ns_bounty npc) (ur_money r + ns_bounty npc))] @
         map (\<lambda>k. (k, Evt_npc_despawn npc_id)) (filter (\<lambda>k. k \<noteq> 0) (client_sockets s)))"
proof (cases "n \<le> 0 \<or> n > 7 \<or> npc_find npc_id (sv_market s) = None")
  case True
  then show ?thesis by (auto simp: handle_sell_def Let_def)
next
  case False
  then obtain npc where npc: "npc_find npc_id (sv_market s) = Some npc" "0 < n" "n \<le> 7" by auto
  note inv = assms(1) [unfolded trade_ok_def fair_board_def]
  let ?ds = "market_doc_sort_ids (take (nat n) ids) n"
  show ?thesis
  proof (cases "collect_tags key s ?ds 0")
    case (Inl e)
    with npc show ?thesis by (simp add: handle_sell_def Let_def split: prod.split)
  next
    case (Inr t)
    show ?thesis
    proof (cases "t AND ns_required_tags npc = ns_required_tags npc")
      case False
      with npc Inr show ?thesis by (simp add: handle_sell_def Let_def)
    next
      case enough: True
      have set_ds: "set ?ds = set (take (nat n) ids)" by (rule set_market_doc_sort_ids [OF npc(2)])
      note tags = collect_tags_Inr [OF Inr]
      obtain m where take: "npc_take npc_id (sv_market s) = (Some npc, m)" and gone: "npc_find npc_id m = None"
        by (rule npc_take_found [of "sv_market s" npc_id npc]) (use inv npc in auto)
      have "\<forall>d \<in> set ?ds. int32_range d" using assms(3) set_ds by (auto dest: in_set_takeD)
      then have docs: "doc_at (dispose_all key ?ds (sv_fs s)) =
          (\<lambda>l. if \<exists>d \<in> set (take (nat n) ids). l = Box key d then None else doc_at (sv_fs s) l)"
        "sandbox_ok (dispose_all key ?ds (sv_fs s))"
        using dispose_all_eq [OF _ assms(2), of "sv_fs s" ?ds] inv set_ds by simp_all
      have mem: "npc \<in> set (g_npc (sv_market s))" "ns_active npc" using npc(1) by (auto simp: npc_find_def dest: find_set)
      then have "0 \<le> ns_bounty npc" "ur_money r + ns_bounty npc < 2 ^ 31" using inv range by auto
      moreover have "rec_ok r" using udb.find_acc_ok [OF _ acc] inv by simp
      ultimately have rng: "int32_range (ur_money r + ns_bounty npc)" by (simp add: rec_ok_def int32_range_def)
      let ?s1 = "s\<lparr>sv_market := m, sv_fs := dispose_all key ?ds (sv_fs s)\<rparr>"
      have "full_writes ?s1" "db_ok (sv_users ?s1)" "userdb_find key (sv_users ?s1) = Some (r, l)"
        using inv acc by (simp_all add: full_writes_def)
      from sv_update_paid [OF this rng]
      have pay: "paid key (ns_bounty npc) (sv_users s) (sv_users (sv_update_at l (r\<lparr>ur_money := ur_money r + ns_bounty npc\<rparr>) ?s1))"
        "db_ok (sv_users (sv_update_at l (r\<lparr>ur_money := ur_money r + ns_bounty npc\<rparr>) ?s1))"
        by simp_all
      have req: "bit (ns_required_tags npc) b \<Longrightarrow> bit t b" for b
        using enough by (metis bit_and_iff)
      have "handle_sell junk sock key npc_id n ids s =
          broadcast_packet (Evt_npc_despawn npc_id) (packet_send sock (Res_sell_ok (ns_bounty npc) (ur_money r + ns_bounty npc))
            (sv_update_at l (r\<lparr>ur_money := ur_money r + ns_bounty npc\<rparr>) ?s1))"
        using npc Inr enough take acc by (simp add: handle_sell_def Let_def)
      then show ?thesis
        using npc tags req pay docs gone set_ds take by (auto simp: is_tag_frozen_def)
    qed
  qed
qed

text \<open>C3: A sale is an exchange or nothing: either the seller gets one error packet and nothing else changes,
  or the order existed, every submitted document was owned and had no frozen tag, together they had every
  tag the order asked for, and then exactly the bounty is added to the seller's account, no other account
  changes, the submitted documents (and no others) are destroyed, the order is gone, and the seller and
  every client are told. The seller has a plain key and an account that no bounty on the board overflows, the stores
  are well formed and their writes whole.\<close>
theorem handle_sell_exchange:
  assumes "trade_ok s" "safe_key key" "\<forall>d \<in> set ids. int32_range d"
    and acc: "userdb_find key (sv_users s) = Some (r, l)"
    and range: "\<forall>n \<in> set (g_npc (sv_market s)). ur_money r + ns_bounty n < 2 ^ 31"
  shows "let s' = handle_sell junk sock key npc_id n ids s; ds = set (take (nat n) ids) in
    (refused sock s s' \<and> sv_market s' = sv_market s) \<or>
    (\<exists>npc. 1 \<le> n \<and> n \<le> 7 \<and> npc_find npc_id (sv_market s) = Some npc \<and>
       (\<forall>d \<in> ds. sandbox_has key d (sv_fs s) \<and>
          (\<exists>df. sandbox_read_doc key d (sv_fs s) = Some df \<and> df_tags df AND g_frozen_tags (sv_market s) = 0)) \<and>
       (\<forall>b. bit (ns_required_tags npc) b \<longrightarrow>
          (\<exists>d \<in> ds. \<exists>df. sandbox_read_doc key d (sv_fs s) = Some df \<and> bit (df_tags df) b)) \<and>
       paid key (ns_bounty npc) (sv_users s) (sv_users s') \<and>
       doc_at (sv_fs s') = (\<lambda>l. if \<exists>d \<in> ds. l = Box key d then None else doc_at (sv_fs s) l) \<and>
       npc_find npc_id (sv_market s') = None \<and>
       sv_out s' = sv_out s @ [(sock, Res_sell_ok (ns_bounty npc) (ur_money r + ns_bounty npc))] @
         map (\<lambda>k. (k, Evt_npc_despawn npc_id)) (filter (\<lambda>k. k \<noteq> 0) (client_sockets s)))"
  unfolding Let_def
  by (rule disj_forward [OF handle_sell_cases [OF assms, of junk sock npc_id n, unfolded Let_def]], assumption, elim ex_forward conjE, intro conjI)

theorem handle_sell_exchange_witness:
  "let s = sample_server\<lparr>sv_fs := sample_fs_bought\<rparr>; s' = handle_sell (sample_record, 0) 5 ''neo'' 102 1 [124, 0, 0, 0, 0, 0, 0] s in
     refused 5 s s' \<or> paid ''neo'' 1200 (sv_users s) (sv_users s')"
proof -
  let ?s = "sample_server\<lparr>sv_fs := sample_fs_bought\<rparr>"
  have ok: "trade_ok ?s" using sample_server_ok sample_bought(1) by (simp add: trade_ok_def full_writes_def)
  have ids: "\<forall>d \<in> set [124, 0, 0, 0, 0, 0, 0 :: int]. int32_range d" by (simp add: int32_range_def)
  have acc: "userdb_find ''neo'' (sv_users ?s) = Some (sample_record, 0)"
    by (simp add: sample_server_def sample_find)
  have npc: "\<forall>n \<in> set (g_npc (sv_market ?s)). ur_money sample_record + ns_bounty n < 2 ^ 31"
    "npc_find 102 (sv_market ?s) = Some (npc_new_slot 0 102 18 1200)"
    by (simp_all add: sample_server_def sample_market_def sample_record_def zero_npc_slot_def npc_find_def)
  from handle_sell_exchange [OF ok sample_safe(1) ids acc npc(1), of "(sample_record, 0)" 5 102 1] npc(2)
  show ?thesis by (auto simp: Let_def)
qed

section \<open>Disposing and listing\<close>

text \<open>\<open>/dispose\<close> destroys the named document when the user owns it and answers with one packet; a document
  that is not owned is refused with nothing changed. No account and no listing is touched.\<close>
theorem handle_dispose_exact:
  assumes "sandbox_ok (sv_fs s)" "safe_key key" "int32_range d"
  shows "let s' = handle_dispose sock key d s in sv_users s' = sv_users s \<and> sv_market s' = sv_market s \<and>
    (if doc_at (sv_fs s) (Box key d) \<noteq> None
     then doc_at (sv_fs s') = (doc_at (sv_fs s))(Box key d := None) \<and> sv_out s' = sv_out s @ [(sock, Res_dispose_ok)]
     else sv_fs s' = sv_fs s \<and> sv_out s' = sv_out s @ [(sock, Res_error ERR_DOC_NOT_FOUND (take 255 txt_not_owned))])"
proof (cases "doc_at (sv_fs s) (Box key d)")
  case None
  then have "\<not> sandbox_has key d (sv_fs s)" by (simp add: sandbox_has_eq [OF assms])
  with None show ?thesis by (simp add: handle_dispose_def Let_def)
next
  case (Some bs)
  then have box: "has_box key (sv_fs s)" using doc_at_has_box [OF assms(1)] by blast
  with Some have "sandbox_has key d (sv_fs s)" by (simp add: sandbox_has_eq [OF assms])
  moreover obtain f where "sandbox_dispose key d (sv_fs s) = (True, f)" "doc_at f = (doc_at (sv_fs s))(Box key d := None)"
    using box.dispose_some [OF assms box, of key] Some by auto
  ultimately show ?thesis using Some by (simp add: handle_dispose_def Let_def)
qed

theorem handle_dispose_exact_witness:
  "let s = sample_server\<lparr>sv_fs := sample_fs_bought\<rparr> in
     sv_out (handle_dispose 5 ''neo'' 124 s) = sv_out s @ [(5, Res_dispose_ok)]"
proof -
  let ?s = "sample_server\<lparr>sv_fs := sample_fs_bought\<rparr>"
  have "sandbox_ok (sv_fs ?s)" "int32_range 124" using sample_bought(1) by (simp_all add: int32_range_def)
  moreover have "124 \<in> docs_in (Some ''neo'') sample_fs_bought" by (simp add: sample_bought(4))
  then have "doc_at (sv_fs ?s) (Box ''neo'' 124) \<noteq> None" by (simp add: docs_in_def docs_loc_def)
  ultimately show ?thesis using handle_dispose_exact [of ?s "''neo''" 124 5] by (simp add: Let_def)
qed

text \<open>\<open>/inventory\<close> changes nothing and answers with one packet: the count of the entries sent, at most 7
  owned documents each once (all of them when there are at most 7), each marked frozen exactly when one
  of its tags is frozen now, and the balance.\<close>
theorem handle_inventory_exact:
  assumes "sandbox_ok (sv_fs s)" "safe_key key" "has_box key (sv_fs s)" "box_readable key (sv_fs s)"
    and "\<forall>d \<in> docs_in (Some key) (sv_fs s). df_doc_id (doc_of (sv_fs s) key d) = d"
  shows "\<exists>items. handle_inventory sock key s = packet_send sock (Res_inven_info (int (length items)) items
      (case userdb_find key (sv_users s) of Some (r, l) \<Rightarrow> ur_money r | None \<Rightarrow> 0)) s \<and>
    length items = min 7 (card (docs_in (Some key) (sv_fs s))) \<and> distinct (map ii_doc_id items) \<and>
    set (map ii_doc_id items) \<subseteq> docs_in (Some key) (sv_fs s) \<and>
    (card (docs_in (Some key) (sv_fs s)) \<le> 7 \<longrightarrow> set (map ii_doc_id items) = docs_in (Some key) (sv_fs s)) \<and>
    (\<forall>it \<in> set items. ii_is_frozen it \<longleftrightarrow> ii_tags it AND g_frozen_tags (sv_market s) \<noteq> 0)"
proof -
  let ?l = "sandbox_list key MAX_INVEN_SIZE (sv_fs s)"
  note exact = sandbox_list_ids [OF assms, of 7]
  have ids: "map ii_doc_id (inven_items key s) = map ii_doc_id ?l" by (simp add: inven_items_def)
  have len: "length (inven_items key s) = length ?l" by (simp add: inven_items_def)
  have fz: "\<forall>it \<in> set (inven_items key s). ii_is_frozen it \<longleftrightarrow> ii_tags it AND g_frozen_tags (sv_market s) \<noteq> 0"
    by (auto simp: inven_items_def is_tag_frozen_def)
  show ?thesis
    by (rule exI [of _ "inven_items key s"]) (use exact fz ids len in \<open>simp add: handle_inventory_def Let_def\<close>)
qed

theorem handle_inventory_exact_witness:
  "\<exists>items. handle_inventory 5 ''neo'' (sample_server\<lparr>sv_fs := sample_fs_bought\<rparr>) =
     packet_send 5 (Res_inven_info 1 items 1000) (sample_server\<lparr>sv_fs := sample_fs_bought\<rparr>) \<and> map ii_doc_id items = [124]"
proof -
  let ?s = "sample_server\<lparr>sv_fs := sample_fs_bought\<rparr>"
  have d: "\<forall>d \<in> docs_in (Some ''neo'') (sv_fs ?s). df_doc_id (doc_of (sv_fs ?s) ''neo'' d) = d"
    by (simp add: sample_bought(4,5)) (simp add: sample_doc_def)
  have m: "userdb_find ''neo'' (sv_users ?s) = Some (sample_record, 0)" "ur_money sample_record = 1000"
    by (simp_all add: sample_server_def sample_find) (simp add: sample_record_def)
  have "sandbox_ok (sv_fs ?s)" "has_box ''neo'' (sv_fs ?s)" "box_readable ''neo'' (sv_fs ?s)" using sample_bought(1-3) by simp_all
  from handle_inventory_exact [OF this(1) sample_safe(1) this(2,3) d, of 5] m obtain items where
    i: "handle_inventory 5 ''neo'' ?s = packet_send 5 (Res_inven_info (int (length items)) items 1000) ?s"
      "length items = 1" "set (map ii_doc_id items) = {124}"
    by (auto simp: sample_bought(4))
  then obtain x where "items = [x]" by (auto simp: length_Suc_conv)
  with i show ?thesis by (intro exI [of _ items]) simp
qed

end
