(* ===== verification/Round.thy ===== *)
theory Round
  imports Trade
begin

text \<open>
  The round of \<open>server_main.c\<close>: seeding, the debt goal and \<open>/payoff\<close>, the scoreboard countdown, the
  round reset, and the debug requests that touch it.
\<close>

section \<open>Seeding\<close>

definition count_bits :: "tags \<Rightarrow> int" where
  "count_bits v = shift_count v 0"

definition seed_docs :: "(int \<times> tags \<times> string) list" where
  "seed_docs =
     [(124, tag_bit TAG_CORP_B OR tag_bit TAG_FINANCE, SEED_NAMES ! 0),
      (111, tag_bit TAG_GOVERNMENT OR tag_bit TAG_MILITARY, SEED_NAMES ! 1),
      (47, tag_bit TAG_PERSONAL OR tag_bit TAG_CUSTOMER, SEED_NAMES ! 2),
      (70, tag_bit TAG_CORP_A OR tag_bit TAG_PERSONAL, SEED_NAMES ! 3)]"

definition seed_one :: "int \<times> tags \<times> string \<Rightarrow> server \<Rightarrow> server" where
  "seed_one doc s =
     (case doc of (doc_id, tags, name) \<Rightarrow>
        let price = count_bits tags * MARKET_PRICE_PER_TAG;
            df = \<lparr>df_doc_id = doc_id, df_tags = tags, df_base_price = price,
                  df_name = cbuf MAX_NAME_LEN (c_strncpy (MAX_NAME_LEN - 1) name)\<rparr>;
            s1 = snd (sv_master_write df s)
        in snd (sv_market_add doc_id tags price name s1))"

definition seed_market_and_npc :: "server \<Rightarrow> server" where
  "seed_market_and_npc s =
     (let s1 = fold seed_one seed_docs s;
          s2 = snd (sv_npc_add 102 (tag_bit TAG_CORP_B OR tag_bit TAG_FINANCE) 1200 s1)
      in snd (sv_npc_add 356 (tag_bit TAG_GOVERNMENT OR tag_bit TAG_MILITARY) 2500 s2))"

section \<open>Round reset\<close>

definition reset_round_state :: "server \<Rightarrow> server" where
  "reset_round_state s = s\<lparr>g_goal_money := GOAL_MONEY, g_escaped_count := 0, g_round_end_active := False,
     g_cap_reached_at := 0, g_escape_log := replicate MAX_SCORE_ESCAPED zero_escape_entry\<rparr>"

definition broadcast_board :: "server \<Rightarrow> server" where
  "broadcast_board s =
     (let s1 = fold (\<lambda>sl. broadcast_packet (spawn_msg sl)) (market_snapshot MAX_MARKET_SLOTS (sv_market s)) s
      in fold (\<lambda>n. broadcast_packet (npc_spawn_msg n)) (npc_snapshot MAX_NPC_SLOTS (sv_market s1)) s1)"

definition trigger_round_reset :: "server \<Rightarrow> server" where
  "trigger_round_reset s =
     (let s1 = s\<lparr>sv_fs := sandbox_global_reset (sv_fs s)\<rparr>;
          s2 = s1\<lparr>sv_users := snd (userdb_reset_round (sv_pwrite s1) INITIAL_MONEY (sv_users s1))\<rparr>;
          s3 = s2\<lparr>sv_market := market_init (sv_market s2)\<rparr>;
          s4 = reset_round_state s3;
          s5 = s4\<lparr>g_rumor_cd_until := 0\<rparr>;
          s6 = seed_market_and_npc s5;
          s7 = broadcast_packet (game_over txt_round_reset) s6
      in broadcast_board s7)"

definition round_end_timer_thread :: "server \<Rightarrow> server" where
  "round_end_timer_thread s = (if g_round_end_active s then trigger_round_reset s else s)"

section \<open>Scoreboard\<close>

text \<open>The keys of the clients that are logged in, in slot order.\<close>

definition online_keys :: "server \<Rightarrow> key list" where
  "online_keys s = map (\<lambda>(k, key). c_strncpy (MAX_KEY_LEN - 1) key)
     (filter (\<lambda>(k, key). k \<noteq> 0 \<and> key \<noteq> []) (zip (client_sockets s) (active_keys s)))"

definition escaped_snapshot :: "server \<Rightarrow> score_escaped list" where
  "escaped_snapshot s =
     map (\<lambda>e. \<lparr>se_key = c_strncpy (MAX_KEY_LEN - 1) (el_key e), se_money_at_escape = el_money_at_escape e,
               se_escape_order = el_escape_order e\<rparr>)
       (take (nat (if g_escaped_count s < int MAX_SCORE_ESCAPED then g_escaped_count s else int MAX_SCORE_ESCAPED))
          (g_escape_log s))"

fun rank_entries :: "score_escaped list \<Rightarrow> users_dat \<Rightarrow> key list \<Rightarrow> score_remaining list" where
  "rank_entries escaped db [] = []"
| "rank_entries escaped db (k # ks) =
     (if \<exists>e \<in> set escaped. c_strncmp_eq MAX_KEY_LEN k (se_key e) then rank_entries escaped db ks
      else
        (case userdb_find k db of
           Some (rec, offset) \<Rightarrow>
             if \<not> userdb_is_burned rec then
               \<lparr>sr_key = c_strncpy (MAX_KEY_LEN - 1) k, sr_money = ur_money rec\<rparr> # rank_entries escaped db ks
             else rank_entries escaped db ks
         | None \<Rightarrow> rank_entries escaped db ks))"

text \<open>The two loops of the selection sort.\<close>

definition max_index :: "score_remaining list \<Rightarrow> nat \<Rightarrow> nat" where
  "max_index rank i =
     fold (\<lambda>j max_idx. if sr_money (rank ! j) > sr_money (rank ! max_idx) then j else max_idx) [i + 1..<length rank] i"

definition select_step :: "nat \<Rightarrow> score_remaining list \<Rightarrow> score_remaining list" where
  "select_step i rank =
     (let max_idx = max_index rank i in
      if max_idx \<noteq> i then rank[i := rank ! max_idx, max_idx := rank ! i] else rank)"

definition selection_sort :: "score_remaining list \<Rightarrow> score_remaining list" where
  "selection_sort rank = fold select_step [0..<length rank - 1] rank"

definition scoreboard :: "server \<Rightarrow> msg" where
  "scoreboard s =
     (let escaped = escaped_snapshot s;
          rank = selection_sort (rank_entries escaped (sv_users s) (online_keys s));
          r_cnt = (if length rank < MAX_SCORE_REMAINING then length rank else MAX_SCORE_REMAINING)
      in Evt_scoreboard ROUND_END_COUNTDOWN_SEC (int (length escaped)) escaped (int r_cnt) (take r_cnt rank))"

definition fire_round_end_countdown :: "string \<Rightarrow> server \<Rightarrow> server" where
  "fire_round_end_countdown announce_text s =
     (if g_round_end_active s then s
      else
        let s1 = s\<lparr>g_round_end_active := True\<rparr>;
            s2 = broadcast_packet (scoreboard s1) s1;
            s3 = broadcast_packet (chat_evt ''[ALERT]'' (c_strncpy (MAX_TEXT_LEN - 1) announce_text)) s2
        in case pthread_create Round_end_timer s3 of
             (ok, s4) \<Rightarrow> if ok then s4 else s4\<lparr>g_round_end_active := False\<rparr>)"

section \<open>Paying off\<close>

definition next_goal :: "int \<Rightarrow> int" where
  "next_goal prev_goal = (let g = prev_goal + DEBT_RAISE_STEP in if g > DEBT_CAP then DEBT_CAP else g)"

definition log_escape :: "key \<Rightarrow> int \<Rightarrow> int \<Rightarrow> escape_entry list \<Rightarrow> escape_entry list" where
  "log_escape key prev_goal escaped_now log =
     (if escaped_now \<le> int MAX_SCORE_ESCAPED then
        log[nat (escaped_now - 1) := \<lparr>el_key = c_strncpy (MAX_KEY_LEN - 1) key, el_money_at_escape = prev_goal,
           el_escape_order = escaped_now\<rparr>]
      else log)"

definition payoff_text :: "key \<Rightarrow> int \<Rightarrow> string" where
  "payoff_text key prev_goal =
     (if next_goal prev_goal = prev_goal then c_snprintf (MAX_TEXT_LEN - 1) (txt_escaped_capped key prev_goal DEBT_CAP)
      else c_snprintf (MAX_TEXT_LEN - 1) (txt_escaped_raised key prev_goal (next_goal prev_goal)))"

definition handle_payoff :: "sock \<Rightarrow> key \<Rightarrow> server \<Rightarrow> server" where
  "handle_payoff sock key s =
     (case userdb_find key (sv_users s) of
        None \<Rightarrow> send_error sock ERR_INVALID_SESSION txt_no_account s
      | Some (rec, offset) \<Rightarrow>
          if ur_money rec < g_goal_money s then
            send_error sock ERR_NOT_ENOUGH_MONEY
              (c_snprintf MAX_TEXT_LEN (txt_goal_short (g_goal_money s) (ur_money rec))) s
          else
            let prev_goal = g_goal_money s;
                escaped_now = g_escaped_count s + 1;
                s1 = s\<lparr>g_goal_money := next_goal prev_goal,
                       g_cap_reached_at := (if next_goal prev_goal = DEBT_CAP \<and> g_cap_reached_at s = 0
                                            then sv_now s else g_cap_reached_at s),
                       g_escaped_count := escaped_now,
                       g_escape_log := log_escape key prev_goal escaped_now (g_escape_log s)\<rparr>;
                s2 = s1\<lparr>sv_fs := sandbox_purge_user key (sv_fs s1)\<rparr>;
                s3 = sv_update_at offset (rec\<lparr>ur_money := INITIAL_MONEY\<rparr>) s2;
                s4 = packet_send sock (Evt_victory (c_snprintf MAX_TEXT_LEN (txt_victory prev_goal))) s3;
                s5 = broadcast_packet (chat_evt ''[SYSTEM]'' (payoff_text key prev_goal)) s4;
                s6 = broadcast_packet (Evt_goal_update (next_goal prev_goal)) s5
            in if escaped_now \<ge> 3 then fire_round_end_countdown txt_three_escaped s6 else s6)"

section \<open>Debug requests\<close>

definition handle_fake_rich :: "sock \<Rightarrow> key \<Rightarrow> server \<Rightarrow> server" where
  "handle_fake_rich sock key s =
     (case userdb_find key (sv_users s) of
        None \<Rightarrow> send_error sock ERR_INVALID_SESSION txt_no_account s
      | Some (rec, offset) \<Rightarrow>
          let rec = rec\<lparr>ur_money := g_goal_money s\<rparr>;
              s1 = sv_update_at offset rec s;
              items = inven_items key s1;
              s2 = packet_send sock (Res_inven_info (int (length items)) items (ur_money rec)) s1
          in packet_send sock
               (chat_evt ''[DEBUG]'' (c_snprintf (MAX_TEXT_LEN - 1) (txt_fake_rich (ur_money rec)))) s2)"

definition handle_fake_endround :: "server \<Rightarrow> server" where
  "handle_fake_endround s = fire_round_end_countdown txt_fake_endround s"

section \<open>Sabotage and bankruptcy\<close>

definition handle_rumor :: "sock \<Rightarrow> key \<Rightarrow> key \<Rightarrow> server \<Rightarrow> server" where
  "handle_rumor sock key target s =
     (let target_key = c_strncpy (MAX_KEY_LEN - 1) target; now = sv_now s in
      if now < g_rumor_cd_until s then
        send_error sock ERR_RUMOR_COOLDOWN
          (c_snprintf MAX_TEXT_LEN (txt_rumor_cooldown (g_rumor_cd_until s - now))) s
      else
        (case userdb_find key (sv_users s) of
           None \<Rightarrow> send_error sock ERR_INVALID_SESSION txt_no_account s
         | Some (rec, offset) \<Rightarrow>
             if ur_money rec < RUMOR_FEE then send_error sock ERR_NOT_ENOUGH_MONEY txt_no_fee s
             else
               let s1 = sv_update_at offset (rec\<lparr>ur_money := ur_money rec - RUMOR_FEE\<rparr>) s;
                   s2 = s1\<lparr>g_rumor_cd_until := now + RUMOR_COOLDOWN_SEC\<rparr>;
                   s3 = snd (unicast_to_key target_key Evt_rumor_glitch s2)
               in handle_inventory sock key s3))"

definition check_bankruptcy :: "sock \<Rightarrow> key \<Rightarrow> server \<Rightarrow> bool \<times> server" where
  "check_bankruptcy sock key s =
     (case userdb_find key (sv_users s) of
        None \<Rightarrow> (False, s)
      | Some (rec, offset) \<Rightarrow>
          if ur_money rec > 0 then (False, s)
          else
            let inv = sandbox_count key (sv_fs s) in
            if inv > 0 then (False, s)
            else if inv < 0 then (False, s)
            else (True, packet_send sock (game_over txt_bankrupt) (sv_burn_at offset s)))"


section \<open>The ranking\<close>

lemma fold_max_index:
  assumes "i < length xs" "\<forall>j \<in> set js. j < length xs"
  shows "let m = fold (\<lambda>j m. if sr_money (xs ! j) > sr_money (xs ! m) then j else m) js i in
    m < length xs \<and> (m = i \<or> m \<in> set js) \<and> sr_money (xs ! i) \<le> sr_money (xs ! m) \<and>
    (\<forall>j \<in> set js. sr_money (xs ! j) \<le> sr_money (xs ! m))"
  using assms
proof (induction js arbitrary: i)
  case (Cons j js)
  let ?i = "if sr_money (xs ! j) > sr_money (xs ! i) then j else i"
  have "?i < length xs" using Cons.prems by simp
  with Cons.IH [OF this] Cons.prems show ?case by (auto simp: Let_def split: if_splits)
qed simp

lemma max_index_props:
  assumes "i < length xs"
  shows "i \<le> max_index xs i" "max_index xs i < length xs"
    "\<And>j. i \<le> j \<Longrightarrow> j < length xs \<Longrightarrow> sr_money (xs ! j) \<le> sr_money (xs ! max_index xs i)"
proof -
  note f = fold_max_index [OF assms, of "[i + 1..<length xs]", folded max_index_def, unfolded Let_def]
  show "i \<le> max_index xs i" "max_index xs i < length xs" using f by auto
  show "sr_money (xs ! j) \<le> sr_money (xs ! max_index xs i)" if "i \<le> j" "j < length xs" for j
    using f that by (cases "j = i") auto
qed

lemma mset_select_step: "i < length xs \<Longrightarrow> mset (select_step i xs) = mset xs"
  using max_index_props(2) [of i xs] by (simp add: select_step_def Let_def mset_swap)

lemma length_select_step [simp]: "length (select_step i xs) = length xs"
  by (simp add: select_step_def Let_def)

lemma select_step_nth:
  assumes "i < length xs"
  shows "select_step i xs ! i = xs ! max_index xs i"
    and "j < i \<Longrightarrow> select_step i xs ! j = xs ! j"
  using max_index_props(1,2) [OF assms] assms by (auto simp: select_step_def Let_def nth_list_update)

lemma select_step_rest:
  assumes "i < length xs" "i < j" "j < length xs"
  shows "\<exists>k. i \<le> k \<and> k < length xs \<and> select_step i xs ! j = xs ! k"
proof (cases "j = max_index xs i")
  case True
  then have "select_step i xs ! j = xs ! i"
    using assms by (simp add: select_step_def Let_def)
  then show ?thesis using assms(1) by blast
next
  case False
  then have "select_step i xs ! j = xs ! j"
    using assms by (simp add: select_step_def Let_def)
  then show ?thesis using assms by (intro exI [of _ j]) simp
qed

text \<open>After \<open>n\<close> steps the first \<open>n\<close> entries are in order and no later entry exceeds them.\<close>

definition ranked_upto :: "nat \<Rightarrow> score_remaining list \<Rightarrow> bool" where
  "ranked_upto n xs \<longleftrightarrow> (\<forall>i < n. \<forall>j < length xs. i < j \<longrightarrow> sr_money (xs ! j) \<le> sr_money (xs ! i))"

lemma ranked_step:
  assumes "ranked_upto n xs" "n < length xs"
  shows "ranked_upto (Suc n) (select_step n xs)"
  unfolding ranked_upto_def
proof (intro allI impI)
  fix i j
  assume ij: "i < Suc n" "j < length (select_step n xs)" "i < j"
  show "sr_money (select_step n xs ! j) \<le> sr_money (select_step n xs ! i)"
  proof (cases "i = n")
    case True
    obtain k where "n \<le> k" "k < length xs" "select_step n xs ! j = xs ! k"
      using select_step_rest [OF assms(2), of j] ij True by auto
    then show ?thesis using max_index_props(3) [OF assms(2)] select_step_nth(1) [OF assms(2)] True by simp
  next
    case False
    then have i: "i < n" using ij by simp
    show ?thesis
    proof (cases "j < n")
      case True
      with i ij assms show ?thesis by (simp add: select_step_nth(2) ranked_upto_def)
    next
      case False
      then obtain k where "n \<le> k" "k < length xs" "select_step n xs ! j = xs ! k"
        using select_step_rest [OF assms(2), of j] select_step_nth(1) [OF assms(2)] max_index_props(1,2) [OF assms(2)] ij
        by (cases "j = n") auto
      with i assms show ?thesis by (simp add: select_step_nth(2) ranked_upto_def)
    qed
  qed
qed

lemma selection_upto:
  "n \<le> length xs \<Longrightarrow> ranked_upto n (fold select_step [0..<n] xs) \<and> mset (fold select_step [0..<n] xs) = mset xs \<and>
     length (fold select_step [0..<n] xs) = length xs"
proof (induction n)
  case (Suc n)
  then show ?case using ranked_step [of n "fold select_step [0..<n] xs"] by (simp add: mset_select_step)
qed (simp add: ranked_upto_def)

lemma selection_sort_props:
  "mset (selection_sort xs) = mset xs" "length (selection_sort xs) = length xs"
  "sorted_wrt (\<lambda>a b. sr_money b \<le> sr_money a) (selection_sort xs)"
proof -
  note u = selection_upto [of "length xs - 1" xs, folded selection_sort_def]
  then show "mset (selection_sort xs) = mset xs" "length (selection_sort xs) = length xs" by simp_all
  show "sorted_wrt (\<lambda>a b. sr_money b \<le> sr_money a) (selection_sort xs)"
    using u by (auto simp: sorted_wrt_iff_nth_less ranked_upto_def)
qed

lemma set_rank_entries:
  "set (rank_entries escaped db ks) =
     {\<lparr>sr_key = c_strncpy (MAX_KEY_LEN - 1) k, sr_money = ur_money r\<rparr> | k r l.
        k \<in> set ks \<and> (\<forall>e \<in> set escaped. \<not> c_strncmp_eq MAX_KEY_LEN k (se_key e)) \<and>
        userdb_find k db = Some (r, l) \<and> \<not> userdb_is_burned r}"
  by (induction ks) (auto split: option.splits)

text \<open>A player the ranking is about: online, not among the escapes shown, with an account that is not burned.\<close>

definition rankable :: "server \<Rightarrow> score_remaining \<Rightarrow> bool" where
  "rankable s e \<longleftrightarrow> (\<exists>k r l. e = \<lparr>sr_key = take 31 k, sr_money = ur_money r\<rparr> \<and> k \<in> set (online_keys s) \<and>
     (\<forall>x \<in> set (escaped_snapshot s). \<not> same_key k (se_key x)) \<and>
     userdb_find k (sv_users s) = Some (r, l) \<and> \<not> userdb_is_burned r)"

text \<open>C8: The scoreboard lists the first escapes, at most 3, and the richest of the others: its ranking is
  in descending order of balance, holds at most 7 entries and only players who are online, have not
  escaped and are not burned, with the balance of the account file; such a player is missing only when
  there are 7 entries at least as rich.\<close>
theorem scoreboard_ranks:
  shows "\<exists>rank. scoreboard s = Evt_scoreboard 60 (int (length (escaped_snapshot s))) (escaped_snapshot s) (int (length rank)) rank \<and>
    length (escaped_snapshot s) \<le> 3 \<and> length rank \<le> 7 \<and>
    sorted_wrt (\<lambda>a b. sr_money b \<le> sr_money a) rank \<and>
    (\<forall>e \<in> set rank. rankable s e) \<and>
    (\<forall>e. rankable s e \<longrightarrow> e \<in> set rank \<or> (length rank = 7 \<and> (\<forall>x \<in> set rank. sr_money e \<le> sr_money x)))"
proof -
  let ?all = "rank_entries (escaped_snapshot s) (sv_users s) (online_keys s)"
  define srt where "srt = selection_sort ?all"
  have r: "(if length srt < MAX_SCORE_REMAINING then length srt else MAX_SCORE_REMAINING) = length (take 7 srt)" by simp
  have take: "take (length (take 7 srt)) srt = take 7 srt" by (cases "7 \<le> length srt") simp_all
  have sb: "scoreboard s = Evt_scoreboard 60 (int (length (escaped_snapshot s))) (escaped_snapshot s)
      (int (length (take 7 srt))) (take 7 srt)"
    unfolding scoreboard_def Let_def srt_def [symmetric] r take by (rule refl)
  have esc: "length (escaped_snapshot s) \<le> 3" by (simp add: escaped_snapshot_def min_def) linarith
  have sorted: "sorted_wrt (\<lambda>a b. sr_money b \<le> sr_money a) (take 7 srt @ drop 7 srt)"
    unfolding srt_def by (simp only: append_take_drop_id selection_sort_props(3))
  from sorted [unfolded sorted_wrt_append] have desc: "sorted_wrt (\<lambda>a b. sr_money b \<le> sr_money a) (take 7 srt)"
    and rest: "\<forall>x \<in> set (take 7 srt). \<forall>e \<in> set (drop 7 srt). sr_money e \<le> sr_money x"
    by blast+
  have "set ?all = set srt" by (metis srt_def selection_sort_props(1) set_mset_mset)
  then have set_all: "set ?all = set (take 7 srt) \<union> set (drop 7 srt)" by (metis append_take_drop_id set_append)
  have full: "set (drop 7 srt) \<noteq> {} \<Longrightarrow> length (take 7 srt) = 7" by (cases "7 \<le> length srt") auto
  have mem: "rankable s e \<longleftrightarrow> e \<in> set ?all" for e
    by (auto simp: rankable_def set_rank_entries same_key_def c_strncpy_def)
  have "\<forall>e \<in> set (take 7 srt). rankable s e" unfolding mem set_all by blast
  moreover have "\<forall>e. rankable s e \<longrightarrow> e \<in> set (take 7 srt) \<or>
      (length (take 7 srt) = 7 \<and> (\<forall>x \<in> set (take 7 srt). sr_money e \<le> sr_money x))"
    unfolding mem set_all
  proof (intro allI impI)
    fix e
    assume "e \<in> set (take 7 srt) \<union> set (drop 7 srt)"
    then show "e \<in> set (take 7 srt) \<or>
      (length (take 7 srt) = 7 \<and> (\<forall>x \<in> set (take 7 srt). sr_money e \<le> sr_money x))"
      using rest full by (cases "e \<in> set (drop 7 srt)") auto
  qed
  moreover have "length (take 7 srt) \<le> 7" by simp
  ultimately show ?thesis using sb esc desc by blast
qed


theorem scoreboard_ranks_witness:
  "\<exists>rank. scoreboard sample_server = Evt_scoreboard 60 0 [] (int (length rank)) rank \<and> length rank \<le> 7 \<and>
     (\<forall>e \<in> set rank. rankable sample_server e)"
proof -
  have "escaped_snapshot sample_server = []" by (simp add: escaped_snapshot_def sample_server_def)
  then show ?thesis using scoreboard_ranks [of sample_server] by fastforce
qed

section \<open>The countdown\<close>

lemma fire_frame [simp]:
  "sv_market (fire_round_end_countdown a s) = sv_market s" "sv_users (fire_round_end_countdown a s) = sv_users s"
  "sv_fs (fire_round_end_countdown a s) = sv_fs s" "client_sockets (fire_round_end_countdown a s) = client_sockets s"
  "active_keys (fire_round_end_countdown a s) = active_keys s" "g_goal_money (fire_round_end_countdown a s) = g_goal_money s"
  "g_escaped_count (fire_round_end_countdown a s) = g_escaped_count s"
  "g_cap_reached_at (fire_round_end_countdown a s) = g_cap_reached_at s"
  "g_escape_log (fire_round_end_countdown a s) = g_escape_log s"
  "sv_now (fire_round_end_countdown a s) = sv_now s" "sv_writes (fire_round_end_countdown a s) = sv_writes s"
  "g_periodic_raid_pending_keys (fire_round_end_countdown a s) = g_periodic_raid_pending_keys s"
  "g_periodic_raid_deadline (fire_round_end_countdown a s) = g_periodic_raid_deadline s"
  by (simp_all add: fire_round_end_countdown_def Let_def pthread_create_def broadcast_packet_def split: list.split)

lemma fire_out: "\<exists>ms. sv_out (fire_round_end_countdown a s) = sv_out s @ ms"
  by (simp add: fire_round_end_countdown_def Let_def pthread_create_def split: list.split)

text \<open>The countdown is started at most once per round: the call that starts it marks it active and
  starts exactly one timer thread; while it is active every further call, whatever the reason, changes
  nothing; and when the timer cannot be started the mark is taken back, so that it can be tried again.\<close>
theorem countdown_starts_once:
  assumes "\<not> g_round_end_active s"
  shows "let s1 = fire_round_end_countdown a s in
    (if sv_creates s = [] \<or> hd (sv_creates s)
     then g_round_end_active s1 \<and> sv_threads s1 = sv_threads s @ [(sv_now s, Round_end_timer)] \<and>
       (\<forall>b. fire_round_end_countdown b s1 = s1)
     else \<not> g_round_end_active s1 \<and> sv_threads s1 = sv_threads s)"
  using assms
  by (cases "sv_creates s") (simp_all add: fire_round_end_countdown_def Let_def pthread_create_def broadcast_packet_def)

theorem countdown_starts_once_witness:
  "let s1 = fire_round_end_countdown ''x'' sample_server in
     g_round_end_active s1 \<and> length (sv_threads s1) = 1 \<and> fire_round_end_countdown ''y'' s1 = s1"
proof -
  have "\<not> g_round_end_active sample_server" by (simp add: sample_server_def)
  from countdown_starts_once [OF this, of "''x''"] show ?thesis by (simp add: sample_server_def Let_def)
qed

section \<open>The debt goal\<close>

text \<open>
  The goal is a function of the number of escapes, the cap time is set exactly at the cap, and the log
  holds the first escapes with the debt each paid.
\<close>

definition round_ok :: "server \<Rightarrow> bool" where
  "round_ok s \<longleftrightarrow> 0 \<le> g_escaped_count s \<and> g_goal_money s = min DEBT_CAP (GOAL_MONEY + DEBT_RAISE_STEP * g_escaped_count s) \<and>
     (g_cap_reached_at s \<noteq> 0 \<longleftrightarrow> g_goal_money s = DEBT_CAP) \<and> length (g_escape_log s) = MAX_SCORE_ESCAPED \<and>
     (\<forall>i < MAX_SCORE_ESCAPED. int i < g_escaped_count s \<longrightarrow> el_escape_order (g_escape_log s ! i) = int i + 1 \<and>
        el_money_at_escape (g_escape_log s ! i) = min DEBT_CAP (GOAL_MONEY + DEBT_RAISE_STEP * int i))"

lemma next_goal_min: "g \<le> DEBT_CAP \<Longrightarrow> next_goal g = min DEBT_CAP (g + DEBT_RAISE_STEP)"
  by (simp add: next_goal_def Let_def min_def)

text \<open>What a successful \<open>/payoff\<close> does to the round state.\<close>

definition escape_step :: "key \<Rightarrow> server \<Rightarrow> server" where
  "escape_step key s = s\<lparr>g_goal_money := next_goal (g_goal_money s),
     g_cap_reached_at := (if next_goal (g_goal_money s) = DEBT_CAP \<and> g_cap_reached_at s = 0 then sv_now s else g_cap_reached_at s),
     g_escaped_count := g_escaped_count s + 1,
     g_escape_log := log_escape key (g_goal_money s) (g_escaped_count s + 1) (g_escape_log s)\<rparr>"

lemma round_ok_escape:
  assumes "round_ok s" "0 < sv_now s"
  shows "round_ok (escape_step key s)"
proof -
  let ?n = "g_escaped_count s"
  have n: "0 \<le> ?n" and goal: "g_goal_money s = min DEBT_CAP (GOAL_MONEY + DEBT_RAISE_STEP * ?n)"
    and cap: "g_cap_reached_at s \<noteq> 0 \<longleftrightarrow> g_goal_money s = DEBT_CAP" and len: "length (g_escape_log s) = 3"
    and log: "\<And>i. i < 3 \<Longrightarrow> int i < ?n \<Longrightarrow> el_escape_order (g_escape_log s ! i) = int i + 1 \<and>
        el_money_at_escape (g_escape_log s ! i) = min DEBT_CAP (GOAL_MONEY + DEBT_RAISE_STEP * int i)"
    using assms(1) by (auto simp: round_ok_def)
  have ng: "next_goal (g_goal_money s) = min DEBT_CAP (GOAL_MONEY + DEBT_RAISE_STEP * (?n + 1))"
    using goal by (simp add: next_goal_min min_def)
  have "el_escape_order (log_escape key (g_goal_money s) (?n + 1) (g_escape_log s) ! i) = int i + 1 \<and>
      el_money_at_escape (log_escape key (g_goal_money s) (?n + 1) (g_escape_log s) ! i) =
        min DEBT_CAP (GOAL_MONEY + DEBT_RAISE_STEP * int i)" if "i < 3" "int i < ?n + 1" for i
  proof (cases "int i = ?n")
    case True
    then have "i = nat ?n" "?n \<le> 2" using that(1) by linarith+
    then show ?thesis using True goal len n by (simp add: log_escape_def)
  next
    case False
    then have "nat ?n \<noteq> i" "int i < ?n" using that n by auto
    then show ?thesis using log [of i] that by (simp add: log_escape_def nth_list_update)
  qed
  moreover have "length (log_escape key (g_goal_money s) (?n + 1) (g_escape_log s)) = 3"
    using len by (simp add: log_escape_def)
  ultimately show ?thesis
    using n ng cap goal assms(2) by (auto simp: round_ok_def escape_step_def)
qed


lemma fire_active:
  "sv_creates s = [] \<Longrightarrow> g_round_end_active (fire_round_end_countdown a s)"
  by (simp add: fire_round_end_countdown_def Let_def pthread_create_def broadcast_packet_def)

lemma handle_payoff_success:
  assumes "userdb_find key (sv_users s) = Some (r, l)" "g_goal_money s \<le> ur_money r"
  shows "handle_payoff sock key s =
    (let s1 = escape_step key s;
         s3 = sv_update_at l (r\<lparr>ur_money := INITIAL_MONEY\<rparr>) (s1\<lparr>sv_fs := sandbox_purge_user key (sv_fs s)\<rparr>);
         s4 = packet_send sock (Evt_victory (c_snprintf MAX_TEXT_LEN (txt_victory (g_goal_money s)))) s3;
         s5 = broadcast_packet (chat_evt ''[SYSTEM]'' (payoff_text key (g_goal_money s))) s4;
         s6 = broadcast_packet (Evt_goal_update (g_goal_money s1)) s5
     in if g_escaped_count s1 \<ge> 3 then fire_round_end_countdown txt_three_escaped s6 else s6)"
  using assms by (simp add: handle_payoff_def escape_step_def Let_def)

text \<open>C6: \<open>/payoff\<close> with less than the goal is refused and changes nothing. Otherwise the goal rises by 2,000 up
  to the cap of 14,000, the escape is counted, the account is back at the starting money without any
  document, no other account and no other player's documents change, the player gets the victory packet,
  every client the new goal, and the third escape starts the end of the round.\<close>
theorem handle_payoff_exact:
  assumes "full_writes s" "db_ok (sv_users s)" "sandbox_ok (sv_fs s)" "safe_key key" "round_ok s"
    and "userdb_find key (sv_users s) = Some (r, l)"
  shows "let s' = handle_payoff sock key s in
    if ur_money r < g_goal_money s
    then s' = send_error sock ERR_NOT_ENOUGH_MONEY (take 255 (txt_goal_short (g_goal_money s) (ur_money r))) s
    else g_goal_money s' = min DEBT_CAP (g_goal_money s + 2000) \<and> g_escaped_count s' = g_escaped_count s + 1 \<and>
      userdb_find key (sv_users s') = Some (r\<lparr>ur_money := INITIAL_MONEY\<rparr>, l) \<and>
      (\<forall>k. \<not> same_key k key \<longrightarrow> userdb_find k (sv_users s') = userdb_find k (sv_users s)) \<and>
      docs_in (Some key) (sv_fs s') = {} \<and> (\<forall>k. k \<noteq> key \<longrightarrow> docs_in (Some k) (sv_fs s') = docs_in (Some k) (sv_fs s)) \<and>
      (sock, Evt_victory (take 255 (txt_victory (g_goal_money s)))) \<in> set (sv_out s') \<and>
      (\<forall>k \<in> set (client_sockets s). k \<noteq> 0 \<longrightarrow> (k, Evt_goal_update (g_goal_money s')) \<in> set (sv_out s')) \<and>
      (g_escaped_count s' < 3 \<longrightarrow> g_round_end_active s' = g_round_end_active s) \<and>
      (3 \<le> g_escaped_count s' \<and> sv_creates s = [] \<longrightarrow> g_round_end_active s')"
proof (cases "ur_money r < g_goal_money s")
  case True
  then show ?thesis using assms(6) by (simp add: handle_payoff_def Let_def c_snprintf_def)
next
  case False
  let ?r = "r\<lparr>ur_money := INITIAL_MONEY\<rparr>" and ?f = "sandbox_purge_user key (sv_fs s)"
  let ?s2 = "(escape_step key s)\<lparr>sv_fs := ?f\<rparr>"
  let ?s3 = "sv_update_at l ?r ?s2"
  let ?s4 = "packet_send sock (Evt_victory (c_snprintf MAX_TEXT_LEN (txt_victory (g_goal_money s)))) ?s3"
  let ?s6 = "broadcast_packet (Evt_goal_update (next_goal (g_goal_money s)))
    (broadcast_packet (chat_evt ''[SYSTEM]'' (payoff_text key (g_goal_money s))) ?s4)"
  have fields: "g_goal_money ?s6 = next_goal (g_goal_money s)" "g_escaped_count ?s6 = g_escaped_count s + 1"
    "sv_fs ?s6 = ?f" "sv_users ?s6 = sv_users ?s3" "g_round_end_active ?s6 = g_round_end_active s"
    "sv_creates ?s6 = sv_creates s" "client_sockets ?s3 = client_sockets s"
    by (simp_all add: broadcast_packet_def packet_send_def sv_update_at_eq escape_step_def)
  have eq: "handle_payoff sock key s =
      (if g_escaped_count s + 1 \<ge> 3 then fire_round_end_countdown txt_three_escaped ?s6 else ?s6)"
    using handle_payoff_success [OF assms(6), of sock] False by (simp add: Let_def) (simp add: escape_step_def)
  have r: "rec_ok ?r" using udb.find_acc_ok [OF assms(2,6)] by (simp add: rec_ok_money int32_range_def)
  have "sv_users ?s3 = userdb_put l ?r (sv_users s)"
    using sv_update_found(1) [of ?s2 key r l ?r] assms(1,2,6) r by (simp add: full_writes_def escape_step_def)
  then have acc: "userdb_find key (sv_users ?s3) = Some (?r, l)"
    "\<And>k. \<not> same_key k key \<Longrightarrow> userdb_find k (sv_users ?s3) = userdb_find k (sv_users s)"
    using udb.find_put_same [OF assms(2,6) r] udb.find_put_other [OF assms(2,6) r] by simp_all
  note purge = sandbox_purge_user_docs [OF assms(3,4)]
  have goal: "next_goal (g_goal_money s) = min DEBT_CAP (g_goal_money s + 2000)"
    using assms(5) by (simp add: next_goal_min round_ok_def)
  have "\<exists>ms. sv_out (if b then fire_round_end_countdown t x else x) = sv_out x @ ms" for b t x
    using fire_out [of t x] by auto
  then obtain ms where out: "sv_out (handle_payoff sock key s) = sv_out ?s6 @ ms"
    unfolding eq by blast
  have vic: "(sock, Evt_victory (take 255 (txt_victory (g_goal_money s)))) \<in> set (sv_out ?s6)"
    by (simp add: c_snprintf_def)
  have upd: "\<forall>k \<in> set (client_sockets s). k \<noteq> 0 \<longrightarrow> (k, Evt_goal_update (next_goal (g_goal_money s))) \<in> set (sv_out ?s6)"
    using fields(7) by simp
  have frame: "g_goal_money (handle_payoff sock key s) = g_goal_money ?s6"
    "g_escaped_count (handle_payoff sock key s) = g_escaped_count ?s6"
    "sv_users (handle_payoff sock key s) = sv_users ?s6" "sv_fs (handle_payoff sock key s) = sv_fs ?s6"
    by (simp_all only: eq fire_frame split: if_split) simp_all
  have act: "g_round_end_active (handle_payoff sock key s) = g_round_end_active s" if "g_escaped_count s + 1 < 3"
    using that fields(5) by (simp add: eq)
  have act3: "g_round_end_active (handle_payoff sock key s)" if "3 \<le> g_escaped_count s + 1" "sv_creates s = []"
    using that fire_active [of ?s6 txt_three_escaped] fields(6) by (simp only: eq if_True)
  let ?s' = "handle_payoff sock key s"
  have "g_goal_money ?s' = min DEBT_CAP (g_goal_money s + 2000)" by (simp only: frame fields) (rule goal)
  moreover have "g_escaped_count ?s' = g_escaped_count s + 1" by (simp only: frame fields)
  moreover have "userdb_find key (sv_users ?s') = Some (?r, l)" by (simp only: frame fields acc(1))
  moreover have "\<forall>k. \<not> same_key k key \<longrightarrow> userdb_find k (sv_users ?s') = userdb_find k (sv_users s)"
    using acc(2) by (simp only: frame fields) blast
  moreover have "docs_in (Some key) (sv_fs ?s') = {}" by (simp only: frame fields purge(2))
  moreover have "\<forall>k. k \<noteq> key \<longrightarrow> docs_in (Some k) (sv_fs ?s') = docs_in (Some k) (sv_fs s)"
    using purge(3) by (simp only: frame fields) blast
  moreover have "(sock, Evt_victory (take 255 (txt_victory (g_goal_money s)))) \<in> set (sv_out ?s')"
    unfolding out set_append Un_iff using vic by (rule disjI1)
  moreover have "\<forall>k \<in> set (client_sockets s). k \<noteq> 0 \<longrightarrow> (k, Evt_goal_update (g_goal_money ?s')) \<in> set (sv_out ?s')"
    unfolding out set_append Un_iff frame fields using upd by blast
  moreover have "g_escaped_count ?s' < 3 \<longrightarrow> g_round_end_active ?s' = g_round_end_active s"
    using act by (simp only: frame fields) blast
  moreover have "3 \<le> g_escaped_count ?s' \<and> sv_creates s = [] \<longrightarrow> g_round_end_active ?s'"
    using act3 by (simp only: frame fields) blast
  ultimately show ?thesis unfolding Let_def if_not_P [OF False] by blast
qed


definition rich_server :: server where
  "rich_server = sample_server\<lparr>sv_users := Some (db_image [sample_record\<lparr>ur_money := 12000\<rparr>])\<rparr>"

lemma rich_server_facts:
  "full_writes rich_server" "db_ok (sv_users rich_server)" "sandbox_ok (sv_fs rich_server)" "round_ok rich_server"
  "userdb_find ''neo'' (sv_users rich_server) = Some (sample_record\<lparr>ur_money := 12000\<rparr>, 0)"
proof -
  have r: "rec_ok (sample_record\<lparr>ur_money := 12000\<rparr>)" using sample_record_ok by (simp add: rec_ok_def int32_range_def)
  show "full_writes rich_server" by (simp add: rich_server_def sample_server_def full_writes_def)
  show "db_ok (sv_users rich_server)" using r by (simp add: rich_server_def)
  show "sandbox_ok (sv_fs rich_server)" using sample_fs_ok by (simp add: rich_server_def sample_server_def)
  show "round_ok rich_server" by (simp add: round_ok_def rich_server_def sample_server_def)
  have "ur_name sample_record = ''neo''" by (simp add: ur_name_def sample_record_def cstr_cbuf no_nul_def)
  then show "userdb_find ''neo'' (sv_users rich_server) = Some (sample_record\<lparr>ur_money := 12000\<rparr>, 0)"
    using r by (simp add: rich_server_def userdb_find_image)
qed

theorem handle_payoff_exact_witness:
  "let s' = handle_payoff 5 ''neo'' rich_server in
     g_goal_money s' = 12000 \<and> g_escaped_count s' = 1 \<and>
     (5, Evt_victory (take 255 (txt_victory 10000))) \<in> set (sv_out s')"
proof -
  have "g_goal_money rich_server = 10000" "g_escaped_count rich_server = 0"
    by (simp_all add: rich_server_def sample_server_def)
  with handle_payoff_exact [OF rich_server_facts(1-3) sample_safe(1) rich_server_facts(4,5), of 5] show ?thesis
    by (simp add: Let_def)
qed

text \<open>A burned account comes back to life through the debug request: when the key of a session has been
  burned, \<open>PKT_REQ_TRIGGER_RICH\<close> on the same connection overwrites the burn mark with the debt goal, so the
  account can be used and logged in to again.\<close>
theorem fake_rich_revives_burned:
  assumes "full_writes s" "db_ok (sv_users s)" "round_ok s" "userdb_find key (sv_users s) = Some (r, l)" "userdb_is_burned r"
  shows "\<exists>r'. userdb_find key (sv_users (handle_fake_rich sock key s)) = Some (r', l) \<and> ur_money r' = g_goal_money s \<and>
    \<not> userdb_is_burned r'"
proof -
  let ?r = "r\<lparr>ur_money := g_goal_money s\<rparr>"
  have g: "GOAL_MONEY \<le> g_goal_money s" "g_goal_money s \<le> DEBT_CAP" using assms(3) by (auto simp: round_ok_def)
  then have r: "rec_ok ?r" using udb.find_acc_ok [OF assms(2,4)] by (simp add: rec_ok_money int32_range_def)
  have "sv_users (handle_fake_rich sock key s) = userdb_put l ?r (sv_users s)"
    using sv_update_found(1) [OF assms(1,2,4) r] assms(4) by (simp add: handle_fake_rich_def Let_def)
  then show ?thesis
    using udb.find_put_same [OF assms(2,4) r] g by (intro exI [of _ ?r]) (simp add: userdb_is_burned_def)
qed

theorem fake_rich_revives_burned_witness:
  "\<exists>r'. userdb_find ''neo'' (sv_users (handle_fake_rich 5 ''neo''
     (sample_server\<lparr>sv_users := Some (db_image [burn_record sample_record])\<rparr>))) = Some (r', 0) \<and> ur_money r' = 10000"
proof -
  let ?s = "sample_server\<lparr>sv_users := Some (db_image [burn_record sample_record])\<rparr>"
  have r: "rec_ok (burn_record sample_record)" using sample_record_ok by (rule rec_ok_burn)
  have "ur_name sample_record = ''neo''" by (simp add: ur_name_def sample_record_def cstr_cbuf no_nul_def)
  then have f: "userdb_find ''neo'' (sv_users ?s) = Some (burn_record sample_record, 0)"
    using r by (simp add: userdb_find_image)
  have "full_writes ?s" "round_ok ?s" "g_goal_money ?s = 10000"
    by (simp_all add: sample_server_def full_writes_def round_ok_def)
  moreover have "db_ok (sv_users ?s)" using r by simp
  moreover have "userdb_is_burned (burn_record sample_record)" by (simp add: userdb_is_burned_def burn_record_def)
  ultimately show ?thesis using fake_rich_revives_burned [OF _ _ _ f, of 5] by auto
qed

section \<open>Sabotage and bankruptcy\<close>

lemma unicast_frame [simp]:
  "sv_users (snd (unicast_to_key k m s)) = sv_users s" "sv_fs (snd (unicast_to_key k m s)) = sv_fs s"
  "sv_market (snd (unicast_to_key k m s)) = sv_market s" "sv_now (snd (unicast_to_key k m s)) = sv_now s"
  "g_rumor_cd_until (snd (unicast_to_key k m s)) = g_rumor_cd_until s"
  "sv_out (snd (unicast_to_key k m s)) = sv_out s @ (case slot_of_key k s of None \<Rightarrow> [] | Some c \<Rightarrow> [(c, m)])"
  by (simp_all add: unicast_to_key_def packet_send_def split: option.split)

lemma handle_inventory_frame [simp]:
  "sv_users (handle_inventory sock key s) = sv_users s" "sv_fs (handle_inventory sock key s) = sv_fs s"
  "sv_market (handle_inventory sock key s) = sv_market s" "sv_now (handle_inventory sock key s) = sv_now s"
  "g_rumor_cd_until (handle_inventory sock key s) = g_rumor_cd_until s"
  "\<exists>m. sv_out (handle_inventory sock key s) = sv_out s @ [(sock, m)]"
  by (simp_all add: handle_inventory_def Let_def packet_send_def)

text \<open>\<open>/rumor\<close> is paid once per cooldown: outside a cooldown a player with the fee pays exactly 500, no
  other account changes, the target's client gets the glitch packet, and a cooldown of 30 seconds starts;
  until it ends any \<open>/rumor\<close> of anybody is refused and changes nothing.\<close>
theorem rumor_once_per_cooldown:
  assumes "full_writes s" "db_ok (sv_users s)" "userdb_find key (sv_users s) = Some (r, l)"
    and "g_rumor_cd_until s \<le> sv_now s" "RUMOR_FEE \<le> ur_money r"
  shows "let s1 = handle_rumor sock key target s in
    paid key (- 500) (sv_users s) (sv_users s1) \<and> g_rumor_cd_until s1 = sv_now s + 30 \<and>
    (\<forall>c. slot_of_key (take 31 target) s = Some c \<longrightarrow> (c, Evt_rumor_glitch) \<in> set (sv_out s1)) \<and>
    (\<forall>t sock' key' target'. t < sv_now s + 30 \<longrightarrow>
       (\<exists>reason. handle_rumor sock' key' target' (s1\<lparr>sv_now := t\<rparr>) =
          packet_send sock' (Res_error ERR_RUMOR_COOLDOWN reason) (s1\<lparr>sv_now := t\<rparr>)))"
proof -
  let ?s1 = "sv_update_at l (r\<lparr>ur_money := ur_money r - 500\<rparr>) s"
  let ?s2 = "?s1\<lparr>g_rumor_cd_until := sv_now s + 30\<rparr>"
  let ?s3 = "snd (unicast_to_key (take 31 target) Evt_rumor_glitch ?s2)"
  have eq: "handle_rumor sock key target s = handle_inventory sock key ?s3"
    using assms by (simp add: handle_rumor_def Let_def c_strncpy_def)
  have pay: "paid key (- 500) (sv_users s) (sv_users ?s1)"
    using paid_buy [OF assms(1-3), of 500] assms(5) by simp
  have slot: "slot_of_key k ?s2 = slot_of_key k s" for k by (simp add: slot_of_key_def)
  obtain m where out: "sv_out (handle_inventory sock key ?s3) = sv_out ?s3 @ [(sock, m)]"
    using handle_inventory_frame(6) by blast
  have glitch: "slot_of_key (take 31 target) s = Some c \<Longrightarrow> (c, Evt_rumor_glitch) \<in> set (sv_out ?s3)" for c
    by (simp add: slot)
  have cool: "\<exists>reason. handle_rumor k' key' target' s' = packet_send k' (Res_error ERR_RUMOR_COOLDOWN reason) s'"
    if "sv_now s' < g_rumor_cd_until s'" for k' key' target' s'
    using that by (auto simp: handle_rumor_def Let_def send_error_def)
  have cd: "g_rumor_cd_until (handle_inventory sock key ?s3) = sv_now s + 30" by simp
  then have "\<forall>t k' key' target'. t < sv_now s + 30 \<longrightarrow>
      (\<exists>reason. handle_rumor k' key' target' ((handle_inventory sock key ?s3)\<lparr>sv_now := t\<rparr>) =
         packet_send k' (Res_error ERR_RUMOR_COOLDOWN reason) ((handle_inventory sock key ?s3)\<lparr>sv_now := t\<rparr>))"
    by (intro allI impI cool) simp
  moreover have "sv_users (handle_inventory sock key ?s3) = sv_users ?s1" by simp
  ultimately show ?thesis
    unfolding Let_def eq using pay cd out glitch by auto
qed

theorem rumor_once_per_cooldown_witness:
  "let s1 = handle_rumor 5 ''neo'' ''trinity'' sample_server in
     paid ''neo'' (- 500) (sv_users sample_server) (sv_users s1) \<and> g_rumor_cd_until s1 = 1030"
proof -
  have a: "full_writes sample_server" "db_ok (sv_users sample_server)"
    using sample_server_ok by (simp_all add: trade_ok_def)
  have b: "userdb_find ''neo'' (sv_users sample_server) = Some (sample_record, 0)" "ur_money sample_record = 1000"
    "g_rumor_cd_until sample_server = 0" "sv_now sample_server = 1000"
    by (simp_all add: sample_server_def sample_find) (simp add: sample_record_def)
  from rumor_once_per_cooldown [OF a b(1), of 5 "''trinity''"] b show ?thesis by (simp add: Let_def)
qed

text \<open>An account is declared bankrupt exactly when its balance is not positive and its sandbox is there and
  empty: then it is burned, the player gets the game-over packet and the connection is closed; in every
  other case nothing changes.\<close>
theorem check_bankruptcy_exact:
  assumes "full_writes s" "db_ok (sv_users s)" "sandbox_ok (sv_fs s)" "safe_key key" "has_box key (sv_fs s)"
  shows "case userdb_find key (sv_users s) of
      None \<Rightarrow> check_bankruptcy sock key s = (False, s)
    | Some (r, l) \<Rightarrow>
        if ur_money r \<le> 0 \<and> docs_in (Some key) (sv_fs s) = {}
        then (\<exists>s' r'. check_bankruptcy sock key s = (True, s') \<and> userdb_find key (sv_users s') = Some (r', l) \<and>
          userdb_is_burned r' \<and> (\<forall>k. \<not> same_key k key \<longrightarrow> userdb_find k (sv_users s') = userdb_find k (sv_users s)) \<and>
          sv_fs s' = sv_fs s \<and> sv_out s' = sv_out s @ [(sock, Evt_game_over (take 255 txt_bankrupt))])
        else check_bankruptcy sock key s = (False, s)"
proof (cases "userdb_find key (sv_users s)")
  case None
  then show ?thesis by (simp add: check_bankruptcy_def)
next
  case (Some rl)
  then obtain r l where rl: "userdb_find key (sv_users s) = Some (r, l)" by (cases rl) simp
  have c: "sandbox_count key (sv_fs s) = int (card (docs_in (Some key) (sv_fs s)))"
    by (rule sandbox_count_eq [OF assms(3-5)])
  have fin: "card (docs_in (Some key) (sv_fs s)) = 0 \<longleftrightarrow> docs_in (Some key) (sv_fs s) = {}"
    using finite_docs_in [OF assms(3)] by simp
  show ?thesis
  proof (cases "ur_money r \<le> 0 \<and> docs_in (Some key) (sv_fs s) = {}")
    case False
    then show ?thesis using rl c fin by (auto simp: check_bankruptcy_def Let_def)
  next
    case True
    let ?b = "burn_record r"
    have b: "rec_ok ?b" using udb.find_acc_ok [OF assms(2) rl] by (simp add: rec_ok_burn)
    have n: "ur_name ?b = ur_name r" by simp
    let ?s' = "packet_send sock (game_over txt_bankrupt) (sv_burn_at l s)"
    have "check_bankruptcy sock key s = (True, ?s')" using True rl c by (simp add: check_bankruptcy_def Let_def)
    moreover have "sv_users ?s' = userdb_put l ?b (sv_users s)" using sv_burn_found(1) [OF assms(1,2) rl] by simp
    ultimately show ?thesis
      using True rl udb.find_put_same [OF assms(2) rl b n] udb.find_put_other [OF assms(2) rl b n]
      by (auto simp: game_over_def c_snprintf_def userdb_is_burned_def burn_record_def
          intro!: exI [of _ ?s'] exI [of _ ?b])
  qed
qed

definition broke_server :: server where
  "broke_server = sample_server\<lparr>sv_users := Some (db_image [sample_record\<lparr>ur_money := 0\<rparr>])\<rparr>"

lemma broke_server_facts:
  "full_writes broke_server" "db_ok (sv_users broke_server)" "sandbox_ok (sv_fs broke_server)"
  "has_box ''neo'' (sv_fs broke_server)" "docs_in (Some ''neo'') (sv_fs broke_server) = {}"
  "userdb_find ''neo'' (sv_users broke_server) = Some (sample_record\<lparr>ur_money := 0\<rparr>, 0)"
proof -
  have r: "rec_ok (sample_record\<lparr>ur_money := 0\<rparr>)" using sample_record_ok by (simp add: rec_ok_def int32_range_def)
  show "full_writes broke_server" by (simp add: broke_server_def sample_server_def full_writes_def)
  show "db_ok (sv_users broke_server)" using r by (simp add: broke_server_def)
  show "sandbox_ok (sv_fs broke_server)" using sample_fs_ok by (simp add: broke_server_def sample_server_def)
  show "has_box ''neo'' (sv_fs broke_server)" by (simp add: broke_server_def sample_server_def)
  show "docs_in (Some ''neo'') (sv_fs broke_server) = {}"
    using sample_docs by (simp add: docs_in_def docs_loc_def broke_server_def sample_server_def)
  have "ur_name sample_record = ''neo''" by (simp add: ur_name_def sample_record_def cstr_cbuf no_nul_def)
  then show "userdb_find ''neo'' (sv_users broke_server) = Some (sample_record\<lparr>ur_money := 0\<rparr>, 0)"
    using r by (simp add: broke_server_def userdb_find_image)
qed

theorem check_bankruptcy_exact_witness:
  "\<exists>s'. check_bankruptcy 5 ''neo'' broke_server = (True, s') \<and>
     sv_out s' = sv_out broke_server @ [(5, Evt_game_over (take 255 txt_bankrupt))]"
  using check_bankruptcy_exact [OF broke_server_facts(1-3) sample_safe(1) broke_server_facts(4), of 5]
  by (auto simp: broke_server_facts)

end
