(* ===== verification/Raid.thy ===== *)
theory Raid
  imports Round
begin

text \<open>
  The police raids of \<open>server_main.c\<close>: the raid on everyone, the debug raid on oneself, the passcode
  answer, the timeout thread and the burning of an account.
\<close>

section \<open>Operations\<close>

definition pick_raid_passcode :: "server \<Rightarrow> string \<times> server" where
  "pick_raid_passcode s = (case draw s of (r, s1) \<Rightarrow> (RAID_PASSCODES ! (r mod length RAID_PASSCODES), s1))"

definition no_pending :: "key list" where
  "no_pending = replicate MAX_CLIENTS []"

definition burn_user_by_key :: "key \<Rightarrow> server \<Rightarrow> server" where
  "burn_user_by_key key s =
     (let s1 = (case userdb_find key (sv_users s) of
                  Some (rec, offset) \<Rightarrow> sv_burn_at offset s
                | None \<Rightarrow> s);
          s2 = s1\<lparr>sv_fs := sandbox_purge_user key (sv_fs s1)\<rparr>
      in snd (unicast_to_key key (game_over txt_burned) s2))"

definition periodic_raid_timeout_thread :: "server \<Rightarrow> server" where
  "periodic_raid_timeout_thread s =
     (let victims = map (c_strncpy (MAX_KEY_LEN - 1)) (filter (\<lambda>k. k \<noteq> []) (g_periodic_raid_pending_keys s));
          s1 = s\<lparr>g_periodic_raid_pending_keys := no_pending, g_periodic_raid_deadline := 0\<rparr>
      in fold burn_user_by_key victims s1)"

definition fire_periodic_police_raid :: "server \<Rightarrow> server" where
  "fire_periodic_police_raid s =
     (if g_periodic_raid_deadline s \<noteq> 0 then s
      else
        case pick_raid_passcode s of (picked, s0) \<Rightarrow>
          let passcode = c_strncpy (MAX_TEXT_LEN - 1) picked;
              pending = online_keys s0;
              s1 = s0\<lparr>g_periodic_raid_deadline := sv_now s0 + PERIODIC_RAID_TIME_LIMIT_SEC,
                      g_periodic_raid_passcode := passcode,
                      g_periodic_raid_pending_keys := pending @ replicate (MAX_CLIENTS - length pending) []\<rparr>
          in
          if length pending = 0 then s1\<lparr>g_periodic_raid_deadline := 0\<rparr>
          else
            let s2 = broadcast_packet (Evt_police_raid (c_strncpy (MAX_TEXT_LEN - 1) passcode) PERIODIC_RAID_TIME_LIMIT_SEC) s1;
                s3 = broadcast_packet (chat_evt ''[ALERT]''
                       (c_snprintf (MAX_TEXT_LEN - 1) (txt_raid_hint PERIODIC_RAID_TIME_LIMIT_SEC passcode))) s2
            in case pthread_create Periodic_raid_timeout s3 of
                 (ok, s4) \<Rightarrow> if ok then s4
                   else s4\<lparr>g_periodic_raid_deadline := 0, g_periodic_raid_pending_keys := no_pending\<rparr>)"

definition fire_self_police_raid :: "sock \<Rightarrow> key \<Rightarrow> server \<Rightarrow> server" where
  "fire_self_police_raid sock key s =
     (if g_periodic_raid_deadline s \<noteq> 0 then send_error sock ERR_INVALID_SESSION txt_raid_running s
      else
        case pick_raid_passcode s of (picked, s0) \<Rightarrow>
          let passcode = c_strncpy (MAX_TEXT_LEN - 1) picked;
              s1 = s0\<lparr>g_periodic_raid_deadline := sv_now s0 + PERIODIC_RAID_TIME_LIMIT_SEC,
                      g_periodic_raid_passcode := passcode,
                      g_periodic_raid_pending_keys := no_pending[0 := c_strncpy (MAX_KEY_LEN - 1) key]\<rparr>;
              s2 = packet_send sock (Evt_police_raid (c_strncpy (MAX_TEXT_LEN - 1) passcode) PERIODIC_RAID_TIME_LIMIT_SEC) s1
          in case pthread_create Periodic_raid_timeout s2 of
               (ok, s3) \<Rightarrow> if ok then s3
                 else send_error sock ERR_INVALID_SESSION txt_raid_no_timer
                        (s3\<lparr>g_periodic_raid_deadline := 0, g_periodic_raid_pending_keys := no_pending\<rparr>))"

text \<open>The index of a key among the pending ones.\<close>

fun pending_index :: "key \<Rightarrow> key list \<Rightarrow> nat \<Rightarrow> nat option" where
  "pending_index key [] i = None"
| "pending_index key (p # ps) i =
     (if p \<noteq> [] \<and> c_strncmp_eq MAX_KEY_LEN p key then Some i else pending_index key ps (Suc i))"

definition handle_minigame_submit :: "sock \<Rightarrow> key \<Rightarrow> string \<Rightarrow> server \<Rightarrow> server" where
  "handle_minigame_submit sock key passcode s =
     (let periodic_active = (g_periodic_raid_deadline s \<noteq> 0 \<and> sv_now s < g_periodic_raid_deadline s);
          pending_idx = (if periodic_active then pending_index key (g_periodic_raid_pending_keys s) 0 else None);
          current_passcode = c_strncpy (MAX_TEXT_LEN - 1) (g_periodic_raid_passcode s)
      in case pending_idx of
           Some i \<Rightarrow>
             let s1 = s\<lparr>g_periodic_raid_pending_keys := (g_periodic_raid_pending_keys s)[i := []]\<rparr> in
             if passcode = current_passcode then packet_send sock Res_minigame_ok s1
             else burn_user_by_key key s1
         | None \<Rightarrow> send_error sock ERR_INVALID_SESSION txt_no_minigame s)"

section \<open>Burning\<close>

text \<open>What every write of a raid relies on and keeps.\<close>

definition stores_ok :: "server \<Rightarrow> bool" where
  "stores_ok s \<longleftrightarrow> full_writes s \<and> db_ok (sv_users s) \<and> sandbox_ok (sv_fs s)"

text \<open>The accounts of a set of keys are burned and no other account changes; the boxes of a set of keys are
  empty and no other document moves.\<close>

definition burnt :: "key set \<Rightarrow> users_dat \<Rightarrow> users_dat \<Rightarrow> bool" where
  "burnt V db db' \<longleftrightarrow> (\<forall>k. userdb_find k db' =
     (if \<exists>v \<in> V. same_key k v then map_option (map_prod burn_record id) (userdb_find k db) else userdb_find k db))"

definition emptied :: "key set \<Rightarrow> fs \<Rightarrow> fs \<Rightarrow> bool" where
  "emptied V fs fs' \<longleftrightarrow> doc_at fs' = (\<lambda>l. case l of Box k d \<Rightarrow> if k \<in> V then None else doc_at fs l | Shop d \<Rightarrow> doc_at fs l)"

lemma burnt_empty [simp]: "burnt {} db db"
  by (simp add: burnt_def)

lemma burnt_burnt: "burnt V db db' \<Longrightarrow> burnt W db' db'' \<Longrightarrow> burnt (V \<union> W) db db''"
  unfolding burnt_def
  by (auto simp: option.map_comp comp_def map_prod_def burn_record_def split_beta cong: option.map_cong)

lemma emptied_empty [simp]: "emptied {} fs fs"
  by (auto simp: emptied_def split: doc_loc.split)

lemma emptied_emptied: "emptied V fs fs' \<Longrightarrow> emptied W fs' fs'' \<Longrightarrow> emptied (V \<union> W) fs fs''"
  by (auto simp: emptied_def split: doc_loc.split)

lemma burn_user_by_key_frame [simp]:
  "client_sockets (burn_user_by_key key s) = client_sockets s" "active_keys (burn_user_by_key key s) = active_keys s"
  "sv_market (burn_user_by_key key s) = sv_market s"
  "g_periodic_raid_pending_keys (burn_user_by_key key s) = g_periodic_raid_pending_keys s"
  "g_periodic_raid_deadline (burn_user_by_key key s) = g_periodic_raid_deadline s"
  by (simp_all add: burn_user_by_key_def Let_def unicast_to_key_def packet_send_def sv_burn_at_eq split: option.split prod.split)

lemma burn_user_by_key_out:
  "sv_out (burn_user_by_key key s) =
   sv_out s @ (case slot_of_key key s of None \<Rightarrow> [] | Some c \<Rightarrow> [(c, Evt_game_over (take 255 txt_burned))])"
proof -
  have "slot_of_key key (s1\<lparr>sv_fs := f\<rparr>) = slot_of_key key s1" for s1 f by (simp add: slot_of_key_def)
  moreover have "slot_of_key key (sv_burn_at l s) = slot_of_key key s" for l by (simp add: slot_of_key_def)
  ultimately show ?thesis
    by (simp add: burn_user_by_key_def Let_def game_over_def c_snprintf_def split: option.split prod.split)
qed

lemma burn_user_by_key_stores:
  assumes "stores_ok s" "safe_key key"
  shows "stores_ok (burn_user_by_key key s)" "burnt {key} (sv_users s) (sv_users (burn_user_by_key key s))"
    "emptied {key} (sv_fs s) (sv_fs (burn_user_by_key key s))"
proof -
  have inv: "full_writes s" "db_ok (sv_users s)" "sandbox_ok (sv_fs s)" using assms(1) by (simp_all add: stores_ok_def)
  note purge = sandbox_purge_user_at [OF inv(3) assms(2)]
  have fs: "sv_fs (burn_user_by_key key s) = sandbox_purge_user key (sv_fs s)"
    by (simp add: burn_user_by_key_def Let_def split: option.split prod.split)
  then show "emptied {key} (sv_fs s) (sv_fs (burn_user_by_key key s))" using purge by (auto simp: emptied_def intro!: ext split: doc_loc.split)
  have "full_writes (burn_user_by_key key s) \<and> db_ok (sv_users (burn_user_by_key key s)) \<and>
    burnt {key} (sv_users s) (sv_users (burn_user_by_key key s))"
  proof (cases "userdb_find key (sv_users s)")
    case None
    then have "burnt {key} (sv_users s) (sv_users s)"
      unfolding burnt_def by (auto dest: userdb_find_cong [of _ key "sv_users s"])
    moreover have "sv_users (burn_user_by_key key s) = sv_users s" "full_writes (burn_user_by_key key s)"
      using None inv(1)
      by (simp_all add: burn_user_by_key_def Let_def full_writes_def unicast_to_key_def split: option.split)
    ultimately show ?thesis using inv(2) by simp
  next
    case (Some rl)
    then obtain r l where rl: "userdb_find key (sv_users s) = Some (r, l)" by (cases rl) simp
    have b: "rec_ok (burn_record r)" using udb.find_acc_ok [OF inv(2) rl] by (simp add: rec_ok_burn)
    have n: "ur_name (burn_record r) = ur_name r" by simp
    have "sv_users (burn_user_by_key key s) = userdb_put l (burn_record r) (sv_users s)"
      using sv_burn_found(1) [OF inv(1,2) rl] by (simp add: burn_user_by_key_def Let_def rl)
    moreover have "full_writes (burn_user_by_key key s)" using sv_burn_found(2) [OF inv(1,2) rl]
      by (simp add: burn_user_by_key_def Let_def rl full_writes_def unicast_to_key_def split: option.split)
    moreover have "burnt {key} (sv_users s) (userdb_put l (burn_record r) (sv_users s))"
      using udb.find_put [OF inv(2) rl b n] userdb_find_cong [of _ key "sv_users s"] rl by (simp add: burnt_def)
    ultimately show ?thesis using udb.put_ok [OF inv(2) rl b] by simp
  qed
  then show "stores_ok (burn_user_by_key key s)" "burnt {key} (sv_users s) (sv_users (burn_user_by_key key s))"
    using purge fs by (simp_all add: stores_ok_def)
qed

lemma burn_all:
  "stores_ok s \<Longrightarrow> \<forall>v \<in> set vs. safe_key v \<Longrightarrow>
   stores_ok (fold burn_user_by_key vs s) \<and> burnt (set vs) (sv_users s) (sv_users (fold burn_user_by_key vs s)) \<and>
   emptied (set vs) (sv_fs s) (sv_fs (fold burn_user_by_key vs s))"
proof (induction vs arbitrary: s)
  case (Cons v vs)
  note b = burn_user_by_key_stores [OF Cons.prems(1), of v]
  have "stores_ok (burn_user_by_key v s)" "\<forall>v \<in> set vs. safe_key v" using b(1) Cons.prems by simp_all
  from Cons.IH [OF this] b Cons.prems(2)
    burnt_burnt [of "{v}" "sv_users s" _ "set vs"] emptied_emptied [of "{v}" "sv_fs s" _ "set vs"]
  show ?case by simp
qed simp

section \<open>Answering a raid\<close>

lemma pending_index_Some:
  "pending_index key ps n = Some i \<Longrightarrow> n \<le> i \<and> i < n + length ps \<and> ps ! (i - n) \<noteq> [] \<and> same_key (ps ! (i - n)) key"
proof (induction ps arbitrary: n)
  case (Cons p ps)
  show ?case
  proof (cases "p \<noteq> [] \<and> c_strncmp_eq MAX_KEY_LEN p key")
    case True
    with Cons.prems show ?thesis by (auto simp: same_key_def)
  next
    case False
    with Cons.prems have "pending_index key ps (Suc n) = Some i" by simp
    from Cons.IH [OF this] show ?thesis by (auto simp: nth_Cons' Suc_diff_Suc)
  qed
qed simp

lemma pending_index_None: "pending_index key ps n = None \<longleftrightarrow> (\<forall>p \<in> set ps. p \<noteq> [] \<longrightarrow> \<not> same_key p key)"
  by (induction ps arbitrary: n) (auto simp: same_key_def)

lemma clear_pending:
  assumes "i < length ps" "ps ! i \<noteq> []" "distinct (filter (\<lambda>k. k \<noteq> []) ps)"
  shows "{k \<in> set (ps[i := []]). k \<noteq> []} = {k \<in> set ps. k \<noteq> []} - {ps ! i}"
proof -
  define xs where "xs = take i ps"
  define ys where "ys = drop (Suc i) ps"
  define k where "k = ps ! i"
  have eq: "ps = xs @ k # ys" "length xs = i"
    using id_take_nth_drop [OF assms(1)] assms(1) by (simp_all add: xs_def ys_def k_def)
  have upd: "ps[i := []] = xs @ [] # ys" using assms(1) by (simp add: upd_conv_take_nth_drop xs_def ys_def)
  have k: "k \<noteq> []" using assms(2) by (simp add: k_def)
  have d: "distinct (filter (\<lambda>k. k \<noteq> []) (xs @ k # ys))" using assms(3) unfolding eq(1) [symmetric] .
  have "set ps = insert k (set xs \<union> set ys)" by (subst eq(1)) auto
  moreover have "k \<notin> set xs" "k \<notin> set ys" using d k by auto
  ultimately show ?thesis using k unfolding k_def [symmetric] upd by auto
qed

text \<open>Whether a key has to answer now.\<close>

definition must_answer :: "key \<Rightarrow> server \<Rightarrow> bool" where
  "must_answer key s \<longleftrightarrow> g_periodic_raid_deadline s \<noteq> 0 \<and> sv_now s < g_periodic_raid_deadline s \<and>
     (\<exists>p \<in> set (g_periodic_raid_pending_keys s). p \<noteq> [] \<and> same_key p key)"

text \<open>C9: The passcode of a raid decides: a player who has to answer and sends the passcode is no longer
  pending, keeps account and documents and gets one confirmation; any other answer burns that player's
  account and empties that player's sandbox, and no other account or document changes and nothing but the news of the
  burn is sent; who has nothing to answer gets one error packet. Keys are plain and writes whole.\<close>
theorem handle_minigame_submit_exact:
  assumes "stores_ok s" "safe_key key" "length (g_periodic_raid_passcode s) < MAX_TEXT_LEN"
  shows "let s' = handle_minigame_submit sock key passcode s in
    if \<not> must_answer key s then s' = send_error sock ERR_INVALID_SESSION txt_no_minigame s
    else (\<exists>i < length (g_periodic_raid_pending_keys s). same_key (g_periodic_raid_pending_keys s ! i) key \<and>
        g_periodic_raid_pending_keys s' = (g_periodic_raid_pending_keys s)[i := []]) \<and>
      (if passcode = g_periodic_raid_passcode s
       then sv_users s' = sv_users s \<and> sv_fs s' = sv_fs s \<and> sv_out s' = sv_out s @ [(sock, Res_minigame_ok)]
       else burnt {key} (sv_users s) (sv_users s') \<and> emptied {key} (sv_fs s) (sv_fs s') \<and>
         sv_out s' = sv_out s @ (case slot_of_key key s of None \<Rightarrow> [] | Some c \<Rightarrow> [(c, Evt_game_over (take 255 txt_burned))]))"
proof (cases "must_answer key s")
  case False
  then have "\<not> (g_periodic_raid_deadline s \<noteq> 0 \<and> sv_now s < g_periodic_raid_deadline s) \<or>
      pending_index key (g_periodic_raid_pending_keys s) 0 = None"
    unfolding pending_index_None by (auto simp: must_answer_def)
  then show ?thesis using False by (auto simp: handle_minigame_submit_def Let_def)
next
  case True
  then have "pending_index key (g_periodic_raid_pending_keys s) 0 \<noteq> None"
    unfolding pending_index_None must_answer_def by blast
  then obtain i where i: "pending_index key (g_periodic_raid_pending_keys s) 0 = Some i" by blast
  note p = pending_index_Some [OF i, simplified]
  let ?s1 = "s\<lparr>g_periodic_raid_pending_keys := (g_periodic_raid_pending_keys s)[i := []]\<rparr>"
  have pc: "c_strncpy 255 (g_periodic_raid_passcode s) = g_periodic_raid_passcode s"
    using assms(3) by (simp add: c_strncpy_id)
  have eq: "handle_minigame_submit sock key passcode s =
      (if passcode = g_periodic_raid_passcode s then packet_send sock Res_minigame_ok ?s1 else burn_user_by_key key ?s1)"
    using True i by (simp add: handle_minigame_submit_def Let_def pc must_answer_def)
  have "stores_ok ?s1" using assms(1) by (simp add: stores_ok_def full_writes_def)
  note b = burn_user_by_key_stores [OF this assms(2)] burn_user_by_key_out [of key ?s1]
  have slot: "slot_of_key key ?s1 = slot_of_key key s" by (simp add: slot_of_key_def)
  have notnot: "P \<Longrightarrow> \<not> \<not> P" for P by simp
  show ?thesis
  proof (cases "passcode = g_periodic_raid_passcode s")
    case ok: True
    have "g_periodic_raid_pending_keys (packet_send sock Res_minigame_ok ?s1) = (g_periodic_raid_pending_keys s)[i := []]"
      by (simp add: packet_send_def)
    then show ?thesis using p unfolding Let_def eq if_not_P [OF notnot [OF True]] if_P [OF ok]
      by (intro conjI exI [of _ i]) simp_all
  next
    case bad: False
    then show ?thesis using p b unfolding Let_def eq if_not_P [OF notnot [OF True]] if_not_P [OF bad] slot
      by (intro conjI exI [of _ i]) simp_all
  qed
qed

text \<open>A raid on the first of two players, before its deadline.\<close>

definition raided_server :: server where
  "raided_server = sample_server\<lparr>g_periodic_raid_deadline := 1015, g_periodic_raid_passcode := ''EXIT'',
     g_periodic_raid_pending_keys := [''neo'', ''trinity'', [], [], [], [], [], [], [], []]\<rparr>"

lemma raided_server_ok: "stores_ok raided_server" "must_answer ''neo'' raided_server"
  using sample_server_ok
  by (simp_all add: raided_server_def stores_ok_def trade_ok_def full_writes_def must_answer_def sample_server_def same_key_def)

theorem handle_minigame_submit_exact_witness:
  "burnt {''neo''} (sv_users raided_server) (sv_users (handle_minigame_submit 5 ''neo'' ''exit'' raided_server))"
  using handle_minigame_submit_exact [OF raided_server_ok(1) sample_safe(1), of 5 "''exit''"] raided_server_ok(2)
  by (simp add: Let_def) (simp add: raided_server_def)

section \<open>The timeout\<close>

abbreviation pending_set :: "server \<Rightarrow> key set" where
  "pending_set s \<equiv> {k \<in> set (g_periodic_raid_pending_keys s). k \<noteq> []}"

lemma game_over_sent:
  "k \<in> set vs \<Longrightarrow> slot_of_key k s = Some c \<Longrightarrow> (c, Evt_game_over (take 255 txt_burned)) \<in> set (sv_out (fold burn_user_by_key vs s))"
proof (induction vs arbitrary: s)
  case (Cons v vs)
  have keep: "set (sv_out t) \<subseteq> set (sv_out (fold burn_user_by_key ws t))" for ws t
    by (induction ws arbitrary: t) (force simp: burn_user_by_key_out)+
  have slot: "slot_of_key k (burn_user_by_key v s) = slot_of_key k s" by (simp add: slot_of_key_def)
  show ?case
  proof (cases "k = v")
    case True
    then have "(c, Evt_game_over (take 255 txt_burned)) \<in> set (sv_out (burn_user_by_key v s))"
      using Cons.prems(2) by (simp add: burn_user_by_key_out)
    then show ?thesis using keep [of "burn_user_by_key v s" vs] by auto
  qed (use Cons slot in auto)
qed simp

lemma timeout_eq:
  assumes "\<forall>k \<in> pending_set s. safe_key k"
  shows "periodic_raid_timeout_thread s = fold burn_user_by_key (filter (\<lambda>k. k \<noteq> []) (g_periodic_raid_pending_keys s))
    (s\<lparr>g_periodic_raid_pending_keys := no_pending, g_periodic_raid_deadline := 0\<rparr>)"
proof -
  have "map (c_strncpy (MAX_KEY_LEN - 1)) (filter (\<lambda>k. k \<noteq> []) (g_periodic_raid_pending_keys s)) =
      filter (\<lambda>k. k \<noteq> []) (g_periodic_raid_pending_keys s)"
    using assms by (intro map_idI) (auto simp: c_strncpy_def safe_key_def)
  then show ?thesis by (simp add: periodic_raid_timeout_thread_def Let_def)
qed

lemma timeout_props:
  assumes "stores_ok s" "\<forall>k \<in> pending_set s. safe_key k"
  shows "stores_ok (periodic_raid_timeout_thread s)"
    "burnt (pending_set s) (sv_users s) (sv_users (periodic_raid_timeout_thread s))"
    "emptied (pending_set s) (sv_fs s) (sv_fs (periodic_raid_timeout_thread s))"
    "g_periodic_raid_pending_keys (periodic_raid_timeout_thread s) = no_pending"
    "g_periodic_raid_deadline (periodic_raid_timeout_thread s) = 0"
proof -
  let ?s = "s\<lparr>g_periodic_raid_pending_keys := no_pending, g_periodic_raid_deadline := 0\<rparr>"
  let ?vs = "filter (\<lambda>k. k \<noteq> []) (g_periodic_raid_pending_keys s)"
  have set: "set ?vs = pending_set s" by auto
  have "stores_ok ?s" using assms(1) by (simp add: stores_ok_def full_writes_def)
  from burn_all [OF this, of ?vs] assms(2)
  show "stores_ok (periodic_raid_timeout_thread s)"
    "burnt (pending_set s) (sv_users s) (sv_users (periodic_raid_timeout_thread s))"
    "emptied (pending_set s) (sv_fs s) (sv_fs (periodic_raid_timeout_thread s))"
    unfolding timeout_eq [OF assms(2)] set by simp_all
  have frame: "g_periodic_raid_pending_keys (fold burn_user_by_key vs t) = g_periodic_raid_pending_keys t \<and>
      g_periodic_raid_deadline (fold burn_user_by_key vs t) = g_periodic_raid_deadline t" for vs t
    by (induction vs arbitrary: t) simp_all
  then show "g_periodic_raid_pending_keys (periodic_raid_timeout_thread s) = no_pending"
    "g_periodic_raid_deadline (periodic_raid_timeout_thread s) = 0"
    unfolding timeout_eq [OF assms(2)] by simp_all
qed

text \<open>When the time is up every player who has not answered is burned and loses every document, nobody
  else's account or document changes, each of them who is connected is told, and no raid is running.\<close>
theorem periodic_raid_timeout_exact:
  assumes "stores_ok s" "\<forall>k \<in> pending_set s. safe_key k"
  shows "let s' = periodic_raid_timeout_thread s; V = pending_set s in
    burnt V (sv_users s) (sv_users s') \<and> emptied V (sv_fs s) (sv_fs s') \<and>
    (\<forall>k \<in> V. \<forall>c. slot_of_key k s = Some c \<longrightarrow> (c, Evt_game_over (take 255 txt_burned)) \<in> set (sv_out s')) \<and>
    g_periodic_raid_deadline s' = 0 \<and> (\<forall>k. \<not> must_answer k s')"
proof -
  let ?s = "s\<lparr>g_periodic_raid_pending_keys := no_pending, g_periodic_raid_deadline := 0\<rparr>"
  have "slot_of_key k ?s = slot_of_key k s" for k by (simp add: slot_of_key_def)
  then have "\<forall>k \<in> pending_set s. \<forall>c. slot_of_key k s = Some c \<longrightarrow>
      (c, Evt_game_over (take 255 txt_burned)) \<in> set (sv_out (periodic_raid_timeout_thread s))"
    unfolding timeout_eq [OF assms(2)] using game_over_sent [of _ _ ?s] by simp
  then show ?thesis using timeout_props [OF assms] by (simp add: Let_def must_answer_def)
qed

theorem periodic_raid_timeout_exact_witness:
  "burnt {''neo'', ''trinity''} (sv_users raided_server) (sv_users (periodic_raid_timeout_thread raided_server))"
proof -
  have p: "pending_set raided_server = {''neo'', ''trinity''}" by (auto simp: raided_server_def)
  then show ?thesis using periodic_raid_timeout_exact [OF raided_server_ok(1)] by (simp add: Let_def)
qed

text \<open>A player who answers a raid with its passcode survives it: after the timeout the account and the
  documents are what they were before the answer, while every other pending player is burned.\<close>
theorem raid_survivor_keeps_account:
  assumes "stores_ok s" "safe_key key" "length (g_periodic_raid_passcode s) < MAX_TEXT_LEN" "must_answer key s"
    and "\<forall>k \<in> pending_set s. safe_key k" "distinct (filter (\<lambda>k. k \<noteq> []) (g_periodic_raid_pending_keys s))"
  shows "let s' = periodic_raid_timeout_thread (handle_minigame_submit sock key (g_periodic_raid_passcode s) s) in
    userdb_find key (sv_users s') = userdb_find key (sv_users s) \<and>
    (\<forall>d. doc_at (sv_fs s') (Box key d) = doc_at (sv_fs s) (Box key d)) \<and>
    burnt (pending_set s - {key}) (sv_users s) (sv_users s')"
proof -
  let ?ps = "g_periodic_raid_pending_keys s"
  obtain i where i: "pending_index key ?ps 0 = Some i"
    using assms(4) pending_index_None [of key ?ps 0] by (fastforce simp: must_answer_def)
  note p = pending_index_Some [OF i, simplified]
  have eq_iff: "same_key a b \<longleftrightarrow> a = b" if "safe_key a" "safe_key b" for a b
    using that by (simp add: same_key_def safe_key_def c_strncmp_eq_iff)
  have pi: "?ps ! i = key" using eq_iff [of "?ps ! i" key] p assms(2,5) by auto
  let ?s1 = "packet_send sock Res_minigame_ok (s\<lparr>g_periodic_raid_pending_keys := ?ps[i := []]\<rparr>)"
  have "c_strncpy 255 (g_periodic_raid_passcode s) = g_periodic_raid_passcode s" using assms(3) by (simp add: c_strncpy_id)
  then have eq: "handle_minigame_submit sock key (g_periodic_raid_passcode s) s = ?s1"
    using assms(4) i by (simp add: handle_minigame_submit_def Let_def must_answer_def)
  have V: "pending_set ?s1 = pending_set s - {key}"
    using clear_pending [of i ?ps] p assms(6) pi by (simp add: packet_send_def)
  have "stores_ok ?s1" using assms(1) by (simp add: stores_ok_def full_writes_def)
  note t = timeout_props [OF this]
  have "\<forall>k \<in> pending_set ?s1. safe_key k" unfolding V using assms(5) by blast
  note t = t(2,3) [OF this, unfolded V]
  have "\<not> (\<exists>v \<in> pending_set s - {key}. same_key key v)" using assms(2,5) eq_iff by auto
  then show ?thesis using t unfolding Let_def eq by (simp add: burnt_def emptied_def)
qed

theorem raid_survivor_keeps_account_witness:
  "userdb_find ''neo'' (sv_users (periodic_raid_timeout_thread (handle_minigame_submit 5 ''neo'' ''EXIT'' raided_server))) =
   userdb_find ''neo'' (sv_users raided_server)"
proof -
  have "g_periodic_raid_passcode raided_server = ''EXIT''" by (simp add: raided_server_def)
  moreover have "\<forall>k \<in> pending_set raided_server. safe_key k" by (auto simp: raided_server_def)
  moreover have "distinct (filter (\<lambda>k. k \<noteq> []) (g_periodic_raid_pending_keys raided_server))" by (simp add: raided_server_def)
  ultimately show ?thesis
    using raid_survivor_keeps_account [OF raided_server_ok(1) sample_safe(1) _ raided_server_ok(2), of 5] by (simp add: Let_def)
qed

section \<open>A burn in the middle of a purchase\<close>

text \<open>C17: A burn is lost when it falls between the lookup and the write of \<open>handle_buy\<close>: for a purchase whose checks
  have passed (by a plain key with a box, of a document whose file is in the shop), the burn of the buyer at that moment marks the account as burned, and the rest of the handler, which
  still holds the record it read before, then writes it back with the price taken off: the account is alive again,
  with its old balance less the price, and the document is in its box. The stores are well formed and their writes
  whole.\<close>
theorem purchase_undoes_burn:
  assumes "trade_ok s" "safe_key key" "int32_range d" "has_box key (sv_fs s)" "doc_at (sv_fs s) (Shop d) \<noteq> None"
    and "market_find d (sv_market s) = Some slot" "\<not> ms_is_frozen slot" "sandbox_count key (sv_fs s) < 7"
    and "userdb_find key (sv_users s) = Some (r, l)" "ms_base_price slot \<le> ur_money r"
  shows "let s1 = burn_user_by_key key s; s2 = buy_commit sock key d r l s1 in
    handle_buy sock key d s = buy_commit sock key d r l s \<and>
    userdb_find key (sv_users s1) = Some (burn_record r, l) \<and> userdb_is_burned (burn_record r) \<and>
    userdb_find key (sv_users s2) = Some (r\<lparr>ur_money := ur_money r - ms_base_price slot\<rparr>, l) \<and>
    \<not> userdb_is_burned (r\<lparr>ur_money := ur_money r - ms_base_price slot\<rparr>) \<and>
    doc_at (sv_fs s2) (Box key d) = doc_at (sv_fs s) (Shop d)"
proof -
  let ?s1 = "burn_user_by_key key s" and ?r = "r\<lparr>ur_money := ur_money r - ms_base_price slot\<rparr>"
  note inv = assms(1) [unfolded trade_ok_def fair_board_def]
  have ok: "stores_ok s" using inv by (simp add: stores_ok_def)
  note burn = burn_user_by_key_stores [OF ok assms(2)]
  have now: "handle_buy sock key d s = buy_commit sock key d r l s"
    using assms(6-10) by (simp add: handle_buy_def)
  have find1: "userdb_find key (sv_users ?s1) = Some (burn_record r, l)"
    using burn(2) assms(9) by (simp add: burnt_def same_key_def c_strncmp_eq_def)
  have fs1: "sv_fs ?s1 = sandbox_purge_user key (sv_fs s)"
    by (simp add: burn_user_by_key_def Let_def split: option.split prod.split)
  have box1: "sandbox_ok (sv_fs ?s1)" "has_box key (sv_fs ?s1)" "doc_at (sv_fs ?s1) (Shop d) = doc_at (sv_fs s) (Shop d)"
    using sandbox_purge_user_at [of "sv_fs s" key] sandbox_purge_user_eq [of "sv_fs s" key] inv assms(2,4) by (simp_all add: fs1)
  obtain bs where bs: "doc_at (sv_fs ?s1) (Shop d) = Some bs" using box1(3) assms(5) by auto
  obtain f where f: "sandbox_buy key d (sv_fs ?s1) = (True, f)" "doc_at f = (doc_at (sv_fs ?s1))(Shop d := None, Box key d \<mapsto> bs)"
    using box.buy_some [OF box1(1) assms(2,3) box1(2) bs, of key] by blast
  obtain m where take: "market_take d (sv_market s) = (Inr slot, m)"
    by (rule market_take_found [of "sv_market s" d slot]) (use inv assms(6,7) in auto)
  let ?s2 = "?s1\<lparr>sv_market := m, sv_fs := f\<rparr>"
  have ok2: "full_writes ?s2" "db_ok (sv_users ?s2)" "userdb_find key (sv_users ?s2) = Some (burn_record r, l)"
    using burn(1) find1 by (simp_all add: stores_ok_def full_writes_def)
  have "0 \<le> ms_base_price slot" using inv market_find_mem [OF assms(6)] by simp
  moreover have "rec_ok r" using udb.find_acc_ok [OF _ assms(9)] inv by simp
  ultimately have r: "rec_ok ?r" using assms(10) by (auto simp: rec_ok_def int32_range_def)
  have name: "ur_name ?r = ur_name (burn_record r)" by simp
  have "userdb_find key (sv_users (sv_update_at l ?r ?s2)) = Some (?r, l)"
    unfolding sv_update_found(1) [OF ok2 r] by (rule udb.find_put_same [OF ok2(2,3) r name])
  moreover have "buy_commit sock key d r l ?s1 = broadcast_packet (Evt_market_remove d)
      (packet_send sock (Res_buy_ok d (ur_money ?r) (ms_tags slot) (c_strncpy (MAX_NAME_LEN - 1) (ms_name slot))) (sv_update_at l ?r ?s2))"
    using take f(1) by (simp add: buy_commit_def Let_def)
  ultimately have "userdb_find key (sv_users (buy_commit sock key d r l ?s1)) = Some (?r, l)"
    "doc_at (sv_fs (buy_commit sock key d r l ?s1)) (Box key d) = doc_at (sv_fs s) (Shop d)"
    using f(2) bs box1(3) by simp_all
  moreover have "userdb_is_burned (burn_record r)" "\<not> userdb_is_burned ?r"
    using assms(10) by (simp_all add: userdb_is_burned_def burn_record_def)
  ultimately show ?thesis using now find1 by (simp add: Let_def)
qed

theorem purchase_undoes_burn_witness:
  "let s1 = burn_user_by_key ''neo'' sample_server; s2 = buy_commit 5 ''neo'' 124 sample_record 0 s1 in
    userdb_find ''neo'' (sv_users s1) = Some (burn_record sample_record, 0) \<and>
    userdb_find ''neo'' (sv_users s2) = Some (sample_record\<lparr>ur_money := 200\<rparr>, 0)"
proof -
  have d: "int32_range 124" by (simp add: int32_range_def)
  have fs: "has_box ''neo'' (sv_fs sample_server)" "doc_at (sv_fs sample_server) (Shop 124) \<noteq> None" by (simp_all add: sample_server_def)
  have "docs_in (Some ''neo'') sample_fs = {}" using sample_docs by (auto simp: docs_in_def docs_loc_def)
  then have count: "sandbox_count ''neo'' (sv_fs sample_server) < 7"
    using sandbox_count_eq [OF sample_fs_ok sample_safe(1)] by (simp add: sample_server_def)
  have slot: "market_find 124 (sv_market sample_server) = Some (market_new_slot 0 7 0 124 18 800 ''report'')"
    by (simp add: sample_server_def sample_market_def market_find_def)
  have acc: "userdb_find ''neo'' (sv_users sample_server) = Some (sample_record, 0)" by (simp add: sample_server_def sample_find)
  from purchase_undoes_burn [OF sample_server_ok sample_safe(1) d fs slot _ count acc]
  show ?thesis by (simp add: Let_def market_new_slot_def) (simp add: sample_record_def)
qed

section \<open>Starting a raid\<close>

lemma pick_raid_passcode_mem: "fst (pick_raid_passcode s) \<in> set RAID_PASSCODES" "length (fst (pick_raid_passcode s)) < MAX_TEXT_LEN"
proof -
  show m: "fst (pick_raid_passcode s) \<in> set RAID_PASSCODES"
  proof -
    have "0 < length RAID_PASSCODES" by (simp add: RAID_PASSCODES_def)
    then show ?thesis by (simp add: pick_raid_passcode_def split: prod.split)
  qed
  have "\<forall>p \<in> set RAID_PASSCODES. length p < MAX_TEXT_LEN" by (simp add: RAID_PASSCODES_def)
  with m show "length (fst (pick_raid_passcode s)) < MAX_TEXT_LEN" by blast
qed

lemma pick_raid_frame [simp]:
  "snd (pick_raid_passcode s) = s\<lparr>sv_rands := tl (sv_rands s)\<rparr>"
  by (cases "sv_rands s") (simp_all add: pick_raid_passcode_def draw_def)

lemma online_keys_nonempty: "k \<in> set (online_keys s) \<Longrightarrow> k \<noteq> []"
  by (auto simp: online_keys_def c_strncpy_def)

text \<open>The state in which a raid runs: its passcode is one of the sixteen, its deadline 15 seconds ahead, and
  exactly the given keys have to answer.\<close>

definition raiding :: "key set \<Rightarrow> server \<Rightarrow> server \<Rightarrow> bool" where
  "raiding V s s' \<longleftrightarrow> g_periodic_raid_passcode s' \<in> set RAID_PASSCODES \<and>
     g_periodic_raid_deadline s' = sv_now s + 15 \<and> pending_set s' = V \<and>
     sv_threads s' = sv_threads s @ [(sv_now s, Periodic_raid_timeout)]"

text \<open>Nothing but the raid's own fields, the random numbers, the threads and the packets may differ.\<close>

definition raid_frame :: "server \<Rightarrow> server \<Rightarrow> bool" where
  "raid_frame s s' \<longleftrightarrow> sv_users s' = sv_users s \<and> sv_fs s' = sv_fs s \<and> sv_market s' = sv_market s \<and>
     client_sockets s' = client_sockets s \<and> active_keys s' = active_keys s \<and> g_goal_money s' = g_goal_money s \<and>
     g_escaped_count s' = g_escaped_count s \<and> g_round_end_active s' = g_round_end_active s \<and> sv_now s' = sv_now s"

text \<open>A police raid puts every player who is logged in, and nobody else, under a 15 second deadline and
  sends every client the passcode; while one runs a second is not started; without players, or when its
  timer thread cannot be created, no raid is left running; and no account, document or board changes.\<close>
theorem fire_periodic_police_raid_exact:
  "let s' = fire_periodic_police_raid s; V = set (online_keys s) in
    raid_frame s s' \<and>
    (if g_periodic_raid_deadline s \<noteq> 0 then s' = s
     else if V = {} then g_periodic_raid_deadline s' = 0 \<and> pending_set s' = {} \<and> sv_out s' = sv_out s
     else if sv_creates s \<noteq> [] \<and> \<not> hd (sv_creates s) then g_periodic_raid_deadline s' = 0 \<and> pending_set s' = {}
     else raiding V s s' \<and>
       set (sv_out s') \<supseteq> {(k, Evt_police_raid (g_periodic_raid_passcode s') 15) | k. k \<in> set (client_sockets s) \<and> k \<noteq> 0})"
proof (cases "g_periodic_raid_deadline s = 0")
  case False
  then show ?thesis by (simp add: fire_periodic_police_raid_def raid_frame_def)
next
  case True
  obtain pc where pc: "pick_raid_passcode s = (pc, s\<lparr>sv_rands := tl (sv_rands s)\<rparr>)"
    by (metis pick_raid_frame prod.collapse)
  have mem: "pc \<in> set RAID_PASSCODES" "c_strncpy 255 pc = pc"
    using pick_raid_passcode_mem [of s] by (simp_all add: pc c_strncpy_id)
  have on: "online_keys (s\<lparr>sv_rands := tl (sv_rands s)\<rparr>) = online_keys s" by (simp add: online_keys_def)
  have p: "{k \<in> set (online_keys s @ replicate n []). k \<noteq> []} = set (online_keys s)" for n
    using online_keys_nonempty by (auto split: if_splits)
  note raid_defs = fire_periodic_police_raid_def pc on Let_def broadcast_packet_def pthread_create_def raid_frame_def
    raiding_def no_pending_def
  consider "online_keys s = []" | "online_keys s \<noteq> []" "sv_creates s = []" |
    b bs where "online_keys s \<noteq> []" "sv_creates s = b # bs"
    by (cases "sv_creates s") auto
  then show ?thesis
  proof cases
    case 1
    then show ?thesis using True by (simp add: raid_defs)
  next
    case 2
    then show ?thesis using True mem p [of "MAX_CLIENTS - length (online_keys s)"] by (simp add: raid_defs) blast
  next
    case 3
    then show ?thesis using True mem p [of "MAX_CLIENTS - length (online_keys s)"] by (cases b) (simp_all add: raid_defs, blast)
  qed
qed

text \<open>The debug raid reaches its requester only: it starts the same 15 second deadline for that key alone and
  sends the passcode to that client alone; while a raid runs the request is refused and changes nothing.\<close>
theorem fire_self_police_raid_exact:
  assumes "key \<noteq> []" "length key < MAX_KEY_LEN"
  shows "let s' = fire_self_police_raid sock key s in
    raid_frame s s' \<and>
    (if g_periodic_raid_deadline s \<noteq> 0 then s' = send_error sock ERR_INVALID_SESSION txt_raid_running s
     else if sv_creates s \<noteq> [] \<and> \<not> hd (sv_creates s) then g_periodic_raid_deadline s' = 0 \<and> pending_set s' = {}
     else raiding {key} s s' \<and> sv_out s' = sv_out s @ [(sock, Evt_police_raid (g_periodic_raid_passcode s') 15)])"
proof (cases "g_periodic_raid_deadline s = 0")
  case False
  then show ?thesis by (simp add: fire_self_police_raid_def raid_frame_def send_error_def packet_send_def)
next
  case True
  obtain pc where pc: "pick_raid_passcode s = (pc, s\<lparr>sv_rands := tl (sv_rands s)\<rparr>)"
    by (metis pick_raid_frame prod.collapse)
  have mem: "pc \<in> set RAID_PASSCODES" "c_strncpy 255 pc = pc" "c_strncpy 31 key = key"
    using pick_raid_passcode_mem [of s] assms(2) by (simp_all add: pc c_strncpy_id)
  have p: "{k \<in> set (no_pending[0 := key]). k \<noteq> []} = {key}"
    using assms(1) by (auto simp: no_pending_def numeral_eq_Suc)
  show ?thesis
    using True mem p
    by (cases "sv_creates s")
      (auto simp: fire_self_police_raid_def pc Let_def packet_send_def pthread_create_def raid_frame_def
        raiding_def no_pending_def send_error_def)
qed

theorem fire_self_police_raid_exact_witness:
  "raiding {''neo''} sample_server (fire_self_police_raid 5 ''neo'' sample_server)"
  using fire_self_police_raid_exact [of "''neo''" 5 sample_server] by (simp add: Let_def) (simp add: sample_server_def)

end
