(* ===== verification/Events.thy ===== *)
theory Events
  imports Raid
begin

text \<open>
  \<open>src/server/events.c\<close>: the event thread that spawns documents and orders, ages the boards, freezes
  tags by a public leak and lifts the freeze later, and starts raids and the end of a round. Where a
  thread sleeps it is cut in two, and what the rest of the server does meanwhile is a parameter.
\<close>

abbreviation EVT_NPC_HINT_DELAY :: int where "EVT_NPC_HINT_DELAY \<equiv> 8"
abbreviation EVT_NPC_MAX_AGE_SEC :: int where "EVT_NPC_MAX_AGE_SEC \<equiv> 140"
abbreviation EVT_NPC_AGE_STEP_SEC :: int where "EVT_NPC_AGE_STEP_SEC \<equiv> 30"
abbreviation EVT_TICK_SEC :: int where "EVT_TICK_SEC \<equiv> 5"
abbreviation EVT_MARKET_EVERY :: nat where "EVT_MARKET_EVERY \<equiv> 1"
abbreviation EVT_NPC_EVERY :: nat where "EVT_NPC_EVERY \<equiv> 3"
abbreviation EVT_LEAK_EVERY :: nat where "EVT_LEAK_EVERY \<equiv> 24"
abbreviation LEAK_PROB_PCT :: nat where "LEAK_PROB_PCT \<equiv> 35"
abbreviation LEAK_DUR_MIN_SEC :: int where "LEAK_DUR_MIN_SEC \<equiv> 180"
abbreviation LEAK_DUR_MAX_SEC :: int where "LEAK_DUR_MAX_SEC \<equiv> 300"
abbreviation CAP_GRACE_SEC :: int where "CAP_GRACE_SEC \<equiv> 300"

section \<open>Names\<close>

definition TAG_LIST :: "tags list" where
  "TAG_LIST = map tag_bit [TAG_CORP_A, TAG_CORP_B, TAG_CORP_C, TAG_CUSTOMER, TAG_FINANCE, TAG_MILITARY,
     TAG_GOVERNMENT, TAG_MEDICAL, TAG_RESEARCH, TAG_PERSONAL, TAG_CORP_D, TAG_CORP_E]"

definition first_tag_index :: "tags \<Rightarrow> nat" where
  "first_tag_index tags =
     (case find (\<lambda>i. tags AND TAG_LIST ! i \<noteq> 0) [0..<length TAG_LIST] of Some i \<Rightarrow> i | None \<Rightarrow> 0)"

definition has_tag :: "tags \<Rightarrow> tag \<Rightarrow> bool" where
  "has_tag tags t \<longleftrightarrow> tags AND tag_bit t \<noteq> 0"

text \<open>The name before truncation, as a function of the two values drawn.\<close>

definition doc_name_text :: "tags \<Rightarrow> nat \<Rightarrow> nat \<Rightarrow> string" where
  "doc_name_text tags r_ext r_name =
     (let first_idx = first_tag_index tags; ext = EXTENSIONS ! (r_ext mod 7) in
      if count_bits tags = 1 then SINGLE_NAMES ! first_idx ! (r_name mod 3) @ ext
      else if has_tag tags TAG_CORP_A \<and> has_tag tags TAG_MILITARY then txt_doc_a_mil ext
      else if has_tag tags TAG_CORP_B \<and> has_tag tags TAG_MEDICAL then txt_doc_b_med ext
      else if has_tag tags TAG_CORP_C \<and> has_tag tags TAG_RESEARCH then txt_doc_c_res ext
      else if has_tag tags TAG_CORP_D \<and> has_tag tags TAG_MILITARY then txt_doc_d_mil ext
      else if has_tag tags TAG_CORP_E \<and> has_tag tags TAG_RESEARCH then txt_doc_e_res ext
      else if has_tag tags TAG_FINANCE \<and> has_tag tags TAG_CUSTOMER then txt_doc_fin_cus ext
      else if has_tag tags TAG_GOVERNMENT \<and> has_tag tags TAG_PERSONAL then txt_doc_gov_per ext
      else if has_tag tags TAG_RESEARCH \<and> has_tag tags TAG_MILITARY then txt_doc_res_mil ext
      else
        (case find (\<lambda>i. tags AND TAG_LIST ! i \<noteq> 0 \<and> i \<noteq> first_idx) [0..<length TAG_LIST] of
           Some second_idx \<Rightarrow> txt_doc_two (TAG_SHORT ! first_idx) (TAG_SHORT ! second_idx) ext
         | None \<Rightarrow> txt_doc_one (TAG_SHORT ! first_idx) ext))"

text \<open>A second value is drawn for a single tag only.\<close>

definition make_doc_name :: "tags \<Rightarrow> nat \<Rightarrow> server \<Rightarrow> string \<times> server" where
  "make_doc_name tags sz s =
     (case draw s of (r_ext, s1) \<Rightarrow>
        if count_bits tags = 1 then
          (case draw s1 of (r_name, s2) \<Rightarrow> (c_snprintf sz (doc_name_text tags r_ext r_name), s2))
        else (c_snprintf sz (doc_name_text tags r_ext 0), s1))"

section \<open>Random tags\<close>

fun shuffle_loop :: "nat \<Rightarrow> nat \<Rightarrow> tags list \<Rightarrow> server \<Rightarrow> tags list \<times> server" where
  "shuffle_loop i 0 pool s = (pool, s)"
| "shuffle_loop i (Suc n) pool s =
     (case draw s of (r, s1) \<Rightarrow>
        let j = i + r mod (length pool - i) in shuffle_loop (Suc i) n (pool[i := pool ! j, j := pool ! i]) s1)"

definition event_random_tags :: "server \<Rightarrow> tags \<times> server" where
  "event_random_tags s =
     (let frozen = market_frozen_mask (sv_market s);
          avail = filter (\<lambda>t. \<not> (t AND frozen \<noteq> 0)) TAG_LIST;
          avail_cnt = length avail
      in
      if avail_cnt = 0 then (0, s)
      else
        case draw s of (r, s1) \<Rightarrow>
          let pick = (if r mod 3 + 1 > avail_cnt then avail_cnt else r mod 3 + 1) in
          case shuffle_loop 0 pick avail s1 of
            (pool, s2) \<Rightarrow> (fold (\<lambda>t result. result OR t) (take pick pool) 0, s2))"

section \<open>Spawning\<close>

definition event_spawn_market :: "server \<Rightarrow> server" where
  "event_spawn_market s =
     (if market_is_full (sv_market s) then s
      else
        case event_random_tags s of (tags, s1) \<Rightarrow>
          if tags = 0 then s1
          else
            let doc_id = g_doc_id_counter s1 + 1;
                s2 = s1\<lparr>g_doc_id_counter := doc_id\<rparr>
            in
            case draw s2 of (r, s3) \<Rightarrow>
              let price = count_bits tags * MARKET_PRICE_PER_TAG + int r mod 4 * 100 in
              case make_doc_name tags MAX_NAME_LEN s3 of (name, s4) \<Rightarrow>
                let doc = \<lparr>df_doc_id = doc_id, df_tags = tags, df_base_price = price, df_name = cbuf MAX_NAME_LEN name\<rparr> in
                case sv_master_write doc s4 of (written, s5) \<Rightarrow>
                  if \<not> written then s5
                  else
                    case sv_market_add doc_id tags price name s5 of (added, s6) \<Rightarrow>
                      if \<not> added then s6\<lparr>sv_fs := snd (master_remove_doc doc_id (sv_fs s6))\<rparr>
                      else broadcast_packet (Evt_market_spawn doc_id tags price (c_strncpy (MAX_NAME_LEN - 1) name)) s6)"

text \<open>\<open>event_do_npc_sequence\<close> up to its \<open>sleep\<close>: the tags of the coming order, or \<open>None\<close>.\<close>

definition npc_hint :: "server \<Rightarrow> tags option \<times> server" where
  "npc_hint s =
     (if npc_is_full (sv_market s) then (None, s)
      else
        case event_random_tags s of (req_tags, s1) \<Rightarrow>
          if req_tags = 0 then (None, s1)
          else
            case draw s1 of (r, s2) \<Rightarrow>
              (Some req_tags, broadcast_packet (chat_evt txt_news_sender
                 (c_strncpy (MAX_TEXT_LEN - 1) (NPC_HINT ! first_tag_index req_tags ! (r mod 3)))) s2))"

definition npc_bounty :: "tags \<Rightarrow> nat \<Rightarrow> int" where
  "npc_bounty req_tags r =
     (let tagn = count_bits req_tags;
          roll = int r mod 5;
          roll = (if tagn = 1 \<and> roll > 2 then 2 else roll);
          bounty = (roll + tagn) * 500
      in if tagn \<ge> 3 then bounty + 1500 else bounty)"

definition npc_spawn :: "tags \<Rightarrow> server \<Rightarrow> server" where
  "npc_spawn req_tags s =
     (let npc_id = g_npc_id_counter s + 1; s1 = s\<lparr>g_npc_id_counter := npc_id\<rparr> in
      case draw s1 of (r, s2) \<Rightarrow>
        case sv_npc_add npc_id req_tags (npc_bounty req_tags r) s2 of (ok, s3) \<Rightarrow>
          if \<not> ok then s3
          else broadcast_packet (Evt_npc_spawn npc_id req_tags (npc_bounty req_tags r)) s3)"

definition event_do_npc_sequence :: "(server \<Rightarrow> server) \<Rightarrow> server \<Rightarrow> server" where
  "event_do_npc_sequence meanwhile s =
     (case npc_hint s of (req, s1) \<Rightarrow>
        (case req of None \<Rightarrow> s1 | Some req_tags \<Rightarrow> npc_spawn req_tags (meanwhile s1)))"

section \<open>Ageing\<close>

definition event_age_npcs :: "server \<Rightarrow> server" where
  "event_age_npcs s =
     (case npc_despawn_aged (sv_now s) EVT_NPC_MAX_AGE_SEC EVT_NPC_AGE_STEP_SEC MAX_NPC_SLOTS (sv_market s) of
        (expired, m) \<Rightarrow> fold (\<lambda>npc_id. broadcast_packet (Evt_npc_despawn npc_id)) expired (s\<lparr>sv_market := m\<rparr>))"

definition expire_doc :: "int \<Rightarrow> server \<Rightarrow> server" where
  "expire_doc doc_id s =
     broadcast_packet (Evt_market_remove doc_id) (s\<lparr>sv_fs := snd (master_remove_doc doc_id (sv_fs s))\<rparr>)"

definition event_age_market :: "server \<Rightarrow> server" where
  "event_age_market s =
     (case market_despawn_aged (sv_now s) MAX_MARKET_SLOTS (sv_market s) of
        (expired, m) \<Rightarrow> fold expire_doc expired (s\<lparr>sv_market := m\<rparr>))"

section \<open>Public leaks\<close>

definition leak_recovery_thread :: "tags \<Rightarrow> server \<Rightarrow> server" where
  "leak_recovery_thread leaked s =
     broadcast_packet (Evt_news_recover leaked) (s\<lparr>sv_market := unfreeze_tags leaked (sv_market s)\<rparr>)"

text \<open>\<open>malloc_ok\<close>: whether the argument of the recovery thread could be allocated.\<close>

definition fire_public_leak :: "bool \<Rightarrow> server \<Rightarrow> bool \<times> server" where
  "fire_public_leak malloc_ok s =
     (let frozen = market_frozen_mask (sv_market s);
          present = market_active_tags (sv_market s);
          avail_idx = filter (\<lambda>i. TAG_LIST ! i AND present \<noteq> 0 \<and> \<not> (TAG_LIST ! i AND frozen \<noteq> 0)) [0..<length TAG_LIST];
          avail_cnt = length avail_idx
      in
      if avail_cnt = 0 then (False, s)
      else
        case draw s of (r1, s1) \<Rightarrow>
          let pick = avail_idx ! (r1 mod avail_cnt); leaked = TAG_LIST ! pick in
          case draw s1 of (r2, s2) \<Rightarrow>
            let duration = LEAK_DUR_MIN_SEC + int r2 mod (LEAK_DUR_MAX_SEC - LEAK_DUR_MIN_SEC + 1);
                s3 = s2\<lparr>sv_market := freeze_tags leaked (sv_market s2)\<rparr>
            in
            case draw s3 of (r3, s4) \<Rightarrow>
              let s5 = broadcast_packet (Evt_news_leak leaked duration
                         (c_strncpy (MAX_TEXT_LEN - 1) (LEAK_HEADLINE ! pick ! (r3 mod 3)))) s4
              in
              if \<not> malloc_ok then (False, s5\<lparr>sv_market := unfreeze_tags leaked (sv_market s5)\<rparr>)
              else
                case pthread_create (Leak_recovery leaked duration) s5 of
                  (ok, s6) \<Rightarrow>
                    if ok then (True, s6)
                    else (False, s6\<lparr>sv_market := unfreeze_tags leaked (sv_market s6)\<rparr>))"

definition event_try_public_leak :: "bool \<Rightarrow> server \<Rightarrow> server" where
  "event_try_public_leak malloc_ok s =
     (case draw s of (r, s1) \<Rightarrow> if r mod 100 < LEAK_PROB_PCT then snd (fire_public_leak malloc_ok s1) else s1)"

section \<open>The event thread\<close>

definition check_cap_grace_expired :: "server \<Rightarrow> bool" where
  "check_cap_grace_expired s \<longleftrightarrow> g_cap_reached_at s \<noteq> 0 \<and> sv_now s - g_cap_reached_at s \<ge> CAP_GRACE_SEC"

definition next_raid_time :: "server \<Rightarrow> time_t \<times> server" where
  "next_raid_time s =
     (case draw s of (r, s1) \<Rightarrow>
        (sv_now s1 + PERIODIC_RAID_MIN_INTERVAL +
           int r mod (PERIODIC_RAID_MAX_INTERVAL - PERIODIC_RAID_MIN_INTERVAL + 1), s1))"

definition dummy_feed :: "server \<Rightarrow> server" where
  "dummy_feed s =
     (case draw s of (r, s1) \<Rightarrow>
        broadcast_packet (chat_evt txt_feed_sender
          (c_strncpy (MAX_TEXT_LEN - 1) (DUMMY_NEWS ! (r mod length DUMMY_NEWS)))) s1)"

text \<open>The body of the loop after its \<open>sleep\<close>, for the tick number and the time of the next raid.\<close>

definition event_tick :: "bool \<Rightarrow> nat \<Rightarrow> time_t \<Rightarrow> server \<Rightarrow> time_t \<times> server" where
  "event_tick malloc_ok tick next_raid s =
     (let s1 = (if check_cap_grace_expired s then fire_round_end_countdown txt_cap_expired s else s);
          s2 = event_age_npcs s1;
          s3 = event_age_market s2;
          (next_raid', s4) = (if sv_now s3 \<ge> next_raid then next_raid_time (fire_periodic_police_raid s3)
                              else (next_raid, s3));
          s5 = (if tick mod EVT_LEAK_EVERY = 0 then event_try_public_leak malloc_ok s4 else s4);
          s6 = (if tick mod EVT_MARKET_EVERY = 0 then event_spawn_market s5 else s5);
          s7 = (if tick mod EVT_NPC_EVERY = 0 then snd (pthread_create Npc_sequence s6) else s6);
          s8 = (if tick mod 8 = 0 then dummy_feed s7 else s7)
      in (next_raid', s8))"

definition events_start_thread :: "server \<Rightarrow> bool \<times> server" where
  "events_start_thread s = pthread_create Event_thread s"

section \<open>Random tags are free tags\<close>

definition tag_set :: "tags \<Rightarrow> tag set" where
  "tag_set m = {t. bit m (tag_index t)}"

definition free_tags :: "tags \<Rightarrow> tag set" where
  "free_tags frozen = {t. tag_bit t AND frozen = 0}"

lemma TAG_LIST_set: "set TAG_LIST = range tag_bit" and TAG_LIST_distinct: "distinct TAG_LIST"
  and length_TAG_LIST [simp]: "length TAG_LIST = 12"
proof -
  have eq: "TAG_LIST = map tag_bit all_tags"
    by (simp add: TAG_LIST_def all_tags_def)
  show "set TAG_LIST = range tag_bit" by (simp add: eq)
  show "distinct TAG_LIST" by (simp add: eq distinct_map distinct_all_tags inj_on_def)
  show "length TAG_LIST = 12" by (simp add: TAG_LIST_def)
qed

lemma drawE:
  obtains r where "draw s = (r, s\<lparr>sv_rands := tl (sv_rands s)\<rparr>)"
  using draw_eq [of s] by (metis prod.collapse)

lemma shuffle_loop_props:
  "i + n \<le> length pool \<Longrightarrow> mset (fst (shuffle_loop i n pool s)) = mset pool \<and>
   snd (shuffle_loop i n pool s) = s\<lparr>sv_rands := drop n (sv_rands s)\<rparr>"
proof (induction n arbitrary: i pool s)
  case (Suc n)
  obtain r where r: "draw s = (r, s\<lparr>sv_rands := tl (sv_rands s)\<rparr>)" by (rule drawE)
  let ?j = "i + r mod (length pool - i)"
  let ?pool = "pool[i := pool ! ?j, ?j := pool ! i]"
  have "i < length pool" "?j < length pool"
    using Suc.prems mod_less_divisor [of "length pool - i" r] by linarith+
  then have "mset ?pool = mset pool" by (simp add: mset_swap)
  moreover have "Suc i + n \<le> length ?pool" using Suc.prems by simp
  ultimately show ?case
    using Suc.IH [of "Suc i" ?pool "s\<lparr>sv_rands := tl (sv_rands s)\<rparr>"]
    by (simp add: r Let_def drop_Suc)
qed simp

lemma bit_fold_or: "bit (fold (\<lambda>t result. result OR t) ts m) b \<longleftrightarrow> bit m b \<or> (\<exists>t \<in> set ts. bit t b)" for m :: tags
  by (induction ts arbitrary: m) (auto simp: bit_or_iff)

lemma fold_or_tags:
  assumes "distinct ts" "set ts \<subseteq> range tag_bit"
  shows "tag_set (fold (\<lambda>t result. result OR t) ts 0) = {t. tag_bit t \<in> set ts}"
    "bit_set (fold (\<lambda>t result. result OR t) ts 0) = tag_index ` {t. tag_bit t \<in> set ts}"
    "card {t. tag_bit t \<in> set ts} = length ts"
proof -
  have b: "bit (fold (\<lambda>t result. result OR t) ts 0) n \<longleftrightarrow> (\<exists>t. tag_bit t \<in> set ts \<and> n = tag_index t)" for n
  proof -
    have "(\<exists>u \<in> set ts. bit u n) \<longleftrightarrow> (\<exists>t. tag_bit t \<in> set ts \<and> bit (tag_bit t) n)" using assms(2) by blast
    then show ?thesis by (simp add: bit_fold_or bit_tag_bit)
  qed
  then show "tag_set (fold (\<lambda>t result. result OR t) ts 0) = {t. tag_bit t \<in> set ts}"
    by (auto simp: tag_set_def)
  show "bit_set (fold (\<lambda>t result. result OR t) ts 0) = tag_index ` {t. tag_bit t \<in> set ts}"
    using b by (auto simp: bit_set_def)
  have "tag_bit ` {t. tag_bit t \<in> set ts} = set ts" using assms(2) by auto
  moreover have "card (tag_bit ` {t. tag_bit t \<in> set ts}) = card {t. tag_bit t \<in> set ts}"
    by (intro card_image) (simp add: inj_on_def)
  ultimately show "card {t. tag_bit t \<in> set ts} = length ts" using assms(1) by (simp add: distinct_card)
qed

lemma random_tags:
  "let (t, s') = event_random_tags s; free = free_tags (market_frozen_mask (sv_market s)) in
     tag_set t \<subseteq> free \<and> bit_set t = tag_index ` tag_set t \<and>
     card (tag_set t) = min (fst (draw s) mod 3 + 1) (card free) \<and>
     (t = 0 \<longleftrightarrow> free = {}) \<and> (\<exists>rs. s' = s\<lparr>sv_rands := rs\<rparr>)"
proof -
  let ?fz = "market_frozen_mask (sv_market s)"
  let ?avail = "filter (\<lambda>t. \<not> (t AND ?fz \<noteq> 0)) TAG_LIST"
  have av: "set ?avail = tag_bit ` free_tags ?fz" "distinct ?avail"
    by (auto simp: TAG_LIST_set free_tags_def TAG_LIST_distinct)
  then have len: "length ?avail = card (free_tags ?fz)"
    by (metis (no_types, lifting) card_image distinct_card inj_onI tag_bit_inject)
  show ?thesis
  proof (cases "free_tags ?fz = {}")
    case True
    then have "?avail = []" using av(1) by (simp only: image_empty set_empty)
    then show ?thesis using True by (auto simp: event_random_tags_def Let_def tag_set_def bit_set_def intro: exI [of _ "sv_rands s"])
  next
    case False
    obtain r where r: "draw s = (r, s\<lparr>sv_rands := tl (sv_rands s)\<rparr>)" by (rule drawE)
    let ?n = "min (r mod 3 + 1) (length ?avail)"
    have pos: "length ?avail \<noteq> 0" using False len by simp
    have n: "(if r mod 3 + 1 > length ?avail then length ?avail else r mod 3 + 1) = ?n" by simp
    obtain sh s2 where sh: "shuffle_loop 0 ?n ?avail (s\<lparr>sv_rands := tl (sv_rands s)\<rparr>) = (sh, s2)" by (rule prod.exhaust)
    have sh2: "mset sh = mset ?avail" "s2 = s\<lparr>sv_rands := drop ?n (tl (sv_rands s))\<rparr>"
      using shuffle_loop_props [of 0 ?n ?avail "s\<lparr>sv_rands := tl (sv_rands s)\<rparr>"] unfolding sh by simp_all
    define ts where "ts = take ?n sh"
    define t where "t = fold (\<lambda>t result. result OR t) ts 0"
    have eq: "event_random_tags s = (t, s2)"
      using pos by (simp only: event_random_tags_def Let_def r prod.case if_False n sh t_def ts_def)
    have d: "distinct ts" "set ts \<subseteq> tag_bit ` free_tags ?fz" "length ts = ?n"
      using av mset_eq_imp_distinct_iff [OF sh2(1)] mset_eq_setD [OF sh2(1)] mset_eq_length [OF sh2(1)]
        set_take_subset [of ?n sh] by (simp_all add: ts_def)
    then have "set ts \<subseteq> range tag_bit" by blast
    note f = fold_or_tags [OF d(1) this, folded t_def]
    have free: "tag_set t \<subseteq> free_tags ?fz" unfolding f(1) using d(2) by auto
    have card: "card (tag_set t) = min (fst (draw s) mod 3 + 1) (card (free_tags ?fz))"
      unfolding f(1,3) d(3) len r by simp
    have "0 < ?n" using pos by simp
    then have "tag_set t \<noteq> {}" using card len r by (metis card.empty fst_conv less_irrefl)
    then have "t \<noteq> 0" by (auto simp: tag_set_def)
    moreover have "bit_set t = tag_index ` tag_set t" by (simp only: f(1,2))
    moreover have "\<exists>rs. s2 = s\<lparr>sv_rands := rs\<rparr>" using sh2(2) by blast
    ultimately show ?thesis unfolding eq Let_def prod.case using free card False by blast
  qed
qed

text \<open>The tags of a spawned document or order: as many as drawn, 1 to 3, but no more than there are free
  ones, all different and none of them frozen; none exactly when every tag is frozen.\<close>
theorem event_random_tags_exact:
  "let (t, s') = event_random_tags s; free = free_tags (market_frozen_mask (sv_market s)) in
     tag_set t \<subseteq> free \<and> bit_set t = tag_index ` tag_set t \<and>
     card (tag_set t) = min (fst (draw s) mod 3 + 1) (card free) \<and>
     (t = 0 \<longleftrightarrow> free = {}) \<and> (\<exists>rs. s' = s\<lparr>sv_rands := rs\<rparr>)"
  by (rule random_tags)

lemma random_tagsE:
  obtains t rs where "event_random_tags s = (t, s\<lparr>sv_rands := rs\<rparr>)"
    "tag_set t \<subseteq> free_tags (market_frozen_mask (sv_market s))" "count_bits t = int (card (tag_set t))"
    "card (tag_set t) \<le> 3" "t = 0 \<or> 1 \<le> card (tag_set t)" "t = 0 \<longleftrightarrow> free_tags (market_frozen_mask (sv_market s)) = {}"
    "t AND market_frozen_mask (sv_market s) = 0"
proof -
  let ?fz = "market_frozen_mask (sv_market s)"
  obtain t s' where t: "event_random_tags s = (t, s')" by (rule prod.exhaust)
  note r = random_tags [of s, unfolded t Let_def prod.case]
  have "card (bit_set t) = card (tag_set t)" using r by (simp add: card_image inj_on_def)
  then have c: "count_bits t = int (card (tag_set t))" by (simp add: count_bits_def shift_count_card)
  have "1 \<le> card (tag_set t)" if "t \<noteq> 0"
  proof -
    have "0 < card (free_tags ?fz)" using that r by (simp add: card_gt_0_iff)
    then show ?thesis using r by simp
  qed
  moreover have "fst (draw s) mod 3 < 3" by simp
  then have "card (tag_set t) \<le> 3" using r by simp
  moreover have "t AND ?fz = 0"
    unfolding word_and_eq_0_iff
  proof (intro allI impI)
    fix n
    assume "bit t n"
    then have "n \<in> bit_set t" by (simp add: bit_set_def)
    then obtain u where u: "n = tag_index u" "u \<in> tag_set t" using r by blast
    then have "tag_bit u AND ?fz = 0" using r by (auto simp: free_tags_def)
    then show "\<not> bit ?fz n" using tag_bit_and_iff [of u ?fz] u(1) by simp
  qed
  moreover obtain rs where "s' = s\<lparr>sv_rands := rs\<rparr>" using r by blast
  ultimately show thesis using r c t by (intro that [of t rs]) auto
qed

end
