(* ===== verification/MarketSpec.thy ===== *)
theory MarketSpec
  imports Market
begin

text \<open>
  What the market board promises, and that \<open>market.c\<close> keeps it. The specification is a finite map of
  listings and a set of frozen tags; a listing is frozen when one of its tags is. The implementation
  caches that answer in every slot and keeps the slots in an array: each operation refines its
  specification, and so does every sequence of operations.
\<close>

section \<open>The abstract board\<close>

record listing =
  l_tags :: tags
  l_price :: int
  l_name :: string
  l_since :: time_t
  l_life :: int

record spec_board =
  offers :: "int \<rightharpoonup> listing"
  sb_frozen :: tags

definition spec_frozen :: "spec_board \<Rightarrow> listing \<Rightarrow> bool" where
  "spec_frozen B l \<longleftrightarrow> l_tags l AND sb_frozen B \<noteq> 0"

datatype board_op =
    Op_add time_t nat int tags int string
  | Op_find int
  | Op_take int
  | Op_freeze tags
  | Op_unfreeze tags
  | Op_age time_t

datatype board_res =
    Res_bool bool
  | Res_find "(listing \<times> bool) option"
  | Res_take "take_error + listing"
  | Res_unit
  | Res_ids "int set"

fun spec_step :: "board_op \<Rightarrow> spec_board \<Rightarrow> board_res \<times> spec_board" where
  "spec_step (Op_add now r d t p n) B =
     (if card (dom (offers B)) < MAX_MARKET_SLOTS then
        (Res_bool True, B\<lparr>offers := (offers B)(d \<mapsto>
           \<lparr>l_tags = t, l_price = p, l_name = take (MAX_NAME_LEN - 1) n, l_since = now,
            l_life = MARKET_LIFE_MIN_SEC + int r mod (MARKET_LIFE_MAX_SEC - MARKET_LIFE_MIN_SEC + 1)\<rparr>)\<rparr>)
      else (Res_bool False, B))"
| "spec_step (Op_find d) B = (Res_find (map_option (\<lambda>l. (l, spec_frozen B l)) (offers B d)), B)"
| "spec_step (Op_take d) B =
     (case offers B d of
        None \<Rightarrow> (Res_take (Inl TAKE_MISSING), B)
      | Some l \<Rightarrow> if spec_frozen B l then (Res_take (Inl TAKE_FROZEN), B)
                  else (Res_take (Inr l), B\<lparr>offers := (offers B)(d := None)\<rparr>))"
| "spec_step (Op_freeze t) B = (Res_unit, B\<lparr>sb_frozen := sb_frozen B OR t\<rparr>)"
| "spec_step (Op_unfreeze t) B = (Res_unit, B\<lparr>sb_frozen := sb_frozen B AND NOT t\<rparr>)"
| "spec_step (Op_age now) B =
     (let old = {d. \<exists>l. offers B d = Some l \<and> \<not> spec_frozen B l \<and> now - l_since l > l_life l}
      in (Res_ids old, B\<lparr>offers := (offers B) |` (- old)\<rparr>))"

section \<open>The implementation's steps\<close>

definition listing_of :: "market_slot \<Rightarrow> listing" where
  "listing_of s = \<lparr>l_tags = ms_tags s, l_price = ms_base_price s, l_name = ms_name s,
     l_since = ms_spawn_time s, l_life = ms_lifespan_sec s\<rparr>"

fun board_step :: "board_op \<Rightarrow> market \<Rightarrow> board_res \<times> market" where
  "board_step (Op_add now r d t p n) m = apfst Res_bool (market_add now r d t p n m)"
| "board_step (Op_find d) m =
     (Res_find (map_option (\<lambda>s. (listing_of s, ms_is_frozen s)) (market_find d m)), m)"
| "board_step (Op_take d) m = apfst (\<lambda>r. Res_take (map_sum id listing_of r)) (market_take d m)"
| "board_step (Op_freeze t) m = (Res_unit, freeze_tags t m)"
| "board_step (Op_unfreeze t) m = (Res_unit, unfreeze_tags t m)"
| "board_step (Op_age now) m = apfst (\<lambda>ids. Res_ids (set ids)) (market_despawn_aged now MAX_MARKET_SLOTS m)"

definition board_abs :: "market \<Rightarrow> spec_board" where
  "board_abs m = \<lparr>offers = (\<lambda>d. map_option listing_of (slot_map ms_active ms_doc_id (g_market m) d)),
     sb_frozen = g_frozen_tags m\<rparr>"

text \<open>New listings get identifiers that are not on the board, as the code's counter provides.\<close>

fun fresh_op :: "board_op \<Rightarrow> spec_board \<Rightarrow> bool" where
  "fresh_op (Op_add now r d t p n) B \<longleftrightarrow> offers B d = None"
| "fresh_op _ B \<longleftrightarrow> True"

definition board_rel :: "market \<Rightarrow> bool" where
  "board_rel m \<longleftrightarrow> board_ok m \<and> distinct (market_ids m)"

section \<open>Refinement, one operation at a time\<close>

lemma listing_of_sel [simp]:
  "l_tags (listing_of s) = ms_tags s" "l_price (listing_of s) = ms_base_price s"
  "l_name (listing_of s) = ms_name s" "l_since (listing_of s) = ms_spawn_time s"
  "l_life (listing_of s) = ms_lifespan_sec s"
  by (simp_all add: listing_of_def)

lemma board_abs_sel [simp]:
  "offers (board_abs m) d = map_option listing_of (slot_map ms_active ms_doc_id (g_market m) d)"
  "sb_frozen (board_abs m) = g_frozen_tags m"
  by (simp_all add: board_abs_def)

lemma slot_map_ok:
  assumes "board_ok m" and "slot_map ms_active ms_doc_id (g_market m) d = Some s"
  shows "s \<in> set (g_market m)" and "ms_active s" and "ms_doc_id s = d"
    and "ms_is_frozen s = spec_frozen (board_abs m) (listing_of s)"
proof -
  have "s \<in> set (g_market m) \<and> ms_active s \<and> ms_doc_id s = d"
    using assms(2) by (auto simp: slot_map_find dest: find_set)
  then show "s \<in> set (g_market m)" "ms_active s" "ms_doc_id s = d" by auto
  with assms(1) show "ms_is_frozen s = spec_frozen (board_abs m) (listing_of s)"
    by (auto simp: board_ok_def slot_ok_def spec_frozen_def)
qed

lemma slot_map_map:
  assumes "\<And>x. live (f x) = live x" and "\<And>x. ident (f x) = ident x"
  shows "slot_map live ident (map f xs) d = map_option f (slot_map live ident xs d)"
  by (induction xs) (auto simp: slot_map_def assms)

lemma slot_ids_map:
  assumes "\<And>x. live (f x) = live x" and "\<And>x. ident (f x) = ident x"
  shows "slot_ids live ident (map f xs) = slot_ids live ident xs"
  by (induction xs) (auto simp: assms)

lemma board_full_iff:
  assumes "board_rel m"
  shows "card (dom (offers (board_abs m))) < MAX_MARKET_SLOTS \<longleftrightarrow> (\<exists>s \<in> set (g_market m). \<not> ms_active s)"
proof -
  have "dom (offers (board_abs m)) = set (market_ids m)"
    using slot_map_dom [of ms_active ms_doc_id "g_market m"] by (auto simp: dom_def)
  then have "card (dom (offers (board_abs m))) = length (filter ms_active (g_market m))"
    using assms by (simp add: board_rel_def distinct_card) (simp add: slot_ids_def)
  moreover have "length (filter ms_active (g_market m)) < length (g_market m) \<longleftrightarrow> (\<exists>s \<in> set (g_market m). \<not> ms_active s)"
    by (metis filter_True length_filter_less less_irrefl)
  ultimately show ?thesis using assms by (simp add: board_rel_def board_ok_def)
qed

lemma refine_take:
  assumes "board_rel m"
  shows "spec_step (Op_take d) (board_abs m) = apsnd board_abs (board_step (Op_take d) m)"
proof (cases "slot_map ms_active ms_doc_id (g_market m) d")
  case None
  then show ?thesis by (simp add: market_take_def flip: slot_map_find)
next
  case (Some s)
  have map: "slot_map ms_active ms_doc_id (update_first (\<lambda>s. ms_active s \<and> ms_doc_id s = d) market_kill (g_market m))
    = (slot_map ms_active ms_doc_id (g_market m))(d := None)"
    using assms by (intro mkt.kill_map) (simp add: board_rel_def)
  have "ms_is_frozen s = spec_frozen (board_abs m) (listing_of s)"
    using assms Some by (simp add: board_rel_def slot_map_ok(4))
  with Some show ?thesis
    by (auto simp: market_take_def map board_abs_def fun_eq_iff simp flip: slot_map_find)
qed

lemma refine_add:
  assumes "board_rel m" and "offers (board_abs m) d = None"
  shows "spec_step (Op_add now r d t p n) (board_abs m) = apsnd board_abs (board_step (Op_add now r d t p n) m)"
proof (cases "\<exists>s \<in> set (g_market m). \<not> ms_active s")
  case True
  have "slot_map ms_active ms_doc_id (update_first (\<lambda>s. \<not> ms_active s)
      (\<lambda>_. market_new_slot now r (g_frozen_tags m) d t p n) (g_market m)) =
    (slot_map ms_active ms_doc_id (g_market m))(d \<mapsto> market_new_slot now r (g_frozen_tags m) d t p n)"
    using mkt.fill_map [OF True, of "market_new_slot now r (g_frozen_tags m) d t p n"] assms(2)
    by (simp add: slot_map_None_iff)
  then show ?thesis
    using True board_full_iff [OF assms(1)]
    by (auto simp: market_add_def board_abs_def listing_of_def fun_eq_iff)
next
  case False
  with board_full_iff [OF assms(1)] show ?thesis by (auto simp: market_add_def)
qed

lemma refine_find:
  assumes "board_rel m"
  shows "spec_step (Op_find d) (board_abs m) = apsnd board_abs (board_step (Op_find d) m)"
  using assms slot_map_ok(4) [of m d]
  by (cases "slot_map ms_active ms_doc_id (g_market m) d")
     (auto simp: market_find_def board_rel_def simp flip: slot_map_find)

lemma refine_freeze:
  "spec_step (Op_freeze t) (board_abs m) = apsnd board_abs (board_step (Op_freeze t) m)"
  "spec_step (Op_unfreeze t) (board_abs m) = apsnd board_abs (board_step (Op_unfreeze t) m)"
  by (auto simp: board_abs_def freeze_tags_def unfreeze_tags_def Let_def slot_map_map freeze_slot_def
    unfreeze_slot_def option.map_comp comp_def listing_of_def fun_eq_iff intro!: option.map_cong)

lemma market_kill_expired:
  "slot_map ms_active ms_doc_id (map (\<lambda>s. if market_expired now s then market_kill s else s) xs) d =
   (case slot_map ms_active ms_doc_id xs d of
      None \<Rightarrow> None | Some s \<Rightarrow> if market_expired now s then None else Some s)"
  if "distinct (slot_ids ms_active ms_doc_id xs)"
  using that
proof (induction xs)
  case Nil
  then show ?case by (simp add: slot_map_def)
next
  case (Cons x xs)
  show ?case
  proof (cases "ms_active x \<and> ms_doc_id x = d")
    case True
    with Cons.prems have "slot_map ms_active ms_doc_id xs d = None" by (simp add: slot_map_None_iff)
    with Cons True show ?thesis by (auto simp: slot_map_def)
  next
    case False
    with Cons show ?thesis by (auto simp: slot_map_def market_expired_def)
  qed
qed

lemma market_expired_spec:
  assumes "board_ok m" and "slot_map ms_active ms_doc_id (g_market m) d = Some s"
  shows "market_expired now s \<longleftrightarrow>
    \<not> spec_frozen (board_abs m) (listing_of s) \<and> now - l_since (listing_of s) > l_life (listing_of s)"
  using slot_map_ok [OF assms] by (simp add: market_expired_def)

lemma slot_in_map:
  assumes "distinct (slot_ids ms_active ms_doc_id xs)" and "s \<in> set xs" and "ms_active s"
  shows "slot_map ms_active ms_doc_id xs (ms_doc_id s) = Some s"
  using assms
proof (induction xs)
  case (Cons x xs)
  show ?case
  proof (cases "s = x")
    case False
    with Cons have s: "slot_map ms_active ms_doc_id xs (ms_doc_id s) = Some s" by (auto split: if_splits)
    then have "ms_doc_id s \<in> set (slot_ids ms_active ms_doc_id xs)"
      by (metis option.distinct(1) slot_map_None_iff)
    with Cons.prems(1) s show ?thesis by (auto simp: slot_map_def split: if_splits)
  qed (use Cons.prems in \<open>simp add: slot_map_def\<close>)
qed simp

lemma expired_ids_spec:
  assumes "board_rel m"
  shows "ms_doc_id ` {s \<in> set (g_market m). market_expired now s} =
    {d. \<exists>l. offers (board_abs m) d = Some l \<and> \<not> spec_frozen (board_abs m) l \<and> now - l_since l > l_life l}"
    (is "?ids = ?old")
proof (rule set_eqI)
  fix d
  have dist: "distinct (slot_ids ms_active ms_doc_id (g_market m))" and ok: "board_ok m"
    using assms by (simp_all add: board_rel_def)
  have "d \<in> ?ids \<longleftrightarrow> (\<exists>s. slot_map ms_active ms_doc_id (g_market m) d = Some s \<and> market_expired now s)"
    by (auto simp: market_expired_def dest: slot_map_ok [OF ok] intro: slot_in_map [OF dist])
  also have "\<dots> \<longleftrightarrow> d \<in> ?old"
    using market_expired_spec [OF ok, of d _ now] by auto
  finally show "d \<in> ?ids \<longleftrightarrow> d \<in> ?old" .
qed

lemma refine_age:
  assumes "board_rel m"
  shows "spec_step (Op_age now) (board_abs m) = apsnd board_abs (board_step (Op_age now) m)"
proof -
  have dist: "distinct (slot_ids ms_active ms_doc_id (g_market m))" and ok: "board_ok m"
    using assms by (simp_all add: board_rel_def)
  have "length (filter (market_expired now) (g_market m)) \<le> MAX_MARKET_SLOTS"
    using ok length_filter_le [of "market_expired now" "g_market m"] by (simp add: board_ok_def)
  then have ids: "set (take MAX_MARKET_SLOTS (map ms_doc_id (filter (market_expired now) (g_market m)))) =
      ms_doc_id ` {s \<in> set (g_market m). market_expired now s}"
    by simp
  have "slot_map ms_active ms_doc_id (map (\<lambda>s. if market_expired now s then market_kill s else s) (g_market m)) d =
    (if \<exists>s. slot_map ms_active ms_doc_id (g_market m) d = Some s \<and> market_expired now s then None
     else slot_map ms_active ms_doc_id (g_market m) d)" for d
    by (simp add: market_kill_expired [OF dist] split: option.split)
  then show ?thesis
    using market_expired_spec [OF ok]
    by (auto simp: market_despawn_aged_eq ids expired_ids_spec [OF assms] Let_def board_abs_def fun_eq_iff
      restrict_map_def split: option.split)
qed

lemma board_rel_step:
  assumes "board_rel m" and "fresh_op x (board_abs m)"
  shows "board_rel (snd (board_step x m))"
proof -
  have ok: "board_ok (snd (board_step x m))"
    using assms by (cases x) (auto simp: board_rel_def intro: board_ok_ops)
  have dist: "distinct (market_ids m)" using assms by (simp add: board_rel_def)
  have "distinct (market_ids (snd (board_step x m)))"
  proof (cases x)
    case (Op_add now r d t p n)
    with assms show ?thesis
      by (auto simp: market_add_def slot_map_None_iff intro!: mkt.fill_distinct dist)
  next
    case (Op_take d)
    then show ?thesis
      by (auto simp: market_take_def mkt.kill_distinct dist split: option.split)
  next
    case (Op_freeze t)
    then show ?thesis by (simp add: freeze_tags_def slot_ids_map freeze_slot_def dist)
  next
    case (Op_unfreeze t)
    then show ?thesis by (simp add: unfreeze_tags_def slot_ids_map unfreeze_slot_def dist Let_def)
  next
    case (Op_age now)
    have "market_expired now s \<Longrightarrow> ms_active s" for s by (simp add: market_expired_def)
    with Op_age show ?thesis by (simp add: market_despawn_aged_eq mkt.expire_distinct dist)
  qed (use dist in simp)
  with ok show ?thesis by (simp add: board_rel_def)
qed

lemma refine_step:
  assumes "board_rel m" and "fresh_op x (board_abs m)"
  shows "spec_step x (board_abs m) = apsnd board_abs (board_step x m)"
proof (cases x)
  case (Op_add now r d t p n)
  with assms show ?thesis by (metis fresh_op.simps(1) refine_add)
qed (use assms in \<open>simp_all only: refine_find refine_take refine_freeze refine_age\<close>)

section \<open>Refinement of whole runs\<close>

fun board_run :: "board_op list \<Rightarrow> market \<Rightarrow> board_res list \<times> market" where
  "board_run [] m = ([], m)"
| "board_run (x # xs) m = (case board_step x m of (r, m') \<Rightarrow> apfst ((#) r) (board_run xs m'))"

fun spec_run :: "board_op list \<Rightarrow> spec_board \<Rightarrow> board_res list \<times> spec_board" where
  "spec_run [] B = ([], B)"
| "spec_run (x # xs) B = (case spec_step x B of (r, B') \<Rightarrow> apfst ((#) r) (spec_run xs B'))"

fun fresh_run :: "board_op list \<Rightarrow> spec_board \<Rightarrow> bool" where
  "fresh_run [] B \<longleftrightarrow> True"
| "fresh_run (x # xs) B \<longleftrightarrow> fresh_op x B \<and> fresh_run xs (snd (spec_step x B))"

lemma board_rel_init: "board_rel (market_init m)"
proof -
  have "slot_ids ms_active ms_doc_id (replicate n zero_market_slot) = []" for n
    by (induction n) (simp_all add: zero_market_slot_def)
  then show ?thesis by (simp add: board_rel_def board_ok_init) (simp add: market_init_def)
qed

lemma refine_run:
  assumes "board_rel m" and "fresh_run xs (board_abs m)"
  shows "spec_run xs (board_abs m) = apsnd board_abs (board_run xs m) \<and> board_rel (snd (board_run xs m))"
  using assms
proof (induction xs arbitrary: m)
  case Nil
  then show ?case by simp
next
  case (Cons x xs)
  have step: "spec_step x (board_abs m) = apsnd board_abs (board_step x m)"
    using Cons.prems by (intro refine_step) auto
  obtain r m' where rm: "board_step x m = (r, m')" by (cases "board_step x m")
  have "board_rel m'" using board_rel_step [of m x] Cons.prems rm by simp
  moreover have "fresh_run xs (board_abs m')" using Cons.prems step rm by simp
  ultimately show ?case
    using Cons.IH [of m'] step rm by (cases "board_run xs m'") auto
qed

text \<open>C1: From an initialised board, every sequence of adds, finds, takes, freezes, thaws and ageing
  passes whose added identifiers are fresh gives exactly the answers of the abstract board, in which
  a listing is frozen when one of its tags is, and ends in a board that represents the abstract one.\<close>
theorem board_refines_spec:
  assumes "fresh_run xs (board_abs (market_init m))"
  shows "fst (board_run xs (market_init m)) = fst (spec_run xs (board_abs (market_init m))) \<and>
    board_abs (snd (board_run xs (market_init m))) = snd (spec_run xs (board_abs (market_init m)))"
  using refine_run [OF board_rel_init assms] by simp

definition empty_market :: market where
  "empty_market = \<lparr>g_market = [], g_npc = [], g_frozen_tags = 0\<rparr>"

lemma offers_init: "offers (board_abs (market_init m)) d = None"
proof -
  have "slot_map ms_active ms_doc_id (replicate n zero_market_slot) = Map.empty" for n
    by (induction n) (simp_all add: slot_map_def zero_market_slot_def)
  then show ?thesis by (simp add: board_abs_def market_init_def)
qed

definition demo_run :: "board_op list" where
  "demo_run = [Op_add 0 7 124 18 800 ''report'', Op_freeze 2, Op_take 124, Op_age 400, Op_unfreeze 2,
     Op_find 124, Op_take 124, Op_take 124]"

theorem board_refines_spec_witness:
  "fresh_run demo_run (board_abs (market_init empty_market)) \<and>
   fst (board_run demo_run (market_init empty_market)) =
     fst (spec_run demo_run (board_abs (market_init empty_market)))"
proof -
  have "fresh_run demo_run (board_abs (market_init empty_market))"
    by (simp add: demo_run_def offers_init del: spec_step.simps board_abs_sel)
  then show ?thesis using board_refines_spec by blast
qed

lemma demo_run_answers:
  "fst (board_run demo_run (market_init empty_market)) =
     [Res_bool True, Res_unit, Res_take (Inl TAKE_FROZEN), Res_ids {}, Res_unit,
      Res_find (Some (\<lparr>l_tags = 18, l_price = 800, l_name = ''report'', l_since = 0, l_life = 47\<rparr>, False)),
      Res_take (Inr \<lparr>l_tags = 18, l_price = 800, l_name = ''report'', l_since = 0, l_life = 47\<rparr>),
      Res_take (Inl TAKE_MISSING)]"
  by code_simp

end
