(* ===== verification/Shop.thy ===== *)
theory Shop
  imports Events MarketSpec
begin

text \<open>
  The market board in memory and the shop directory on disk are two views of one shop. This theory states
  when they agree, gives the agreement as an interface over any document store that can publish, and
  proves it for every operation of the server that touches either side: publishing, buying, ageing,
  freezing and the round reset.
\<close>

section \<open>A shop front over a document store\<close>

locale shop_front = doc_store ok box docs buy dispose withdraw
  for ok :: "'s \<Rightarrow> bool" and box :: "key \<Rightarrow> 's \<Rightarrow> bool" and docs :: "'s \<Rightarrow> doc_loc \<rightharpoonup> 'd"
    and buy :: "key \<Rightarrow> int \<Rightarrow> 's \<Rightarrow> bool \<times> 's" and dispose :: "key \<Rightarrow> int \<Rightarrow> 's \<Rightarrow> bool \<times> 's"
    and withdraw :: "int \<Rightarrow> 's \<Rightarrow> bool \<times> 's" +
  fixes whole :: "nat \<Rightarrow> bool" and valid :: "'l \<Rightarrow> bool" and lid :: "'l \<Rightarrow> int" and img :: "'l \<Rightarrow> 'd"
    and publish :: "nat \<Rightarrow> 'l \<Rightarrow> 's \<Rightarrow> bool \<times> 's"
  assumes publish_new: "ok s \<Longrightarrow> whole w \<Longrightarrow> valid l \<Longrightarrow> docs s (Shop (lid l)) = None \<Longrightarrow>
      \<exists>s'. publish w l s = (True, s') \<and> ok s' \<and> docs s' = (docs s)(Shop (lid l) \<mapsto> img l) \<and> box k' s' = box k' s"
begin

definition agrees :: "(int \<rightharpoonup> 'l) \<Rightarrow> 's \<Rightarrow> bool" where
  "agrees B s \<longleftrightarrow> (\<forall>d. docs s (Shop d) = map_option img (B d))"

text \<open>The boxes are never touched by the shop side, nor made or removed by any operation.\<close>

lemma agrees_publish:
  assumes "agrees B s" "ok s" "whole w" "valid l" "B (lid l) = None"
  shows "fst (publish w l s)" "ok (snd (publish w l s))" "agrees (B(lid l \<mapsto> l)) (snd (publish w l s))"
    "docs (snd (publish w l s)) (Box k d) = docs s (Box k d)" "box k' (snd (publish w l s)) = box k' s"
proof -
  have "docs s (Shop (lid l)) = None" using assms(1,5) by (simp add: agrees_def)
  from publish_new [OF assms(2-4) this, of k'] obtain s' where
    "publish w l s = (True, s')" "ok s'" "docs s' = (docs s)(Shop (lid l) \<mapsto> img l)" "box k' s' = box k' s" by blast
  then show "fst (publish w l s)" "ok (snd (publish w l s))" "agrees (B(lid l \<mapsto> l)) (snd (publish w l s))"
    "docs (snd (publish w l s)) (Box k d) = docs s (Box k d)" "box k' (snd (publish w l s)) = box k' s"
    using assms(1) by (simp_all add: agrees_def)
qed

lemma agrees_buy:
  assumes "agrees B s" "ok s" "safe_key k" "int32_range d" "box k s" "B d = Some l"
  shows "fst (buy k d s)" "ok (snd (buy k d s))" "agrees (B(d := None)) (snd (buy k d s))"
    "docs (snd (buy k d s)) = (docs s)(Shop d := None, Box k d \<mapsto> img l)" "box k' (snd (buy k d s)) = box k' s"
proof -
  have "docs s (Shop d) = Some (img l)" using assms(1,6) by (simp add: agrees_def)
  from buy_some [OF assms(2-5) this, of k'] obtain s' where
    "buy k d s = (True, s')" "ok s'" "docs s' = (docs s)(Shop d := None, Box k d \<mapsto> img l)" "box k' s' = box k' s" by blast
  then show "fst (buy k d s)" "ok (snd (buy k d s))" "agrees (B(d := None)) (snd (buy k d s))"
    "docs (snd (buy k d s)) = (docs s)(Shop d := None, Box k d \<mapsto> img l)" "box k' (snd (buy k d s)) = box k' s"
    using assms(1) by (simp_all add: agrees_def)
qed

lemma agrees_withdraw:
  assumes "agrees B s" "ok s" "int32_range d"
  shows "ok (snd (withdraw d s))" "agrees (B(d := None)) (snd (withdraw d s))"
    "docs (snd (withdraw d s)) (Box k e) = docs s (Box k e)" "box k' (snd (withdraw d s)) = box k' s"
proof -
  from withdraw_any [OF assms(2,3), of k'] obtain s' where
    "snd (withdraw d s) = s'" "ok s'" "docs s' = (docs s)(Shop d := None)" "box k' s' = box k' s" by auto
  then show "ok (snd (withdraw d s))" "agrees (B(d := None)) (snd (withdraw d s))"
    "docs (snd (withdraw d s)) (Box k e) = docs s (Box k e)" "box k' (snd (withdraw d s)) = box k' s"
    using assms(1) by (simp_all add: agrees_def)
qed

lemma agrees_dispose:
  assumes "agrees B s" "ok s" "safe_key k" "int32_range d"
  shows "ok (snd (dispose k d s))" "agrees B (snd (dispose k d s))" "box k' (snd (dispose k d s)) = box k' s"
proof -
  have "ok (snd (dispose k d s)) \<and> agrees B (snd (dispose k d s)) \<and> box k' (snd (dispose k d s)) = box k' s"
  proof (cases "docs s (Box k d) = None \<or> \<not> box k s")
    case True
    then show ?thesis using dispose_none [OF assms(2-4) True] assms(1,2) by simp
  next
    case False
    then have b: "box k s" "docs s (Box k d) \<noteq> None" by auto
    from dispose_some [OF assms(2-4) b, of k'] obtain s' where
      "dispose k d s = (True, s')" "ok s'" "docs s' = (docs s)(Box k d := None)" "box k' s' = box k' s" by blast
    then show ?thesis using assms(1) by (simp add: agrees_def)
  qed
  then show "ok (snd (dispose k d s))" "agrees B (snd (dispose k d s))" "box k' (snd (dispose k d s)) = box k' s" by auto
qed

end

section \<open>The server's shop\<close>

definition doc_of_slot :: "market_slot \<Rightarrow> doc_file" where
  "doc_of_slot sl = \<lparr>df_doc_id = ms_doc_id sl, df_tags = ms_tags sl, df_base_price = ms_base_price sl,
     df_name = cbuf MAX_NAME_LEN (ms_name sl)\<rparr>"

abbreviation slot_file :: "market_slot \<Rightarrow> string" where
  "slot_file sl \<equiv> doc_enc (doc_of_slot sl)"

abbreviation publish_slot :: "nat \<Rightarrow> market_slot \<Rightarrow> fs \<Rightarrow> bool \<times> fs" where
  "publish_slot w sl \<equiv> master_write_doc w (doc_of_slot sl)"

lemma publish_slot_new:
  assumes "sandbox_ok fs" "DOC_SIZE \<le> w" "doc_ok (doc_of_slot sl)" "doc_at fs (Shop (ms_doc_id sl)) = None"
  shows "\<exists>fs'. publish_slot w sl fs = (True, fs') \<and> sandbox_ok fs' \<and>
    doc_at fs' = (doc_at fs)(Shop (ms_doc_id sl) \<mapsto> slot_file sl) \<and> has_box k' fs' = has_box k' fs"
proof -
  have id: "df_doc_id (doc_of_slot sl) = ms_doc_id sl" by (simp add: doc_of_slot_def)
  have "\<forall>f. file_at fs (Shop (df_doc_id (doc_of_slot sl))) = Some f \<longrightarrow> mode_has S_IWUSR (f_mode f)"
    using assms(4) unfolding id doc_at_None by simp
  from master_write_eq [OF assms(1,3,2) this] obtain f where
    f: "publish_slot w sl fs = (True, place_file fs (Shop (ms_doc_id sl)) f)" "f_bytes f = slot_file sl"
    unfolding id by blast
  have "int32_range (ms_doc_id sl)" using assms(3) by (simp add: doc_ok_def doc_of_slot_def)
  then have "sandbox_ok (place_file fs (Shop (ms_doc_id sl)) f)"
    using sandbox_okD(3) [OF assms(1)] by (intro sandbox_ok_place [OF assms(1)]) (simp_all only: loc_id.simps butlast_loc)
  then show ?thesis using f doc_at_place [of fs "Shop (ms_doc_id sl)" f] by simp
qed

interpretation front: shop_front sandbox_ok has_box doc_at sandbox_buy sandbox_dispose master_remove_doc
  "\<lambda>w. DOC_SIZE \<le> w" "\<lambda>sl. doc_ok (doc_of_slot sl)" ms_doc_id slot_file publish_slot
  by unfold_locales (rule publish_slot_new)

text \<open>Every listing has an identifier of its own and its file, and there is no file without a listing.\<close>

definition shop_ok :: "market \<Rightarrow> fs \<Rightarrow> bool" where
  "shop_ok m fs \<longleftrightarrow> distinct (market_ids m) \<and> front.agrees (\<lambda>d. market_find d m) fs"

lemma market_find_map: "market_find d m = slot_map ms_active ms_doc_id (g_market m) d"
  by (simp add: market_find_def slot_map_find)

lemma market_find_ids: "market_find d m = None \<longleftrightarrow> d \<notin> set (market_ids m)"
  unfolding market_find_map by (rule slot_map_None_iff)

lemma market_find_fill:
  assumes "\<not> market_is_full m" "market_find d m = None"
  shows "(\<lambda>e. market_find e (snd (market_add now r d t p n m))) =
      (\<lambda>e. market_find e m)(d \<mapsto> market_new_slot now r (g_frozen_tags m) d t p n)"
    "distinct (market_ids m) \<Longrightarrow> distinct (market_ids (snd (market_add now r d t p n m)))"
    "fst (market_add now r d t p n m)"
proof -
  have free: "\<exists>s \<in> set (g_market m). \<not> ms_active s" using assms(1) by (simp add: market_is_full_def)
  have d: "d \<notin> set (market_ids m)" using assms(2) by (simp add: market_find_ids)
  show "(\<lambda>e. market_find e (snd (market_add now r d t p n m))) =
      (\<lambda>e. market_find e m)(d \<mapsto> market_new_slot now r (g_frozen_tags m) d t p n)"
    using free mkt.fill_map [OF free, of "market_new_slot now r (g_frozen_tags m) d t p n"] d
    by (simp add: market_find_map market_add_def fun_eq_iff)
  show "distinct (market_ids m) \<Longrightarrow> distinct (market_ids (snd (market_add now r d t p n m)))"
    using free d by (simp add: market_add_def mkt.fill_distinct)
  show "fst (market_add now r d t p n m)" using free by (simp add: market_add_def)
qed

lemma market_find_kill:
  assumes "distinct (market_ids m)" "market_take d m = (Inr sl, m')"
  shows "(\<lambda>e. market_find e m') = (\<lambda>e. market_find e m)(d := None)" "distinct (market_ids m')"
  using assms mkt.kill_map [OF assms(1), of d] mkt.kill_distinct [OF assms(1), of d]
  by (auto simp: market_take_def market_find_map split: option.splits if_splits)

lemma market_find_aged:
  assumes "distinct (market_ids m)"
  shows "(\<lambda>e. market_find e (snd (market_despawn_aged now k m))) =
      (\<lambda>e. case market_find e m of None \<Rightarrow> None | Some s \<Rightarrow> if market_expired now s then None else Some s)"
    "distinct (market_ids (snd (market_despawn_aged now k m)))"
proof -
  have p: "market_expired now s \<Longrightarrow> ms_active s" for s by (simp add: market_expired_def)
  show "(\<lambda>e. market_find e (snd (market_despawn_aged now k m))) =
      (\<lambda>e. case market_find e m of None \<Rightarrow> None | Some s \<Rightarrow> if market_expired now s then None else Some s)"
    by (rule ext) (simp add: market_find_map market_despawn_aged_eq market_kill_expired [OF assms])
  show "distinct (market_ids (snd (market_despawn_aged now k m)))"
    using assms by (simp add: market_despawn_aged_eq mkt.expire_distinct p)
qed

lemma market_find_frozen:
  "market_find d (freeze_tags t m) = map_option (freeze_slot t) (market_find d m)"
  "market_find d (unfreeze_tags t m) = map_option (unfreeze_slot t (g_frozen_tags m AND NOT t)) (market_find d m)"
  "market_ids (freeze_tags t m) = market_ids m" "market_ids (unfreeze_tags t m) = market_ids m"
  by (simp_all add: market_find_map freeze_tags_def unfreeze_tags_def Let_def slot_map_map slot_ids_map
      freeze_slot_def unfreeze_slot_def)

lemma slot_file_frozen [simp]: "slot_file (freeze_slot t sl) = slot_file sl" "slot_file (unfreeze_slot t u sl) = slot_file sl"
  by (simp_all add: doc_of_slot_def freeze_slot_def unfreeze_slot_def)

lemma shop_ok_frozen: "shop_ok m fs \<Longrightarrow> shop_ok (freeze_tags t m) fs" "shop_ok m fs \<Longrightarrow> shop_ok (unfreeze_tags t m) fs"
  by (simp_all add: shop_ok_def front.agrees_def market_find_frozen option.map_comp comp_def)

section \<open>Spawning publishes\<close>

lemma sv_market_add_split:
  obtains r where "sv_market_add d t p n s =
    (if market_is_full (sv_market s) then (False, s)
     else (True, s\<lparr>sv_rands := tl (sv_rands s), sv_market := snd (market_add (sv_now s) r d t p n (sv_market s))\<rparr>))"
proof -
  obtain r where r: "draw s = (r, s\<lparr>sv_rands := tl (sv_rands s)\<rparr>)" by (rule drawE)
  have "\<not> market_is_full m \<Longrightarrow> fst (market_add (sv_now s) r d t p n m)" for m
    by (simp add: market_add_def market_is_full_def)
  then show thesis by (intro that [of r]) (auto simp: sv_market_add_def r split_beta)
qed

lemma make_doc_nameE:
  obtains n rs where "make_doc_name t 64 s = (n, s\<lparr>sv_rands := rs\<rparr>)" "length n \<le> 63"
proof -
  obtain r where r: "draw s = (r, s\<lparr>sv_rands := tl (sv_rands s)\<rparr>)" by (rule drawE)
  obtain q where q: "draw (s\<lparr>sv_rands := tl (sv_rands s)\<rparr>) = (q, s\<lparr>sv_rands := tl (tl (sv_rands s))\<rparr>)"
    by (rule drawE [of "s\<lparr>sv_rands := tl (sv_rands s)\<rparr>"]) simp
  show thesis
  proof (cases "count_bits t = 1")
    case True
    then have "make_doc_name t 64 s = (c_snprintf 64 (doc_name_text t r q), s\<lparr>sv_rands := tl (tl (sv_rands s))\<rparr>)"
      by (simp add: make_doc_name_def r q)
    then show thesis by (rule that) (simp add: c_snprintf_def)
  next
    case False
    then have "make_doc_name t 64 s = (c_snprintf 64 (doc_name_text t r 0), s\<lparr>sv_rands := tl (sv_rands s)\<rparr>)"
      by (simp add: make_doc_name_def r)
    then show thesis by (rule that) (simp add: c_snprintf_def)
  qed
qed

text \<open>The part of a publication that both the seeding and the event thread have: the file, then the listing.\<close>

definition publication :: "int \<Rightarrow> tags \<Rightarrow> int \<Rightarrow> string \<Rightarrow> server \<Rightarrow> nat \<Rightarrow> nat \<Rightarrow> server" where
  "publication d t p n s w r = s\<lparr>sv_writes := tl (sv_writes s), sv_rands := tl (sv_rands s),
     sv_fs := snd (publish_slot w (market_new_slot (sv_now s) r (g_frozen_tags (sv_market s)) d t p n) (sv_fs s)),
     sv_market := snd (market_add (sv_now s) r d t p n (sv_market s))\<rparr>"

lemma publication_props:
  assumes "stores_ok s" "shop_ok (sv_market s) (sv_fs s)" "\<not> market_is_full (sv_market s)" "DOC_SIZE \<le> w"
    and "market_find d (sv_market s) = None" "int32_range d" "int32_range p" "length n \<le> 63"
  shows "stores_ok (publication d t p n s w r)"
    "shop_ok (sv_market (publication d t p n s w r)) (sv_fs (publication d t p n s w r))"
    "(\<lambda>e. market_find e (sv_market (publication d t p n s w r))) =
      (\<lambda>e. market_find e (sv_market s))(d \<mapsto> market_new_slot (sv_now s) r (g_frozen_tags (sv_market s)) d t p n)"
    "doc_at (sv_fs (publication d t p n s w r)) (Box k e) = doc_at (sv_fs s) (Box k e)"
    "has_box k (sv_fs (publication d t p n s w r)) = has_box k (sv_fs s)"
    "fst (master_write_doc w \<lparr>df_doc_id = d, df_tags = t, df_base_price = p, df_name = cbuf 64 n\<rparr> (sv_fs s))"
proof -
  let ?s' = "publication d t p n s w r"
  define sl where "sl = market_new_slot (sv_now s) r (g_frozen_tags (sv_market s)) d t p n"
  have doc: "doc_of_slot sl = \<lparr>df_doc_id = d, df_tags = t, df_base_price = p, df_name = cbuf 64 n\<rparr>" "ms_doc_id sl = d"
    using assms(8) by (simp_all add: doc_of_slot_def sl_def)
  have ag: "front.agrees (\<lambda>e. market_find e (sv_market s)) (sv_fs s)" "sandbox_ok (sv_fs s)"
    using assms(1,2) by (simp_all add: shop_ok_def stores_ok_def)
  have v: "doc_ok (doc_of_slot sl)" "market_find (ms_doc_id sl) (sv_market s) = None"
    using assms(5-7) by (simp_all add: doc doc_ok_def)
  note pub = front.agrees_publish [OF ag assms(4) v]
  note fill = market_find_fill [OF assms(3,5), of "sv_now s" r t p n, folded sl_def]
  have fields: "sv_fs ?s' = snd (publish_slot w sl (sv_fs s))" "sv_users ?s' = sv_users s"
    "sv_market ?s' = snd (market_add (sv_now s) r d t p n (sv_market s))" "sv_writes ?s' = tl (sv_writes s)"
    by (simp_all add: publication_def sl_def)
  have "\<forall>w \<in> set (tl (sv_writes s)). DOC_SIZE \<le> w"
    using assms(1) by (cases "sv_writes s") (auto simp: stores_ok_def full_writes_def)
  then show "stores_ok ?s'" using assms(1) pub(2) by (simp add: stores_ok_def full_writes_def fields)
  show "(\<lambda>e. market_find e (sv_market ?s')) =
      (\<lambda>e. market_find e (sv_market s))(d \<mapsto> market_new_slot (sv_now s) r (g_frozen_tags (sv_market s)) d t p n)"
    unfolding fields sl_def [symmetric] by (rule fill(1))
  show "shop_ok (sv_market ?s') (sv_fs ?s')"
    using fill(1,2) pub(3) assms(2) by (simp add: shop_ok_def fields doc(2))
  show "doc_at (sv_fs ?s') (Box k e) = doc_at (sv_fs s) (Box k e)" "has_box k (sv_fs ?s') = has_box k (sv_fs s)"
    unfolding fields by (rule pub(4), rule pub(5))
  show "fst (master_write_doc w \<lparr>df_doc_id = d, df_tags = t, df_base_price = p, df_name = cbuf 64 n\<rparr> (sv_fs s))"
    using pub(1) by (simp add: doc(1))
qed

lemma publish_eq:
  assumes "full_writes s" "\<not> market_is_full (sv_market s)" "length n \<le> 63"
    and "\<And>w. DOC_SIZE \<le> w \<Longrightarrow>
      fst (master_write_doc w \<lparr>df_doc_id = d, df_tags = t, df_base_price = p, df_name = cbuf 64 n\<rparr> (sv_fs s))"
  obtains w r s1 where "DOC_SIZE \<le> w"
    "sv_master_write \<lparr>df_doc_id = d, df_tags = t, df_base_price = p, df_name = cbuf 64 n\<rparr> s = (True, s1)"
    "sv_market_add d t p n s1 = (True, publication d t p n s w r)"
proof -
  let ?doc = "\<lparr>df_doc_id = d, df_tags = t, df_base_price = p, df_name = cbuf 64 n\<rparr>"
  let ?w = "fst (next_write s)"
  have w: "DOC_SIZE \<le> ?w" using next_write_full [of s] assms(1) by auto
  let ?s1 = "s\<lparr>sv_writes := tl (sv_writes s), sv_fs := snd (master_write_doc ?w ?doc (sv_fs s))\<rparr>"
  have "sv_master_write ?doc s = (True, ?s1)" using assms(4) [OF w] by (simp add: sv_master_write_eq)
  moreover obtain r where "sv_market_add d t p n ?s1 =
    (if market_is_full (sv_market ?s1) then (False, ?s1)
     else (True, ?s1\<lparr>sv_rands := tl (sv_rands ?s1), sv_market := snd (market_add (sv_now ?s1) r d t p n (sv_market ?s1))\<rparr>))"
    by (rule sv_market_add_split)
  moreover have "take 63 n = n" using assms(3) by simp
  ultimately have "sv_master_write ?doc s = (True, ?s1)" "sv_market_add d t p n ?s1 = (True, publication d t p n s ?w r)"
    using assms(2) by (simp_all add: publication_def doc_of_slot_def)
  with w show thesis by (rule that)
qed

lemma publication_frame [simp]:
  "sv_users (publication d t p n s w r) = sv_users s" "sv_out (publication d t p n s w r) = sv_out s"
  "client_sockets (publication d t p n s w r) = client_sockets s" "g_doc_id_counter (publication d t p n s w r) = g_doc_id_counter s"
  by (simp_all add: publication_def)

text \<open>What a spawned listing looks like: its price follows from its number of tags, none of them frozen.\<close>

definition fair_listing :: "tags \<Rightarrow> market_slot \<Rightarrow> bool" where
  "fair_listing frozen sl \<longleftrightarrow> \<not> ms_is_frozen sl \<and> tag_set (ms_tags sl) \<subseteq> free_tags frozen \<and>
     card (tag_set (ms_tags sl)) \<in> {1..3} \<and>
     ms_base_price sl - 400 * int (card (tag_set (ms_tags sl))) \<in> {0, 100, 200, 300}"

lemma spawn_proceeds:
  assumes "full_writes s" "\<not> market_is_full (sv_market s)" "free_tags (g_frozen_tags (sv_market s)) \<noteq> {}"
    and "\<And>w doc. DOC_SIZE \<le> w \<Longrightarrow> df_doc_id doc = g_doc_id_counter s + 1 \<Longrightarrow> int32_range (df_base_price doc) \<Longrightarrow>
      length (df_name doc) = 64 \<Longrightarrow> fst (master_write_doc w doc (sv_fs s))"
  obtains t p n w r rs where "fair_listing (g_frozen_tags (sv_market s))
      (market_new_slot (sv_now s) r (g_frozen_tags (sv_market s)) (g_doc_id_counter s + 1) t p n)"
    "int32_range p" "0 \<le> p" "length n \<le> 63" "DOC_SIZE \<le> w"
    "event_spawn_market s = broadcast_packet (Evt_market_spawn (g_doc_id_counter s + 1) t p n)
       (publication (g_doc_id_counter s + 1) t p n (s\<lparr>g_doc_id_counter := g_doc_id_counter s + 1, sv_rands := rs\<rparr>) w r)"
proof -
  let ?d = "g_doc_id_counter s + 1" and ?fz = "g_frozen_tags (sv_market s)"
  obtain t rs where t: "event_random_tags s = (t, s\<lparr>sv_rands := rs\<rparr>)" "tag_set t \<subseteq> free_tags ?fz"
    "count_bits t = int (card (tag_set t))" "card (tag_set t) \<le> 3" "t = 0 \<or> 1 \<le> card (tag_set t)"
    "t = 0 \<longleftrightarrow> free_tags ?fz = {}" "t AND ?fz = 0"
    by (rule random_tagsE [of s, unfolded market_frozen_mask_def])
  have tn: "t \<noteq> 0" using t(6) assms(3) by simp
  let ?s2 = "s\<lparr>sv_rands := rs, g_doc_id_counter := ?d\<rparr>"
  obtain q where q: "draw ?s2 = (q, ?s2\<lparr>sv_rands := tl (sv_rands ?s2)\<rparr>)" by (rule drawE)
  let ?s3 = "s\<lparr>sv_rands := tl rs, g_doc_id_counter := ?d\<rparr>"
  have q3: "draw ?s2 = (q, ?s3)" using q by simp
  define p where "p = count_bits t * 400 + int q mod 4 * 100"
  obtain n rs' where n: "make_doc_name t 64 ?s3 = (n, ?s3\<lparr>sv_rands := rs'\<rparr>)" "length n \<le> 63" by (rule make_doc_nameE)
  let ?s4 = "s\<lparr>g_doc_id_counter := ?d, sv_rands := rs'\<rparr>"
  have n4: "make_doc_name t 64 ?s3 = (n, ?s4)" using n(1) by simp
  have qm: "int q mod 4 \<in> {0, 1, 2, 3}" by (simp, presburger)
  have p: "int32_range p" "0 \<le> p" using qm t(3,4) by (auto simp: p_def int32_range_def)
  have s4: "full_writes ?s4" "\<not> market_is_full (sv_market ?s4)" using assms(1,2) by (simp_all add: full_writes_def)
  have wr: "fst (master_write_doc w \<lparr>df_doc_id = ?d, df_tags = t, df_base_price = p, df_name = cbuf 64 n\<rparr> (sv_fs ?s4))"
    if "DOC_SIZE \<le> w" for w
    using assms(4) [OF that, of "\<lparr>df_doc_id = ?d, df_tags = t, df_base_price = p, df_name = cbuf 64 n\<rparr>"] p(1) by simp
  obtain w r s5 where w: "DOC_SIZE \<le> w"
    "sv_master_write \<lparr>df_doc_id = ?d, df_tags = t, df_base_price = p, df_name = cbuf 64 n\<rparr> ?s4 = (True, s5)"
    "sv_market_add ?d t p n s5 = (True, publication ?d t p n ?s4 w r)"
    by (rule publish_eq [OF s4 n(2) wr])
  have fair: "fair_listing ?fz (market_new_slot (sv_now s) r ?fz ?d t p n)"
    using t(2-5,7) tn qm by (auto simp: fair_listing_def p_def)
  have "event_spawn_market s = broadcast_packet (Evt_market_spawn ?d t p n) (publication ?d t p n ?s4 w r)"
    using assms(2) tn n(2) w(2,3)
    by (simp add: event_spawn_market_def t(1) q3 Let_def n4 p_def [symmetric] c_strncpy_id)
  from that [OF fair p n(2) w(1) this] show thesis .
qed

lemma spawn_publishes:
  assumes "stores_ok s" "shop_ok (sv_market s) (sv_fs s)"
    and "market_find (g_doc_id_counter s + 1) (sv_market s) = None" "int32_range (g_doc_id_counter s + 1)"
  shows "let s' = event_spawn_market s; fz = g_frozen_tags (sv_market s); d = g_doc_id_counter s + 1 in
    stores_ok s' \<and> shop_ok (sv_market s') (sv_fs s') \<and> sv_users s' = sv_users s \<and>
    (fair_board (sv_market s) \<longrightarrow> fair_board (sv_market s')) \<and>
    (\<forall>k e. doc_at (sv_fs s') (Box k e) = doc_at (sv_fs s) (Box k e)) \<and>
    (if market_is_full (sv_market s) \<or> free_tags fz = {}
     then sv_market s' = sv_market s \<and> sv_fs s' = sv_fs s \<and> sv_out s' = sv_out s \<and> g_doc_id_counter s' = g_doc_id_counter s
     else \<exists>sl. fair_listing fz sl \<and> ms_doc_id sl = d \<and>
       (\<lambda>e. market_find e (sv_market s')) = (\<lambda>e. market_find e (sv_market s))(d \<mapsto> sl) \<and>
       g_doc_id_counter s' = d \<and>
       sv_out s' = sv_out s @ map (\<lambda>k. (k, spawn_msg sl)) (filter (\<lambda>k. k \<noteq> 0) (client_sockets s)))"
proof (cases "market_is_full (sv_market s) \<or> free_tags (g_frozen_tags (sv_market s)) = {}")
  case True
  obtain t rs where t: "event_random_tags s = (t, s\<lparr>sv_rands := rs\<rparr>)"
    "t = 0 \<longleftrightarrow> free_tags (g_frozen_tags (sv_market s)) = {}"
    by (rule random_tagsE [of s, unfolded market_frozen_mask_def])
  have "event_spawn_market s = s \<or> event_spawn_market s = s\<lparr>sv_rands := rs\<rparr>"
  proof (cases "market_is_full (sv_market s)")
    case False
    then have "t = 0" using True t(2) by blast
    with False show ?thesis by (simp only: event_spawn_market_def if_False t(1) prod.case if_True refl simp_thms)
  qed (simp only: event_spawn_market_def if_True simp_thms)
  then obtain rs where eq: "event_spawn_market s = s\<lparr>sv_rands := rs\<rparr>"
    by (elim disjE) (rule that [of "sv_rands s"], simp, rule that)
  show ?thesis unfolding Let_def if_P [OF True] eq using assms(1,2) by (simp add: stores_ok_def full_writes_def)
next
  case False
  let ?fz = "g_frozen_tags (sv_market s)" and ?d = "g_doc_id_counter s + 1"
  from False have f: "\<not> market_is_full (sv_market s)" "free_tags ?fz \<noteq> {}" by simp_all
  obtain t p n w r rs where sp: "fair_listing ?fz (market_new_slot (sv_now s) r ?fz ?d t p n)"
    "int32_range p" "0 \<le> p" "length n \<le> 63" "DOC_SIZE \<le> w"
    "event_spawn_market s = broadcast_packet (Evt_market_spawn ?d t p n)
       (publication ?d t p n (s\<lparr>g_doc_id_counter := ?d, sv_rands := rs\<rparr>) w r)"
  proof (rule spawn_proceeds [OF _ f])
    show "full_writes s" using assms(1) by (simp add: stores_ok_def)
    show "fst (master_write_doc w doc (sv_fs s))" if "DOC_SIZE \<le> w" "df_doc_id doc = ?d" "int32_range (df_base_price doc)"
      "length (df_name doc) = 64" for w doc
    proof -
      have "doc_at (sv_fs s) (Shop (df_doc_id doc)) = None" using assms(2,3) that(2) by (simp add: shop_ok_def front.agrees_def)
      then have "\<forall>f. file_at (sv_fs s) (Shop (df_doc_id doc)) = Some f \<longrightarrow> mode_has S_IWUSR (f_mode f)"
        unfolding doc_at_None by simp
      moreover have "doc_ok doc" using that assms(4) by (simp add: doc_ok_def)
      ultimately show ?thesis using master_write_eq [of "sv_fs s" doc w] that(1) assms(1) by (auto simp: stores_ok_def)
    qed
  qed (rule that)
  let ?s4 = "s\<lparr>g_doc_id_counter := ?d, sv_rands := rs\<rparr>"
  have s4: "stores_ok ?s4" "shop_ok (sv_market ?s4) (sv_fs ?s4)" "\<not> market_is_full (sv_market ?s4)"
    "market_find ?d (sv_market ?s4) = None"
    using assms f by (simp_all add: stores_ok_def full_writes_def)
  note pub = publication_props [OF s4(1-3) sp(5) s4(4) assms(4) sp(2,4)]
  let ?sl = "market_new_slot (sv_now s) r ?fz ?d t p n"
  have msg: "spawn_msg ?sl = Evt_market_spawn ?d t p n" using sp(4) by (simp add: spawn_msg_def c_strncpy_def)
  have "stores_ok (event_spawn_market s)" unfolding sp(6) using pub(1) by (simp add: stores_ok_def full_writes_def)
  moreover have "g_doc_id_counter (broadcast_packet m x) = g_doc_id_counter x" for m x by (simp add: broadcast_packet_def)
  moreover have "fair_board (sv_market s) \<longrightarrow> fair_board (sv_market (event_spawn_market s))"
    using fair_market_side(1) [OF _ sp(3)] by (simp add: sp(6) publication_def)
  ultimately show ?thesis
    unfolding Let_def if_not_P [OF False] using pub(2-4) sp(1) msg
    by (intro conjI exI [of _ ?sl]) (simp_all add: sp(6))
qed

text \<open>C11: A spawn keeps the shop directory the image of the board: with a free slot, a free tag and an identifier
  that is not listed, it puts up one listing of 1 to 3 free tags at 400 each plus a surcharge of 0 to 300,
  writes exactly that listing's file, and announces it to every client; otherwise board, documents, counter
  and clients are left alone. No account and no player's document changes.\<close>
theorem event_spawn_publishes:
  assumes "stores_ok s" "shop_ok (sv_market s) (sv_fs s)"
    and "market_find (g_doc_id_counter s + 1) (sv_market s) = None" "int32_range (g_doc_id_counter s + 1)"
  shows "let s' = event_spawn_market s; fz = g_frozen_tags (sv_market s); d = g_doc_id_counter s + 1 in
    stores_ok s' \<and> shop_ok (sv_market s') (sv_fs s') \<and> sv_users s' = sv_users s \<and>
    (\<forall>k e. doc_at (sv_fs s') (Box k e) = doc_at (sv_fs s) (Box k e)) \<and>
    (if market_is_full (sv_market s) \<or> free_tags fz = {}
     then sv_market s' = sv_market s \<and> sv_fs s' = sv_fs s \<and> sv_out s' = sv_out s \<and> g_doc_id_counter s' = g_doc_id_counter s
     else \<exists>sl. fair_listing fz sl \<and> ms_doc_id sl = d \<and>
       (\<lambda>e. market_find e (sv_market s')) = (\<lambda>e. market_find e (sv_market s))(d \<mapsto> sl) \<and>
       g_doc_id_counter s' = d \<and>
       sv_out s' = sv_out s @ map (\<lambda>k. (k, spawn_msg sl)) (filter (\<lambda>k. k \<noteq> 0) (client_sockets s)))"
  using spawn_publishes [OF assms] by (simp only: Let_def) blast

text \<open>A server with one listing, whose file is in the shop.\<close>

definition shop_server :: server where
  "shop_server = sample_server\<lparr>sv_market := \<lparr>
     g_market = market_new_slot 0 7 0 124 18 800 ''report'' # replicate 31 zero_market_slot,
     g_npc = replicate 16 zero_npc_slot, g_frozen_tags = 0\<rparr>\<rparr>"

lemma find_replicate_None: "\<not> P x \<Longrightarrow> find P (replicate n x) = None"
  by (induction n) simp_all

lemma slot_ids_replicate: "\<not> live x \<Longrightarrow> slot_ids live ident (replicate n x) = []"
  by (simp add: slot_ids_def)

lemma shop_server_find:
  "market_find d (sv_market shop_server) = (if d = 124 then Some (market_new_slot 0 7 0 124 18 800 ''report'') else None)"
  by (simp add: shop_server_def market_find_def find_replicate_None zero_market_slot_def)

lemma shop_server_sel:
  "sv_users shop_server = sv_users sample_server" "sv_fs shop_server = sample_fs" "g_doc_id_counter shop_server = 0"
  "g_frozen_tags (sv_market shop_server) = 0" "\<not> market_is_full (sv_market shop_server)" "sv_writes shop_server = []"
  "client_sockets shop_server = client_sockets sample_server" "sv_now shop_server = 1000"
  by (simp_all add: shop_server_def sample_server_def market_is_full_def zero_market_slot_def numeral_eq_Suc)

lemma shop_server_ok: "shop_ok (sv_market shop_server) (sv_fs shop_server)" "stores_ok shop_server"
  "board_ok (sv_market shop_server)"
proof -
  have "doc_of_slot (market_new_slot 0 7 0 124 18 800 ''report'') = sample_doc"
    by (simp add: doc_of_slot_def sample_doc_def)
  moreover have "d \<noteq> 124 \<Longrightarrow> doc_at sample_fs (Shop d) = None" for d using sample_docs [of "Shop d"] by auto
  ultimately have "front.agrees (\<lambda>d. market_find d (sv_market shop_server)) sample_fs"
    by (simp add: front.agrees_def shop_server_find)
  moreover have "distinct (market_ids (sv_market shop_server))"
    by (simp add: shop_server_def slot_ids_replicate zero_market_slot_def)
  ultimately show "shop_ok (sv_market shop_server) (sv_fs shop_server)" by (simp add: shop_ok_def shop_server_sel)
  show "stores_ok shop_server"
    using sample_server_ok by (simp add: trade_ok_def stores_ok_def full_writes_def shop_server_sel sample_server_def)
  have "slot_ok 0 (market_new_slot 0 7 0 124 18 800 ''report'')" by (rule slot_ok_new)
  then show "board_ok (sv_market shop_server)"
    by (simp add: board_ok_def shop_server_def slot_ok_def zero_market_slot_def)
qed

theorem event_spawn_publishes_witness:
  "\<exists>sl. fair_listing 0 sl \<and> market_find 1 (sv_market (event_spawn_market shop_server)) = Some sl"
proof -
  have "free_tags 0 \<noteq> {}" by (simp add: free_tags_def)
  with event_spawn_publishes [OF shop_server_ok(2,1)] show ?thesis
    by (simp add: Let_def int32_range_def shop_server_find shop_server_sel) (metis fun_upd_same)
qed

text \<open>
  The identifiers of the four seeded documents lie ahead of the counter the event thread counts up, and a
  round reset seeds them again without touching the counter.
\<close>

lemma publication_ids:
  "\<not> market_is_full (sv_market s) \<Longrightarrow>
   mset (market_ids (sv_market (publication d t p n s w r))) = add_mset d (mset (market_ids (sv_market s)))"
  using mkt.fill_ids [of "g_market (sv_market s)" "market_new_slot (sv_now s) r (g_frozen_tags (sv_market s)) d t p n"]
  by (auto simp: publication_def market_add_def market_is_full_def)

text \<open>C14: When the counter reaches a seeded identifier that is still listed, the spawn puts up a second listing
  with the same identifier and writes its own document over the file of the first, whatever that held: the board no
  longer identifies documents.\<close>
theorem spawn_reuses_listed_id:
  assumes "stores_ok s" "\<not> market_is_full (sv_market s)" "free_tags (g_frozen_tags (sv_market s)) \<noteq> {}"
    and "d = g_doc_id_counter s + 1" "d \<in> set (market_ids (sv_market s))" "int32_range d"
    and "\<forall>f. file_at (sv_fs s) (Shop d) = Some f \<longrightarrow> mode_has S_IWUSR (f_mode f)"
  shows "let s' = event_spawn_market s in
    \<not> distinct (market_ids (sv_market s')) \<and>
    (\<exists>new. ms_doc_id new = d \<and> ms_spawn_time new = sv_now s \<and> doc_at (sv_fs s') (Shop d) = Some (slot_file new))"
proof -
  let ?fz = "g_frozen_tags (sv_market s)" and ?d = "g_doc_id_counter s + 1"
  have wr: "\<exists>f. master_write_doc w doc (sv_fs s) = (True, place_file (sv_fs s) (Shop ?d) f) \<and> f_bytes f = doc_enc doc"
    if "DOC_SIZE \<le> w" "df_doc_id doc = ?d" "int32_range (df_base_price doc)" "length (df_name doc) = 64" for w doc
    using master_write_eq [of "sv_fs s" doc w] assms that by (simp add: doc_ok_def stores_ok_def)
  obtain t p n w r rs where sp: "int32_range p" "length n \<le> 63" "DOC_SIZE \<le> w"
    "event_spawn_market s = broadcast_packet (Evt_market_spawn ?d t p n)
       (publication ?d t p n (s\<lparr>g_doc_id_counter := ?d, sv_rands := rs\<rparr>) w r)"
  proof (rule spawn_proceeds [OF _ assms(2,3)])
    show "full_writes s" using assms(1) by (simp add: stores_ok_def)
    show "fst (master_write_doc w doc (sv_fs s))" if "DOC_SIZE \<le> w" "df_doc_id doc = ?d" "int32_range (df_base_price doc)"
      "length (df_name doc) = 64" for w doc
      using wr [OF that] by auto
  qed (rule that)
  let ?s4 = "s\<lparr>g_doc_id_counter := ?d, sv_rands := rs\<rparr>" and ?new = "market_new_slot (sv_now s) r ?fz ?d t p n"
  have "mset (market_ids (sv_market (event_spawn_market s))) = add_mset d (mset (market_ids (sv_market s)))"
    using publication_ids [of ?s4 ?d t p n w r] assms(2,4) by (simp add: sp(4))
  moreover have "d \<in># mset (market_ids (sv_market s))" using assms(5) by simp
  ultimately have "\<not> distinct (market_ids (sv_market (event_spawn_market s)))"
    using mset_eq_imp_distinct_iff [of "market_ids (sv_market (event_spawn_market s))" "d # market_ids (sv_market s)"]
    by simp
  moreover have "doc_of_slot ?new = \<lparr>df_doc_id = ?d, df_tags = t, df_base_price = p, df_name = cbuf 64 n\<rparr>"
    using sp(2) by (simp add: doc_of_slot_def)
  then obtain f where "sv_fs (publication ?d t p n ?s4 w r) = place_file (sv_fs s) (Shop ?d) f" "f_bytes f = slot_file ?new"
    using wr [of w "doc_of_slot ?new"] sp(1,3) by (auto simp: publication_def)
  then have "doc_at (sv_fs (event_spawn_market s)) (Shop d) = Some (slot_file ?new)"
    using doc_at_place [of "sv_fs s" "Shop ?d" f] assms(4) by (simp add: sp(4))
  ultimately show ?thesis using assms(4) by (auto simp: Let_def intro!: exI [of _ ?new])
qed

theorem spawn_reuses_listed_id_witness:
  "\<not> distinct (market_ids (sv_market (event_spawn_market (shop_server\<lparr>g_doc_id_counter := 123\<rparr>))))"
proof -
  let ?s = "shop_server\<lparr>g_doc_id_counter := 123\<rparr>"
  have "stores_ok ?s" using shop_server_ok(2) by (simp add: stores_ok_def full_writes_def)
  moreover have "124 \<in> set (market_ids (sv_market ?s))" using shop_server_find [of 124] market_find_ids [of 124 "sv_market shop_server"] by simp
  moreover have "\<forall>f. file_at (sv_fs ?s) (Shop 124) = Some f \<longrightarrow> mode_has S_IWUSR (f_mode f)"
    by (simp add: shop_server_sel sample_fs_def get_file_def shop_dir_def mode_has_def)
  moreover have "free_tags 0 \<noteq> {}" by (simp add: free_tags_def)
  ultimately show ?thesis
    using spawn_reuses_listed_id [of ?s 124] by (simp add: Let_def shop_server_sel int32_range_def)
qed

section \<open>Ageing withdraws\<close>

lemma expire_doc_frame [simp]:
  "sv_users (expire_doc d s) = sv_users s" "sv_market (expire_doc d s) = sv_market s" "sv_writes (expire_doc d s) = sv_writes s"
  "client_sockets (expire_doc d s) = client_sockets s" "active_keys (expire_doc d s) = active_keys s"
  "sv_fs (expire_doc d s) = snd (master_remove_doc d (sv_fs s))" "sv_now (expire_doc d s) = sv_now s"
  "sv_out (expire_doc d s) = sv_out s @ map (\<lambda>k. (k, Evt_market_remove d)) (filter (\<lambda>k. k \<noteq> 0) (client_sockets s))"
  by (simp_all add: expire_doc_def)

lemma fold_expire_frame [simp]:
  "sv_users (fold expire_doc ds s) = sv_users s" "sv_market (fold expire_doc ds s) = sv_market s"
  "sv_writes (fold expire_doc ds s) = sv_writes s" "client_sockets (fold expire_doc ds s) = client_sockets s"
  "active_keys (fold expire_doc ds s) = active_keys s"
  by (induction ds arbitrary: s) simp_all

lemma fold_expire_out:
  "d \<in> set ds \<Longrightarrow> k \<in> set (client_sockets s) \<Longrightarrow> k \<noteq> 0 \<Longrightarrow> (k, Evt_market_remove d) \<in> set (sv_out (fold expire_doc ds s))"
proof (induction ds arbitrary: s)
  case (Cons x xs)
  have keep: "set (sv_out t) \<subseteq> set (sv_out (fold expire_doc ys t))" for ys t
    by (induction ys arbitrary: t) force+
  show ?case
  proof (cases "d = x")
    case True
    then have "(k, Evt_market_remove d) \<in> set (sv_out (expire_doc x s))" using Cons.prems by simp
    then show ?thesis using keep [of "expire_doc x s" xs] by auto
  qed (use Cons in simp)
qed simp

lemma fold_expire_docs:
  assumes "front.agrees B (sv_fs s)" "sandbox_ok (sv_fs s)" "\<forall>d \<in> set ds. int32_range d"
  shows "sandbox_ok (sv_fs (fold expire_doc ds s)) \<and> front.agrees (\<lambda>e. if e \<in> set ds then None else B e) (sv_fs (fold expire_doc ds s)) \<and>
    doc_at (sv_fs (fold expire_doc ds s)) (Box k e) = doc_at (sv_fs s) (Box k e) \<and>
    has_box k (sv_fs (fold expire_doc ds s)) = has_box k (sv_fs s)"
  using assms
proof (induction ds arbitrary: s B)
  case (Cons d ds)
  have d: "int32_range d" using Cons.prems(3) by simp
  note w = front.agrees_withdraw [OF Cons.prems(1,2) d]
  have pre: "front.agrees (B(d := None)) (sv_fs (expire_doc d s))" "sandbox_ok (sv_fs (expire_doc d s))"
    "\<forall>d \<in> set ds. int32_range d" using w(1,2) Cons.prems(3) by simp_all
  have "(\<lambda>e. if e \<in> set (d # ds) then None else B e) = (\<lambda>e. if e \<in> set ds then None else (B(d := None)) e)"
    by (auto simp: fun_eq_iff)
  then show ?case using Cons.IH [OF pre] w(3,4) by (simp del: fun_upd_apply)
qed simp

lemma listed_range:
  assumes "shop_ok m fs" "sandbox_ok fs" "market_find d m = Some sl"
  shows "int32_range d"
  by (rule docs_in_range [OF assms(2), of d None]) (use assms in \<open>simp add: docs_in_def docs_loc_def shop_ok_def front.agrees_def\<close>)

text \<open>The ageing pass takes down exactly the listings that are not frozen and past their lifespan: they and
  their files are gone, every other listing stays, every client is told of each, the shop directory stays
  the image of the board, and no account and no player's document changes.\<close>
theorem event_age_market_exact:
  assumes "stores_ok s" "shop_ok (sv_market s) (sv_fs s)" "board_ok (sv_market s)"
  shows "let s' = event_age_market s in
    stores_ok s' \<and> shop_ok (sv_market s') (sv_fs s') \<and> sv_users s' = sv_users s \<and>
    (\<forall>d. market_find d (sv_market s') = (case market_find d (sv_market s) of
        None \<Rightarrow> None | Some sl \<Rightarrow> if market_expired (sv_now s) sl then None else Some sl)) \<and>
    (\<forall>k e. doc_at (sv_fs s') (Box k e) = doc_at (sv_fs s) (Box k e)) \<and>
    (\<forall>d sl k. market_find d (sv_market s) = Some sl \<and> market_expired (sv_now s) sl \<and> k \<in> set (client_sockets s) \<and> k \<noteq> 0 \<longrightarrow>
       (k, Evt_market_remove d) \<in> set (sv_out s'))"
proof -
  let ?m = "sv_market s" and ?m' = "snd (market_despawn_aged (sv_now s) MAX_MARKET_SLOTS (sv_market s))"
  define ids where "ids = map ms_doc_id (filter (market_expired (sv_now s)) (g_market ?m))"
  have dist: "distinct (market_ids ?m)" and ag: "front.agrees (\<lambda>e. market_find e ?m) (sv_fs s)" and sb: "sandbox_ok (sv_fs s)"
    using assms(1,2) by (simp_all add: shop_ok_def stores_ok_def)
  have "length ids \<le> MAX_MARKET_SLOTS"
    using assms(3) length_filter_le [of "market_expired (sv_now s)" "g_market ?m"] by (simp add: ids_def board_ok_def)
  then have eq: "event_age_market s = fold expire_doc ids (s\<lparr>sv_market := ?m'\<rparr>)"
    by (simp add: event_age_market_def market_despawn_aged_eq ids_def)
  have ids: "d \<in> set ids \<longleftrightarrow> (\<exists>sl. market_find d ?m = Some sl \<and> market_expired (sv_now s) sl)" for d
    using slot_in_map [OF dist] by (auto simp: ids_def market_find_map market_expired_def slot_map_find dest: find_set)
  note aged = market_find_aged [OF dist, of "sv_now s" MAX_MARKET_SLOTS]
  have find: "(\<lambda>e. market_find e ?m') = (\<lambda>e. if e \<in> set ids then None else market_find e ?m)"
    unfolding aged(1) by (auto simp: fun_eq_iff ids split: option.split)
  have "\<forall>d \<in> set ids. int32_range d" using ids listed_range [OF assms(2) sb] by blast
  note docs = fold_expire_docs [of "\<lambda>e. market_find e ?m" "s\<lparr>sv_market := ?m'\<rparr>" ids, simplified, OF ag sb this, folded find]
  have "stores_ok (event_age_market s)" using assms(1) docs by (simp add: eq stores_ok_def full_writes_def)
  moreover have "shop_ok (sv_market (event_age_market s)) (sv_fs (event_age_market s))"
    using docs aged(2) by (simp add: eq shop_ok_def)
  moreover have "market_find d ?m' = (case market_find d ?m of
        None \<Rightarrow> None | Some sl \<Rightarrow> if market_expired (sv_now s) sl then None else Some sl)" for d
    using fun_cong [OF aged(1), of d] .
  moreover have "(k, Evt_market_remove d) \<in> set (sv_out (event_age_market s))"
    if "market_find d ?m = Some sl" "market_expired (sv_now s) sl" "k \<in> set (client_sockets s)" "k \<noteq> 0" for d sl k
    unfolding eq using that ids by (intro fold_expire_out) auto
  ultimately show ?thesis using docs by (simp add: Let_def eq)
qed

theorem event_age_market_exact_witness:
  "let s' = event_age_market shop_server in
     market_find 124 (sv_market s') = None \<and> (5, Evt_market_remove 124) \<in> set (sv_out s')"
proof -
  let ?sl = "market_new_slot 0 7 0 124 18 800 ''report''"
  have e: "market_expired 1000 ?sl" by (simp add: market_expired_def)
  have k: "5 \<in> set (client_sockets shop_server)" by (simp add: shop_server_sel sample_server_def)
  show ?thesis
    using event_age_market_exact [OF shop_server_ok(2,1,3)] e k
    by (simp add: Let_def shop_server_find shop_server_sel)
qed

end
