(* ===== verification/Reset.thy ===== *)
theory Reset
  imports Shop
begin

text \<open>
  The round reset of \<open>server_main.c\<close> as a whole: what the shop, the boards, the boxes, the accounts and the state
  of the round are after it, and what the clients are told. The start of the server seeds its boards the same way.
\<close>

section \<open>Seeding an empty shop\<close>

text \<open>What a seed puts on the market: identifier, tags, price, name, and that it is not frozen.\<close>

definition board_line :: "market_slot \<Rightarrow> int \<times> tags \<times> int \<times> string \<times> bool" where
  "board_line sl = (ms_doc_id sl, ms_tags sl, ms_base_price sl, ms_name sl, ms_is_frozen sl)"

definition seed_line :: "int \<times> tags \<times> string \<Rightarrow> int \<times> tags \<times> int \<times> string \<times> bool" where
  "seed_line doc = (case doc of (d, t, n) \<Rightarrow> (d, t, count_bits t * 400, n, False))"

definition seed_ok :: "int \<times> tags \<times> string \<Rightarrow> bool" where
  "seed_ok doc \<longleftrightarrow> (case doc of (d, t, n) \<Rightarrow> int32_range d \<and> length n \<le> 63)"

lemma update_first_free:
  "\<forall>x \<in> set xs. \<not> p x \<Longrightarrow> p z \<Longrightarrow> update_first p f (xs @ replicate (Suc k) z) = xs @ f z # replicate k z"
  by (induction xs) simp_all

lemma count_bits_range: "int32_range (count_bits t * 400)"
proof -
  have "card (bit_set t) \<le> card {..<32 :: nat}"
    by (rule card_mono) (auto simp: bit_set_def dest: bit_imp_le_length)
  then have "card (bit_set t) \<le> 32" by simp
  then show ?thesis by (simp add: count_bits_def shift_count_card int32_range_def)
qed

lemma seed_one_eq:
  assumes "stores_ok s" "shop_ok (sv_market s) (sv_fs s)" "g_market (sv_market s) = xs @ replicate (Suc k) zero_market_slot"
    and "\<forall>x \<in> set xs. ms_active x" "g_frozen_tags (sv_market s) = 0" "seed_ok (d, t, n)" "d \<notin> ms_doc_id ` set xs"
  obtains w r where
    "stores_ok (seed_one (d, t, n) s)" "shop_ok (sv_market (seed_one (d, t, n) s)) (sv_fs (seed_one (d, t, n) s))"
    "seed_one (d, t, n) s = publication d t (count_bits t * 400) n s w r"
    "sv_market (seed_one (d, t, n) s) = (sv_market s)
       \<lparr>g_market := xs @ market_new_slot (sv_now s) r 0 d t (count_bits t * 400) n # replicate k zero_market_slot\<rparr>"
    "\<And>k e. doc_at (sv_fs (seed_one (d, t, n) s)) (Box k e) = doc_at (sv_fs s) (Box k e)"
proof -
  let ?p = "count_bits t * 400"
  have n: "length n \<le> 63" "int32_range d" using assms(6) by (simp_all add: seed_ok_def)
  have free: "\<not> market_is_full (sv_market s)" using assms(3) by (auto simp: market_is_full_def zero_market_slot_def)
  have new: "market_find d (sv_market s) = None"
    using assms(3,4,7) by (auto simp: market_find_def find_None_iff zero_market_slot_def simp flip: replicate_Suc)
  note pub = publication_props [OF assms(1,2) free _ new n(2) count_bits_range n(1)]
  have "full_writes s" using assms(1) by (simp add: stores_ok_def)
  from publish_eq [OF this free n(1) pub(6)] obtain w r s1 where w: "DOC_SIZE \<le> w"
    "sv_master_write \<lparr>df_doc_id = d, df_tags = t, df_base_price = ?p, df_name = cbuf 64 n\<rparr> s = (True, s1)"
    "sv_market_add d t ?p n s1 = (True, publication d t ?p n s w r)" by blast
  have "c_strncpy 63 n = n" using n(1) by (simp add: c_strncpy_def)
  then have eq: "seed_one (d, t, n) s = publication d t ?p n s w r" using w by (simp add: seed_one_def Let_def)
  have "sv_market (publication d t ?p n s w r) = (sv_market s)
      \<lparr>g_market := xs @ market_new_slot (sv_now s) r 0 d t ?p n # replicate k zero_market_slot\<rparr>"
    using assms(3-5) update_first_free [of xs "\<lambda>s. \<not> ms_active s" zero_market_slot]
    by (simp add: publication_def market_add_def zero_market_slot_def)
  note mkt = this [folded eq]
  show thesis by (rule that [OF _ _ eq mkt], unfold eq) (rule pub(1,2,4) [OF w(1)])+
qed

text \<open>Only the stores change, the new listings stand behind the old ones, and every one has its file.\<close>

lemma seed_fold:
  assumes "stores_ok s" "shop_ok (sv_market s) (sv_fs s)"
    and "g_market (sv_market s) = xs @ replicate (length ds + k) zero_market_slot" "\<forall>x \<in> set xs. ms_active x"
    and "g_frozen_tags (sv_market s) = 0" "\<forall>doc \<in> set ds. seed_ok doc"
    and "distinct (map fst ds)" "set (map fst ds) \<inter> ms_doc_id ` set xs = {}"
  shows "\<exists>ws rs fs ys. let s' = s\<lparr>sv_writes := ws, sv_rands := rs, sv_fs := fs,
       sv_market := (sv_market s)\<lparr>g_market := xs @ ys @ replicate k zero_market_slot\<rparr>\<rparr> in
     fold seed_one ds s = s' \<and> stores_ok s' \<and> shop_ok (sv_market s') (sv_fs s') \<and>
     map board_line ys = map seed_line ds \<and> (\<forall>y \<in> set ys. ms_active y) \<and>
     (\<forall>k e. doc_at fs (Box k e) = doc_at (sv_fs s) (Box k e))"
  using assms
proof (induction ds arbitrary: s xs)
  case Nil
  have "s = s\<lparr>sv_writes := sv_writes s, sv_rands := sv_rands s, sv_fs := sv_fs s,
      sv_market := (sv_market s)\<lparr>g_market := xs @ [] @ replicate k zero_market_slot\<rparr>\<rparr>" using Nil.prems(3) by simp
  with Nil.prems(1,2) show ?case by (intro exI [of _ "sv_writes s"] exI [of _ "sv_rands s"] exI [of _ "sv_fs s"] exI [of _ "[]"])
      (simp add: Let_def)
next
  case (Cons doc ds)
  obtain d t n where doc: "doc = (d, t, n)" by (cases doc)
  have pre: "g_market (sv_market s) = xs @ replicate (Suc (length ds + k)) zero_market_slot" "seed_ok (d, t, n)"
    "d \<notin> ms_doc_id ` set xs" using Cons.prems(3,6,8) doc by auto
  let ?s = "seed_one (d, t, n) s"
  obtain w r where one: "stores_ok ?s" "shop_ok (sv_market ?s) (sv_fs ?s)" "?s = publication d t (count_bits t * 400) n s w r"
    "sv_market ?s = (sv_market s)\<lparr>g_market := xs @ market_new_slot (sv_now s) r 0 d t (count_bits t * 400) n # replicate (length ds + k) zero_market_slot\<rparr>"
    "\<And>k e. doc_at (sv_fs ?s) (Box k e) = doc_at (sv_fs s) (Box k e)"
    by (rule seed_one_eq [OF Cons.prems(1,2) pre(1) Cons.prems(4,5) pre(2,3)]) (rule that)
  define sl where "sl = market_new_slot (sv_now s) r 0 d t (count_bits t * 400) n"
  have sl: "board_line sl = seed_line doc" "ms_active sl" "ms_doc_id sl = d"
    using pre(2) by (simp_all add: sl_def board_line_def seed_line_def doc seed_ok_def)
  have next1: "g_market (sv_market ?s) = (xs @ [sl]) @ replicate (length ds + k) zero_market_slot" "\<forall>x \<in> set (xs @ [sl]). ms_active x"
    "g_frozen_tags (sv_market ?s) = 0" "\<forall>doc \<in> set ds. seed_ok doc" "distinct (map fst ds)"
    "set (map fst ds) \<inter> ms_doc_id ` set (xs @ [sl]) = {}"
    using Cons.prems(4-8) sl by (auto simp: one(4) doc sl_def [symmetric])
  from Cons.IH [OF one(1,2) next1] obtain ws rs fs ys where ih:
    "let s' = ?s\<lparr>sv_writes := ws, sv_rands := rs, sv_fs := fs,
         sv_market := (sv_market ?s)\<lparr>g_market := (xs @ [sl]) @ ys @ replicate k zero_market_slot\<rparr>\<rparr> in
       fold seed_one ds ?s = s' \<and> stores_ok s' \<and> shop_ok (sv_market s') (sv_fs s') \<and>
       map board_line ys = map seed_line ds \<and> (\<forall>y \<in> set ys. ms_active y) \<and>
       (\<forall>k e. doc_at fs (Box k e) = doc_at (sv_fs ?s) (Box k e))" by blast
  have "?s\<lparr>sv_writes := ws, sv_rands := rs, sv_fs := fs,
         sv_market := (sv_market ?s)\<lparr>g_market := (xs @ [sl]) @ ys @ replicate k zero_market_slot\<rparr>\<rparr> =
      s\<lparr>sv_writes := ws, sv_rands := rs, sv_fs := fs,
         sv_market := (sv_market s)\<lparr>g_market := xs @ (sl # ys) @ replicate k zero_market_slot\<rparr>\<rparr>"
    unfolding one(4) unfolding one(3) publication_def by simp
  note ih = ih [unfolded this]
  show ?case using ih sl(1,2) one(5)
    by (intro exI [of _ ws] exI [of _ rs] exI [of _ fs] exI [of _ "sl # ys"]) (simp add: Let_def doc)
qed

section \<open>The whole reset\<close>

lemma fold_broadcast:
  "fold (\<lambda>x. broadcast_packet (f x)) xs s = s\<lparr>sv_out := sv_out s @ concat (map (\<lambda>x. map (\<lambda>k. (k, f x))
     (filter (\<lambda>k. k \<noteq> 0) (client_sockets s))) xs)\<rparr>"
  by (induction xs arbitrary: s) (simp_all add: broadcast_packet_def)

lemma seed_docs_ok:
  "\<forall>doc \<in> set seed_docs. seed_ok doc" "distinct (map fst seed_docs)" "length seed_docs = 4"
  by (simp_all add: seed_docs_def seed_ok_def int32_range_def SEED_NAMES_def utf8_def utf8_char_def)

lemma fs_reset_empty: "sandbox_ok fs \<Longrightarrow> doc_at (sandbox_global_reset fs) = Map.empty"
  using sandbox_global_reset_clean by blast

definition seed_orders :: "(int \<times> tags \<times> int) list" where
  "seed_orders = [(102, tag_bit TAG_CORP_B OR tag_bit TAG_FINANCE, 1200),
     (356, tag_bit TAG_GOVERNMENT OR tag_bit TAG_MILITARY, 2500)]"

definition order_line :: "npc_slot \<Rightarrow> int \<times> tags \<times> int" where
  "order_line n = (ns_npc_id n, ns_required_tags n, ns_bounty n)"

lemma fair_seeded:
  assumes "map board_line ys = map seed_line seed_docs" "map order_line ns = seed_orders" "\<forall>n \<in> set ns. ns_active n"
  shows "fair_board \<lparr>g_market = ys @ replicate i zero_market_slot, g_npc = ns @ replicate j zero_npc_slot, g_frozen_tags = f\<rparr>"
proof -
  have price: "0 \<le> ms_base_price sl" if "sl \<in> set ys" for sl
  proof -
    have "ms_base_price sl \<in> (\<lambda>(d, t, p, n, z). p) ` set (map board_line ys)" using that by (force simp: board_line_def)
    then show ?thesis unfolding assms(1) by (auto simp: seed_line_def count_bits_def shift_count_card)
  qed
  have bounty: "0 \<le> ns_bounty n" if "n \<in> set ns" for n
  proof -
    have "ns_bounty n \<in> (\<lambda>(d, t, b). b) ` set (map order_line ns)" using that by (force simp: order_line_def)
    then show ?thesis unfolding assms(2) by (auto simp: seed_orders_def)
  qed
  have "distinct (map fst (map order_line ns))" unfolding assms(2) by (simp add: seed_orders_def)
  then have "distinct (map ns_npc_id ns)" by (simp add: order_line_def comp_def)
  with price bounty assms(3) show ?thesis
    by (auto simp: fair_board_def zero_market_slot_def zero_npc_slot_def slot_ids_def)
qed

lemma seed_market_and_npc_eq:
  assumes "stores_ok s" "doc_at (sv_fs s) = Map.empty" "sv_market s = market_init m"
  obtains ws rs fs ys ns where
    "seed_market_and_npc s = s\<lparr>sv_writes := ws, sv_rands := rs, sv_fs := fs, sv_market :=
       \<lparr>g_market = ys @ replicate 28 zero_market_slot, g_npc = ns @ replicate 14 zero_npc_slot, g_frozen_tags = 0\<rparr>\<rparr>"
    "stores_ok (seed_market_and_npc s)" "shop_ok (sv_market (seed_market_and_npc s)) (sv_fs (seed_market_and_npc s))"
    "map board_line ys = map seed_line seed_docs" "\<forall>y \<in> set ys. ms_active y"
    "map order_line ns = seed_orders" "\<forall>n \<in> set ns. ns_active n" "\<And>k d. doc_at fs (Box k d) = None"
proof -
  have m: "g_market (sv_market s) = [] @ replicate (length seed_docs + 28) zero_market_slot" "g_frozen_tags (sv_market s) = 0"
    "g_npc (sv_market s) = replicate 16 zero_npc_slot"
    by (simp_all add: assms(3) market_init_def seed_docs_ok)
  have "market_find d (sv_market s) = None" for d
    by (simp add: m market_find_def find_replicate_None zero_market_slot_def)
  moreover have "market_ids (sv_market s) = []" by (simp add: m slot_ids_replicate zero_market_slot_def)
  ultimately have "shop_ok (sv_market s) (sv_fs s)" by (simp add: shop_ok_def front.agrees_def assms(2))
  from seed_fold [OF assms(1) this m(1) _ m(2) seed_docs_ok(1,2)] obtain ws rs fs ys where f:
    "let s' = s\<lparr>sv_writes := ws, sv_rands := rs, sv_fs := fs,
         sv_market := (sv_market s)\<lparr>g_market := [] @ ys @ replicate 28 zero_market_slot\<rparr>\<rparr> in
       fold seed_one seed_docs s = s' \<and> stores_ok s' \<and> shop_ok (sv_market s') (sv_fs s') \<and>
       map board_line ys = map seed_line seed_docs \<and> (\<forall>y \<in> set ys. ms_active y) \<and>
       (\<forall>k e. doc_at fs (Box k e) = doc_at (sv_fs s) (Box k e))" by auto
  let ?ns = "[npc_new_slot (sv_now s) 102 (tag_bit TAG_CORP_B OR tag_bit TAG_FINANCE) 1200,
    npc_new_slot (sv_now s) 356 (tag_bit TAG_GOVERNMENT OR tag_bit TAG_MILITARY) 2500]"
  let ?m = "\<lparr>g_market = ys @ replicate 28 zero_market_slot, g_npc = ?ns @ replicate 14 zero_npc_slot, g_frozen_tags = 0\<rparr>"
  let ?old = "(sv_market s)\<lparr>g_market := ys @ replicate 28 zero_market_slot\<rparr>"
  have npc: "snd (npc_add (sv_now s) 356 t' 2500 (snd (npc_add (sv_now s) 102 t 1200 ?old))) = ?old
     \<lparr>g_npc := [npc_new_slot (sv_now s) 102 t 1200, npc_new_slot (sv_now s) 356 t' 2500] @ replicate 14 zero_npc_slot\<rparr>" for t t'
    by (simp add: m(3) npc_add_def npc_new_slot_def zero_npc_slot_def numeral_eq_Suc)
  have "?old\<lparr>g_npc := ?ns @ replicate 14 zero_npc_slot\<rparr> = ?m" using m(2) by (cases "sv_market s") simp
  then have eq: "seed_market_and_npc s = s\<lparr>sv_writes := ws, sv_rands := rs, sv_fs := fs, sv_market := ?m\<rparr>"
    using f npc by (simp add: seed_market_and_npc_def Let_def sv_npc_add_eq)
  have ids: "(\<lambda>d. market_find d ?m) = (\<lambda>d. market_find d ?old)" "market_ids ?m = market_ids ?old"
    by (simp_all add: market_find_def)
  have "stores_ok (seed_market_and_npc s)" "shop_ok (sv_market (seed_market_and_npc s)) (sv_fs (seed_market_and_npc s))"
    using f by (simp_all add: eq Let_def stores_ok_def full_writes_def shop_ok_def ids market_find_def)
  from that [OF eq this] f show thesis
    by (simp add: Let_def seed_orders_def order_line_def npc_new_slot_def assms(2))
qed


lemma reset_before_seed:
  assumes "stores_ok s" "\<forall>off. REC_SIZE \<le> sv_pwrite s off"
  obtains s5 where
    "trigger_round_reset s = broadcast_board (broadcast_packet (game_over txt_round_reset) (seed_market_and_npc s5))"
    "stores_ok s5" "doc_at (sv_fs s5) = Map.empty" "sv_market s5 = market_init (sv_market s)"
    "accounts (sv_users s5) = map (reset_if_alive INITIAL_MONEY) (accounts (sv_users s))"
    "client_sockets s5 = client_sockets s" "sv_out s5 = sv_out s" "g_goal_money s5 = GOAL_MONEY" "g_escaped_count s5 = 0"
    "\<not> g_round_end_active s5" "g_rumor_cd_until s5 = 0" "g_cap_reached_at s5 = 0" "length (g_escape_log s5) = 3"
proof -
  have inv: "full_writes s" "db_ok (sv_users s)" "sandbox_ok (sv_fs s)" using assms(1) by (simp_all add: stores_ok_def)
  obtain rs where rs: "sv_users s = Some (db_image rs)" "recs_ok rs" "accounts (sv_users s) = rs" by (rule db_okE [OF inv(2)])
  have imoney: "int32_range INITIAL_MONEY" by (simp add: int32_range_def)
  have rs': "recs_ok (map (reset_if_alive INITIAL_MONEY) rs)" using rs(2) imoney by (simp add: rec_ok_reset)
  note clean = sandbox_global_reset_eq(1) [OF inv(3)] fs_reset_empty [OF inv(3)]
  define s5 where "s5 = (reset_round_state (s\<lparr>sv_fs := sandbox_global_reset (sv_fs s),
    sv_users := Some (db_image (map (reset_if_alive INITIAL_MONEY) rs)), sv_market := market_init (sv_market s)\<rparr>))\<lparr>g_rumor_cd_until := 0\<rparr>"
  have step: "trigger_round_reset s = broadcast_board (broadcast_packet (game_over txt_round_reset) (seed_market_and_npc s5))"
    using userdb_reset_image [OF rs(2) imoney, of "sv_pwrite s"] assms(2)
    by (simp add: trigger_round_reset_def Let_def s5_def rs(1))
  have s5: "sv_writes s5 = sv_writes s" "sv_users s5 = Some (db_image (map (reset_if_alive INITIAL_MONEY) rs))"
    "sv_fs s5 = sandbox_global_reset (sv_fs s)" "sv_market s5 = market_init (sv_market s)"
    "client_sockets s5 = client_sockets s" "sv_out s5 = sv_out s" "g_goal_money s5 = GOAL_MONEY" "g_escaped_count s5 = 0"
    "\<not> g_round_end_active s5" "g_rumor_cd_until s5 = 0" "g_cap_reached_at s5 = 0" "length (g_escape_log s5) = 3"
    by (simp_all add: s5_def reset_round_state_def)
  have "stores_ok s5"
    unfolding stores_ok_def full_writes_def s5 using inv(1) [unfolded full_writes_def] db_ok_image [OF rs'] clean(1) by blast
  moreover have "accounts (sv_users s5) = map (reset_if_alive INITIAL_MONEY) (accounts (sv_users s))"
    using rs(3) rs' by (simp add: s5(2))
  ultimately show thesis using that [OF step _ clean(2) [folded s5(3)] s5(4)] s5 by simp
qed

lemma round_reset:
  assumes "stores_ok s" "\<forall>off. REC_SIZE \<le> sv_pwrite s off"
  shows "let s' = trigger_round_reset s; told = (\<lambda>m. map (\<lambda>k. (k, m)) (filter (\<lambda>k. k \<noteq> 0) (client_sockets s))) in
    stores_ok s' \<and> shop_ok (sv_market s') (sv_fs s') \<and> round_ok s' \<and> fair_board (sv_market s') \<and>
    map board_line (filter ms_active (g_market (sv_market s'))) = map seed_line seed_docs \<and>
    map order_line (filter ns_active (g_npc (sv_market s'))) = seed_orders \<and> g_frozen_tags (sv_market s') = 0 \<and>
    (\<forall>k d. doc_at (sv_fs s') (Box k d) = None) \<and>
    accounts (sv_users s') = map (reset_if_alive INITIAL_MONEY) (accounts (sv_users s)) \<and>
    g_goal_money s' = GOAL_MONEY \<and> g_escaped_count s' = 0 \<and> \<not> g_round_end_active s' \<and> g_rumor_cd_until s' = 0 \<and>
    sv_out s' = sv_out s @ told (game_over txt_round_reset) @
      concat (map (\<lambda>sl. told (spawn_msg sl)) (filter ms_active (g_market (sv_market s')))) @
      concat (map (\<lambda>n. told (npc_spawn_msg n)) (filter ns_active (g_npc (sv_market s'))))"
proof -
  obtain s5 where step: "trigger_round_reset s = broadcast_board (broadcast_packet (game_over txt_round_reset) (seed_market_and_npc s5))"
    and pre: "stores_ok s5" "doc_at (sv_fs s5) = Map.empty" "sv_market s5 = market_init (sv_market s)"
    and s5: "accounts (sv_users s5) = map (reset_if_alive INITIAL_MONEY) (accounts (sv_users s))"
    "client_sockets s5 = client_sockets s" "sv_out s5 = sv_out s" "g_goal_money s5 = GOAL_MONEY" "g_escaped_count s5 = 0"
    "\<not> g_round_end_active s5" "g_rumor_cd_until s5 = 0" "g_cap_reached_at s5 = 0" "length (g_escape_log s5) = 3"
    by (rule reset_before_seed [OF assms]) (rule that)
  obtain ws rs2 fs ys ns where seed:
    "seed_market_and_npc s5 = s5\<lparr>sv_writes := ws, sv_rands := rs2, sv_fs := fs, sv_market :=
       \<lparr>g_market = ys @ replicate 28 zero_market_slot, g_npc = ns @ replicate 14 zero_npc_slot, g_frozen_tags = 0\<rparr>\<rparr>"
    "stores_ok (seed_market_and_npc s5)" "shop_ok (sv_market (seed_market_and_npc s5)) (sv_fs (seed_market_and_npc s5))"
    "map board_line ys = map seed_line seed_docs" "\<forall>y \<in> set ys. ms_active y"
    "map order_line ns = seed_orders" "\<forall>n \<in> set ns. ns_active n" "\<And>k d. doc_at fs (Box k d) = None"
    by (rule seed_market_and_npc_eq [OF pre]) (rule that)
  define s6 where "s6 = seed_market_and_npc s5"
  have mkt: "sv_market s6 = \<lparr>g_market = ys @ replicate 28 zero_market_slot, g_npc = ns @ replicate 14 zero_npc_slot, g_frozen_tags = 0\<rparr>"
    using seed(1) by (simp add: s6_def)
  have len: "length ys = 4" "length ns = 2"
    using arg_cong [OF seed(4), of length] arg_cong [OF seed(6), of length] by (simp_all add: seed_docs_ok seed_orders_def)
  have live: "filter ms_active (g_market (sv_market s6)) = ys" "filter ns_active (g_npc (sv_market s6)) = ns"
    using seed(5,7) by (simp_all add: mkt zero_market_slot_def zero_npc_slot_def)
  have snaps: "market_snapshot MAX_MARKET_SLOTS (sv_market s6) = ys" "npc_snapshot MAX_NPC_SLOTS (sv_market s6) = ns"
    using live len by (simp_all add: market_snapshot_def npc_snapshot_def snapshot_loop_eq)
  obtain out where fin: "trigger_round_reset s = s6\<lparr>sv_out := out\<rparr>"
    "out = sv_out s6 @ map (\<lambda>k. (k, game_over txt_round_reset)) (filter (\<lambda>k. k \<noteq> 0) (client_sockets s6)) @
      concat (map (\<lambda>sl. map (\<lambda>k. (k, spawn_msg sl)) (filter (\<lambda>k. k \<noteq> 0) (client_sockets s6))) ys) @
      concat (map (\<lambda>n. map (\<lambda>k. (k, npc_spawn_msg n)) (filter (\<lambda>k. k \<noteq> 0) (client_sockets s6))) ns)"
    using step snaps by (simp add: broadcast_board_def Let_def s6_def [symmetric] fold_broadcast broadcast_packet_def)
  have s6: "client_sockets s6 = client_sockets s" "sv_out s6 = sv_out s" "sv_users s6 = sv_users s5"
    "g_goal_money s6 = GOAL_MONEY" "g_escaped_count s6 = 0" "\<not> g_round_end_active s6" "g_rumor_cd_until s6 = 0"
    by (simp_all add: s6_def seed(1) s5)
  have round: "round_ok (s6\<lparr>sv_out := out\<rparr>)"
    by (simp add: s6_def seed(1) s5 round_ok_def)
  have boxes: "doc_at (sv_fs s6) (Box k d) = None" for k d using seed(8) by (simp add: s6_def seed(1))
  have ok: "stores_ok (s6\<lparr>sv_out := out\<rparr>)" using seed(2) by (simp add: s6_def stores_ok_def full_writes_def)
  have fair: "fair_board (sv_market s6)" unfolding mkt by (rule fair_seeded [OF seed(4,6,7)])
  show ?thesis
    unfolding Let_def fin(1)
    using ok fair seed(3) [folded s6_def] round live seed(4,6) boxes s6 s5(1) fin(2)
    by (simp add: mkt)
qed

text \<open>C5: A round reset starts the round anew: every document of every player and of the shop is destroyed and the
  four seeded documents are put up, each with its file, at 400 per tag and not frozen, whatever leaks were
  running; the two seeded orders are the only ones; every account that is not burned is back to the initial
  balance and the burned ones stay burned; the debt goal, the escapes, the countdown and the rumor cooldown are
  back at their initial values; and every client is told, then shown both boards.\<close>
theorem round_reset_exact:
  assumes "stores_ok s" "\<forall>off. REC_SIZE \<le> sv_pwrite s off"
  shows "let s' = trigger_round_reset s; told = (\<lambda>m. map (\<lambda>k. (k, m)) (filter (\<lambda>k. k \<noteq> 0) (client_sockets s))) in
    stores_ok s' \<and> shop_ok (sv_market s') (sv_fs s') \<and> round_ok s' \<and>
    map board_line (filter ms_active (g_market (sv_market s'))) = map seed_line seed_docs \<and>
    map order_line (filter ns_active (g_npc (sv_market s'))) = seed_orders \<and> g_frozen_tags (sv_market s') = 0 \<and>
    (\<forall>k d. doc_at (sv_fs s') (Box k d) = None) \<and>
    accounts (sv_users s') = map (reset_if_alive INITIAL_MONEY) (accounts (sv_users s)) \<and>
    g_goal_money s' = GOAL_MONEY \<and> g_escaped_count s' = 0 \<and> \<not> g_round_end_active s' \<and> g_rumor_cd_until s' = 0 \<and>
    sv_out s' = sv_out s @ told (game_over txt_round_reset) @
      concat (map (\<lambda>sl. told (spawn_msg sl)) (filter ms_active (g_market (sv_market s')))) @
      concat (map (\<lambda>n. told (npc_spawn_msg n)) (filter ns_active (g_npc (sv_market s'))))"
  using round_reset [OF assms] by (simp only: Let_def) blast

text \<open>The sample server restarts its round: one listing and one client before, four listings after.\<close>

theorem round_reset_exact_witness:
  "let s' = trigger_round_reset shop_server in
     map (\<lambda>sl. (ms_doc_id sl, ms_base_price sl)) (filter ms_active (g_market (sv_market s'))) =
       [(124, 800), (111, 800), (47, 800), (70, 800)] \<and>
     (\<forall>d. market_find d (sv_market s') \<noteq> None \<longleftrightarrow> doc_at (sv_fs s') (Shop d) \<noteq> None)"
proof -
  let ?s = "trigger_round_reset shop_server"
  have "\<forall>off. REC_SIZE \<le> sv_pwrite shop_server off" by (simp add: shop_server_def sample_server_def)
  note reset = round_reset_exact [OF shop_server_ok(2) this, unfolded Let_def]
  have "map (\<lambda>(d, t, p, n, z). (d, p)) (map board_line (filter ms_active (g_market (sv_market ?s)))) =
      map (\<lambda>(d, t, p, n, z). (d, p)) (map seed_line seed_docs)"
    using reset by (intro arg_cong [of _ _ "map (\<lambda>(d, t, p, n, z). (d, p))"]) blast
  also have "map (\<lambda>(d, t, p, n, z). (d, p)) (map seed_line seed_docs) = [(124, 800), (111, 800), (47, 800), (70, 800)]"
    by (simp add: seed_docs_def seed_line_def count_bits_def) code_simp
  finally have "map (\<lambda>sl. (ms_doc_id sl, ms_base_price sl)) (filter ms_active (g_market (sv_market ?s))) =
      [(124, 800), (111, 800), (47, 800), (70, 800)]" by (simp add: board_line_def comp_def)
  moreover have "market_find d (sv_market ?s) \<noteq> None \<longleftrightarrow> doc_at (sv_fs ?s) (Shop d) \<noteq> None" for d
  proof -
    have "shop_ok (sv_market ?s) (sv_fs ?s)" using reset by blast
    then show ?thesis by (simp add: shop_ok_def front.agrees_def)
  qed
  ultimately show ?thesis by (simp add: Let_def)
qed

end
