(* ===== verification/Session.thy ===== *)
theory Session
  imports Events
begin

text \<open>
  Sessions of \<open>server_main.c\<close>: accepting a connection, login, the dispatch of game requests, the end of
  a connection, and the start of the server. \<open>client_handler\<close> is a loop over the packets it receives; it
  is modelled by what one received packet does in each of its two loops.
\<close>

section \<open>Accepting and leaving\<close>

fun take_slot :: "sock \<Rightarrow> sock list \<Rightarrow> sock list" where
  "take_slot k [] = []"
| "take_slot k (x # xs) = (if x = 0 then k # xs else x # take_slot k xs)"

text \<open>
  One connection accepted as \<open>client_sock\<close>: true if it got a slot. \<open>malloc_ok\<close> is the outcome of the
  allocation of the thread's argument.
\<close>

definition accept_client :: "bool \<Rightarrow> sock \<Rightarrow> server \<Rightarrow> bool \<times> server" where
  "accept_client malloc_ok client_sock s =
     (if 0 \<notin> set (client_sockets s) then (False, s)
      else if \<not> malloc_ok then (False, s)
      else
        case pthread_create (Client_handler client_sock) s of
          (ok, s1) \<Rightarrow>
            if \<not> ok then (False, s1)
            else (True, s1\<lparr>client_sockets := take_slot client_sock (client_sockets s1)\<rparr>))"

fun clear_slot :: "sock \<Rightarrow> sock list \<Rightarrow> key list \<Rightarrow> sock list \<times> key list" where
  "clear_slot sock (x # xs) (k # ks) =
     (if x = sock then (0 # xs, [] # ks)
      else (case clear_slot sock xs ks of (xs', ks') \<Rightarrow> (x # xs', k # ks')))"
| "clear_slot sock xs ks = (xs, ks)"

definition disconnect :: "sock \<Rightarrow> server \<Rightarrow> server" where
  "disconnect sock s =
     (case clear_slot sock (client_sockets s) (active_keys s) of
        (xs, ks) \<Rightarrow> s\<lparr>client_sockets := xs, active_keys := ks\<rparr>)"

section \<open>Login\<close>

definition duplicate_login :: "sock \<Rightarrow> key \<Rightarrow> server \<Rightarrow> bool" where
  "duplicate_login sock key s \<longleftrightarrow>
     (\<exists>(k, a) \<in> set (zip (client_sockets s) (active_keys s)). k \<noteq> 0 \<and> k \<noteq> sock \<and> c_strncmp_eq MAX_KEY_LEN a key)"

definition new_record :: "key \<Rightarrow> user_record" where
  "new_record key = \<lparr>ur_key = cbuf MAX_KEY_LEN (c_strncpy (MAX_KEY_LEN - 1) key), ur_money = INITIAL_MONEY,
     ur_inventory_count = 0, ur_inventory_doc_ids = replicate MAX_INVEN_SIZE 0\<rparr>"

fun set_key :: "sock \<Rightarrow> key \<Rightarrow> sock list \<Rightarrow> key list \<Rightarrow> key list" where
  "set_key sock key (x # xs) (k # ks) = (if x = sock then key # ks else k # set_key sock key xs ks)"
| "set_key sock key xs ks = ks"

definition send_all :: "sock \<Rightarrow> msg list \<Rightarrow> server \<Rightarrow> server" where
  "send_all sock ms s = fold (packet_send sock) ms s"

definition sync_msgs :: "server \<Rightarrow> msg list" where
  "sync_msgs s =
     map spawn_msg (market_snapshot MAX_MARKET_SLOTS (sv_market s)) @
     map npc_spawn_msg (npc_snapshot MAX_NPC_SLOTS (sv_market s)) @
     (if market_frozen_mask (sv_market s) \<noteq> 0
      then [Evt_news_leak (market_frozen_mask (sv_market s)) 0 (c_strncpy (MAX_TEXT_LEN - 1) txt_frozen_sync)]
      else [])"

text \<open>
  A login packet: the key of the session, or \<open>None\<close> when the connection is to be closed.
  \<open>login_commit\<close> is what follows the duplicate check, which is a critical section of its own.
\<close>

definition login_commit :: "sock \<Rightarrow> key \<Rightarrow> server \<Rightarrow> key option \<times> server" where
  "login_commit sock key s =
     (let (rec, s1) = (case userdb_find key (sv_users s) of
                         Some (rec, offset) \<Rightarrow> (rec, s)
                       | None \<Rightarrow> (new_record key, snd (sv_append (new_record key) s)))
      in
      if userdb_is_burned rec then
        (None, packet_send sock (Res_login_fail ERR_KEY_BURNED (c_strncpy (MAX_TEXT_LEN - 1) txt_burned_key)) s1)
      else
        let my_key = c_strncpy (MAX_KEY_LEN - 1) key;
            s2 = s1\<lparr>active_keys := set_key sock my_key (client_sockets s1) (active_keys s1)\<rparr>;
            s3 = s2\<lparr>sv_fs := snd (sandbox_user_init my_key (sv_fs s2))\<rparr>;
            s4 = packet_send sock (Res_login_ok (int sock) (ur_money rec) (g_goal_money s3)) s3
        in (Some my_key, send_all sock (sync_msgs s4) s4))"

definition handle_login :: "sock \<Rightarrow> key \<Rightarrow> server \<Rightarrow> key option \<times> server" where
  "handle_login sock key s =
     (if duplicate_login sock key s then
        (None, packet_send sock (Res_login_fail ERR_DUPLICATE_LOGIN (c_strncpy (MAX_TEXT_LEN - 1) txt_duplicate)) s)
      else login_commit sock key s)"

section \<open>Dispatch\<close>

text \<open>
  One packet in the main loop: true when the connection is to be closed. \<open>junk\<close> is the uninitialised
  stack of \<open>handle_sell\<close>, \<open>malloc_ok\<close> the outcome of an allocation. A packet of any other type is ignored.
\<close>

definition dispatch :: "user_record \<times> nat \<Rightarrow> bool \<Rightarrow> sock \<Rightarrow> key \<Rightarrow> msg \<Rightarrow> server \<Rightarrow> bool \<times> server" where
  "dispatch junk malloc_ok sock my_key m s =
     (case m of
        Req_chat text \<Rightarrow>
          if text = ''/payoff'' then (False, handle_payoff sock my_key s)
          else (False, broadcast_packet (chat_evt my_key (c_strncpy (MAX_TEXT_LEN - 1) text)) s)
      | Req_minigame_submit passcode \<Rightarrow> (False, handle_minigame_submit sock my_key passcode s)
      | Req_trigger_raid \<Rightarrow> (False, fire_self_police_raid sock my_key s)
      | Req_trigger_leak \<Rightarrow>
          (case fire_public_leak malloc_ok s of
             (fired, s1) \<Rightarrow>
               if \<not> fired then (False, send_error sock ERR_DOC_NOT_FOUND txt_nothing_to_freeze s1) else (False, s1))
      | Req_trigger_rich \<Rightarrow> (False, handle_fake_rich sock my_key s)
      | Req_trigger_endround \<Rightarrow> (False, handle_fake_endround s)
      | Req_buy doc_id \<Rightarrow> check_bankruptcy sock my_key (handle_buy sock my_key doc_id s)
      | Req_sell npc_id n doc_ids \<Rightarrow> (False, handle_sell junk sock my_key npc_id n doc_ids s)
      | Req_dispose doc_id \<Rightarrow> (False, handle_dispose sock my_key doc_id s)
      | Req_inven \<Rightarrow> (False, handle_inventory sock my_key s)
      | Req_rumor target_key \<Rightarrow> check_bankruptcy sock my_key (handle_rumor sock my_key target_key s)
      | _ \<Rightarrow> (False, s))"

text \<open>
  The thread of one connection: waiting for a login, in the game under a key, or ended. \<open>None\<close> is a
  \<open>packet_recv\<close> that returned 0 or less.
\<close>

datatype phase = Login_wait | In_game key | Ended

definition client_handler_step :: "user_record \<times> nat \<Rightarrow> bool \<Rightarrow> sock \<Rightarrow> msg option \<Rightarrow> phase \<Rightarrow> server \<Rightarrow> phase \<times> server" where
  "client_handler_step junk malloc_ok sock received ph s =
     (case ph of
        Login_wait \<Rightarrow>
          (case received of
             None \<Rightarrow> (Ended, disconnect sock s)
           | Some (Req_login key) \<Rightarrow>
               (case handle_login sock key s of
                  (None, s1) \<Rightarrow> (Ended, disconnect sock s1)
                | (Some my_key, s1) \<Rightarrow> (In_game my_key, s1))
           | Some _ \<Rightarrow> (Login_wait, s))
      | In_game my_key \<Rightarrow>
          (case received of
             None \<Rightarrow> (Ended, disconnect sock s)
           | Some m \<Rightarrow>
               (case dispatch junk malloc_ok sock my_key m s of
                  (leave, s1) \<Rightarrow> if leave then (Ended, disconnect sock s1) else (In_game my_key, s1)))
      | Ended \<Rightarrow> (Ended, s))"

section \<open>Start\<close>

text \<open>
  \<open>main\<close> up to the event thread: \<open>None\<close> when it exits with an error. \<open>mk\<close> and \<open>can_open\<close> are the
  outcomes of \<open>mkdir\<close> and \<open>open\<close> in \<open>userdb_init\<close>.
\<close>

definition server_start :: "mkdir_result \<Rightarrow> bool \<Rightarrow> server \<Rightarrow> server option" where
  "server_start mk can_open s =
     (let s1 = s\<lparr>client_sockets := replicate MAX_CLIENTS 0, active_keys := replicate MAX_CLIENTS []\<rparr> in
      case userdb_init mk can_open (sv_users s1) of
        (ok1, db) \<Rightarrow>
          if \<not> ok1 then None
          else
            case sandbox_global_init (sv_fs s1) of
              (ok2, f) \<Rightarrow>
                if \<not> ok2 then None
                else
                  let s2 = s1\<lparr>sv_users := db, sv_fs := f\<rparr>;
                      s3 = s2\<lparr>sv_market := market_init (sv_market s2)\<rparr>;
                      s4 = seed_market_and_npc s3
                  in (case events_start_thread s4 of (ok3, s5) \<Rightarrow> if ok3 then Some s5 else None))"

section \<open>Slots\<close>

text \<open>Looking at both arrays of the client table at once: which key a socket plays under.\<close>

lemma set_key_nth:
  "length xs = length ks \<Longrightarrow> distinct (filter (\<lambda>x. x \<noteq> 0) xs) \<Longrightarrow> sock \<noteq> 0 \<Longrightarrow> i < length ks \<Longrightarrow>
   set_key sock key xs ks ! i = (if xs ! i = sock then key else ks ! i)"
proof (induction xs ks arbitrary: i rule: list_induct2)
  case (Cons x xs k ks)
  show ?case
  proof (cases "x = sock")
    case True
    then have "sock \<notin> set xs" using Cons.prems(1,2) by auto
    then show ?thesis using True Cons.prems(3) Cons.hyps by (cases i) (auto dest: nth_mem)
  next
    case False
    then show ?thesis using Cons by (cases i) (auto split: if_splits)
  qed
qed simp

lemma length_set_key [simp]: "length (set_key sock key xs ks) = length ks"
  by (induction sock key xs ks rule: set_key.induct) simp_all

lemma clear_slot_lengths: "length xs = length ks \<Longrightarrow> length (fst (clear_slot sock xs ks)) = length xs \<and> length (snd (clear_slot sock xs ks)) = length ks"
  by (induction sock xs ks rule: clear_slot.induct) (auto split: prod.split)

lemma clear_slot_nth:
  "length xs = length ks \<Longrightarrow> distinct (filter (\<lambda>x. x \<noteq> 0) xs) \<Longrightarrow> sock \<noteq> 0 \<Longrightarrow> i < length xs \<Longrightarrow>
   fst (clear_slot sock xs ks) ! i = (if xs ! i = sock then 0 else xs ! i) \<and>
   snd (clear_slot sock xs ks) ! i = (if xs ! i = sock then [] else ks ! i)"
proof (induction xs ks arbitrary: i rule: list_induct2)
  case (Cons x xs k ks)
  show ?case
  proof (cases "x = sock")
    case True
    then have "sock \<notin> set xs" using Cons.prems(1,2) by auto
    then show ?thesis using True Cons.prems(3) Cons.hyps by (cases i) (auto dest: nth_mem)
  next
    case False
    obtain xs' ks' where c: "clear_slot sock xs ks = (xs', ks')" by (rule prod.exhaust)
    show ?thesis
      using False Cons.IH Cons.prems c by (cases i) (auto split: if_splits)
  qed
qed simp

section \<open>Logging in\<close>

lemma userdb_append_new:
  assumes "db_ok db" "rec_ok r" "REC_SIZE \<le> w"
  obtains l db' where "userdb_append w r db = (Some l, db')" "db_ok db'"
    "\<forall>k. userdb_find k db' = (case userdb_find k db of Some x \<Rightarrow> Some x
        | None \<Rightarrow> if same_key k (ur_name r) then Some (r, l) else None)"
proof -
  from assms(1) obtain rs where rs: "db = Some (db_image rs)" "recs_ok rs" by (rule db_okE)
  have ok: "recs_ok (rs @ [r])" using rs(2) assms(2) by simp
  have find: "userdb_find k (Some (db_image (rs @ [r]))) = (case userdb_find k db of Some x \<Rightarrow> Some x
        | None \<Rightarrow> if same_key k (ur_name r) then Some (r, REC_SIZE * length rs) else None)" for k
    unfolding userdb_find_image [OF ok] rs(1) userdb_find_image [OF rs(2)]
    by (simp add: db_lookup_append same_key_def split: option.split)
  have "userdb_append w r db = (Some (REC_SIZE * length rs), Some (db_image (rs @ [r])))"
    unfolding rs(1) by (rule userdb_append_image [OF rs(2) assms(2,3)])
  from that [OF this db_ok_image [OF ok]] find show thesis by blast
qed

lemma new_record_ok: "rec_ok (new_record key)"
  by (simp add: new_record_def rec_ok_def int32_range_def)

lemma new_record_name: "no_nul key \<Longrightarrow> ur_name (new_record key) = take 31 key"
proof -
  assume "no_nul key"
  then have "no_nul (take 31 key)" by (auto simp: no_nul_def dest: in_set_takeD)
  then show ?thesis by (simp add: new_record_def ur_name_def c_strncpy_def cstr_cbuf)
qed

lemma new_record_alive: "\<not> userdb_is_burned (new_record key)" "ur_money (new_record key) = INITIAL_MONEY"
  by (simp_all add: new_record_def userdb_is_burned_def)

text \<open>The account a login is served from, after it was created if there was none.\<close>

lemma login_account:
  assumes "stores_ok s" "no_nul key"
  obtains rec s1 where
    "(case userdb_find key (sv_users s) of Some (rec, offset) \<Rightarrow> (rec, s)
        | None \<Rightarrow> (new_record key, snd (sv_append (new_record key) s))) = (rec, s1)"
    "rec = (case userdb_find key (sv_users s) of Some (r, l) \<Rightarrow> r | None \<Rightarrow> new_record key)"
    "s1 = s\<lparr>sv_users := sv_users s1, sv_writes := sv_writes s1\<rparr>" "full_writes s1" "db_ok (sv_users s1)"
    "\<forall>k. userdb_find k (sv_users s) \<noteq> None \<longrightarrow> userdb_find k (sv_users s1) = userdb_find k (sv_users s)"
    "userdb_find key (sv_users s) \<noteq> None \<longrightarrow> sv_users s1 = sv_users s"
    "userdb_find key (sv_users s) = None \<longrightarrow> (\<exists>l. \<forall>k. userdb_find k (sv_users s1) = (case userdb_find k (sv_users s) of
        Some x \<Rightarrow> Some x | None \<Rightarrow> if same_key k (take 31 key) then Some (new_record key, l) else None))"
proof (cases "userdb_find key (sv_users s)")
  case (Some rl)
  then show thesis using assms(1) by (intro that [of "fst rl" s]) (auto simp: stores_ok_def split: prod.split)
next
  case None
  have w: "REC_SIZE \<le> fst (next_write s)" "full_writes (snd (next_write s))"
    using next_write_full [of s] assms(1) by (auto simp: stores_ok_def)
  have db: "db_ok (sv_users s)" using assms(1) by (simp add: stores_ok_def)
  obtain l db' where a: "userdb_append (fst (next_write s)) (new_record key) (sv_users s) = (Some l, db')" "db_ok db'"
    "\<forall>k. userdb_find k db' = (case userdb_find k (sv_users s) of Some x \<Rightarrow> Some x
        | None \<Rightarrow> if same_key k (ur_name (new_record key)) then Some (new_record key, l) else None)"
    by (rule userdb_append_new [OF db new_record_ok [of key] w(1)])
  have s1: "snd (sv_append (new_record key) s) = s\<lparr>sv_writes := tl (sv_writes s), sv_users := db'\<rparr>"
    using a(1) by (simp add: sv_append_eq)
  have "full_writes (s\<lparr>sv_writes := tl (sv_writes s), sv_users := db'\<rparr>)"
    using w(2) by (simp add: next_write_eq full_writes_def)
  then show thesis
    using None a(2,3) s1 new_record_name [OF assms(2)]
    by (intro that [of "new_record key" "s\<lparr>sv_writes := tl (sv_writes s), sv_users := db'\<rparr>"])
      (auto split: option.split)
qed

lemma send_all_eq: "send_all k ms s = s\<lparr>sv_out := sv_out s @ map (Pair k) ms\<rparr>"
  by (induction ms arbitrary: s) (simp_all add: send_all_def packet_send_def)

lemma safe_key_facts: "safe_key key \<Longrightarrow> no_nul key" "safe_key key \<Longrightarrow> take 31 key = key"
  "safe_key a \<Longrightarrow> safe_key b \<Longrightarrow> same_key a b \<longleftrightarrow> a = b"
  by (simp_all add: safe_key_def same_key_def c_strncmp_eq_iff)

text \<open>What a successful commit leaves, as one state.\<close>

lemma login_commit_eq:
  assumes "stores_ok s" "no_nul key"
  obtains rec db ws where "rec = (case userdb_find key (sv_users s) of Some (r, l) \<Rightarrow> r | None \<Rightarrow> new_record key)"
    "login_commit sock key s = (if userdb_is_burned rec
       then (None, s\<lparr>sv_out := sv_out s @ [(sock, Res_login_fail ERR_KEY_BURNED (take 255 txt_burned_key))]\<rparr>)
       else (Some (take 31 key), s\<lparr>sv_users := db, sv_writes := ws,
         active_keys := set_key sock (take 31 key) (client_sockets s) (active_keys s),
         sv_fs := snd (sandbox_user_init (take 31 key) (sv_fs s)),
         sv_out := sv_out s @ (sock, Res_login_ok (int sock) (ur_money rec) (g_goal_money s)) # map (Pair sock) (sync_msgs s)\<rparr>))"
    "\<forall>w \<in> set ws. DOC_SIZE \<le> w" "db_ok db"
    "\<forall>k. userdb_find k (sv_users s) \<noteq> None \<longrightarrow> userdb_find k db = userdb_find k (sv_users s)"
    "userdb_find key (sv_users s) \<noteq> None \<longrightarrow> db = sv_users s"
    "userdb_find key (sv_users s) = None \<longrightarrow> (\<exists>l. \<forall>k. userdb_find k db = (case userdb_find k (sv_users s) of
        Some x \<Rightarrow> Some x | None \<Rightarrow> if same_key k (take 31 key) then Some (new_record key, l) else None))"
proof (rule login_account [OF assms])
  fix rec s1
  assume a: "(case userdb_find key (sv_users s) of Some (rec, offset) \<Rightarrow> (rec, s)
        | None \<Rightarrow> (new_record key, snd (sv_append (new_record key) s))) = (rec, s1)"
    "rec = (case userdb_find key (sv_users s) of Some (r, l) \<Rightarrow> r | None \<Rightarrow> new_record key)"
    "s1 = s\<lparr>sv_users := sv_users s1, sv_writes := sv_writes s1\<rparr>" "full_writes s1" "db_ok (sv_users s1)"
    "\<forall>k. userdb_find k (sv_users s) \<noteq> None \<longrightarrow> userdb_find k (sv_users s1) = userdb_find k (sv_users s)"
    "userdb_find key (sv_users s) \<noteq> None \<longrightarrow> sv_users s1 = sv_users s"
    "userdb_find key (sv_users s) = None \<longrightarrow> (\<exists>l. \<forall>k. userdb_find k (sv_users s1) = (case userdb_find k (sv_users s) of
        Some x \<Rightarrow> Some x | None \<Rightarrow> if same_key k (take 31 key) then Some (new_record key, l) else None))"
  have s1: "s1 = s" if burned: "userdb_is_burned rec"
  proof -
    obtain r l where "userdb_find key (sv_users s) = Some (r, l)"
      using burned a(2) new_record_alive(1) [of key] by (auto split: option.splits)
    then show ?thesis using a(1) by simp
  qed
  have "login_commit sock key s = (if userdb_is_burned rec
       then (None, s\<lparr>sv_out := sv_out s @ [(sock, Res_login_fail ERR_KEY_BURNED (take 255 txt_burned_key))]\<rparr>)
       else (Some (take 31 key), s\<lparr>sv_users := sv_users s1, sv_writes := sv_writes s1,
         active_keys := set_key sock (take 31 key) (client_sockets s) (active_keys s),
         sv_fs := snd (sandbox_user_init (take 31 key) (sv_fs s)),
         sv_out := sv_out s @ (sock, Res_login_ok (int sock) (ur_money rec) (g_goal_money s)) # map (Pair sock) (sync_msgs s)\<rparr>))"
  proof (cases "userdb_is_burned rec")
    case True
    then show ?thesis using s1 by (simp add: login_commit_def a(1) packet_send_def c_strncpy_def)
  next
    case False
    show ?thesis
      unfolding login_commit_def a(1) Let_def [of "(rec, s1)"] prod.case if_not_P [OF False]
    proof -
      obtain db ws where s1': "s1 = s\<lparr>sv_users := db, sv_writes := ws\<rparr>" using a(3) by blast
      then show "(let my_key = c_strncpy (MAX_KEY_LEN - 1) key;
            s2 = s1\<lparr>active_keys := set_key sock my_key (client_sockets s1) (active_keys s1)\<rparr>;
            s3 = s2\<lparr>sv_fs := snd (sandbox_user_init my_key (sv_fs s2))\<rparr>;
            s4 = packet_send sock (Res_login_ok (int sock) (ur_money rec) (g_goal_money s3)) s3
        in (Some my_key, send_all sock (sync_msgs s4) s4)) =
        (Some (take 31 key), s\<lparr>sv_users := sv_users s1, sv_writes := sv_writes s1,
         active_keys := set_key sock (take 31 key) (client_sockets s) (active_keys s),
         sv_fs := snd (sandbox_user_init (take 31 key) (sv_fs s)),
         sv_out := sv_out s @ (sock, Res_login_ok (int sock) (ur_money rec) (g_goal_money s)) # map (Pair sock) (sync_msgs s)\<rparr>)"
        unfolding s1' by (simp add: Let_def send_all_eq packet_send_def c_strncpy_def sync_msgs_def)
    qed
  qed
  then show thesis using a by (intro that [where rec = rec and db = "sv_users s1" and ws = "sv_writes s1"]) (simp_all add: full_writes_def)
qed

text \<open>C10: Login admits a key exactly when no other connection plays under it and its account is not burned:
  then the account exists (a new one with the starting money), its sandbox exists, the slot of the
  connection carries the key, and the client alone gets its balance and the debt goal followed by every
  listing, every order and the frozen tags. A refused login gets one error packet and changes nothing.\<close>
theorem handle_login_exact:
  assumes "stores_ok s" "safe_key key"
  shows "let (res, s') = handle_login sock key s; find = userdb_find key (sv_users s); db' = sv_users s' in
    (if duplicate_login sock key s
     then res = None \<and> s' = s\<lparr>sv_out := sv_out s @ [(sock, Res_login_fail ERR_DUPLICATE_LOGIN (take 255 txt_duplicate))]\<rparr>
     else if \<exists>r l. find = Some (r, l) \<and> userdb_is_burned r
     then res = None \<and> s' = s\<lparr>sv_out := sv_out s @ [(sock, Res_login_fail ERR_KEY_BURNED (take 255 txt_burned_key))]\<rparr>
     else res = Some key \<and> stores_ok s' \<and> has_box key (sv_fs s') \<and> doc_at (sv_fs s') = doc_at (sv_fs s) \<and>
       active_keys s' = set_key sock key (client_sockets s) (active_keys s) \<and>
       (\<forall>k. k \<noteq> key \<and> safe_key k \<longrightarrow> userdb_find k db' = userdb_find k (sv_users s)) \<and>
       (\<exists>r l. userdb_find key db' = Some (r, l) \<and> (case find of None \<Rightarrow> r = new_record key | Some rl \<Rightarrow> rl = (r, l)) \<and>
         sv_out s' = sv_out s @ (sock, Res_login_ok (int sock) (ur_money r) (g_goal_money s)) # map (Pair sock) (sync_msgs s)))"
proof (cases "duplicate_login sock key s")
  case True
  then show ?thesis by (simp add: handle_login_def packet_send_def c_strncpy_def)
next
  case False
  note key = safe_key_facts(1,2) [OF assms(2)]
  note same = safe_key_facts(3) [OF _ assms(2)]
  show ?thesis
  proof (rule login_commit_eq [OF assms(1) key(1), of sock, unfolded key(2)])
    fix rec db ws
    let ?f = "userdb_find key (sv_users s)"
    assume rec: "rec = (case ?f of Some (r, l) \<Rightarrow> r | None \<Rightarrow> new_record key)"
      and eq: "login_commit sock key s = (if userdb_is_burned rec
       then (None, s\<lparr>sv_out := sv_out s @ [(sock, Res_login_fail ERR_KEY_BURNED (take 255 txt_burned_key))]\<rparr>)
       else (Some key, s\<lparr>sv_users := db, sv_writes := ws,
         active_keys := set_key sock key (client_sockets s) (active_keys s),
         sv_fs := snd (sandbox_user_init key (sv_fs s)),
         sv_out := sv_out s @ (sock, Res_login_ok (int sock) (ur_money rec) (g_goal_money s)) # map (Pair sock) (sync_msgs s)\<rparr>))"
      and ws: "\<forall>w \<in> set ws. DOC_SIZE \<le> w" "db_ok db"
      and old: "\<forall>k. userdb_find k (sv_users s) \<noteq> None \<longrightarrow> userdb_find k db = userdb_find k (sv_users s)"
        "?f \<noteq> None \<longrightarrow> db = sv_users s"
      and new: "?f = None \<longrightarrow> (\<exists>l. \<forall>k. userdb_find k db = (case userdb_find k (sv_users s) of
        Some x \<Rightarrow> Some x | None \<Rightarrow> if same_key k key then Some (new_record key, l) else None))"
    have burned: "userdb_is_burned rec \<longleftrightarrow> (\<exists>r l. ?f = Some (r, l) \<and> userdb_is_burned r)"
      using rec new_record_alive(1) [of key] by (auto split: option.splits)
    show ?thesis
    proof (cases "userdb_is_burned rec")
      case True
      then show ?thesis using False eq burned by (simp add: handle_login_def)
    next
      case alive: False
      have sb: "sandbox_ok (sv_fs s)" using assms(1) by (simp add: stores_ok_def)
      have other: "\<forall>k. k \<noteq> key \<and> safe_key k \<longrightarrow> userdb_find k db = userdb_find k (sv_users s)"
      proof (cases ?f)
        case None
        then obtain l where l: "\<forall>k. userdb_find k db = (case userdb_find k (sv_users s) of
            Some x \<Rightarrow> Some x | None \<Rightarrow> if same_key k key then Some (new_record key, l) else None)" using new by blast
        then show ?thesis using same by (auto split: option.split)
      qed (use old in simp)
      have "\<exists>l. userdb_find key db = Some (rec, l) \<and> (case ?f of None \<Rightarrow> rec = new_record key | Some rl \<Rightarrow> rl = (rec, l))"
      proof (cases ?f)
        case None
        then obtain l where "userdb_find key db = Some (new_record key, l)" using new by (auto simp: same_key_def)
        then show ?thesis using None rec by simp
      next
        case (Some rl)
        then show ?thesis using old(2) rec by (auto split: prod.split)
      qed
      then show ?thesis
        using False alive burned eq other ws sandbox_ok_user_init [OF sb assms(2)]
        by (simp add: handle_login_def stores_ok_def full_writes_def) blast
    qed
  qed
qed

lemma sample_server_stores: "stores_ok sample_server"
  using sample_server_ok by (simp add: trade_ok_def stores_ok_def)

theorem handle_login_exact_witness:
  "fst (handle_login 6 ''trinity'' sample_server) = Some ''trinity'' \<and> fst (handle_login 6 ''neo'' sample_server) = None"
proof -
  have f: "userdb_find ''trinity'' (sv_users sample_server) = None"
    using sample_record_ok
    by (simp add: sample_server_def userdb_find_image)
      (simp add: ur_name_def sample_record_def cstr_cbuf no_nul_def c_strncmp_eq_def)
  have "\<not> duplicate_login 6 ''trinity'' sample_server" "duplicate_login 6 ''neo'' sample_server"
    by (simp_all add: duplicate_login_def sample_server_def c_strncmp_eq_def)
  with handle_login_exact [OF sample_server_stores sample_safe(1), of 6]
    handle_login_exact [OF sample_server_stores sample_safe(2), of 6] f
  show ?thesis by (simp add: split_beta Let_def)
qed

text \<open>C15: The check that a key is not already playing and the entry of the key into the client table are two
  critical sections: when two connections pass the check for the same key before either enters it, both
  are admitted and both slots carry the key.\<close>
theorem login_race_admits_both:
  assumes "stores_ok s" "safe_key key" "length (client_sockets s) = length (active_keys s)"
    and "distinct (filter (\<lambda>k. k \<noteq> 0) (client_sockets s))"
    and "i < length (client_sockets s)" "j < length (client_sockets s)" "i \<noteq> j"
    and "client_sockets s ! i = a" "client_sockets s ! j = b" "a \<noteq> 0" "b \<noteq> 0" "a \<noteq> b"
    and "\<forall>r l. userdb_find key (sv_users s) = Some (r, l) \<longrightarrow> \<not> userdb_is_burned r"
  shows "let (r1, s1) = login_commit a key s; (r2, s2) = login_commit b key s1 in
    r1 = Some key \<and> r2 = Some key \<and> active_keys s2 ! i = key \<and> active_keys s2 ! j = key"
proof -
  note key = safe_key_facts(1,2) [OF assms(2)]
  have step: "\<exists>t'. login_commit c key t = (Some key, t') \<and> client_sockets t' = client_sockets t \<and>
      active_keys t' = set_key c key (client_sockets t) (active_keys t) \<and> stores_ok t' \<and>
      (\<forall>r l. userdb_find key (sv_users t') = Some (r, l) \<longrightarrow> \<not> userdb_is_burned r)"
    if t: "stores_ok t" "\<forall>r l. userdb_find key (sv_users t) = Some (r, l) \<longrightarrow> \<not> userdb_is_burned r" for c t
  proof (rule login_commit_eq [OF t(1) key(1), of c, unfolded key(2)])
    fix rec db ws
    assume rec: "rec = (case userdb_find key (sv_users t) of Some (r, l) \<Rightarrow> r | None \<Rightarrow> new_record key)"
      and eq: "login_commit c key t = (if userdb_is_burned rec
       then (None, t\<lparr>sv_out := sv_out t @ [(c, Res_login_fail ERR_KEY_BURNED (take 255 txt_burned_key))]\<rparr>)
       else (Some key, t\<lparr>sv_users := db, sv_writes := ws,
         active_keys := set_key c key (client_sockets t) (active_keys t),
         sv_fs := snd (sandbox_user_init key (sv_fs t)),
         sv_out := sv_out t @ (c, Res_login_ok (int c) (ur_money rec) (g_goal_money t)) # map (Pair c) (sync_msgs t)\<rparr>))"
      and ws: "\<forall>w \<in> set ws. DOC_SIZE \<le> w" "db_ok db"
      and old: "userdb_find key (sv_users t) \<noteq> None \<longrightarrow> db = sv_users t"
      and new: "userdb_find key (sv_users t) = None \<longrightarrow> (\<exists>l. \<forall>k. userdb_find k db = (case userdb_find k (sv_users t) of
        Some x \<Rightarrow> Some x | None \<Rightarrow> if same_key k key then Some (new_record key, l) else None))"
    have alive: "\<not> userdb_is_burned rec"
      using rec t(2) new_record_alive(1) [of key] by (auto split: option.splits)
    have "\<forall>r l. userdb_find key db = Some (r, l) \<longrightarrow> \<not> userdb_is_burned r"
    proof (cases "userdb_find key (sv_users t)")
      case None
      then show ?thesis using new new_record_alive(1) [of key] by (auto simp: same_key_def)
    qed (use old t(2) in auto)
    then show ?thesis
      using alive eq ws sandbox_ok_user_init(1) [OF _ assms(2), of "sv_fs t"] t(1)
      by (simp add: stores_ok_def full_writes_def)
  qed
  obtain s1 where s1: "login_commit a key s = (Some key, s1)" "client_sockets s1 = client_sockets s"
    "active_keys s1 = set_key a key (client_sockets s) (active_keys s)" "stores_ok s1"
    "\<forall>r l. userdb_find key (sv_users s1) = Some (r, l) \<longrightarrow> \<not> userdb_is_burned r"
    using step [OF assms(1,13), of a] by blast
  obtain s2 where s2: "login_commit b key s1 = (Some key, s2)"
    "active_keys s2 = set_key b key (client_sockets s1) (active_keys s1)"
    using step [OF s1(4,5), of b] by blast
  have "active_keys s1 ! i = key" using set_key_nth [OF assms(3,4,10), of i key] assms(3,5,8) s1(3) by simp
  moreover have "active_keys s2 ! i = active_keys s1 ! i" "active_keys s2 ! j = key"
    using set_key_nth [of "client_sockets s1" "active_keys s1" b i key] set_key_nth [of "client_sockets s1" "active_keys s1" b j key]
      assms(3-12) s1(2,3) s2(2) by simp_all
  ultimately show ?thesis using s1(1) s2(1) by simp
qed

theorem login_race_admits_both_witness:
  "let s = sample_server\<lparr>active_keys := replicate 10 []\<rparr>; s1 = snd (login_commit 5 ''neo'' s); s2 = snd (login_commit 6 ''neo'' s1) in
     active_keys s2 ! 0 = ''neo'' \<and> active_keys s2 ! 1 = ''neo''"
proof -
  let ?s = "sample_server\<lparr>active_keys := replicate 10 []\<rparr>"
  have ok: "stores_ok ?s" using sample_server_stores by (simp add: stores_ok_def full_writes_def)
  have cs: "client_sockets ?s = [5, 6, 0, 0, 0, 0, 0, 0, 0, 0]" "active_keys ?s = replicate 10 []"
    by (simp_all add: sample_server_def)
  have alive: "\<forall>r l. userdb_find ''neo'' (sv_users ?s) = Some (r, l) \<longrightarrow> \<not> userdb_is_burned r"
    by (simp add: sample_server_def sample_find) (simp add: sample_record_def userdb_is_burned_def)
  show ?thesis
    using login_race_admits_both [OF ok sample_safe(1) _ _ _ _ _ _ _ _ _ _ alive, of 0 1 5 6]
    by (simp add: cs Let_def split_beta)
qed

end
