(* ===== verification/Invariants.thy ===== *)
theory Invariants
  imports Session
begin

text \<open>
  Invariants of the whole server. A predicate on the server's state that survives the elementary updates, the
  boards' operations and the steps of a round survives every handler and every thread; that is proved once, in a
  locale, and used for the session table, the boards and the round.
\<close>

section \<open>The contract\<close>

text \<open>One board operation after another: well-formed boards stay well-formed.\<close>

definition board_next :: "market \<Rightarrow> market \<Rightarrow> bool" where
  "board_next m m' \<longleftrightarrow> (board_ok m \<longrightarrow> board_ok m')"

lemma board_next_refl [simp]: "board_next m m"
  by (simp add: board_next_def)

lemma board_next_ops [simp]:
  "board_next m (snd (market_add now r d t p n m))" "board_next m (snd (market_take d m))"
  "board_next m (snd (npc_add now d t b m))" "board_next m (snd (npc_take d m))"
  "board_next m (freeze_tags t m)" "board_next m (unfreeze_tags t m)" "board_next m (market_init m)"
  "board_next m (snd (market_despawn_aged now k m))" "board_next m (snd (npc_despawn_aged now base step k m))"
  by (simp_all add: board_next_def board_ok_ops)

locale server_invariant =
  fixes I :: "server \<Rightarrow> bool"
  assumes rands: "I s \<Longrightarrow> I (s\<lparr>sv_rands := rs\<rparr>)"
    and writes: "I s \<Longrightarrow> I (s\<lparr>sv_writes := tl (sv_writes s)\<rparr>)"
    and creates: "I s \<Longrightarrow> I (s\<lparr>sv_creates := bs\<rparr>)"
    and threads: "I s \<Longrightarrow> I (s\<lparr>sv_threads := ts\<rparr>)"
    and out: "I s \<Longrightarrow> I (s\<lparr>sv_out := sv_out s @ ms\<rparr>)"
    and users: "I s \<Longrightarrow> I (s\<lparr>sv_users := db\<rparr>)"
    and files: "I s \<Longrightarrow> I (s\<lparr>sv_fs := f\<rparr>)"
    and market: "I s \<Longrightarrow> board_next (sv_market s) m \<Longrightarrow> I (s\<lparr>sv_market := m\<rparr>)"
    and rumor: "I s \<Longrightarrow> I (s\<lparr>g_rumor_cd_until := t\<rparr>)"
    and raid_deadline: "I s \<Longrightarrow> I (s\<lparr>g_periodic_raid_deadline := t\<rparr>)"
    and raid_pending: "I s \<Longrightarrow> I (s\<lparr>g_periodic_raid_pending_keys := ks\<rparr>)"
    and raid_passcode: "I s \<Longrightarrow> I (s\<lparr>g_periodic_raid_passcode := p\<rparr>)"
    and doc_counter: "I s \<Longrightarrow> I (s\<lparr>g_doc_id_counter := i\<rparr>)"
    and npc_counter: "I s \<Longrightarrow> I (s\<lparr>g_npc_id_counter := i\<rparr>)"
    and countdown: "I s \<Longrightarrow> I (s\<lparr>g_round_end_active := b\<rparr>)"
    and escape: "I s \<Longrightarrow> I (escape_step key s)"
    and reset: "I s \<Longrightarrow> I (reset_round_state s)"
begin

lemmas updates = rands writes creates threads out users files market rumor raid_deadline raid_pending raid_passcode
  doc_counter npc_counter countdown escape reset

section \<open>Helpers of the handlers\<close>

lemma sending:
  "I s \<Longrightarrow> I (packet_send k m s)" "I s \<Longrightarrow> I (broadcast_packet m s)" "I s \<Longrightarrow> I (send_error k c r s)"
  "I s \<Longrightarrow> I (snd (unicast_to_key key m s))" "I s \<Longrightarrow> I (send_all k ms s)"
  by (simp_all add: packet_send_def broadcast_packet_def send_error_def unicast_to_key_def send_all_eq updates split: option.split)

lemma broadcasts: "I s \<Longrightarrow> I (fold (\<lambda>x. broadcast_packet (f x)) xs s)"
  by (induction xs arbitrary: s) (simp_all add: sending)

lemma drawing: "I s \<Longrightarrow> I (snd (draw s))"
  by (simp add: draw_eq rands)

lemma creating: "I s \<Longrightarrow> I (snd (pthread_create t s))"
  by (simp add: pthread_create_def threads creates split: list.split)

lemma storing:
  "I s \<Longrightarrow> I (sv_update_at l r s)" "I s \<Longrightarrow> I (sv_burn_at l s)" "I s \<Longrightarrow> I (snd (sv_append r s))"
  "I s \<Longrightarrow> I (snd (sv_master_write doc s))" "I s \<Longrightarrow> I (snd (sv_market_add d t p n s))"
  "I s \<Longrightarrow> I (snd (sv_npc_add d t b s))"
  by (simp_all add: sv_update_at_eq sv_burn_at_eq sv_append_eq sv_master_write_eq sv_market_add_eq sv_npc_add_eq updates)

lemmas steps = updates sending broadcasts drawing creating storing

section \<open>Requests\<close>

lemma buying: "I s \<Longrightarrow> I (handle_buy sock key d s)"
proof -
  assume s: "I s"
  have taken: "I (s\<lparr>sv_market := m\<rparr>)" if "market_take d (sv_market s) = (x, m)" for x m
    using s board_next_ops(2) [of "sv_market s" d] that by (intro market) auto
  show ?thesis
    unfolding handle_buy_def buy_commit_def Let_def
    by (auto simp: sending s split: option.split prod.split sum.split take_error.split dest: taken
        intro!: sending storing files)
qed

lemma selling: "I s \<Longrightarrow> I (handle_sell junk sock key npc n ds s)"
proof -
  assume s: "I s"
  have taken: "I (s\<lparr>sv_market := m\<rparr>)" "I (s\<lparr>sv_market := m, sv_fs := f\<rparr>)" if "npc_take npc (sv_market s) = (x, m)" for x m f
    using s board_next_ops(4) [of "sv_market s" npc] that by (auto intro!: files market)
  show ?thesis
    unfolding handle_sell_def Let_def
    by (auto simp: s split: option.split prod.split sum.split dest: taken intro!: sending storing)
qed

lemma small_requests:
  "I s \<Longrightarrow> I (handle_dispose sock key d s)" "I s \<Longrightarrow> I (handle_inventory sock key s)"
  "I s \<Longrightarrow> I (handle_fake_rich sock key s)" "I s \<Longrightarrow> I (snd (check_bankruptcy sock key s))"
  by (simp_all add: handle_dispose_def handle_inventory_def handle_fake_rich_def check_bankruptcy_def Let_def steps
      split: option.split prod.split)

lemma rumoring: "I s \<Longrightarrow> I (handle_rumor sock key target s)"
  by (simp add: handle_rumor_def Let_def steps small_requests split: option.split prod.split)

section \<open>The round\<close>

lemma firing: "I s \<Longrightarrow> I (fire_round_end_countdown text s)"
  by (simp add: fire_round_end_countdown_def Let_def case_prod_unfold steps)

lemma paying: "I s \<Longrightarrow> I (handle_payoff sock key s)"
proof (cases "\<exists>r l. userdb_find key (sv_users s) = Some (r, l) \<and> g_goal_money s \<le> ur_money r")
  case True
  then obtain r l where "userdb_find key (sv_users s) = Some (r, l)" "g_goal_money s \<le> ur_money r" by blast
  from handle_payoff_success [OF this, of sock] show "I s \<Longrightarrow> ?thesis"
    by (simp add: Let_def firing sending storing files escape)
next
  case False
  then show "I s \<Longrightarrow> ?thesis" by (auto simp: handle_payoff_def sending split: option.split)
qed

lemma seeding: "I s \<Longrightarrow> I (seed_market_and_npc s)"
proof -
  assume "I s"
  moreover have "I (seed_one doc u)" if "I u" for doc u
    using that by (simp add: seed_one_def Let_def case_prod_unfold storing)
  then have "I (fold seed_one docs u)" if "I u" for docs u using that by (induction docs arbitrary: u) simp_all
  ultimately show ?thesis by (simp add: seed_market_and_npc_def Let_def storing)
qed

lemma resetting: "I s \<Longrightarrow> I (trigger_round_reset s)" "I s \<Longrightarrow> I (round_end_timer_thread s)"
  by (simp_all add: round_end_timer_thread_def trigger_round_reset_def broadcast_board_def Let_def broadcasts sending seeding
      rumor reset market users files)

section \<open>Raids\<close>

lemma burning: "I s \<Longrightarrow> I (burn_user_by_key key s)"
  by (simp add: burn_user_by_key_def Let_def sending storing files split: option.split prod.split)

lemma burnings: "I s \<Longrightarrow> I (fold burn_user_by_key keys s)"
  by (induction keys arbitrary: s) (simp_all add: burning)

lemma raids:
  "I s \<Longrightarrow> I (fire_periodic_police_raid s)" "I s \<Longrightarrow> I (fire_self_police_raid sock key s)"
  "I s \<Longrightarrow> I (periodic_raid_timeout_thread s)" "I s \<Longrightarrow> I (handle_minigame_submit sock key p s)"
  by (simp_all add: fire_periodic_police_raid_def fire_self_police_raid_def periodic_raid_timeout_thread_def
      handle_minigame_submit_def pick_raid_passcode_def Let_def case_prod_unfold steps burnings burning split: option.split)

section \<open>Events\<close>

lemma tagging: "I s \<Longrightarrow> I (snd (event_random_tags s))"
  by (rule random_tagsE [of s]) (simp add: rands)

lemma naming: "I s \<Longrightarrow> I (snd (make_doc_name t sz s))"
  by (simp add: make_doc_name_def Let_def case_prod_unfold drawing)

lemma spawning: "I s \<Longrightarrow> I (event_spawn_market s)"
  by (simp add: event_spawn_market_def Let_def case_prod_unfold steps tagging naming)

lemma ordering: "I s \<Longrightarrow> I (snd (npc_hint s))" "I s \<Longrightarrow> I (npc_spawn t s)"
  by (simp_all add: npc_hint_def npc_spawn_def Let_def case_prod_unfold steps tagging)

lemma ageing: "I s \<Longrightarrow> I (event_age_npcs s)" "I s \<Longrightarrow> I (event_age_market s)"
proof -
  assume s: "I s"
  have "I (fold expire_doc ds u)" if "I u" for ds u
    using that by (induction ds arbitrary: u) (simp_all add: expire_doc_def sending files)
  then show "I (event_age_market s)" using s by (simp add: event_age_market_def case_prod_unfold market)
  show "I (event_age_npcs s)" using s by (simp add: event_age_npcs_def case_prod_unfold broadcasts market)
qed

lemma leaking:
  "I s \<Longrightarrow> I (snd (fire_public_leak ok s))" "I s \<Longrightarrow> I (leak_recovery_thread t s)" "I s \<Longrightarrow> I (event_try_public_leak ok s)"
proof -
  show leak: "I (snd (fire_public_leak ok s))" if "I s" for s
    using that by (simp add: fire_public_leak_def Let_def case_prod_unfold drawing sending creating market)
  show "I s \<Longrightarrow> I (leak_recovery_thread t s)" by (simp add: leak_recovery_thread_def sending market)
  show "I s \<Longrightarrow> I (event_try_public_leak ok s)" by (simp add: event_try_public_leak_def case_prod_unfold drawing leak)
qed

lemma ticking: "I s \<Longrightarrow> I (snd (event_tick ok n next s))"
proof -
  assume "I s"
  then have 1: "I (if check_cap_grace_expired s then fire_round_end_countdown txt_cap_expired s else s)" by (simp add: firing)
  note 2 = ageing(2) [OF ageing(1) [OF 1]]
  have 3: "I (snd (if b then next_raid_time (fire_periodic_police_raid u) else (next, u)))" if "I u" for u b
    using that by (simp add: next_raid_time_def case_prod_unfold drawing raids)
  have 4: "I (if b then event_try_public_leak ok u else u)" "I (if b then event_spawn_market u else u)"
    "I (if b then snd (pthread_create Npc_sequence u) else u)" "I (if b then dummy_feed u else u)" if "I u" for u b
    using that by (simp_all add: leaking spawning creating dummy_feed_def case_prod_unfold drawing sending)
  show ?thesis
    unfolding event_tick_def Let_def case_prod_unfold snd_conv by (intro 4 3 2)
qed

section \<open>Dispatch\<close>

lemma dispatching: "I s \<Longrightarrow> I (snd (dispatch junk ok sock key m s))"
  by (cases m) (simp_all add: dispatch_def case_prod_unfold paying sending raids leaking firing small_requests
      buying selling rumoring handle_fake_endround_def)

end

end
