(* ===== verification/Wire.thy ===== *)
theory Wire
  imports Common Bytes
begin

text \<open>
  The packets as bytes (\<open>src/common/protocol.c\<close> and the packed structs of \<open>protocol.h\<close>): the 548-byte
  image of a message in the memory of a little-endian host, what \<open>packet_send\<close> puts on the wire, what
  \<open>packet_recv\<close> makes of the bytes that arrive, and the message a receiver reads from the struct.
\<close>

section \<open>Layout\<close>

abbreviation PACKET_SIZE :: nat where "PACKET_SIZE \<equiv> 548"
abbreviation BODY :: nat where "BODY \<equiv> 8"

type_synonym packet = string

text \<open>A packed struct is a sequence of 32-bit fields and character arrays.\<close>

datatype field = Num "32 word" | Text nat string

fun field_size :: "field \<Rightarrow> nat" where
  "field_size (Num w) = 4"
| "field_size (Text n s) = n"

text \<open>Fields with their offsets, the first at \<open>off\<close>.\<close>

fun located :: "nat \<Rightarrow> field list \<Rightarrow> (nat \<times> field) list" where
  "located off [] = []"
| "located off (f # fs) = (off, f) # located (off + field_size f) fs"

text \<open>The bytes of a field under an encoding of the numbers: \<open>le32\<close> in memory, \<open>be32\<close> in network order.\<close>

definition be32 :: "32 word \<Rightarrow> string" where
  "be32 w = rev (le32 w)"

fun field_bytes :: "(32 word \<Rightarrow> string) \<Rightarrow> field \<Rightarrow> string" where
  "field_bytes enc (Num w) = enc w"
| "field_bytes enc (Text n s) = cbuf n s"

definition fields_bytes :: "(32 word \<Rightarrow> string) \<Rightarrow> field list \<Rightarrow> string" where
  "fields_bytes enc fs = concat (map (field_bytes enc) fs)"

abbreviation Int32 :: "int \<Rightarrow> field" where "Int32 i \<equiv> Num (word_of_int i)"

definition flag :: "bool \<Rightarrow> int" where "flag b = (if b then 1 else 0)"

definition inven_item_fields :: "inven_item \<Rightarrow> field list" where
  "inven_item_fields it = [Int32 (ii_doc_id it), Num (ii_tags it), Text MAX_NAME_LEN (ii_name it), Int32 (flag (ii_is_frozen it))]"

definition score_escaped_fields :: "score_escaped \<Rightarrow> field list" where
  "score_escaped_fields e = [Text MAX_KEY_LEN (se_key e), Int32 (se_money_at_escape e), Int32 (se_escape_order e)]"

definition score_remaining_fields :: "score_remaining \<Rightarrow> field list" where
  "score_remaining_fields r = [Text MAX_KEY_LEN (sr_key r), Int32 (sr_money r)]"

text \<open>An array of \<open>n\<close> entries of which the first were written and the rest is zero.\<close>

definition fill :: "nat \<Rightarrow> 'a \<Rightarrow> 'a list \<Rightarrow> 'a list" where
  "fill n zero xs = take n (xs @ replicate n zero)"

definition zero_item :: inven_item where
  "zero_item = \<lparr>ii_doc_id = 0, ii_tags = 0, ii_name = [], ii_is_frozen = False\<rparr>"

definition zero_escaped :: score_escaped where
  "zero_escaped = \<lparr>se_key = [], se_money_at_escape = 0, se_escape_order = 0\<rparr>"

definition zero_remaining :: score_remaining where
  "zero_remaining = \<lparr>sr_key = [], sr_money = 0\<rparr>"

section \<open>Messages as packets\<close>

fun msg_type :: "msg \<Rightarrow> packet_type" where
  "msg_type (Req_login _) = PKT_REQ_LOGIN"
| "msg_type (Req_chat _) = PKT_REQ_CHAT"
| "msg_type (Req_buy _) = PKT_REQ_BUY"
| "msg_type (Req_sell _ _ _) = PKT_REQ_SELL"
| "msg_type (Req_dispose _) = PKT_REQ_DISPOSE"
| "msg_type Req_inven = PKT_REQ_INVEN"
| "msg_type (Req_rumor _) = PKT_REQ_RUMOR"
| "msg_type (Req_minigame_submit _) = PKT_REQ_MINIGAME_SUBMIT"
| "msg_type Req_trigger_raid = PKT_REQ_TRIGGER_RAID"
| "msg_type Req_trigger_leak = PKT_REQ_TRIGGER_LEAK"
| "msg_type Req_trigger_rich = PKT_REQ_TRIGGER_RICH"
| "msg_type Req_trigger_endround = PKT_REQ_TRIGGER_ENDROUND"
| "msg_type (Res_login_ok _ _ _) = PKT_RES_LOGIN_OK"
| "msg_type (Res_login_fail _ _) = PKT_RES_LOGIN_FAIL"
| "msg_type (Res_inven_info _ _ _) = PKT_RES_INVEN_INFO"
| "msg_type (Res_buy_ok _ _ _ _) = PKT_RES_BUY_OK"
| "msg_type (Res_sell_ok _ _) = PKT_RES_SELL_OK"
| "msg_type Res_dispose_ok = PKT_RES_DISPOSE_OK"
| "msg_type (Res_error _ _) = PKT_RES_ERROR"
| "msg_type Res_minigame_ok = PKT_RES_MINIGAME_OK"
| "msg_type (Evt_chat _ _) = PKT_EVT_CHAT"
| "msg_type (Evt_market_spawn _ _ _ _) = PKT_EVT_MARKET_SPAWN"
| "msg_type (Evt_market_remove _) = PKT_EVT_MARKET_REMOVE"
| "msg_type (Evt_npc_spawn _ _ _) = PKT_EVT_NPC_SPAWN"
| "msg_type (Evt_npc_despawn _) = PKT_EVT_NPC_DESPAWN"
| "msg_type (Evt_news_leak _ _ _) = PKT_EVT_NEWS_LEAK"
| "msg_type (Evt_news_recover _) = PKT_EVT_NEWS_RECOVER"
| "msg_type Evt_rumor_glitch = PKT_EVT_RUMOR_GLITCH"
| "msg_type (Evt_police_raid _ _) = PKT_EVT_POLICE_RAID"
| "msg_type (Evt_game_over _) = PKT_EVT_GAME_OVER"
| "msg_type (Evt_victory _) = PKT_EVT_VICTORY"
| "msg_type (Evt_scoreboard _ _ _ _ _) = PKT_EVT_SCOREBOARD"
| "msg_type (Evt_goal_update _) = PKT_EVT_GOAL_UPDATE"

text \<open>The union member of each packet type; a type without one has no fields.\<close>

fun body_fields :: "msg \<Rightarrow> field list" where
  "body_fields (Req_login key) = [Text MAX_KEY_LEN key]"
| "body_fields (Req_chat t) = [Text MAX_TEXT_LEN t]"
| "body_fields (Req_buy d) = [Int32 d]"
| "body_fields (Req_sell n c ds) = [Int32 n, Int32 c] @ map (\<lambda>d. Int32 d) (fill MAX_INVEN_SIZE 0 ds)"
| "body_fields (Req_dispose d) = [Int32 d]"
| "body_fields (Req_rumor k) = [Text MAX_KEY_LEN k]"
| "body_fields (Req_minigame_submit p) = [Text MAX_TEXT_LEN p]"
| "body_fields (Res_login_ok i m g) = [Int32 i, Int32 m, Int32 g]"
| "body_fields (Res_login_fail e r) = [Int32 (error_num e), Text MAX_TEXT_LEN r]"
| "body_fields (Res_inven_info c its m) = [Int32 c] @ concat (map inven_item_fields (fill MAX_INVEN_SIZE zero_item its)) @ [Int32 m]"
| "body_fields (Res_buy_ok d m t n) = [Int32 d, Int32 m, Num t, Text MAX_NAME_LEN n]"
| "body_fields (Res_sell_ok b m) = [Int32 b, Int32 m]"
| "body_fields (Res_error e r) = [Int32 (error_num e), Text MAX_TEXT_LEN r]"
| "body_fields (Evt_chat k t) = [Text MAX_KEY_LEN k, Text MAX_TEXT_LEN t]"
| "body_fields (Evt_market_spawn d t p n) = [Int32 d, Num t, Int32 p, Text MAX_NAME_LEN n]"
| "body_fields (Evt_market_remove d) = [Int32 d]"
| "body_fields (Evt_npc_spawn n t b) = [Int32 n, Num t, Int32 b]"
| "body_fields (Evt_npc_despawn n) = [Int32 n]"
| "body_fields (Evt_news_leak t d h) = [Num t, Int32 d, Text MAX_TEXT_LEN h]"
| "body_fields (Evt_news_recover t) = [Num t]"
| "body_fields (Evt_police_raid p l) = [Text MAX_TEXT_LEN p, Int32 l]"
| "body_fields (Evt_game_over m) = [Text MAX_TEXT_LEN m]"
| "body_fields (Evt_victory m) = [Text MAX_TEXT_LEN m]"
| "body_fields (Evt_scoreboard c ec es rc rs) = [Int32 c, Int32 ec] @ concat (map score_escaped_fields (fill MAX_SCORE_ESCAPED zero_escaped es))
     @ [Int32 rc] @ concat (map score_remaining_fields (fill MAX_SCORE_REMAINING zero_remaining rs))"
| "body_fields (Evt_goal_update g) = [Int32 g]"
| "body_fields _ = []"

definition packet_fields :: "msg \<Rightarrow> field list" where
  "packet_fields m = Num (packet_type_num (msg_type m)) # Int32 0 # body_fields m"

text \<open>\<open>memset(&pkt, 0, sizeof(Packet))\<close> and the assignments to its fields.\<close>

definition packet_of :: "msg \<Rightarrow> packet" where
  "packet_of m = cbuf PACKET_SIZE (fields_bytes le32 (packet_fields m))"

definition all_packet_types :: "packet_type list" where
  "all_packet_types = [PKT_REQ_LOGIN, PKT_REQ_CHAT, PKT_REQ_BUY, PKT_REQ_SELL, PKT_REQ_DISPOSE,
     PKT_REQ_INVEN, PKT_REQ_RUMOR, PKT_REQ_MINIGAME_SUBMIT, PKT_REQ_TRIGGER_RAID, PKT_REQ_TRIGGER_LEAK,
     PKT_REQ_TRIGGER_RICH, PKT_REQ_TRIGGER_ENDROUND, PKT_RES_LOGIN_OK, PKT_RES_LOGIN_FAIL, PKT_RES_INVEN_INFO,
     PKT_RES_BUY_OK, PKT_RES_SELL_OK, PKT_RES_DISPOSE_OK, PKT_RES_ERROR, PKT_RES_MINIGAME_OK,
     PKT_EVT_CHAT, PKT_EVT_MARKET_SPAWN, PKT_EVT_MARKET_REMOVE, PKT_EVT_NPC_SPAWN, PKT_EVT_NPC_DESPAWN,
     PKT_EVT_NEWS_LEAK, PKT_EVT_NEWS_RECOVER, PKT_EVT_RUMOR_GLITCH, PKT_EVT_POLICE_RAID, PKT_EVT_GAME_OVER,
     PKT_EVT_VICTORY, PKT_EVT_SCOREBOARD, PKT_EVT_GOAL_UPDATE]"

definition packet_type_of :: "32 word \<Rightarrow> packet_type option" where
  "packet_type_of w = find (\<lambda>t. packet_type_num t = w) all_packet_types"

definition u32_at :: "nat \<Rightarrow> packet \<Rightarrow> 32 word" where
  "u32_at off p = of_le32 (bytes_at off 4 p)"

definition i32_at :: "nat \<Rightarrow> packet \<Rightarrow> int" where
  "i32_at off p = sint (u32_at off p)"

text \<open>The string a character array of \<open>n\<close> bytes holds.\<close>

definition str_at :: "nat \<Rightarrow> nat \<Rightarrow> packet \<Rightarrow> string" where
  "str_at off n p = cstr (bytes_at off n p)"

section \<open>The code of protocol.c\<close>

text \<open>\<open>x = ntohl(x)\<close> for the field at \<open>off\<close>; on a little-endian host \<open>htonl\<close> is the same swap.\<close>

definition swap_at :: "nat \<Rightarrow> packet \<Rightarrow> packet" where
  "swap_at off p = take off p @ rev (bytes_at off 4 p) @ drop (off + 4) p"

text \<open>The fields the switch of \<open>swap_packet_endian\<close> swaps, by their offset in the packet.\<close>

fun swap_fields :: "packet_type \<Rightarrow> nat list" where
  "swap_fields PKT_REQ_BUY = [8]"
| "swap_fields PKT_REQ_SELL = [8, 12] @ map (\<lambda>i. 16 + 4 * i) [0..<MAX_INVEN_SIZE]"
| "swap_fields PKT_REQ_DISPOSE = [8]"
| "swap_fields PKT_RES_LOGIN_OK = [8, 12, 16]"
| "swap_fields PKT_RES_INVEN_INFO = [8, 544] @ concat (map (\<lambda>i. [12 + 76 * i, 16 + 76 * i, 84 + 76 * i]) [0..<MAX_INVEN_SIZE])"
| "swap_fields PKT_RES_BUY_OK = [8, 12, 16]"
| "swap_fields PKT_RES_SELL_OK = [8, 12]"
| "swap_fields PKT_RES_ERROR = [8]"
| "swap_fields PKT_EVT_MARKET_SPAWN = [8, 12, 16]"
| "swap_fields PKT_EVT_MARKET_REMOVE = [8]"
| "swap_fields PKT_EVT_NPC_SPAWN = [8, 12, 16]"
| "swap_fields PKT_EVT_NPC_DESPAWN = [8]"
| "swap_fields PKT_EVT_NEWS_LEAK = [8, 12]"
| "swap_fields PKT_EVT_NEWS_RECOVER = [8]"
| "swap_fields PKT_EVT_POLICE_RAID = [264]"
| "swap_fields PKT_EVT_SCOREBOARD = [8, 12, 136]
     @ concat (map (\<lambda>i. [48 + 40 * i, 52 + 40 * i]) [0..<MAX_SCORE_ESCAPED])
     @ map (\<lambda>i. 172 + 36 * i) [0..<MAX_SCORE_REMAINING]"
| "swap_fields PKT_EVT_GOAL_UPDATE = [8]"
| "swap_fields _ = []"

definition swap_packet_endian :: "packet \<Rightarrow> packet" where
  "swap_packet_endian pkt =
     (case packet_type_of (u32_at 0 pkt) of
        Some t \<Rightarrow> fold swap_at (swap_fields t) pkt
      | None \<Rightarrow> pkt)"

text \<open>The last byte of each array the switch of \<open>enforce_null_termination\<close> sets to 0.\<close>

fun end_fields :: "packet_type \<Rightarrow> nat list" where
  "end_fields PKT_REQ_LOGIN = [8 + (MAX_KEY_LEN - 1)]"
| "end_fields PKT_REQ_CHAT = [8 + (MAX_TEXT_LEN - 1)]"
| "end_fields PKT_REQ_MINIGAME_SUBMIT = [8 + (MAX_TEXT_LEN - 1)]"
| "end_fields PKT_REQ_RUMOR = [8 + (MAX_KEY_LEN - 1)]"
| "end_fields PKT_RES_BUY_OK = [20 + (MAX_NAME_LEN - 1)]"
| "end_fields PKT_RES_ERROR = [12 + (MAX_TEXT_LEN - 1)]"
| "end_fields PKT_EVT_CHAT = [8 + (MAX_KEY_LEN - 1), 40 + (MAX_TEXT_LEN - 1)]"
| "end_fields PKT_EVT_MARKET_SPAWN = [20 + (MAX_NAME_LEN - 1)]"
| "end_fields PKT_EVT_NEWS_LEAK = [16 + (MAX_TEXT_LEN - 1)]"
| "end_fields PKT_EVT_POLICE_RAID = [8 + (MAX_TEXT_LEN - 1)]"
| "end_fields PKT_EVT_GAME_OVER = [8 + (MAX_TEXT_LEN - 1)]"
| "end_fields PKT_EVT_VICTORY = [8 + (MAX_TEXT_LEN - 1)]"
| "end_fields PKT_RES_INVEN_INFO = map (\<lambda>i. 20 + 76 * i + (MAX_NAME_LEN - 1)) [0..<MAX_INVEN_SIZE]"
| "end_fields PKT_EVT_SCOREBOARD = map (\<lambda>i. 16 + 40 * i + (MAX_KEY_LEN - 1)) [0..<MAX_SCORE_ESCAPED]
     @ map (\<lambda>i. 140 + 36 * i + (MAX_KEY_LEN - 1)) [0..<MAX_SCORE_REMAINING]"
| "end_fields _ = []"

definition set_nul :: "nat \<Rightarrow> packet \<Rightarrow> packet" where
  "set_nul off p = p[off := NUL]"

definition enforce_null_termination :: "packet \<Rightarrow> packet" where
  "enforce_null_termination pkt =
     (case packet_type_of (u32_at 0 pkt) of
        Some t \<Rightarrow> fold set_nul (end_fields t) pkt
      | None \<Rightarrow> pkt)"

text \<open>What \<open>recv\<close> with \<open>MSG_WAITALL\<close> gave: an error, or the bytes up to a whole packet or the end of the stream.\<close>

datatype recv_result = Recv_failed | Received string

definition packet_recv :: "recv_result \<Rightarrow> int \<times> packet" where
  "packet_recv r =
     (case r of
        Recv_failed \<Rightarrow> (-1, replicate PACKET_SIZE NUL)
      | Received bs \<Rightarrow>
          let ret = min (length bs) PACKET_SIZE;
              pkt = cbuf PACKET_SIZE bs
          in if ret \<le> 0 then (int ret, pkt)
             else (int ret, enforce_null_termination (swap_packet_endian (swap_at 4 (swap_at 0 pkt)))))"

text \<open>The bytes \<open>packet_send\<close> hands to \<open>send\<close>.\<close>

definition packet_wire :: "packet \<Rightarrow> string" where
  "packet_wire pkt = swap_at 4 (swap_at 0 (swap_packet_endian (enforce_null_termination pkt)))"

section \<open>Reading a packet\<close>

definition all_error_codes :: "error_code list" where
  "all_error_codes = [ERR_NONE, ERR_NOT_ENOUGH_MONEY, ERR_INVENTORY_FULL, ERR_DOC_NOT_FOUND, ERR_TAG_MISMATCH,
     ERR_NPC_NOT_FOUND, ERR_NPC_ALREADY_TAKEN, ERR_DOC_FROZEN, ERR_RUMOR_COOLDOWN, ERR_INVALID_SESSION,
     ERR_DUPLICATE_LOGIN, ERR_KEY_BURNED]"

definition error_code_of :: "int \<Rightarrow> error_code option" where
  "error_code_of i = find (\<lambda>e. error_num e = i) all_error_codes"

definition inven_item_at :: "packet \<Rightarrow> nat \<Rightarrow> inven_item" where
  "inven_item_at p i = (let b = 12 + 76 * i in
     \<lparr>ii_doc_id = i32_at b p, ii_tags = u32_at (b + 4) p, ii_name = str_at (b + 8) MAX_NAME_LEN p,
      ii_is_frozen = (i32_at (b + 72) p \<noteq> 0)\<rparr>)"

definition score_escaped_at :: "packet \<Rightarrow> nat \<Rightarrow> score_escaped" where
  "score_escaped_at p i = (let b = 16 + 40 * i in
     \<lparr>se_key = str_at b MAX_KEY_LEN p, se_money_at_escape = i32_at (b + 32) p, se_escape_order = i32_at (b + 36) p\<rparr>)"

definition score_remaining_at :: "packet \<Rightarrow> nat \<Rightarrow> score_remaining" where
  "score_remaining_at p i = (let b = 140 + 36 * i in
     \<lparr>sr_key = str_at b MAX_KEY_LEN p, sr_money = i32_at (b + 32) p\<rparr>)"

text \<open>How many entries of an array of \<open>n\<close> a reader that stops at \<open>count\<close> and at \<open>n\<close> takes.\<close>

definition entries :: "nat \<Rightarrow> int \<Rightarrow> nat list" where
  "entries n c = [0..<min n (nat c)]"

text \<open>
  The fields a receiver reads for the type of a packet. A number that is no error code of the program has
  no message; of a counted array the entries within both the count and the array are taken.
\<close>

definition read_body :: "packet_type \<Rightarrow> packet \<Rightarrow> msg option" where
  "read_body t p =
     (case t of
        PKT_REQ_LOGIN \<Rightarrow> Some (Req_login (str_at 8 MAX_KEY_LEN p))
      | PKT_REQ_CHAT \<Rightarrow> Some (Req_chat (str_at 8 MAX_TEXT_LEN p))
      | PKT_REQ_BUY \<Rightarrow> Some (Req_buy (i32_at 8 p))
      | PKT_REQ_SELL \<Rightarrow> Some (Req_sell (i32_at 8 p) (i32_at 12 p) (map (\<lambda>i. i32_at (16 + 4 * i) p) [0..<MAX_INVEN_SIZE]))
      | PKT_REQ_DISPOSE \<Rightarrow> Some (Req_dispose (i32_at 8 p))
      | PKT_REQ_INVEN \<Rightarrow> Some Req_inven
      | PKT_REQ_RUMOR \<Rightarrow> Some (Req_rumor (str_at 8 MAX_KEY_LEN p))
      | PKT_REQ_MINIGAME_SUBMIT \<Rightarrow> Some (Req_minigame_submit (str_at 8 MAX_TEXT_LEN p))
      | PKT_REQ_TRIGGER_RAID \<Rightarrow> Some Req_trigger_raid
      | PKT_REQ_TRIGGER_LEAK \<Rightarrow> Some Req_trigger_leak
      | PKT_REQ_TRIGGER_RICH \<Rightarrow> Some Req_trigger_rich
      | PKT_REQ_TRIGGER_ENDROUND \<Rightarrow> Some Req_trigger_endround
      | PKT_RES_LOGIN_OK \<Rightarrow> Some (Res_login_ok (i32_at 8 p) (i32_at 12 p) (i32_at 16 p))
      | PKT_RES_LOGIN_FAIL \<Rightarrow> map_option (\<lambda>e. Res_login_fail e (str_at 12 MAX_TEXT_LEN p)) (error_code_of (i32_at 8 p))
      | PKT_RES_INVEN_INFO \<Rightarrow> Some (Res_inven_info (i32_at 8 p) (map (inven_item_at p) (entries MAX_INVEN_SIZE (i32_at 8 p))) (i32_at 544 p))
      | PKT_RES_BUY_OK \<Rightarrow> Some (Res_buy_ok (i32_at 8 p) (i32_at 12 p) (u32_at 16 p) (str_at 20 MAX_NAME_LEN p))
      | PKT_RES_SELL_OK \<Rightarrow> Some (Res_sell_ok (i32_at 8 p) (i32_at 12 p))
      | PKT_RES_DISPOSE_OK \<Rightarrow> Some Res_dispose_ok
      | PKT_RES_ERROR \<Rightarrow> map_option (\<lambda>e. Res_error e (str_at 12 MAX_TEXT_LEN p)) (error_code_of (i32_at 8 p))
      | PKT_RES_MINIGAME_OK \<Rightarrow> Some Res_minigame_ok
      | PKT_EVT_CHAT \<Rightarrow> Some (Evt_chat (str_at 8 MAX_KEY_LEN p) (str_at 40 MAX_TEXT_LEN p))
      | PKT_EVT_MARKET_SPAWN \<Rightarrow> Some (Evt_market_spawn (i32_at 8 p) (u32_at 12 p) (i32_at 16 p) (str_at 20 MAX_NAME_LEN p))
      | PKT_EVT_MARKET_REMOVE \<Rightarrow> Some (Evt_market_remove (i32_at 8 p))
      | PKT_EVT_NPC_SPAWN \<Rightarrow> Some (Evt_npc_spawn (i32_at 8 p) (u32_at 12 p) (i32_at 16 p))
      | PKT_EVT_NPC_DESPAWN \<Rightarrow> Some (Evt_npc_despawn (i32_at 8 p))
      | PKT_EVT_NEWS_LEAK \<Rightarrow> Some (Evt_news_leak (u32_at 8 p) (i32_at 12 p) (str_at 16 MAX_TEXT_LEN p))
      | PKT_EVT_NEWS_RECOVER \<Rightarrow> Some (Evt_news_recover (u32_at 8 p))
      | PKT_EVT_RUMOR_GLITCH \<Rightarrow> Some Evt_rumor_glitch
      | PKT_EVT_POLICE_RAID \<Rightarrow> Some (Evt_police_raid (str_at 8 MAX_TEXT_LEN p) (i32_at 264 p))
      | PKT_EVT_GAME_OVER \<Rightarrow> Some (Evt_game_over (str_at 8 MAX_TEXT_LEN p))
      | PKT_EVT_VICTORY \<Rightarrow> Some (Evt_victory (str_at 8 MAX_TEXT_LEN p))
      | PKT_EVT_SCOREBOARD \<Rightarrow> Some (Evt_scoreboard (i32_at 8 p) (i32_at 12 p)
            (map (score_escaped_at p) (entries MAX_SCORE_ESCAPED (i32_at 12 p))) (i32_at 136 p)
            (map (score_remaining_at p) (entries MAX_SCORE_REMAINING (i32_at 136 p))))
      | PKT_EVT_GOAL_UPDATE \<Rightarrow> Some (Evt_goal_update (i32_at 8 p)))"

definition msg_of :: "packet \<Rightarrow> msg option" where
  "msg_of p = (case packet_type_of (u32_at 0 p) of Some t \<Rightarrow> read_body t p | None \<Rightarrow> None)"

section \<open>Fields of a byte image\<close>

lemma length_be32 [simp]: "length (be32 w) = 4"
  by (simp add: be32_def)

text \<open>The image in which exactly the numbers at the offsets \<open>S\<close> are in network order.\<close>

fun mixed :: "nat set \<Rightarrow> nat \<Rightarrow> field list \<Rightarrow> string" where
  "mixed S off [] = []"
| "mixed S off (f # fs) = field_bytes (if off \<in> S then be32 else le32) f @ mixed S (off + field_size f) fs"

definition fields_size :: "field list \<Rightarrow> nat" where
  "fields_size fs = sum_list (map field_size fs)"

definition num_offs :: "nat \<Rightarrow> field list \<Rightarrow> nat set" where
  "num_offs off fs = {n. \<exists>w. (n, Num w) \<in> set (located off fs)}"

definition flip :: "nat \<Rightarrow> nat set \<Rightarrow> nat set" where
  "flip n S = (if n \<in> S then S - {n} else insert n S)"

lemma length_field_bytes [simp]: "length (field_bytes (if b then be32 else le32) f) = field_size f"
  by (cases f) simp_all

lemma length_mixed [simp]: "length (mixed S off fs) = fields_size fs"
  by (induction S off fs rule: mixed.induct) (simp_all add: fields_size_def)

lemma located_ge: "(n, f) \<in> set (located off fs) \<Longrightarrow> off \<le> n"
  by (induction off fs rule: located.induct) auto

lemma num_offs_ge: "n \<in> num_offs off fs \<Longrightarrow> off \<le> n"
  by (auto simp: num_offs_def dest: located_ge)

lemma mixed_cong: "S \<inter> num_offs off fs = T \<inter> num_offs off fs \<Longrightarrow> mixed S off fs = mixed T off fs"
proof (induction S off fs rule: mixed.induct)
  case (2 S off f fs)
  have sub: "num_offs (off + field_size f) fs \<subseteq> num_offs off (f # fs)" by (auto simp: num_offs_def)
  have "field_bytes (if off \<in> S then be32 else le32) f = field_bytes (if off \<in> T then be32 else le32) f"
  proof (cases f)
    case (Num w)
    then have "off \<in> num_offs off (f # fs)" by (auto simp: num_offs_def)
    then have "off \<in> S \<longleftrightarrow> off \<in> T" using "2.prems" by blast
    then show ?thesis by simp
  qed simp
  moreover have "S \<inter> num_offs (off + field_size f) fs = T \<inter> num_offs (off + field_size f) fs"
    using "2.prems" sub by blast
  ultimately show ?case using "2.IH" by simp
qed simp

lemma mixed_le32: "S \<inter> num_offs off fs = {} \<Longrightarrow> mixed S off fs = fields_bytes le32 fs"
proof -
  have "mixed {} off fs = fields_bytes le32 fs" for off
    by (induction fs arbitrary: off) (simp_all add: fields_bytes_def)
  then show "S \<inter> num_offs off fs = {} \<Longrightarrow> mixed S off fs = fields_bytes le32 fs"
    using mixed_cong [of S off fs "{}"] by simp
qed

lemma mixed_be32: "num_offs off fs \<subseteq> S \<Longrightarrow> mixed S off fs = fields_bytes be32 fs"
proof -
  have "mixed UNIV off fs = fields_bytes be32 fs" for off
    by (induction fs arbitrary: off) (simp_all add: fields_bytes_def)
  then show "num_offs off fs \<subseteq> S \<Longrightarrow> mixed S off fs = fields_bytes be32 fs"
    using mixed_cong [of S off fs UNIV] by (simp add: Int_absorb1)
qed

text \<open>A located field is a slice of the image.\<close>

lemma located_slice:
  assumes "(n, f) \<in> set (located off fs)" "length pre = off"
  obtains xs zs where "pre @ mixed S off fs @ post = xs @ field_bytes (if n \<in> S then be32 else le32) f @ zs" "length xs = n"
  using assms
proof (induction S off fs arbitrary: pre thesis rule: mixed.induct)
  case (2 S off g fs)
  show ?case
  proof (cases "(n, f) = (off, g)")
    case True
    then show ?thesis using 2 by (intro "2.prems"(1) [of pre "mixed S (off + field_size g) fs @ post"]) simp_all
  next
    case False
    then have n: "(n, f) \<in> set (located (off + field_size g) fs)" using "2.prems"(2) by auto
    have "length (pre @ field_bytes (if off \<in> S then be32 else le32) g) = off + field_size g"
      using "2.prems"(3) by (simp only: length_append length_field_bytes)
    from "2.IH" [OF _ n this] "2.prems"(1) show ?thesis by (metis append.assoc mixed.simps(2))
  qed
qed simp

lemma read_num:
  "(n, Num w) \<in> set (located off fs) \<Longrightarrow> length pre = off \<Longrightarrow> n \<notin> S \<Longrightarrow> u32_at n (pre @ mixed S off fs @ post) = w"
  by (erule located_slice [where S = S and post = post]) (auto simp: u32_at_def bytes_at_append)

lemma read_text:
  "(n, Text k s) \<in> set (located off fs) \<Longrightarrow> length pre = off \<Longrightarrow> no_nul s \<Longrightarrow> length s \<le> k \<Longrightarrow>
   str_at n k (pre @ mixed S off fs @ post) = s"
  by (erule located_slice [where S = S and post = post]) (auto simp: str_at_def bytes_at_append cstr_cbuf)

lemma nth_cbuf_end: "length s < k \<Longrightarrow> cbuf k s ! (k - 1) = NUL"
  by (cases k) (simp_all add: cbuf_def nth_append replicate_Suc [symmetric] del: replicate_Suc)

lemma set_nul_idle:
  assumes "(n, Text k s) \<in> set (located off fs)" "length pre = off" "length s < k"
  shows "set_nul (n + (k - 1)) (pre @ mixed S off fs @ post) = pre @ mixed S off fs @ post"
proof -
  obtain xs zs where x: "pre @ mixed S off fs @ post = xs @ cbuf k s @ zs" "length xs = n"
    by (rule located_slice [OF assms(1,2), where S = S and post = post]) simp
  have "(xs @ cbuf k s @ zs) ! (n + (k - 1)) = NUL"
    using x(2) assms(3) nth_cbuf_end [OF assms(3)] by (cases k) (simp_all add: nth_append)
  then show ?thesis unfolding x(1) set_nul_def by (metis list_update_id)
qed

lemma swap_slice: "length xs = n \<Longrightarrow> length ys = 4 \<Longrightarrow> swap_at n (xs @ ys @ zs) = xs @ rev ys @ zs"
  by (simp add: swap_at_def bytes_at_def)

lemma rev_num: "rev (field_bytes (if n \<in> S then be32 else le32) (Num w)) = field_bytes (if n \<in> flip n S then be32 else le32) (Num w)"
  by (simp add: flip_def be32_def)

lemma swap_mixed:
  assumes "n \<in> num_offs off fs" "length pre = off"
  shows "swap_at n (pre @ mixed S off fs @ post) = pre @ mixed (flip n S) off fs @ post"
  using assms
proof (induction S off fs arbitrary: pre rule: mixed.induct)
  case (2 S off f fs)
  show ?case
  proof (cases "n = off \<and> (\<exists>w. f = Num w)")
    case True
    then obtain w where w: "n = off" "f = Num w" by blast
    have "off \<notin> num_offs (off + 4) fs" using num_offs_ge [of off "off + 4" fs] by auto
    then have "flip n S \<inter> num_offs (off + 4) fs = S \<inter> num_offs (off + 4) fs"
      using w(1) by (auto simp: flip_def)
    then have rest: "mixed (flip n S) (off + 4) fs = mixed S (off + 4) fs" by (rule mixed_cong)
    have "swap_at n (pre @ field_bytes (if n \<in> S then be32 else le32) (Num w) @ mixed S (off + 4) fs @ post)
        = pre @ rev (field_bytes (if n \<in> S then be32 else le32) (Num w)) @ mixed S (off + 4) fs @ post"
      using "2.prems"(2) w(1) by (intro swap_slice) simp_all
    then show ?thesis unfolding rev_num using w rest by simp
  next
    case False
    with "2.prems"(1) have n: "n \<in> num_offs (off + field_size f) fs" by (auto simp: num_offs_def)
    have head: "field_bytes (if off \<in> flip n S then be32 else le32) f = field_bytes (if off \<in> S then be32 else le32) f"
    proof (cases f)
      case (Num w)
      then have "off < n" using num_offs_ge [OF n] by simp
      then show ?thesis by (simp add: flip_def)
    qed simp
    have "length (pre @ field_bytes (if off \<in> S then be32 else le32) f) = off + field_size f"
      using "2.prems"(2) by (simp only: length_append length_field_bytes)
    from "2.IH" [OF n this] show ?thesis using head by simp
  qed
qed (simp add: num_offs_def)

lemma swaps_mixed:
  "distinct ns \<Longrightarrow> set ns \<subseteq> num_offs off fs \<Longrightarrow> length pre = off \<Longrightarrow>
   fold swap_at ns (pre @ mixed S off fs @ post) = pre @ mixed ((S - set ns) \<union> (set ns - S)) off fs @ post"
proof (induction ns arbitrary: S)
  case (Cons n ns)
  have "(flip n S - set ns) \<union> (set ns - flip n S) = (S - set (n # ns)) \<union> (set (n # ns) - S)"
    using Cons.prems(1) by (auto simp: flip_def)
  then show ?case using Cons by (simp add: swap_mixed)
qed simp


section \<open>Packets of messages\<close>

lemma length_fill [simp]: "length (fill n z xs) = n"
  by (simp add: fill_def)

lemma fill_nth: "i < length xs \<Longrightarrow> i < n \<Longrightarrow> fill n z xs ! i = xs ! i"
  by (simp add: fill_def nth_append)

lemma length_7: "length xs = 7 \<Longrightarrow> \<exists>a b c d e f g. xs = [a, b, c, d, e, f, g]"
  by (auto simp: numeral_eq_Suc length_Suc_conv)

lemma length_3: "length xs = 3 \<Longrightarrow> \<exists>a b c. xs = [a, b, c]"
  by (auto simp: numeral_eq_Suc length_Suc_conv)

lemmas fill7 = length_7 [OF length_fill]
lemmas fill3 = length_3 [OF length_fill]

lemma upt_entries: "[0..<7] = [0, 1, 2, 3, 4, 5, 6]" "[0..<3] = [0, 1, 2]"
  by code_simp+

lemmas struct_defs = inven_item_fields_def score_escaped_fields_def score_remaining_fields_def

text \<open>The tables of the two switches against the layout.\<close>

lemma located_append: "located off (fs @ gs) = located off fs @ located (off + fields_size fs) gs"
  by (induction fs arbitrary: off) (simp_all add: fields_size_def add.assoc)

lemma body_size: "fields_size (body_fields m) \<le> 540"
proof (cases m)
  case (Req_sell n c ds)
  then show ?thesis using fill7 [of 0 ds] by (auto simp: fields_size_def)
next
  case (Res_inven_info c its k)
  then show ?thesis using fill7 [of zero_item its] by (auto simp: fields_size_def struct_defs)
next
  case (Evt_scoreboard c ec es rc rs)
  then show ?thesis using fill3 [of zero_escaped es] fill7 [of zero_remaining rs]
    by (auto simp: fields_size_def struct_defs)
qed (simp_all add: fields_size_def)

lemma distinct_swap_fields: "distinct (swap_fields t)"
  by (cases t) (simp_all add: upt_entries)

fun num_list :: "nat \<Rightarrow> field list \<Rightarrow> nat list" where
  "num_list off [] = []"
| "num_list off (Num w # fs) = off # num_list (off + 4) fs"
| "num_list off (Text n s # fs) = num_list (off + n) fs"

fun end_list :: "nat \<Rightarrow> field list \<Rightarrow> nat list" where
  "end_list off [] = []"
| "end_list off (Num w # fs) = end_list (off + 4) fs"
| "end_list off (Text n s # fs) = (off + (n - 1)) # end_list (off + n) fs"

lemma set_num_list: "set (num_list off fs) = num_offs off fs"
  by (induction off fs rule: num_list.induct) (auto simp: num_offs_def)

lemma end_listE: "n \<in> set (end_list off fs) \<Longrightarrow> \<exists>k i s. n = i + (k - 1) \<and> (i, Text k s) \<in> set (located off fs)"
  by (induction off fs rule: end_list.induct) auto

lemma swap_table:
  "set (swap_fields (msg_type m)) = (if msg_type m = PKT_RES_LOGIN_FAIL then {} else num_offs 8 (body_fields m))"
proof (cases m)
  case (Req_sell n c ds)
  then show ?thesis using fill7 [of 0 ds] by (auto simp: set_num_list [symmetric] upt_entries)
next
  case (Res_inven_info c its k)
  then show ?thesis using fill7 [of zero_item its] by (auto simp: set_num_list [symmetric] upt_entries struct_defs)
next
  case (Evt_scoreboard c ec es rc rs)
  then show ?thesis using fill3 [of zero_escaped es] fill7 [of zero_remaining rs]
    by (auto simp: set_num_list [symmetric] upt_entries struct_defs)
qed (simp_all add: set_num_list [symmetric] upt_entries)

lemma end_table:
  "set (end_fields (msg_type m)) = (if msg_type m = PKT_RES_LOGIN_FAIL then {} else set (end_list 8 (body_fields m)))"
proof (cases m)
  case (Req_sell n c ds)
  then show ?thesis using fill7 [of 0 ds] by (auto simp: upt_entries)
next
  case (Res_inven_info c its k)
  then show ?thesis using fill7 [of zero_item its] by (auto simp: upt_entries struct_defs)
next
  case (Evt_scoreboard c ec es rc rs)
  then show ?thesis using fill3 [of zero_escaped es] fill7 [of zero_remaining rs]
    by (auto simp: upt_entries struct_defs)
qed (simp_all add: upt_entries)


text \<open>The whole packet, with the body's numbers at \<open>S\<close> in network order.\<close>

definition packet_image :: "string \<Rightarrow> nat set \<Rightarrow> msg \<Rightarrow> packet" where
  "packet_image hdr S m = hdr @ mixed S 8 (body_fields m) @ replicate (540 - fields_size (body_fields m)) NUL"

definition host_header :: "msg \<Rightarrow> string" where
  "host_header m = le32 (packet_type_num (msg_type m)) @ le32 0"

definition net_header :: "msg \<Rightarrow> string" where
  "net_header m = be32 (packet_type_num (msg_type m)) @ be32 0"

lemma length_headers [simp]: "length (host_header m) = 8" "length (net_header m) = 8"
  by (simp_all add: host_header_def net_header_def)

lemma length_image: "length hdr = 8 \<Longrightarrow> length (packet_image hdr S m) = PACKET_SIZE"
  using body_size [of m] by (simp add: packet_image_def)

lemma cbuf_pad: "length s \<le> n \<Longrightarrow> cbuf n s = s @ replicate (n - length s) NUL"
  by (simp add: cbuf_def)

lemma packet_of_image: "packet_of m = packet_image (host_header m) {} m"
  using body_size [of m] mixed_le32 [of "{}" 8 "body_fields m"]
  by (simp add: packet_of_def packet_fields_def packet_image_def host_header_def fields_bytes_def cbuf_pad length_mixed [of "{}" 8, symmetric]
      del: length_mixed)

lemma packet_type_of_num [simp]: "packet_type_of (packet_type_num t) = Some t"
  by (cases t) (simp_all add: packet_type_of_def all_packet_types_def)

lemma image_type: "packet_type_of (u32_at 0 (packet_image (host_header m) S m)) = Some (msg_type m)"
  by (simp add: u32_at_def packet_image_def host_header_def bytes_at_prefix)

text \<open>The header of a received packet is in network order until it is swapped.\<close>

lemma swap_header: "swap_at 4 (swap_at 0 (packet_image (net_header m) S m)) = packet_image (host_header m) S m"
    "swap_at 4 (swap_at 0 (packet_image (host_header m) S m)) = packet_image (net_header m) S m"
proof -
  let ?rest = "mixed S 8 (body_fields m) @ replicate (540 - fields_size (body_fields m)) NUL"
  have "swap_at 4 (swap_at 0 (a @ b @ ?rest)) = rev a @ rev b @ ?rest" if "length a = 4" "length b = 4" for a b
    using swap_slice [of "[]" 0 a "b @ ?rest"] swap_slice [of "rev a" 4 b ?rest] that by simp
  from this [of "be32 (packet_type_num (msg_type m))" "be32 0"] this [of "le32 (packet_type_num (msg_type m))" "le32 0"]
  show "swap_at 4 (swap_at 0 (packet_image (net_header m) S m)) = packet_image (host_header m) S m"
    "swap_at 4 (swap_at 0 (packet_image (host_header m) S m)) = packet_image (net_header m) S m"
    by (simp_all add: packet_image_def host_header_def net_header_def be32_def)
qed

lemma swap_body:
  "swap_packet_endian (packet_image (host_header m) {} m) = packet_image (host_header m) (set (swap_fields (msg_type m))) m"
  "swap_packet_endian (packet_image (host_header m) (set (swap_fields (msg_type m))) m) = packet_image (host_header m) {} m"
proof -
  have sub: "set (swap_fields (msg_type m)) \<subseteq> num_offs 8 (body_fields m)" by (simp add: swap_table)
  have len: "length (host_header m) = 8" by simp
  have "fold swap_at (swap_fields (msg_type m)) (packet_image (host_header m) S m)
      = packet_image (host_header m) ((S - set (swap_fields (msg_type m))) \<union> (set (swap_fields (msg_type m)) - S)) m" for S
    unfolding packet_image_def by (rule swaps_mixed [OF distinct_swap_fields sub len])
  then show "swap_packet_endian (packet_image (host_header m) {} m) = packet_image (host_header m) (set (swap_fields (msg_type m))) m"
    "swap_packet_endian (packet_image (host_header m) (set (swap_fields (msg_type m))) m) = packet_image (host_header m) {} m"
    by (simp_all add: swap_packet_endian_def image_type)
qed

text \<open>Every string of a message fits its array with a byte to spare.\<close>

fun texts :: "field list \<Rightarrow> (nat \<times> string) list" where
  "texts [] = []"
| "texts (Num w # fs) = texts fs"
| "texts (Text n s # fs) = (n, s) # texts fs"

definition fits :: "nat \<Rightarrow> string \<Rightarrow> bool" where
  "fits k s \<longleftrightarrow> no_nul s \<and> length s < k"

definition texts_fit :: "msg \<Rightarrow> bool" where
  "texts_fit m \<longleftrightarrow> (\<forall>(k, s) \<in> set (texts (body_fields m)). fits k s)"

lemma located_texts: "(n, Text k s) \<in> set (located off fs) \<Longrightarrow> (k, s) \<in> set (texts fs)"
proof (induction off fs rule: located.induct)
  case (2 off f fs)
  then show ?case by (cases f) auto
qed simp

lemma texts_append: "texts (fs @ gs) = texts fs @ texts gs"
  by (induction fs rule: texts.induct) simp_all

lemma texts_concat: "set (texts (concat (map g xs))) = (\<Union>x \<in> set xs. set (texts (g x)))"
  by (induction xs) (simp_all add: texts_append)

lemma enforce_idle: "texts_fit m \<Longrightarrow> enforce_null_termination (packet_image (host_header m) S m) = packet_image (host_header m) S m"
proof -
  assume fit: "texts_fit m"
  have "set_nul n (packet_image (host_header m) S m) = packet_image (host_header m) S m" if "n \<in> set (end_fields (msg_type m))" for n
  proof -
    have "n \<in> set (end_list 8 (body_fields m))" using that end_table [of m] by (simp split: if_splits)
    then obtain k i s where n: "n = i + (k - 1)" "(i, Text k s) \<in> set (located 8 (body_fields m))" using end_listE by blast
    then show ?thesis
      unfolding n(1) packet_image_def using fit located_texts [OF n(2)] by (intro set_nul_idle [OF n(2)]) (auto simp: texts_fit_def fits_def)
  qed
  then have "fold set_nul ns (packet_image (host_header m) S m) = packet_image (host_header m) S m" if "set ns \<subseteq> set (end_fields (msg_type m))" for ns
    using that by (induction ns) simp_all
  then show ?thesis unfolding enforce_null_termination_def image_type by simp
qed

lemma wire_image: "texts_fit m \<Longrightarrow> packet_wire (packet_of m) = packet_image (net_header m) (set (swap_fields (msg_type m))) m"
  by (simp add: packet_wire_def packet_of_image enforce_idle swap_body swap_header)

text \<open>Network order, written down independently: every number of the struct big-endian.\<close>

definition net_packet :: "msg \<Rightarrow> packet" where
  "net_packet m = cbuf PACKET_SIZE (fields_bytes be32 (packet_fields m))"

lemma net_packet_image: "net_packet m = packet_image (net_header m) (num_offs 8 (body_fields m)) m"
  using body_size [of m] mixed_be32 [of 8 "body_fields m" "num_offs 8 (body_fields m)"]
  by (simp add: net_packet_def packet_fields_def packet_image_def net_header_def fields_bytes_def cbuf_pad
      length_mixed [of "num_offs 8 (body_fields m)" 8, symmetric] del: length_mixed)

text \<open>C28: What \<open>packet_send\<close> puts on the wire is the packet in network order, for every message but
  \<open>PKT_RES_LOGIN_FAIL\<close>: the offsets of \<open>swap_packet_endian\<close> are exactly the offsets of the numbers of the struct.\<close>
theorem wire_is_network_order:
  assumes "texts_fit m" "msg_type m \<noteq> PKT_RES_LOGIN_FAIL"
  shows "packet_wire (packet_of m) = net_packet m"
  using assms by (simp add: wire_image net_packet_image swap_table)

lemma located_num_bytes:
  "(n, Num w) \<in> set (located 8 (body_fields m)) \<Longrightarrow> length hdr = 8 \<Longrightarrow>
   bytes_at n 4 (packet_image hdr S m) = (if n \<in> S then be32 w else le32 w)"
  by (erule located_slice [where S = S and pre = hdr and post = "replicate (540 - fields_size (body_fields m)) NUL"])
    (auto simp: packet_image_def bytes_at_append)

lemma error_num_sides: "le32 (word_of_int (error_num e)) = be32 (word_of_int (error_num e)) \<longleftrightarrow> e = ERR_NONE"
  by (cases e) (simp_all add: be32_def le32_def Let_def)

theorem wire_is_network_order_witness:
  "packet_wire (packet_of (Req_buy 300)) = net_packet (Req_buy 300)"
  by (rule wire_is_network_order) (simp_all add: texts_fit_def)

text \<open>The switch of \<open>swap_packet_endian\<close> has no case for \<open>PKT_RES_LOGIN_FAIL\<close>: the error number of a refused
  login is the only number that travels in host order, so a receiver that reads the wire in network order gets
  another one.\<close>
theorem login_fail_in_host_order:
  assumes "texts_fit (Res_login_fail e r)"
  shows "bytes_at 8 4 (packet_wire (packet_of (Res_login_fail e r))) = le32 (word_of_int (error_num e))
    \<and> (packet_wire (packet_of (Res_login_fail e r)) = net_packet (Res_login_fail e r) \<longleftrightarrow> e = ERR_NONE)"
proof -
  let ?m = "Res_login_fail e r"
  have loc: "(8, Int32 (error_num e)) \<in> set (located 8 (body_fields ?m))" by simp
  have wire: "packet_wire (packet_of ?m) = packet_image (net_header ?m) {} ?m" using wire_image [OF assms] by simp
  have nums: "num_offs 8 (body_fields ?m) = {8}" by (simp add: set_num_list [symmetric])
  have ours: "bytes_at 8 4 (packet_wire (packet_of ?m)) = le32 (word_of_int (error_num e))"
    unfolding wire using located_num_bytes [OF loc, of "net_header ?m" "{}"] by simp
  moreover have "bytes_at 8 4 (net_packet ?m) = be32 (word_of_int (error_num e))"
    unfolding net_packet_image nums using located_num_bytes [OF loc, of "net_header ?m" "{8}"] by simp
  moreover have "mixed {8} 8 (body_fields ?m) = mixed {} 8 (body_fields ?m)" if "e = ERR_NONE"
    using error_num_sides [of e] that by simp
  then have "packet_wire (packet_of ?m) = net_packet ?m" if "e = ERR_NONE"
    unfolding wire net_packet_image nums using that by (simp only: packet_image_def)
  ultimately show ?thesis using error_num_sides [of e] by auto
qed

theorem login_fail_in_host_order_witness:
  "bytes_at 8 4 (packet_wire (packet_of (Res_login_fail ERR_KEY_BURNED ''burned''))) = le32 11
   \<and> packet_wire (packet_of (Res_login_fail ERR_KEY_BURNED ''burned'')) \<noteq> net_packet (Res_login_fail ERR_KEY_BURNED ''burned'')"
  using login_fail_in_host_order [of ERR_KEY_BURNED "''burned''"]
  by (simp add: texts_fit_def fits_def no_nul_def)

section \<open>Round trip\<close>

text \<open>The messages a packet can carry: numbers of 32 bits, strings that fit, counts that agree.\<close>

definition item_ok :: "inven_item \<Rightarrow> bool" where
  "item_ok it \<longleftrightarrow> int32_range (ii_doc_id it) \<and> fits MAX_NAME_LEN (ii_name it)"

definition escaped_ok :: "score_escaped \<Rightarrow> bool" where
  "escaped_ok e \<longleftrightarrow> fits MAX_KEY_LEN (se_key e) \<and> int32_range (se_money_at_escape e) \<and> int32_range (se_escape_order e)"

definition remaining_ok :: "score_remaining \<Rightarrow> bool" where
  "remaining_ok r \<longleftrightarrow> fits MAX_KEY_LEN (sr_key r) \<and> int32_range (sr_money r)"

fun msg_ok :: "msg \<Rightarrow> bool" where
  "msg_ok (Req_login k) \<longleftrightarrow> fits MAX_KEY_LEN k"
| "msg_ok (Req_chat t) \<longleftrightarrow> fits MAX_TEXT_LEN t"
| "msg_ok (Req_buy d) \<longleftrightarrow> int32_range d"
| "msg_ok (Req_sell n c ds) \<longleftrightarrow> int32_range n \<and> int32_range c \<and> length ds = MAX_INVEN_SIZE \<and> (\<forall>d \<in> set ds. int32_range d)"
| "msg_ok (Req_dispose d) \<longleftrightarrow> int32_range d"
| "msg_ok (Req_rumor k) \<longleftrightarrow> fits MAX_KEY_LEN k"
| "msg_ok (Req_minigame_submit p) \<longleftrightarrow> fits MAX_TEXT_LEN p"
| "msg_ok (Res_login_ok i m g) \<longleftrightarrow> int32_range i \<and> int32_range m \<and> int32_range g"
| "msg_ok (Res_login_fail e r) \<longleftrightarrow> fits MAX_TEXT_LEN r"
| "msg_ok (Res_inven_info c its m) \<longleftrightarrow> c = int (length its) \<and> length its \<le> MAX_INVEN_SIZE \<and> (\<forall>it \<in> set its. item_ok it) \<and> int32_range m"
| "msg_ok (Res_buy_ok d m t n) \<longleftrightarrow> int32_range d \<and> int32_range m \<and> fits MAX_NAME_LEN n"
| "msg_ok (Res_sell_ok b m) \<longleftrightarrow> int32_range b \<and> int32_range m"
| "msg_ok (Res_error e r) \<longleftrightarrow> fits MAX_TEXT_LEN r"
| "msg_ok (Evt_chat k t) \<longleftrightarrow> fits MAX_KEY_LEN k \<and> fits MAX_TEXT_LEN t"
| "msg_ok (Evt_market_spawn d t p n) \<longleftrightarrow> int32_range d \<and> int32_range p \<and> fits MAX_NAME_LEN n"
| "msg_ok (Evt_market_remove d) \<longleftrightarrow> int32_range d"
| "msg_ok (Evt_npc_spawn n t b) \<longleftrightarrow> int32_range n \<and> int32_range b"
| "msg_ok (Evt_npc_despawn n) \<longleftrightarrow> int32_range n"
| "msg_ok (Evt_news_leak t d h) \<longleftrightarrow> int32_range d \<and> fits MAX_TEXT_LEN h"
| "msg_ok (Evt_police_raid p l) \<longleftrightarrow> fits MAX_TEXT_LEN p \<and> int32_range l"
| "msg_ok (Evt_game_over m) \<longleftrightarrow> fits MAX_TEXT_LEN m"
| "msg_ok (Evt_victory m) \<longleftrightarrow> fits MAX_TEXT_LEN m"
| "msg_ok (Evt_scoreboard c ec es rc rs) \<longleftrightarrow> int32_range c \<and> ec = int (length es) \<and> length es \<le> MAX_SCORE_ESCAPED
     \<and> (\<forall>e \<in> set es. escaped_ok e) \<and> rc = int (length rs) \<and> length rs \<le> MAX_SCORE_REMAINING \<and> (\<forall>r \<in> set rs. remaining_ok r)"
| "msg_ok (Evt_goal_update g) \<longleftrightarrow> int32_range g"
| "msg_ok _ \<longleftrightarrow> True"

text \<open>Where an entry of an array of structs lies.\<close>

lemma located_array:
  "i < length xs \<Longrightarrow> (\<And>x. fields_size (g x) = k) \<Longrightarrow> (n, f) \<in> set (located (off + k * i) (g (xs ! i))) \<Longrightarrow>
   (n, f) \<in> set (located off (concat (map g xs)))"
proof (induction xs arbitrary: i off)
  case (Cons x xs)
  then show ?case by (cases i) (auto simp: located_append algebra_simps)
qed simp

lemma set_fill: "set (fill n z xs) \<subseteq> insert z (set xs)"
  by (auto simp: fill_def dest: in_set_takeD)

lemma zero_entries_ok: "item_ok zero_item" "escaped_ok zero_escaped" "remaining_ok zero_remaining"
  by (simp_all add: item_ok_def escaped_ok_def remaining_ok_def zero_item_def zero_escaped_def zero_remaining_def fits_def no_nul_def)

lemma array_texts:
  assumes "(k, s) \<in> set (texts (concat (map g (fill c z xs))))"
    and "\<And>x. P x \<Longrightarrow> \<forall>(k, s) \<in> set (texts (g x)). fits k s" and "P z" "\<forall>x \<in> set xs. P x"
  shows "fits k s"
  using assms set_fill [of c z xs] by (force simp: texts_concat)

lemma msg_ok_texts: "msg_ok m \<Longrightarrow> texts_fit m"
proof (cases m)
  case (Req_sell n c ds)
  have "texts (map (\<lambda>d. Int32 d) xs) = []" for xs by (induction xs) simp_all
  then show ?thesis by (simp add: texts_fit_def Req_sell)
next
  case (Res_inven_info c its k)
  assume "msg_ok m"
  then have ok: "\<forall>it \<in> set its. item_ok it" by (simp add: Res_inven_info)
  have "fits i s" if "(i, s) \<in> set (texts (concat (map inven_item_fields (fill MAX_INVEN_SIZE zero_item its))))" for i s
    by (rule array_texts [OF that _ zero_entries_ok(1) ok]) (simp add: item_ok_def inven_item_fields_def)
  then show ?thesis by (auto simp: texts_fit_def Res_inven_info texts_append)
next
  case (Evt_scoreboard c ec es rc rs)
  assume "msg_ok m"
  then have ok: "\<forall>e \<in> set es. escaped_ok e" "\<forall>r \<in> set rs. remaining_ok r" by (simp_all add: Evt_scoreboard)
  have "fits i s" if "(i, s) \<in> set (texts (concat (map score_escaped_fields (fill MAX_SCORE_ESCAPED zero_escaped es))))" for i s
    by (rule array_texts [OF that _ zero_entries_ok(2) ok(1)]) (simp add: escaped_ok_def score_escaped_fields_def)
  moreover have "fits i s" if "(i, s) \<in> set (texts (concat (map score_remaining_fields (fill MAX_SCORE_REMAINING zero_remaining rs))))" for i s
    by (rule array_texts [OF that _ zero_entries_ok(3) ok(2)]) (simp add: remaining_ok_def score_remaining_fields_def)
  ultimately show ?thesis by (auto simp: texts_fit_def Evt_scoreboard texts_append)
qed (auto simp: texts_fit_def)


lemma num_read: "(n, Num w) \<in> set (located 8 (body_fields m)) \<Longrightarrow> u32_at n (packet_of m) = w"
  unfolding packet_of_image packet_image_def by (rule read_num) simp_all

lemma int_read: "(n, Int32 i) \<in> set (located 8 (body_fields m)) \<Longrightarrow> int32_range i \<Longrightarrow> i32_at n (packet_of m) = i"
  using num_read [of n "word_of_int i" m] by (simp add: i32_at_def sint_word_of_int32)

lemma text_read: "(n, Text k s) \<in> set (located 8 (body_fields m)) \<Longrightarrow> fits k s \<Longrightarrow> str_at n k (packet_of m) = s"
  unfolding packet_of_image packet_image_def by (rule read_text) (simp_all add: fits_def)

lemma error_code_of_num [simp]: "error_code_of (error_num e) = Some e"
  by (cases e) (simp_all add: error_code_of_def all_error_codes_def)

lemma error_num_range: "int32_range (error_num e)"
  by (cases e) (simp_all add: int32_range_def)

lemma int32_range_small: "n \<le> 7 \<Longrightarrow> int32_range (int n)"
  by (simp add: int32_range_def)

lemma fields_size_simps [simp]: "fields_size [] = 0" "fields_size (f # fs) = field_size f + fields_size fs"
  by (simp_all add: fields_size_def)

lemma read_inven_info:
  assumes ok: "msg_ok (Res_inven_info c its k)" (is "msg_ok ?m")
  shows "read_body PKT_RES_INVEN_INFO (packet_of ?m) = Some ?m"
proof -
  have num: "i32_at 8 (packet_of ?m) = c"
    using ok int32_range_small [of "length its"] by (intro int_read) simp_all
  have "fields_size (concat (map inven_item_fields (fill 7 zero_item its))) = 532"
    using fill7 [of zero_item its] by (auto simp: fields_size_def struct_defs)
  then have money: "i32_at 544 (packet_of ?m) = k" using ok by (intro int_read) (auto simp: located_append)
  have "inven_item_at (packet_of ?m) i = its ! i" if i: "i < length its" for i
  proof -
    have it: "item_ok (its ! i)" using ok i by simp
    have "i < length (fill 7 zero_item its)" using i ok by simp
    moreover have "fill 7 zero_item its ! i = its ! i" using i ok by (simp add: fill_nth)
    ultimately have at: "(n, f) \<in> set (located 8 (body_fields ?m))"
      if "(n, f) \<in> set (located (12 + 76 * i) (inven_item_fields (its ! i)))" for n f
      using that located_array [of i "fill 7 zero_item its" inven_item_fields 76 n f 12]
      by (simp add: located_append inven_item_fields_def)
    have "i32_at (12 + 76 * i) (packet_of ?m) = ii_doc_id (its ! i)"
      using it by (intro int_read at) (simp_all add: inven_item_fields_def item_ok_def)
    moreover have "u32_at (12 + 76 * i + 4) (packet_of ?m) = ii_tags (its ! i)"
      by (intro num_read at) (simp add: inven_item_fields_def)
    moreover have "str_at (12 + 76 * i + 8) MAX_NAME_LEN (packet_of ?m) = ii_name (its ! i)"
      using it by (intro text_read at) (simp_all add: inven_item_fields_def item_ok_def)
    moreover have "i32_at (12 + 76 * i + 72) (packet_of ?m) = flag (ii_is_frozen (its ! i))"
      by (intro int_read at) (simp_all add: inven_item_fields_def flag_def)
    ultimately show ?thesis by (simp add: inven_item_at_def Let_def flag_def)
  qed
  then have "map (inven_item_at (packet_of ?m)) (entries 7 c) = its"
    using ok by (auto simp: entries_def intro: nth_equalityI)
  then show ?thesis by (simp add: read_body_def num money)
qed

lemma read_scoreboard:
  assumes ok: "msg_ok (Evt_scoreboard c ec es rc rs)" (is "msg_ok ?m")
  shows "read_body PKT_EVT_SCOREBOARD (packet_of ?m) = Some ?m"
proof -
  have sizes: "fields_size (concat (map score_escaped_fields (fill 3 zero_escaped es))) = 120"
    using fill3 [of zero_escaped es] by (auto simp: fields_size_def struct_defs)
  have nums: "i32_at 8 (packet_of ?m) = c" "i32_at 12 (packet_of ?m) = ec" "i32_at 136 (packet_of ?m) = rc"
    using ok int32_range_small [of "length es"] int32_range_small [of "length rs"]
    by (intro int_read; simp add: located_append sizes)+
  have "score_escaped_at (packet_of ?m) i = es ! i" if i: "i < length es" for i
  proof -
    have e: "escaped_ok (es ! i)" using ok i by simp
    have "i < length (fill 3 zero_escaped es)" using i ok by simp
    moreover have "fill 3 zero_escaped es ! i = es ! i" using i ok by (simp add: fill_nth)
    ultimately have at: "(n, f) \<in> set (located 8 (body_fields ?m))"
      if "(n, f) \<in> set (located (16 + 40 * i) (score_escaped_fields (es ! i)))" for n f
      using that located_array [of i "fill 3 zero_escaped es" score_escaped_fields 40 n f 16]
      by (simp add: located_append score_escaped_fields_def)
    have "str_at (16 + 40 * i) MAX_KEY_LEN (packet_of ?m) = se_key (es ! i)"
      using e by (intro text_read at) (simp_all add: score_escaped_fields_def escaped_ok_def)
    moreover have "i32_at (16 + 40 * i + 32) (packet_of ?m) = se_money_at_escape (es ! i)"
      using e by (intro int_read at) (simp_all add: score_escaped_fields_def escaped_ok_def)
    moreover have "i32_at (16 + 40 * i + 36) (packet_of ?m) = se_escape_order (es ! i)"
      using e by (intro int_read at) (simp_all add: score_escaped_fields_def escaped_ok_def)
    ultimately show ?thesis by (simp add: score_escaped_at_def Let_def)
  qed
  then have "map (score_escaped_at (packet_of ?m)) (entries 3 ec) = es"
    using ok by (auto simp: entries_def intro: nth_equalityI)
  moreover have "score_remaining_at (packet_of ?m) i = rs ! i" if i: "i < length rs" for i
  proof -
    have r: "remaining_ok (rs ! i)" using ok i by simp
    have "i < length (fill 7 zero_remaining rs)" using i ok by simp
    moreover have "fill 7 zero_remaining rs ! i = rs ! i" using i ok by (simp add: fill_nth)
    ultimately have at: "(n, f) \<in> set (located 8 (body_fields ?m))"
      if "(n, f) \<in> set (located (140 + 36 * i) (score_remaining_fields (rs ! i)))" for n f
      using that located_array [of i "fill 7 zero_remaining rs" score_remaining_fields 36 n f 140]
      by (simp add: located_append sizes score_remaining_fields_def)
    have "str_at (140 + 36 * i) MAX_KEY_LEN (packet_of ?m) = sr_key (rs ! i)"
      using r by (intro text_read at) (simp_all add: score_remaining_fields_def remaining_ok_def)
    moreover have "i32_at (140 + 36 * i + 32) (packet_of ?m) = sr_money (rs ! i)"
      using r by (intro int_read at) (simp_all add: score_remaining_fields_def remaining_ok_def)
    ultimately show ?thesis by (simp add: score_remaining_at_def Let_def)
  qed
  then have "map (score_remaining_at (packet_of ?m)) (entries 7 rc) = rs"
    using ok by (auto simp: entries_def intro: nth_equalityI)
  ultimately show ?thesis by (simp add: read_body_def nums)
qed

lemma read_sell:
  assumes ok: "msg_ok (Req_sell n c ds)" (is "msg_ok ?m")
  shows "read_body PKT_REQ_SELL (packet_of ?m) = Some ?m"
proof -
  have nums: "i32_at 8 (packet_of ?m) = n" "i32_at 12 (packet_of ?m) = c"
    using ok by (intro int_read; simp)+
  have "i32_at (16 + 4 * i) (packet_of ?m) = ds ! i" if i: "i < 7" for i
  proof (rule int_read)
    have "i < length (fill 7 0 ds)" using i by simp
    moreover have "fill 7 0 ds ! i = ds ! i" using i ok by (simp add: fill_nth)
    ultimately show "(16 + 4 * i, Int32 (ds ! i)) \<in> set (located 8 (body_fields ?m))"
      using located_array [of i "fill 7 0 ds" "\<lambda>d. [Int32 d]" 4 "16 + 4 * i" "Int32 (ds ! i)" 16]
      by (simp add: located_append)
    show "int32_range (ds ! i)" using i ok by simp
  qed
  then have "map (\<lambda>i. i32_at (16 + 4 * i) (packet_of ?m)) [0..<7] = ds"
    using ok by (auto intro: nth_equalityI)
  then show ?thesis by (simp add: read_body_def nums)
qed


lemma read_back: "msg_ok m \<Longrightarrow> read_body (msg_type m) (packet_of m) = Some m"
proof (cases m)
  case (Req_sell n c ds)
  then show "msg_ok m \<Longrightarrow> ?thesis" using read_sell by simp
next
  case (Res_inven_info c its k)
  then show "msg_ok m \<Longrightarrow> ?thesis" using read_inven_info by simp
next
  case (Evt_scoreboard c ec es rc rs)
  then show "msg_ok m \<Longrightarrow> ?thesis" using read_scoreboard by simp
next
  case (Res_login_fail e r)
  then show "msg_ok m \<Longrightarrow> ?thesis"
    using int_read [of 8 "error_num e" m] text_read [of 12 256 r m] error_num_range by (simp add: read_body_def)
next
  case (Res_error e r)
  then show "msg_ok m \<Longrightarrow> ?thesis"
    using int_read [of 8 "error_num e" m] text_read [of 12 256 r m] error_num_range by (simp add: read_body_def)
qed (simp_all add: read_body_def int_read num_read text_read)

lemma msg_of_packet: "msg_ok m \<Longrightarrow> msg_of (packet_of m) = Some m"
  using read_back [of m] image_type [of m "{}"] by (simp add: msg_of_def packet_of_image)

lemma recv_image:
  "packet_recv (Received (packet_image (net_header m) (set (swap_fields (msg_type m))) m))
     = (548, enforce_null_termination (packet_of m))"
proof -
  have "length (packet_image (net_header m) (set (swap_fields (msg_type m))) m) = PACKET_SIZE" by (simp add: length_image)
  moreover from this have "cbuf PACKET_SIZE (packet_image (net_header m) (set (swap_fields (msg_type m))) m)
      = packet_image (net_header m) (set (swap_fields (msg_type m))) m"
    by (simp add: cbuf_def)
  ultimately show ?thesis
    by (simp add: packet_recv_def Let_def swap_header swap_body packet_of_image)
qed

lemma packet_received:
  assumes "msg_ok m"
  shows "packet_recv (Received (packet_wire (packet_of m))) = (548, packet_of m)" "msg_of (packet_of m) = Some m"
  using wire_image [OF msg_ok_texts [OF assms]] recv_image [of m] enforce_idle [OF msg_ok_texts [OF assms]] msg_of_packet [OF assms]
  by (simp_all add: packet_of_image)

text \<open>C21: A packet arrives as it was sent: what \<open>packet_recv\<close> makes of the 548 bytes that \<open>packet_send\<close> wrote is the
  packet of the sender, and the message read from it is the message sent, whatever its type, as long as its texts and
  numbers fit their fields and its counts agree with its entries.\<close>
theorem packet_roundtrip:
  assumes "msg_ok m"
  shows "packet_recv (Received (packet_wire (packet_of m))) = (548, packet_of m) \<and> msg_of (packet_of m) = Some m"
  using packet_received [OF assms] by simp

theorem packet_roundtrip_witness:
  "packet_recv (Received (packet_wire (packet_of (Res_inven_info 1 [\<lparr>ii_doc_id = 7, ii_tags = 3, ii_name = ''memo'', ii_is_frozen = True\<rparr>] 900))))
     = (548, packet_of (Res_inven_info 1 [\<lparr>ii_doc_id = 7, ii_tags = 3, ii_name = ''memo'', ii_is_frozen = True\<rparr>] 900))"
  using packet_roundtrip [of "Res_inven_info 1 [\<lparr>ii_doc_id = 7, ii_tags = 3, ii_name = ''memo'', ii_is_frozen = True\<rparr>] 900"]
  by (simp add: item_ok_def int32_range_def fits_def no_nul_def)


section \<open>Bytes from anywhere\<close>

text \<open>Below: a received packet need not come from \<open>packet_send\<close>.\<close>

lemma length_set_nuls: "length (fold set_nul ns p) = length p"
  by (induction ns arbitrary: p) (simp_all add: set_nul_def)

lemma set_nuls_nth: "i < length p \<Longrightarrow> fold set_nul ns p ! i = (if i \<in> set ns then NUL else p ! i)"
  by (induction ns arbitrary: p) (auto simp: set_nul_def)

lemma length_swap_at [simp]: "length (swap_at n p) = length p"
  by (simp add: swap_at_def bytes_at_def)

lemma length_swaps [simp]: "length (fold swap_at ns p) = length p"
  by (induction ns arbitrary: p) simp_all

lemma length_swap_packet [simp]: "length (swap_packet_endian p) = length p"
  by (simp add: swap_packet_endian_def split: option.split)

lemma end_fields_body: "n \<in> set (end_fields t) \<Longrightarrow> 8 \<le> n"
  by (cases t) auto

lemma enforce_type: "u32_at 0 (enforce_null_termination p) = u32_at 0 p"
proof -
  have "bytes_at 0 4 (fold set_nul (end_fields t) p) = bytes_at 0 4 p" for t
  proof (rule nth_equalityI)
    show "length (bytes_at 0 4 (fold set_nul (end_fields t) p)) = length (bytes_at 0 4 p)"
      by (simp add: bytes_at_def length_set_nuls)
    fix i assume "i < length (bytes_at 0 4 (fold set_nul (end_fields t) p))"
    then have i: "i < 4" "i < length p" by (simp_all add: bytes_at_def length_set_nuls)
    then have "i \<notin> set (end_fields t)" using end_fields_body [of i t] by auto
    then show "bytes_at 0 4 (fold set_nul (end_fields t) p) ! i = bytes_at 0 4 p ! i"
      using i by (simp add: bytes_at_def set_nuls_nth)
  qed
  then show ?thesis by (simp add: enforce_null_termination_def u32_at_def split: option.split)
qed

lemma enforce_end:
  assumes "packet_type_of (u32_at 0 p) = Some t" "n + (k - 1) \<in> set (end_fields t)" "n + k \<le> length p" "0 < k"
  shows "fits k (str_at n k (enforce_null_termination p))"
proof -
  let ?b = "bytes_at n k (enforce_null_termination p)"
  have p: "enforce_null_termination p = fold set_nul (end_fields t) p"
    using assms(1) by (simp add: enforce_null_termination_def)
  have len: "length ?b = k" using assms(3) by (simp add: p bytes_at_def length_set_nuls)
  have "?b ! (k - 1) = NUL" using assms(2-4) by (simp add: p bytes_at_def length_set_nuls set_nuls_nth)
  then have "\<not> (\<forall>c \<in> set ?b. c \<noteq> NUL)" using len assms(4) by (metis diff_less nth_mem zero_less_one)
  then have "takeWhile (\<lambda>c. c \<noteq> NUL) ?b \<noteq> ?b" by (simp add: takeWhile_eq_all_conv)
  then have "length (cstr ?b) \<noteq> length ?b" unfolding cstr_def by (metis takeWhile_eq_take take_all_iff order_refl)
  then show ?thesis using length_cstr_le [of ?b] len by (simp add: fits_def str_at_def)
qed

lemma i32_at_range [simp]: "int32_range (i32_at n p)"
  using int32_range_of_i32 [of "bytes_at n 4 p"] by (simp add: i32_at_def u32_at_def of_i32_def)

text \<open>C27: Whatever bytes arrive, the request the server reads from them is within the types of the program: every
  string ends inside its array, every number is a 32-bit number, and a sale carries exactly seven identifiers.\<close>
theorem received_request_ok:
  assumes "packet_recv r = (ret, p)" "0 < ret" "msg_of p = Some m" "packet_type_num (msg_type m) < 200"
  shows "msg_ok m"
proof -
  obtain q where q: "p = enforce_null_termination q" "length q = PACKET_SIZE"
    using assms(1,2) by (auto simp: packet_recv_def Let_def split: recv_result.splits if_splits)
  obtain t where t: "packet_type_of (u32_at 0 q) = Some t" "read_body t p = Some m"
    using assms(3) by (auto simp: msg_of_def q(1) enforce_type split: option.splits)
  have str: "fits k (str_at n k p)" if "n + (k - 1) \<in> set (end_fields t)" "n + k \<le> PACKET_SIZE" "0 < k" for n k
    unfolding q(1) by (rule enforce_end [OF t(1) that(1)]) (use that q(2) in simp_all)
  have ty: "packet_type_num t < 200"
    using t(2) assms(4) by (cases t) (auto simp: read_body_def)
  then show ?thesis
    using t(2) str [of 8 32] str [of 8 256] by (cases t) (auto simp: read_body_def)
qed

text \<open>A login whose key fills its array without a terminator.\<close>

lemma overlong_login:
  "packet_recv (Received (packet_image (net_header (Req_login (replicate 32 CHR ''A''))) {} (Req_login (replicate 32 CHR ''A''))))
     = (548, enforce_null_termination (packet_of (Req_login (replicate 32 CHR ''A''))))"
  "msg_of (enforce_null_termination (packet_of (Req_login (replicate 32 CHR ''A'')))) = Some (Req_login (replicate 31 CHR ''A''))"
proof -
  let ?m = "Req_login (replicate 32 CHR ''A'')"
  show "packet_recv (Received (packet_image (net_header ?m) {} ?m)) = (548, enforce_null_termination (packet_of ?m))"
    using recv_image [of ?m] by simp
  have t: "packet_type_of (u32_at 0 (packet_of ?m)) = Some PKT_REQ_LOGIN" by (simp add: packet_of_image image_type)
  have p: "packet_of ?m = host_header ?m @ replicate 32 CHR ''A'' @ replicate 508 NUL"
    by (simp add: packet_of_image packet_image_def cbuf_def)
  have full: "(replicate 32 CHR ''A'')[31 := NUL] = replicate 31 CHR ''A'' @ [NUL]" by (simp add: numeral_eq_Suc)
  have "bytes_at 8 32 ((packet_of ?m)[39 := NUL]) = replicate 31 CHR ''A'' @ [NUL]"
    unfolding p by (simp add: bytes_at_def list_update_append full)
  then have "str_at 8 32 ((packet_of ?m)[39 := NUL]) = replicate 31 CHR ''A''"
    by (simp add: str_at_def cstr_def takeWhile_append)
  then show "msg_of (enforce_null_termination (packet_of ?m)) = Some (Req_login (replicate 31 CHR ''A''))"
    unfolding msg_of_def enforce_type t by (simp add: enforce_null_termination_def t read_body_def set_nul_def)
qed

theorem received_request_ok_witness: "msg_ok (Req_login (replicate 31 CHR ''A''))"
  by (rule received_request_ok [OF overlong_login(1) _ overlong_login(2)]) simp_all

text \<open>A purchase of which 11 of the 548 bytes arrived.\<close>

lemma be32_cut:
  assumes "0 \<le> d" "d < 2 ^ 31"
  shows "be32 (word_of_int (d - d mod 256)) = take 3 (be32 (word_of_int d)) @ [NUL]"
proof -
  obtain n where n: "d = int n" using assms(1) nonneg_int_cases by blast
  define k where "k = n div 256"
  have k: "n = 256 * k + n mod 256" "n - n mod 256 = 256 * k" unfolding k_def by (simp_all add: minus_mod_eq_mult_div)
  have lt: "n < 4294967296" using assms(2) n by simp
  have d: "d - d mod 256 = int (256 * k)" using k(2) n by (metis of_nat_diff of_nat_mod of_nat_numeral mod_less_eq_dividend)
  have w: "unat (word_of_int d :: 32 word) = n" "unat (word_of_int (d - d mod 256) :: 32 word) = 256 * k"
    using lt k unat_word_of_nat32 [of n] unat_word_of_nat32 [of "256 * k"] unfolding d by (simp_all add: n)
  have "n div 65536 = k div 256" "n div 16777216 = k div 65536"
    unfolding k_def by (simp_all add: div_mult2_eq [symmetric])
  moreover have "256 * k div 65536 = k div 256" "256 * k div 16777216 = k div 65536"
    using div_mult_mult1 [of 256 k 256] div_mult_mult1 [of 256 k 65536] by simp_all
  moreover have "char_of (0 :: nat) = NUL" by code_simp
  ultimately show ?thesis unfolding be32_def le32_def Let_def w by (simp add: k_def)
qed

text \<open>C33: A connection that ends inside a packet still delivers it: \<open>packet_recv\<close> treats every positive result of
  \<open>recv\<close> as a whole packet and reads the missing bytes as zero, so a purchase of which 11 bytes arrived is served as
  the purchase of the document with the low byte of the identifier cleared, which is another one unless that byte is 0.\<close>
theorem cut_purchase_buys_another:
  assumes "0 \<le> d" "d < 2 ^ 31"
  shows "packet_recv (Received (take 11 (packet_wire (packet_of (Req_buy d))))) = (11, packet_of (Req_buy (d - d mod 256)))
    \<and> msg_of (packet_of (Req_buy (d - d mod 256))) = Some (Req_buy (d - d mod 256))"
proof -
  define e where "e = d - d mod 256"
  note cut = be32_cut [OF assms, folded e_def]
  have e: "int32_range e" using assms zmod_le_nonneg_dividend [of d 256] pos_mod_sign [of 256 d] unfolding int32_range_def e_def by linarith
  have wire: "packet_wire (packet_of (Req_buy d)) = net_header (Req_buy d) @ be32 (word_of_int d) @ replicate 536 NUL"
    using wire_image [of "Req_buy d"] by (simp add: texts_fit_def packet_image_def)
  have nuls: "replicate 537 NUL = NUL # replicate 536 NUL" using replicate_Suc [of 536 NUL] by simp
  have "cbuf PACKET_SIZE (take 11 (packet_wire (packet_of (Req_buy d)))) = packet_image (net_header (Req_buy e)) {8} (Req_buy e)"
    unfolding wire by (simp add: cbuf_pad packet_image_def cut net_header_def nuls)
  moreover have "swap_at 4 (swap_at 0 (packet_image (net_header (Req_buy e)) {8} (Req_buy e))) = packet_image (host_header (Req_buy e)) {8} (Req_buy e)"
    by (rule swap_header)
  moreover have "enforce_null_termination (swap_packet_endian (packet_image (host_header (Req_buy e)) {8} (Req_buy e))) = packet_of (Req_buy e)"
    using swap_body(2) [of "Req_buy e"] enforce_idle [of "Req_buy e" "{}"] by (simp add: texts_fit_def packet_of_image)
  moreover have "length (take 11 (packet_wire (packet_of (Req_buy d)))) = 11" unfolding wire by simp
  ultimately have "packet_recv (Received (take 11 (packet_wire (packet_of (Req_buy d))))) = (11, packet_of (Req_buy e))"
    by (simp add: packet_recv_def Let_def)
  then show ?thesis using msg_of_packet [of "Req_buy e"] e by (simp add: e_def [symmetric])
qed

theorem cut_purchase_buys_another_witness:
  "packet_recv (Received (take 11 (packet_wire (packet_of (Req_buy 300))))) = (11, packet_of (Req_buy 256))"
  using cut_purchase_buys_another [of 300] by simp

end
