(* ===== verification/World.thy ===== *)
theory World
  imports Invariants Wire Trade
begin

text \<open>
  The running server: the connections with the phase of the thread of each, the threads the server has derived, and
  the environment, interleaved handler by handler. What holds in every reachable state: the boards are well
  formed, the debt goal is a function of the escapes, and the session table says who plays under which key.
\<close>

section \<open>Invariants of the handlers\<close>

interpretation slots: server_invariant "\<lambda>s. client_sockets s = xs \<and> active_keys s = ks" for xs ks
  by unfold_locales (simp_all add: escape_step_def reset_round_state_def)

interpretation boards: server_invariant "\<lambda>s. board_ok (sv_market s)"
  by unfold_locales (simp_all add: board_next_def escape_step_def reset_round_state_def)

lemma round_ok_reset: "round_ok (reset_round_state s)"
  by (simp add: round_ok_def reset_round_state_def zero_escape_entry_def)

interpretation rounds: server_invariant "\<lambda>s. round_ok s \<and> 0 < sv_now s"
proof
  show "round_ok (escape_step key s) \<and> 0 < sv_now (escape_step key s)" if "round_ok s \<and> 0 < sv_now s" for s key
    using that round_ok_escape [of s key] by (simp add: escape_step_def)
  show "round_ok (reset_round_state s) \<and> 0 < sv_now (reset_round_state s)" if "round_ok s \<and> 0 < sv_now s" for s
    using that round_ok_reset [of s] by (simp add: reset_round_state_def)
qed (simp_all add: round_ok_def)

section \<open>The session table\<close>

text \<open>The key a connection shows in the table: none while it waits for its login.\<close>

fun shown_key :: "phase \<Rightarrow> key option" where
  "shown_key Login_wait = Some []"
| "shown_key (In_game key) = Some key"
| "shown_key Ended = None"

text \<open>
  Both arrays have a place for every client; a free place has no key; an occupied one belongs to a living
  connection and shows its key; every living connection has a place; no two places show the same key.
\<close>

definition table_ok :: "(sock \<Rightarrow> phase) \<Rightarrow> sock list \<Rightarrow> key list \<Rightarrow> bool" where
  "table_ok ph xs ks \<longleftrightarrow> length xs = MAX_CLIENTS \<and> length ks = MAX_CLIENTS \<and> distinct (filter (\<lambda>k. k \<noteq> 0) xs) \<and>
     (\<forall>i < MAX_CLIENTS. if xs ! i = 0 then ks ! i = [] else shown_key (ph (xs ! i)) = Some (ks ! i)) \<and>
     (\<forall>k. ph k \<noteq> Ended \<longrightarrow> k \<noteq> 0 \<and> k \<in> set xs) \<and>
     (\<forall>i < MAX_CLIENTS. length (ks ! i) < MAX_KEY_LEN) \<and>
     (\<forall>i < MAX_CLIENTS. \<forall>j < MAX_CLIENTS. ks ! i = ks ! j \<longrightarrow> ks ! i \<noteq> [] \<longrightarrow> i = j)"

lemma table_okD:
  assumes "table_ok ph xs ks"
  shows "length xs = MAX_CLIENTS" "length ks = MAX_CLIENTS" "distinct (filter (\<lambda>k. k \<noteq> 0) xs)"
    "i < MAX_CLIENTS \<Longrightarrow> xs ! i = 0 \<Longrightarrow> ks ! i = []"
    "i < MAX_CLIENTS \<Longrightarrow> xs ! i \<noteq> 0 \<Longrightarrow> shown_key (ph (xs ! i)) = Some (ks ! i)"
    "ph k \<noteq> Ended \<Longrightarrow> k \<noteq> 0 \<and> k \<in> set xs" "i < MAX_CLIENTS \<Longrightarrow> length (ks ! i) < MAX_KEY_LEN"
    "i < MAX_CLIENTS \<Longrightarrow> j < MAX_CLIENTS \<Longrightarrow> ks ! i = ks ! j \<Longrightarrow> ks ! i \<noteq> [] \<Longrightarrow> i = j"
  using assms by (auto simp: table_ok_def split: if_splits)

lemma table_ok_ended: "table_ok ph xs ks \<Longrightarrow> k \<noteq> 0 \<Longrightarrow> ph k = Ended \<Longrightarrow> k \<notin> set xs"
  using table_okD(1,5) [of ph xs ks] by (metis in_set_conv_nth option.distinct(1) shown_key.simps(3))

lemma distinct_filter_less:
  assumes "distinct (filter P xs)" "i < j" "j < length xs" "P (xs ! i)"
  shows "xs ! i \<noteq> xs ! j"
proof -
  have "distinct (filter P (take j xs) @ filter P (drop j xs))"
    using assms(1) by (metis append_take_drop_id filter_append)
  moreover have "xs ! i \<in> set (take j xs)" using assms(2,3) by (metis length_take min.absorb4 nth_mem nth_take)
  moreover have "xs ! j \<in> set (drop j xs)" using assms(3) by (metis Cons_nth_drop_Suc list.set_intros(1))
  ultimately show ?thesis using assms(4) by auto
qed

lemma distinct_filter_nth:
  "distinct (filter P xs) \<Longrightarrow> i < length xs \<Longrightarrow> j < length xs \<Longrightarrow> xs ! i = xs ! j \<Longrightarrow> P (xs ! i) \<Longrightarrow> i = j"
  using distinct_filter_less [of P xs i j] distinct_filter_less [of P xs j i] by (metis nat_neq_iff)

lemma distinct_filter_update: "distinct (filter P xs) \<Longrightarrow> k \<notin> set xs \<Longrightarrow> distinct (filter P (xs[i := k]))"
proof (induction xs arbitrary: i)
  case (Cons x xs)
  then show ?case by (cases i) (auto split: if_splits dest: set_update_subset_insert [THEN subsetD])
qed simp

lemma take_slot_nth: "0 \<in> set xs \<Longrightarrow> \<exists>i < length xs. xs ! i = 0 \<and> take_slot k xs = xs[i := k]"
proof (induction xs)
  case (Cons x xs)
  show ?case
  proof (cases "x = 0")
    case False
    with Cons obtain i where "i < length xs" "xs ! i = 0" "take_slot k xs = xs[i := k]" by auto
    with False show ?thesis by (intro exI [of _ "Suc i"]) simp
  qed (auto intro: exI [of _ 0])
qed simp

lemma table_accept:
  assumes t: "table_ok ph xs ks" and k: "k \<noteq> 0" "ph k = Ended" and free: "0 \<in> set xs"
  shows "table_ok (ph(k := Login_wait)) (take_slot k xs) ks"
proof -
  note d = table_okD [OF t]
  obtain i where i: "i < MAX_CLIENTS" "xs ! i = 0" "take_slot k xs = xs[i := k]"
    using take_slot_nth [OF free, of k] d(1) by auto
  have new: "k \<notin> set xs" by (rule table_ok_ended [OF t k])
  have dist: "distinct (filter (\<lambda>k. k \<noteq> 0) (xs[i := k]))" by (rule distinct_filter_update [OF d(3) new])
  have place: "if xs[i := k] ! j = 0 then ks ! j = [] else shown_key ((ph(k := Login_wait)) (xs[i := k] ! j)) = Some (ks ! j)"
    if "j < MAX_CLIENTS" for j
  proof (cases "j = i")
    case True
    with i d(1,4) k(1) show ?thesis by simp
  next
    case False
    then have "xs[i := k] ! j = xs ! j" by simp
    moreover have "xs ! j \<noteq> k" using new that d(1) nth_mem by metis
    ultimately show ?thesis using d(4,5) [OF that] by simp
  qed
  have seat: "\<forall>l. (ph(k := Login_wait)) l \<noteq> Ended \<longrightarrow> l \<noteq> 0 \<and> l \<in> set (xs[i := k])"
  proof (intro allI impI)
    fix l
    assume l: "(ph(k := Login_wait)) l \<noteq> Ended"
    show "l \<noteq> 0 \<and> l \<in> set (xs[i := k])"
    proof (cases "l = k")
      case True
      then show ?thesis using k(1) i(1) d(1) by (metis set_update_memI)
    next
      case False
      with l have "ph l \<noteq> Ended" by simp
      then obtain j where j: "j < length xs" "xs ! j = l" "l \<noteq> 0" using d(6) in_set_conv_nth by metis
      with i have "j \<noteq> i" by auto
      with j show ?thesis by (metis length_list_update nth_list_update_neq nth_mem)
    qed
  qed
  show ?thesis
    unfolding i(3) table_ok_def length_list_update using d(1,2,7,8) dist place seat by blast
qed

lemma table_leave:
  assumes t: "table_ok ph xs ks" and k: "k \<noteq> 0" and c: "clear_slot k xs ks = (xs', ks')"
  shows "table_ok (ph(k := Ended)) xs' ks'"
proof -
  note d = table_okD [OF t]
  have len: "length xs' = MAX_CLIENTS" "length ks' = MAX_CLIENTS"
    using clear_slot_lengths [of xs ks k] d(1,2) c by auto
  have at: "xs' ! i = (if xs ! i = k then 0 else xs ! i)" "ks' ! i = (if xs ! i = k then [] else ks ! i)" if "i < MAX_CLIENTS" for i
    using clear_slot_nth [of xs ks k i] d(1,2,3) k that c by auto
  have dist: "distinct (filter (\<lambda>k. k \<noteq> 0) xs')"
  proof -
    have "xs' = map (\<lambda>x. if x = k then 0 else x) xs" using len(1) d(1) at(1) by (intro nth_equalityI) simp_all
    moreover have "filter (\<lambda>x. x \<noteq> 0) (map (\<lambda>x. if x = k then 0 else x) xs) = filter (\<lambda>x. x \<noteq> k) (filter (\<lambda>x. x \<noteq> 0) xs)"
      by (induction xs) (use k in auto)
    ultimately show ?thesis using d(3) by (simp only: distinct_filter)
  qed
  have seat: "l \<noteq> 0 \<and> l \<in> set xs'" if "(ph(k := Ended)) l \<noteq> Ended" for l
  proof -
    have l: "l \<noteq> k" "ph l \<noteq> Ended" using that by (auto split: if_splits)
    then obtain j where j: "j < length xs" "xs ! j = l" "l \<noteq> 0" using d(6) in_set_conv_nth by metis
    then have "xs' ! j = l" using at(1) [of j] l(1) d(1) by simp
    with j len(1) d(1) show ?thesis using nth_mem by metis
  qed
  have one: "i = j" if "i < MAX_CLIENTS" "j < MAX_CLIENTS" "ks' ! i = ks' ! j" "ks' ! i \<noteq> []" for i j
  proof -
    have "ks ! i = ks ! j" "ks ! i \<noteq> []" using that at(2) [of i] at(2) [of j] by (auto split: if_splits)
    then show ?thesis using d(8) that(1,2) by blast
  qed
  have place: "if xs' ! i = 0 then ks' ! i = [] else shown_key ((ph(k := Ended)) (xs' ! i)) = Some (ks' ! i)" if "i < MAX_CLIENTS" for i
    using d(4,5) [OF that] at [OF that] by auto
  have short: "length (ks' ! i) < MAX_KEY_LEN" if "i < MAX_CLIENTS" for i
    using d(7) [OF that] at(2) [OF that] by simp
  show ?thesis unfolding table_ok_def using len dist place seat one short by blast
qed

lemma table_login:
  assumes t: "table_ok ph xs ks" and k: "ph k = Login_wait" and key: "length key < MAX_KEY_LEN"
    and new: "\<forall>i < MAX_CLIENTS. xs ! i \<noteq> 0 \<longrightarrow> xs ! i \<noteq> k \<longrightarrow> ks ! i \<noteq> key"
  shows "table_ok (ph(k := In_game key)) xs (set_key k key xs ks)"
proof -
  note d = table_okD [OF t]
  have k0: "k \<noteq> 0" using d(6) [of k] k by simp
  have at: "set_key k key xs ks ! i = (if xs ! i = k then key else ks ! i)" if "i < MAX_CLIENTS" for i
    using set_key_nth [of xs ks k i key] d(1-3) k0 that by simp
  have one: "i = j" if "i < MAX_CLIENTS" "j < MAX_CLIENTS" "set_key k key xs ks ! i = set_key k key xs ks ! j"
    "set_key k key xs ks ! i \<noteq> []" for i j
  proof -
    consider "xs ! i = k" "xs ! j = k" | "xs ! i = k" "xs ! j \<noteq> k" | "xs ! i \<noteq> k" "xs ! j = k" | "xs ! i \<noteq> k" "xs ! j \<noteq> k" by blast
    then show ?thesis
    proof cases
      case 1
      then show ?thesis using distinct_filter_nth [OF d(3), of i j] that(1,2) d(1) k0 by simp
    next
      case 2
      then have "ks ! j = key" "key \<noteq> []" using that at by auto
      then show ?thesis using new that(2) 2(2) d(4) by metis
    next
      case 3
      then have "ks ! i = key" "key \<noteq> []" using that at by auto
      then show ?thesis using new that(1) 3(1) d(4) by metis
    next
      case 4
      then show ?thesis using that at d(8) by simp
    qed
  qed
  have place: "if xs ! i = 0 then set_key k key xs ks ! i = []
      else shown_key ((ph(k := In_game key)) (xs ! i)) = Some (set_key k key xs ks ! i)" if "i < MAX_CLIENTS" for i
    using d(4,5) [OF that] at [OF that] k0 by auto
  have seat: "l \<noteq> 0 \<and> l \<in> set xs" if "(ph(k := In_game key)) l \<noteq> Ended" for l
    using that d(6) [of l] d(6) [of k] k by (cases "l = k") auto
  have short: "length (set_key k key xs ks ! i) < MAX_KEY_LEN" if "i < MAX_CLIENTS" for i
    using d(7) [OF that] at [OF that] key by simp
  show ?thesis unfolding table_ok_def length_set_key using d(1-3) place seat one short by blast
qed

section \<open>Logging in\<close>

text \<open>What a login leaves alone, and what it does to the table.\<close>

definition calm :: "server \<Rightarrow> server \<Rightarrow> bool" where
  "calm s s' \<longleftrightarrow> sv_market s' = sv_market s \<and> client_sockets s' = client_sockets s \<and> sv_now s' = sv_now s \<and>
     (g_goal_money s', g_escaped_count s', g_cap_reached_at s', g_escape_log s') =
     (g_goal_money s, g_escaped_count s, g_cap_reached_at s, g_escape_log s)"

lemma calm_round: "calm s s' \<Longrightarrow> round_ok s \<Longrightarrow> round_ok s'"
  by (simp add: calm_def round_ok_def)

lemma login_calm:
  assumes "handle_login sock key s = (r, s')"
  shows "calm s s'" "r = None \<Longrightarrow> active_keys s' = active_keys s"
    "r = Some my_key \<Longrightarrow> my_key = take 31 key \<and> \<not> duplicate_login sock key s \<and>
       active_keys s' = set_key sock my_key (client_sockets s) (active_keys s)"
  using assms
  by (auto simp: handle_login_def login_commit_def calm_def c_strncpy_def send_all_eq packet_send_def sv_append_eq Let_def
      split: if_splits option.splits prod.splits)

lemma no_duplicate:
  assumes "\<not> duplicate_login sock key s" "length (client_sockets s) = MAX_CLIENTS" "length (active_keys s) = MAX_CLIENTS"
    and "i < MAX_CLIENTS" "client_sockets s ! i \<noteq> 0" "client_sockets s ! i \<noteq> sock"
  shows "active_keys s ! i \<noteq> key"
proof
  assume "active_keys s ! i = key"
  then have "(client_sockets s ! i, key) \<in> set (zip (client_sockets s) (active_keys s))"
    using assms(2-4) by (auto simp: set_zip)
  then have "duplicate_login sock key s" unfolding duplicate_login_def using assms(5,6) by (intro bexI) simp_all
  with assms(1) show False ..
qed

section \<open>The running server\<close>

record world =
  w_server :: server
  w_phase :: "sock \<Rightarrow> phase"          \<comment> \<open>\<open>Ended\<close> for a descriptor without a thread\<close>
  w_orders :: "tags list"            \<comment> \<open>orders announced by \<open>npc_hint\<close> and not yet on the board\<close>
  w_tick :: nat
  w_next_raid :: time_t

text \<open>The globals as the program starts with them.\<close>

definition statics :: "server \<Rightarrow> bool" where
  "statics s \<longleftrightarrow> g_goal_money s = GOAL_MONEY \<and> g_escaped_count s = 0 \<and> \<not> g_round_end_active s \<and> g_cap_reached_at s = 0 \<and>
     g_escape_log s = replicate MAX_SCORE_ESCAPED zero_escape_entry \<and> g_rumor_cd_until s = 0 \<and> g_periodic_raid_deadline s = 0"

text \<open>
  A thread that sleeps first may run once its time has come. A connection gets a descriptor that is not in use.
  A packet is one that \<open>packet_recv\<close> lets through, \<open>None\<close> the end of the connection. The environment moves the
  clock forward and chooses random numbers and the outcomes of system calls.
\<close>

inductive world_step :: "world \<Rightarrow> world \<Rightarrow> bool" where
  accept: "k \<noteq> 0 \<Longrightarrow> w_phase w k = Ended \<Longrightarrow> accept_client ok k (w_server w) = (joined, s) \<Longrightarrow>
    world_step w (w\<lparr>w_server := s, w_phase := if joined then (w_phase w)(k := Login_wait) else w_phase w\<rparr>)"
| receive: "w_phase w k \<noteq> Ended \<Longrightarrow> (\<And>m. received = Some m \<Longrightarrow> msg_ok m) \<Longrightarrow>
    client_handler_step junk ok k received (w_phase w k) (w_server w) = (ph, s) \<Longrightarrow>
    world_step w (w\<lparr>w_server := s, w_phase := (w_phase w)(k := ph)\<rparr>)"
| round_end: "(t, Round_end_timer) \<in> set (sv_threads (w_server w)) \<Longrightarrow> t + ROUND_END_COUNTDOWN_SEC \<le> sv_now (w_server w) \<Longrightarrow>
    world_step w (w\<lparr>w_server := round_end_timer_thread (w_server w)\<rparr>)"
| raid_end: "(t, Periodic_raid_timeout) \<in> set (sv_threads (w_server w)) \<Longrightarrow> t + PERIODIC_RAID_TIME_LIMIT_SEC \<le> sv_now (w_server w) \<Longrightarrow>
    world_step w (w\<lparr>w_server := periodic_raid_timeout_thread (w_server w)\<rparr>)"
| recovery: "(t, Leak_recovery leaked dur) \<in> set (sv_threads (w_server w)) \<Longrightarrow> t + dur \<le> sv_now (w_server w) \<Longrightarrow>
    world_step w (w\<lparr>w_server := leak_recovery_thread leaked (w_server w)\<rparr>)"
| hint: "(t, Npc_sequence) \<in> set (sv_threads (w_server w)) \<Longrightarrow> npc_hint (w_server w) = (req, s) \<Longrightarrow>
    world_step w (w\<lparr>w_server := s, w_orders := (case req of None \<Rightarrow> w_orders w | Some tags \<Rightarrow> tags # w_orders w)\<rparr>)"
| order: "tags \<in> set (w_orders w) \<Longrightarrow>
    world_step w (w\<lparr>w_server := npc_spawn tags (w_server w), w_orders := remove1 tags (w_orders w)\<rparr>)"
| tick: "(t, Event_thread) \<in> set (sv_threads (w_server w)) \<Longrightarrow>
    event_tick ok (Suc (w_tick w)) (w_next_raid w) (w_server w) = (next, s) \<Longrightarrow>
    world_step w (w\<lparr>w_server := s, w_tick := Suc (w_tick w), w_next_raid := next\<rparr>)"
| environment: "sv_now (w_server w) \<le> t \<Longrightarrow>
    world_step w (w\<lparr>w_server := (w_server w)\<lparr>sv_now := t, sv_rands := rs, sv_writes := ws, sv_pwrite := pw, sv_creates := bs\<rparr>\<rparr>)"

inductive world_reachable :: "world \<Rightarrow> bool" where
  start: "statics s \<Longrightarrow> 0 < sv_now s \<Longrightarrow> server_start mk can_open s = Some s' \<Longrightarrow>
    world_reachable \<lparr>w_server = s', w_phase = (\<lambda>k. Ended), w_orders = [], w_tick = 0, w_next_raid = next\<rparr>"
| step: "world_reachable w \<Longrightarrow> world_step w w' \<Longrightarrow> world_reachable w'"

section \<open>The invariant of the running server\<close>

definition world_ok :: "world \<Rightarrow> bool" where
  "world_ok w \<longleftrightarrow> board_ok (sv_market (w_server w)) \<and> (round_ok (w_server w) \<and> 0 < sv_now (w_server w)) \<and>
     table_ok (w_phase w) (client_sockets (w_server w)) (active_keys (w_server w))"

text \<open>A step that leaves the table alone and keeps the other two parts.\<close>

lemma world_ok_kept:
  assumes "world_ok w" "board_ok (sv_market (w_server w)) \<Longrightarrow> board_ok (sv_market s)"
    "round_ok (w_server w) \<and> 0 < sv_now (w_server w) \<Longrightarrow> round_ok s \<and> 0 < sv_now s"
    "client_sockets s = client_sockets (w_server w) \<and> active_keys s = active_keys (w_server w)"
    "w_server w' = s" "w_phase w' = w_phase w"
  shows "world_ok w'"
  using assms by (simp add: world_ok_def)

lemma same_table: "client_sockets s = client_sockets s \<and> active_keys s = active_keys s"
  by simp

lemma table_empty: "table_ok (\<lambda>k. Ended) (replicate MAX_CLIENTS 0) (replicate MAX_CLIENTS [])"
  by (simp add: table_ok_def)

lemma server_start_ok:
  assumes "statics s" "0 < sv_now s" "server_start mk can_open s = Some s'"
  shows "board_ok (sv_market s')" "round_ok s' \<and> 0 < sv_now s'"
    "client_sockets s' = replicate MAX_CLIENTS 0 \<and> active_keys s' = replicate MAX_CLIENTS []"
proof -
  let ?s1 = "s\<lparr>client_sockets := replicate MAX_CLIENTS 0, active_keys := replicate MAX_CLIENTS []\<rparr>"
  obtain db f where s': "s' = snd (events_start_thread (seed_market_and_npc
      (?s1\<lparr>sv_users := db, sv_fs := f, sv_market := market_init (sv_market s)\<rparr>)))"
    using assms(3) by (auto simp: server_start_def Let_def split: prod.splits if_splits) (metis snd_conv)
  let ?s3 = "?s1\<lparr>sv_users := db, sv_fs := f, sv_market := market_init (sv_market s)\<rparr>"
  have "board_ok (sv_market ?s3)" by (simp add: board_ok_init)
  then show "board_ok (sv_market s')" unfolding s' events_start_thread_def by (intro boards.creating boards.seeding)
  have "round_ok ?s3 \<and> 0 < sv_now ?s3" using assms(1,2) by (simp add: round_ok_def statics_def)
  then show "round_ok s' \<and> 0 < sv_now s'" unfolding s' events_start_thread_def by (intro rounds.creating rounds.seeding)
  have "client_sockets ?s3 = replicate MAX_CLIENTS 0 \<and> active_keys ?s3 = replicate MAX_CLIENTS []" by simp
  then show "client_sockets s' = replicate MAX_CLIENTS 0 \<and> active_keys s' = replicate MAX_CLIENTS []"
    unfolding s' events_start_thread_def by (intro slots.creating slots.seeding)
qed

lemma accept_ok:
  assumes w: "world_ok w" and k: "k \<noteq> 0" "w_phase w k = Ended" and a: "accept_client ok k (w_server w) = (joined, s)"
  shows "world_ok (w\<lparr>w_server := s, w_phase := if joined then (w_phase w)(k := Login_wait) else w_phase w\<rparr>)"
proof -
  let ?s = "w_server w"
  let ?s1 = "snd (pthread_create (Client_handler k) ?s)"
  have kept: "client_sockets ?s1 = client_sockets ?s \<and> active_keys ?s1 = active_keys ?s"
    "board_ok (sv_market ?s1)" "round_ok ?s1 \<and> 0 < sv_now ?s1"
    using w by (auto simp: world_ok_def intro!: boards.creating rounds.creating slots.creating)
  consider "\<not> joined" "s = ?s" | "\<not> joined" "s = ?s1"
    | "joined" "0 \<in> set (client_sockets ?s)" "s = ?s1\<lparr>client_sockets := take_slot k (client_sockets ?s1)\<rparr>"
    using a by (auto simp: accept_client_def split: if_splits prod.splits)
  then show ?thesis
  proof cases
    case 3
    from w have "table_ok (w_phase w) (client_sockets ?s) (active_keys ?s)" by (simp add: world_ok_def)
    from table_accept [OF this k 3(2)] 3 kept show ?thesis by (auto simp: world_ok_def round_ok_def)
  qed (use w kept in \<open>simp_all add: world_ok_def\<close>)
qed

lemma leave_ok:
  assumes "board_ok (sv_market s) \<and> round_ok s \<and> 0 < sv_now s" "table_ok ph (client_sockets s) (active_keys s)" "ph k \<noteq> Ended"
    and "w_server w = disconnect k s" "w_phase w = ph(k := Ended)"
  shows "world_ok w"
proof -
  obtain xs ks where c: "clear_slot k (client_sockets s) (active_keys s) = (xs, ks)" by (rule prod.exhaust)
  have "k \<noteq> 0" using table_okD(6) [OF assms(2,3)] by simp
  from table_leave [OF assms(2) this c] assms(1,4,5) c show ?thesis
    by (simp add: world_ok_def disconnect_def round_ok_def)
qed

lemma login_ok:
  assumes w: "world_ok w" and k: "w_phase w k = Login_wait" and key: "fits MAX_KEY_LEN key"
    and step: "client_handler_step junk ok k (Some (Req_login key)) Login_wait (w_server w) = (ph, s)"
  shows "world_ok (w\<lparr>w_server := s, w_phase := (w_phase w)(k := ph)\<rparr>)"
proof -
  let ?s = "w_server w"
  have t: "table_ok (w_phase w) (client_sockets ?s) (active_keys ?s)" using w by (simp add: world_ok_def)
  obtain r s1 where l: "handle_login k key ?s = (r, s1)" by (rule prod.exhaust)
  note c = login_calm [OF l]
  have s1: "board_ok (sv_market s1) \<and> round_ok s1 \<and> 0 < sv_now s1"
    using w c(1) calm_round [OF c(1)] by (simp add: world_ok_def calm_def)
  show ?thesis
  proof (cases r)
    case None
    then have "ph = Ended" "s = disconnect k s1" using step l by (auto simp: client_handler_step_def)
    moreover have "table_ok (w_phase w) (client_sockets s1) (active_keys s1)" using t c(1) c(2) [OF None] by (simp add: calm_def)
    ultimately show ?thesis using k by (intro leave_ok [OF s1]) simp_all
  next
    case (Some my_key)
    then have ph: "ph = In_game my_key" "s = s1" using step l by (auto simp: client_handler_step_def)
    have my: "my_key = key" "\<not> duplicate_login k key ?s" "active_keys s1 = set_key k key (client_sockets ?s) (active_keys ?s)"
      using c(3) [OF Some] key by (auto simp: fits_def)
    have "table_ok ((w_phase w)(k := In_game key)) (client_sockets ?s) (set_key k key (client_sockets ?s) (active_keys ?s))"
      using table_login [OF t k, of key] key no_duplicate [OF my(2)] table_okD(1,2) [OF t] by (simp add: fits_def)
    then show ?thesis using s1 ph my c(1) by (simp add: world_ok_def calm_def)
  qed
qed

lemma play_ok:
  assumes w: "world_ok w" and k: "w_phase w k = In_game my_key"
    and step: "client_handler_step junk ok k (Some m) (In_game my_key) (w_server w) = (ph, s)"
  shows "world_ok (w\<lparr>w_server := s, w_phase := (w_phase w)(k := ph)\<rparr>)"
proof -
  let ?s = "w_server w"
  obtain leave s1 where d: "dispatch junk ok k my_key m ?s = (leave, s1)" by (rule prod.exhaust)
  then have s1: "s1 = snd (dispatch junk ok k my_key m ?s)" by simp
  have parts: "board_ok (sv_market s1) \<and> round_ok s1 \<and> 0 < sv_now s1"
    using w boards.dispatching [of ?s junk ok k my_key m] rounds.dispatching [of ?s junk ok k my_key m]
    by (simp add: world_ok_def s1)
  have same: "client_sockets s1 = client_sockets ?s \<and> active_keys s1 = active_keys ?s"
    unfolding s1 by (intro slots.dispatching) simp
  have t: "table_ok (w_phase w) (client_sockets s1) (active_keys s1)" using w same by (simp add: world_ok_def)
  show ?thesis
  proof (cases leave)
    case True
    then have "ph = Ended" "s = disconnect k s1" using step d by (auto simp: client_handler_step_def)
    then show ?thesis using k by (intro leave_ok [OF parts t]) simp_all
  next
    case False
    then have "ph = In_game my_key" "s = s1" using step d by (auto simp: client_handler_step_def)
    moreover have "(w_phase w)(k := In_game my_key) = w_phase w" using k by auto
    ultimately show ?thesis using parts t by (simp add: world_ok_def)
  qed
qed

lemma receive_ok:
  assumes w: "world_ok w" and k: "w_phase w k \<noteq> Ended" and m: "\<And>m. received = Some m \<Longrightarrow> msg_ok m"
    and step: "client_handler_step junk ok k received (w_phase w k) (w_server w) = (ph, s)"
  shows "world_ok (w\<lparr>w_server := s, w_phase := (w_phase w)(k := ph)\<rparr>)"
proof (cases received)
  case None
  then have "ph = Ended" "s = disconnect k (w_server w)" using step k by (auto simp: client_handler_step_def split: phase.splits)
  then show ?thesis using w k by (intro leave_ok [of "w_server w" "w_phase w" k]) (simp_all add: world_ok_def)
next
  case (Some m)
  show ?thesis
  proof (cases "w_phase w k")
    case Login_wait
    show ?thesis
    proof (cases "\<exists>key. m = Req_login key")
      case True
      then obtain key where key: "m = Req_login key" ..
      show ?thesis
        by (rule login_ok [OF w Login_wait, of key]) (use step Some Login_wait m [OF Some] key in simp_all)
    next
      case False
      then have "ph = Login_wait" "s = w_server w" using step Some Login_wait by (auto simp: client_handler_step_def split: msg.splits)
      moreover have "(w_phase w)(k := Login_wait) = w_phase w" using Login_wait by auto
      ultimately show ?thesis using w by (simp add: world_ok_def)
    qed
  next
    case (In_game my_key)
    then show ?thesis using play_ok [OF w In_game] step Some by simp
  qed (use k in simp)
qed

lemma world_step_ok: "world_step w w' \<Longrightarrow> world_ok w \<Longrightarrow> world_ok w'"
proof (induction rule: world_step.induct)
  case (accept k w ok joined s)
  then show ?case by (intro accept_ok)
next
  case (receive w k received junk ok ph s)
  show ?case by (rule receive_ok [OF receive.prems receive.hyps])
next
  case (round_end t w)
  show ?case
    by (rule world_ok_kept [OF round_end.prems boards.resetting(2) rounds.resetting(2) slots.resetting(2) [OF same_table]]) simp_all
next
  case (raid_end t w)
  show ?case
    by (rule world_ok_kept [OF raid_end.prems boards.raids(3) rounds.raids(3) slots.raids(3) [OF same_table]]) simp_all
next
  case (recovery t leaked dur w)
  show ?case
    by (rule world_ok_kept [OF recovery.prems boards.leaking(2) rounds.leaking(2) slots.leaking(2) [OF same_table]]) simp_all
next
  case (hint t w req s)
  then have s: "s = snd (npc_hint (w_server w))" by simp
  show ?case unfolding s
    by (rule world_ok_kept [OF hint.prems boards.ordering(1) rounds.ordering(1) slots.ordering(1) [OF same_table]]) simp_all
next
  case (order tags w)
  show ?case
    by (rule world_ok_kept [OF order.prems boards.ordering(2) rounds.ordering(2) slots.ordering(2) [OF same_table]]) simp_all
next
  case (tick t w ok "next" s)
  then have s: "s = snd (event_tick ok (Suc (w_tick w)) (w_next_raid w) (w_server w))" by simp
  show ?case unfolding s
    by (rule world_ok_kept [OF tick.prems boards.ticking rounds.ticking slots.ticking [OF same_table]]) simp_all
next
  case (environment w t rs ws pw bs)
  then show ?case by (auto simp: world_ok_def round_ok_def)
qed

lemma reachable_world_ok: "world_reachable w \<Longrightarrow> world_ok w"
proof (induction rule: world_reachable.induct)
  case (start s mk can_open s' "next")
  from server_start_ok [OF this] table_empty show ?case by (simp add: world_ok_def)
qed (rule world_step_ok)

lemma one_session_per_key_aux:
  assumes "table_ok ph xs ks" "ph a = In_game key" "ph b = In_game key" "key \<noteq> []"
  shows "a = b"
proof -
  note d = table_okD [OF assms(1)]
  obtain i j where i: "i < MAX_CLIENTS" "xs ! i = a" "a \<noteq> 0" and j: "j < MAX_CLIENTS" "xs ! j = b" "b \<noteq> 0"
    using d(6) [of a] d(6) [of b] assms(2,3) d(1) by (metis in_set_conv_nth phase.distinct(5))
  have "ks ! i = key" "ks ! j = key" using d(5) [OF i(1)] d(5) [OF j(1)] i j assms(2,3) by auto
  then have "i = j" using d(8) [OF i(1) j(1)] assms(4) by simp
  then show ?thesis using i j by simp
qed

text \<open>A server that was just started, and the player neo on descriptor 3.\<close>

definition boot :: server where
  "boot = sample_server\<lparr>sv_users := None, sv_fs := \<lparr>fs_cwd = [''srv''], fs_dirs = [[''srv'']], fs_files = []\<rparr>\<rparr>"

lemma boot_facts: "statics boot" "0 < sv_now boot" "\<exists>s. server_start MKDIR_OK True boot = Some s \<and> sv_users s = Some [] \<and> sv_creates s = []"
proof -
  show "statics boot" "0 < sv_now boot" by (simp_all add: boot_def sample_server_def statics_def)
  obtain f where f: "sandbox_global_init (sv_fs boot) = (True, f)"
    by (simp add: boot_def sandbox_global_init_def ensure_dir_def sys_mkdir_def sys_exists_def resolve_def DATA_ROOT_def
        MASTER_DIR_def USERS_DIR_def is_dir_def get_file_def)
  define s3 where "s3 = boot\<lparr>client_sockets := replicate MAX_CLIENTS 0, active_keys := replicate MAX_CLIENTS [], sv_users := Some [], sv_fs := f, sv_market := market_init (sv_market boot)\<rparr>"
  have seed: "sv_users (seed_market_and_npc u) = sv_users u \<and> sv_creates (seed_market_and_npc u) = sv_creates u" for u
  proof -
    have "sv_users (seed_one d v) = sv_users v \<and> sv_creates (seed_one d v) = sv_creates v" for d v
      by (simp add: seed_one_def Let_def case_prod_unfold sv_market_add_eq sv_master_write_eq)
    then have "sv_users (fold seed_one ds v) = sv_users v \<and> sv_creates (fold seed_one ds v) = sv_creates v" for ds v
      by (induction ds arbitrary: v) simp_all
    then show ?thesis by (simp add: seed_market_and_npc_def Let_def sv_npc_add_eq)
  qed
  have "sv_creates s3 = []" "sv_users s3 = Some []" by (simp_all add: s3_def boot_def sample_server_def)
  with seed [of s3] obtain s4 where "events_start_thread (seed_market_and_npc s3) = (True, s4)" "sv_users s4 = Some []" "sv_creates s4 = []"
    by (simp add: events_start_thread_def pthread_create_def)
  moreover have "userdb_init MKDIR_OK True (sv_users boot) = (True, Some [])" by (simp add: userdb_init_def boot_def)
  ultimately show "\<exists>s. server_start MKDIR_OK True boot = Some s \<and> sv_users s = Some [] \<and> sv_creates s = []"
    using f by (simp add: server_start_def Let_def s3_def)
qed

lemma neo_plays: "\<exists>w. world_reachable w \<and> w_phase w 3 = In_game ''neo''"
proof -
  obtain s where s: "server_start MKDIR_OK True boot = Some s" "sv_users s = Some []" "sv_creates s = []" using boot_facts(3) by blast
  define w0 where "w0 = \<lparr>w_server = s, w_phase = (\<lambda>k. Ended), w_orders = [], w_tick = 0, w_next_raid = 0\<rparr>"
  have w0: "world_reachable w0" unfolding w0_def by (rule world_reachable.start [OF boot_facts(1,2) s(1)])
  have tab: "client_sockets s = replicate MAX_CLIENTS 0" "active_keys s = replicate MAX_CLIENTS []"
    using server_start_ok(3) [OF boot_facts(1,2) s(1)] by simp_all
  define s1 where "s1 = s\<lparr>sv_threads := sv_threads s @ [(sv_now s, Client_handler 3)], client_sockets := take_slot 3 (client_sockets s)\<rparr>"
  have "accept_client True 3 s = (True, s1)" by (simp add: accept_client_def pthread_create_def s(3) s1_def tab)
  then have "world_step w0 (w0\<lparr>w_server := s1, w_phase := (w_phase w0)(3 := Login_wait)\<rparr>)"
    using world_step.accept [of 3 w0 True True s1] by (simp add: w0_def)
  from world_reachable.step [OF w0 this] have w1: "world_reachable (w0\<lparr>w_server := s1, w_phase := (w_phase w0)(3 := Login_wait)\<rparr>)" .
  let ?w1 = "w0\<lparr>w_server := s1, w_phase := (w_phase w0)(3 := Login_wait)\<rparr>"
  have "\<not> duplicate_login 3 ''neo'' s1" by (auto simp: duplicate_login_def s1_def tab numeral_eq_Suc)
  moreover have "userdb_find ''neo'' (sv_users s1) = None" by (simp add: s1_def s(2) userdb_find_def find_loop.simps [of _ "[]"])
  ultimately have "\<exists>s2. handle_login 3 ''neo'' s1 = (Some ''neo'', s2)"
    using new_record_alive(1) [of "''neo''"] by (simp add: handle_login_def login_commit_def Let_def c_strncpy_def)
  then obtain s2 where "handle_login 3 ''neo'' s1 = (Some ''neo'', s2)" ..
  then have "client_handler_step (new_record [], 0) True 3 (Some (Req_login ''neo'')) (w_phase ?w1 3) (w_server ?w1) = (In_game ''neo'', s2)"
    by (simp add: client_handler_step_def)
  from world_step.receive [OF _ _ this] have "world_step ?w1 (?w1\<lparr>w_server := s2, w_phase := (w_phase ?w1)(3 := In_game ''neo'')\<rparr>)"
    by (simp add: fits_def no_nul_def)
  from world_reachable.step [OF w1 this]
  have "world_reachable (?w1\<lparr>w_server := s2, w_phase := (w_phase ?w1)(3 := In_game ''neo'')\<rparr>)" .
  moreover have "w_phase (?w1\<lparr>w_server := s2, w_phase := (w_phase ?w1)(3 := In_game ''neo'')\<rparr>) 3 = In_game ''neo''" by simp
  ultimately show ?thesis by blast
qed

section \<open>Properties\<close>

text \<open>C18: In every state the server can reach, whatever packets, threads, time and failed calls come in whatever order:
  both boards are well formed (a listing is marked frozen exactly when one of its tags is), the debt goal, the
  cap time and the escape log are functions of the escapes of the round, and the session table agrees with the
  connections: every living one has a place that shows its key, and a free place shows none.\<close>
theorem server_invariant_holds:
  assumes "world_reachable w"
  shows "board_ok (sv_market (w_server w)) \<and> round_ok (w_server w) \<and>
    table_ok (w_phase w) (client_sockets (w_server w)) (active_keys (w_server w))"
  using reachable_world_ok [OF assms] by (simp add: world_ok_def)

theorem server_invariant_holds_witness:
  "\<exists>w :: world. w_phase w 3 = In_game ''neo'' \<and> round_ok (w_server w) \<and> board_ok (sv_market (w_server w))"
  using neo_plays server_invariant_holds by blast

text \<open>C19: As long as the duplicate check and the entry into the table are not interleaved with another login, no two
  connections ever play under one key other than the empty one (which the table shows for nobody).\<close>
theorem one_session_per_key:
  assumes "world_reachable w" "w_phase w a = In_game key" "w_phase w b = In_game key" "key \<noteq> []"
  shows "a = b"
proof -
  have "table_ok (w_phase w) (client_sockets (w_server w)) (active_keys (w_server w))"
    using reachable_world_ok [OF assms(1)] by (simp add: world_ok_def)
  then show ?thesis using assms(2-4) by (rule one_session_per_key_aux)
qed

theorem one_session_per_key_witness:
  "\<exists>w :: world. w_phase w 3 = In_game ''neo'' \<and> (\<forall>b. w_phase w b = In_game ''neo'' \<longrightarrow> b = 3)"
  using neo_plays one_session_per_key by blast

end
