(* ===== verification/Economy.thy ===== *)
theory Economy
  imports Reset World
begin

text \<open>
  The economy as a whole. Every operation of the server that moves a document, lists one or takes an order, in any
  order: buying, selling, disposing, paying off, burning, spawning, ageing, leaks and their recovery, and the round
  reset. All of them keep one invariant, over the board in memory, the files on disk and the account file.
\<close>

section \<open>The invariant and the operations\<close>

definition stock_ok :: "server \<Rightarrow> bool" where
  "stock_ok s \<longleftrightarrow> trade_ok s \<and> shop_ok (sv_market s) (sv_fs s) \<and> one_copy (doc_at (sv_fs s))"

definition economy_ok :: "server \<Rightarrow> bool" where
  "economy_ok s \<longleftrightarrow> stock_ok s \<and> board_ok (sv_market s)"

datatype (plugins only: size code) economy_op =
    Buy sock key int
  | Sell "user_record \<times> nat" sock key int int "int list"
  | Dispose sock key int
  | Pay_off sock key
  | Burn key
  | Spawn
  | Order tags
  | Age
  | Age_orders
  | Leak bool
  | Recover tags
  | New_round
  | Clock time_t

fun run_op :: "economy_op \<Rightarrow> server \<Rightarrow> server" where
  "run_op (Buy sock key d) s = handle_buy sock key d s"
| "run_op (Sell junk sock key npc n ids) s = handle_sell junk sock key npc n ids s"
| "run_op (Dispose sock key d) s = handle_dispose sock key d s"
| "run_op (Pay_off sock key) s = handle_payoff sock key s"
| "run_op (Burn key) s = burn_user_by_key key s"
| "run_op Spawn s = event_spawn_market s"
| "run_op (Order req) s = npc_spawn req s"
| "run_op Age s = event_age_market s"
| "run_op Age_orders s = event_age_npcs s"
| "run_op (Leak malloc_ok) s = snd (fire_public_leak malloc_ok s)"
| "run_op (Recover leaked) s = leak_recovery_thread leaked s"
| "run_op New_round s = trigger_round_reset s"
| "run_op (Clock t) s = s\<lparr>sv_now := t\<rparr>"

text \<open>
  What an operation relies on: a user has a plain key and a box, a seller an account that does not overflow, and a
  spawned document or order an identifier that is not in use (see \<open>spawn_reuses_listed_id\<close> for what happens otherwise).
\<close>

fun op_ok :: "economy_op \<Rightarrow> server \<Rightarrow> bool" where
  "op_ok (Buy sock key d) s \<longleftrightarrow> safe_key key \<and> int32_range d \<and> has_box key (sv_fs s)"
| "op_ok (Sell junk sock key npc n ids) s \<longleftrightarrow> safe_key key \<and> (\<forall>d \<in> set ids. int32_range d) \<and>
     (\<exists>r l. userdb_find key (sv_users s) = Some (r, l) \<and> (\<forall>n \<in> set (g_npc (sv_market s)). ur_money r + ns_bounty n < 2 ^ 31))"
| "op_ok (Dispose sock key d) s \<longleftrightarrow> safe_key key \<and> int32_range d"
| "op_ok (Pay_off sock key) s \<longleftrightarrow> safe_key key"
| "op_ok (Burn key) s \<longleftrightarrow> safe_key key"
| "op_ok Spawn s \<longleftrightarrow> int32_range (g_doc_id_counter s + 1) \<and> market_find (g_doc_id_counter s + 1) (sv_market s) = None \<and>
     (\<forall>k. doc_at (sv_fs s) (Box k (g_doc_id_counter s + 1)) = None)"
| "op_ok (Order req) s \<longleftrightarrow> g_npc_id_counter s + 1 \<notin> set (npc_ids (sv_market s))"
| "op_ok New_round s \<longleftrightarrow> (\<forall>off. REC_SIZE \<le> sv_pwrite s off)"
| "op_ok _ s \<longleftrightarrow> True"

fun run_ops :: "economy_op list \<Rightarrow> server \<Rightarrow> server" where
  "run_ops [] s = s"
| "run_ops (x # xs) s = run_ops xs (run_op x s)"

fun ops_ok :: "economy_op list \<Rightarrow> server \<Rightarrow> bool" where
  "ops_ok [] s \<longleftrightarrow> True"
| "ops_ok (x # xs) s \<longleftrightarrow> op_ok x s \<and> ops_ok xs (run_op x s)"

section \<open>One copy\<close>

lemma one_copy_less: "one_copy m \<Longrightarrow> (\<And>l. m' l \<noteq> None \<Longrightarrow> m l \<noteq> None) \<Longrightarrow> one_copy m'"
  unfolding one_copy_def by blast

lemma one_copy_no_box:
  assumes "\<And>k d. m (Box k d) = None"
  shows "one_copy m"
  unfolding one_copy_def
proof (intro allI impI)
  fix l l' assume "loc_id l = loc_id l'" "m l \<noteq> None" "m l' \<noteq> None"
  then show "l = l'" using assms by (cases l; cases l') auto
qed

lemma one_copy_listed:
  assumes "one_copy m" "\<And>k e. m' (Box k e) = m (Box k e)" "\<And>e. m' (Shop e) \<noteq> None \<Longrightarrow> m (Shop e) \<noteq> None \<or> (\<forall>k. m (Box k e) = None)"
  shows "one_copy m'"
proof -
  have one: "l = l'" if "loc_id l = loc_id l'" "m l \<noteq> None" "m l' \<noteq> None" for l l'
    using assms(1) that unfolding one_copy_def by blast
  have apart: "m' (Box k d) = None" if "m' (Shop d) \<noteq> None" for k d
    using assms(3) [OF that] one [of "Shop d" "Box k d"] assms(2) [of k d] by (metis doc_loc.distinct(1) loc_id.simps)
  show ?thesis
    unfolding one_copy_def
  proof (intro allI impI)
    fix l l' assume l: "loc_id l = loc_id l'" "m' l \<noteq> None" "m' l' \<noteq> None"
    show "l = l'"
    proof (cases l; cases l')
      fix k e k' e' assume c: "l = Box k e" "l' = Box k' e'"
      then have "m l \<noteq> None" "m l' \<noteq> None" using l(2,3) assms(2) by simp_all
      then show ?thesis by (rule one [OF l(1)])
    qed (use l apart in auto)
  qed
qed

section \<open>No write is short\<close>

interpretation disk: server_invariant full_writes
proof
  show "full_writes (s\<lparr>sv_writes := tl (sv_writes s)\<rparr>)" if "full_writes s" for s
    using that by (cases "sv_writes s") (simp_all add: full_writes_def)
qed (simp_all add: full_writes_def escape_step_def reset_round_state_def)

section \<open>Every operation keeps it\<close>

lemma stock_okD:
  assumes "stock_ok s"
  shows "trade_ok s" "stores_ok s" "shop_ok (sv_market s) (sv_fs s)" "one_copy (doc_at (sv_fs s))" "full_writes s"
    "db_ok (sv_users s)" "sandbox_ok (sv_fs s)" "distinct (market_ids (sv_market s))" "fair_board (sv_market s)"
    "front.agrees (\<lambda>d. market_find d (sv_market s)) (sv_fs s)"
  using assms by (simp_all add: stock_ok_def trade_ok_def stores_ok_def shop_ok_def)

lemma stock_okI:
  assumes "stores_ok s" "shop_ok (sv_market s) (sv_fs s)" "fair_board (sv_market s)" "one_copy (doc_at (sv_fs s))"
  shows "stock_ok s"
  using assms by (simp add: stock_ok_def trade_ok_def stores_ok_def shop_ok_def)

text \<open>The users' side: documents leave the boxes, the shop stays.\<close>

lemma economy_less:
  assumes "stock_ok s" "stores_ok s'" "sv_market s' = sv_market s"
    and "\<And>d. doc_at (sv_fs s') (Shop d) = doc_at (sv_fs s) (Shop d)"
    and "\<And>l. doc_at (sv_fs s') l \<noteq> None \<Longrightarrow> doc_at (sv_fs s) l \<noteq> None"
  shows "stock_ok s'"
proof (rule stock_okI)
  show "shop_ok (sv_market s') (sv_fs s')" using stock_okD(3) [OF assms(1)] by (simp add: shop_ok_def front.agrees_def assms(3,4))
  show "fair_board (sv_market s')" using stock_okD(9) [OF assms(1)] by (simp add: assms(3))
  show "one_copy (doc_at (sv_fs s'))" by (rule one_copy_less [OF stock_okD(4) [OF assms(1)] assms(5)])
qed (rule assms(2))

lemma economy_frozen:
  assumes "stock_ok s" "sv_market s' = freeze_tags t (sv_market s) \<or> sv_market s' = unfreeze_tags t (sv_market s)"
    and "stores_ok s'" "sv_fs s' = sv_fs s"
  shows "stock_ok s'"
  using assms(2) shop_ok_frozen [OF stock_okD(3) [OF assms(1)]] fair_market_side(3,4) [OF stock_okD(9) [OF assms(1)]]
    stock_okD(4) [OF assms(1)]
  by (auto intro!: stock_okI assms(3) simp: assms(4))

text \<open>A purchase takes the document and its listing away together.\<close>

lemma economy_buy:
  assumes "stock_ok s" "safe_key key" "int32_range d" "has_box key (sv_fs s)"
  shows "stock_ok (handle_buy sock key d s)"
proof -
  note ok = stock_okD [OF assms(1)]
  let ?s = "handle_buy sock key d s"
  have w: "full_writes ?s" by (rule disk.buying [OF ok(5)])
  from handle_buy_cases [OF ok(1) assms(2-4), of sock, unfolded Let_def] show ?thesis
  proof (elim disjE exE conjE)
    assume r: "refused sock s ?s" and m: "sv_market ?s = sv_market s"
    then show ?thesis using w ok by (intro economy_less [OF assms(1)]) (auto simp: refused_def stores_ok_def)
  next
    assume r: "refused sock s ?s" and "doc_at (sv_fs s) (Shop d) = None"
    then have "market_find d (sv_market s) = None" using ok(10) by (simp add: front.agrees_def)
    then have "sv_market ?s = sv_market s" by (simp add: handle_buy_def)
    then show ?thesis using r w ok by (intro economy_less [OF assms(1)]) (auto simp: refused_def stores_ok_def)
  next
    fix slot r l
    assume b: "market_take d (sv_market s) = (Inr slot, sv_market ?s)" "db_ok (sv_users ?s)" "sandbox_ok (sv_fs ?s)"
      "doc_at (sv_fs s) (Shop d) \<noteq> None"
      "doc_at (sv_fs ?s) = (doc_at (sv_fs s))(Shop d := None, Box key d := doc_at (sv_fs s) (Shop d))"
    note kill = market_find_kill [OF ok(8) b(1)]
    show ?thesis
    proof (rule stock_okI)
      show "stores_ok ?s" using w b(2,3) by (simp add: stores_ok_def)
      show "shop_ok (sv_market ?s) (sv_fs ?s)"
        using kill(2) ok(10) by (simp add: shop_ok_def front.agrees_def b(5) fun_cong [OF kill(1)])
      show "fair_board (sv_market ?s)" using fair_market_side(2) [OF ok(9), of d] by (simp add: b(1))
      show "one_copy (doc_at (sv_fs ?s))" unfolding b(5) by (rule one_copy_move [OF ok(4) b(4)]) simp
    qed
  qed
qed

text \<open>A sale and a refused request.\<close>

lemma economy_sell:
  assumes "stock_ok s" "op_ok (Sell junk sock key npc n ids) s"
  shows "stock_ok (handle_sell junk sock key npc n ids s)"
proof -
  note ok = stock_okD [OF assms(1)]
  let ?s = "handle_sell junk sock key npc n ids s"
  from assms(2) obtain r l where pre: "safe_key key" "\<forall>d \<in> set ids. int32_range d" "userdb_find key (sv_users s) = Some (r, l)"
    "\<forall>n \<in> set (g_npc (sv_market s)). ur_money r + ns_bounty n < 2 ^ 31" by auto
  have w: "full_writes ?s" by (rule disk.selling [OF ok(5)])
  from handle_sell_cases [OF ok(1) pre, of junk sock npc n, unfolded Let_def] show ?thesis
  proof (elim disjE exE conjE)
    assume "refused sock s ?s" and "sv_market ?s = sv_market s"
    then show ?thesis using w ok by (intro economy_less [OF assms(1)]) (auto simp: refused_def stores_ok_def)
  next
    fix npc'
    assume b: "npc_take npc (sv_market s) = (Some npc', sv_market ?s)" "db_ok (sv_users ?s)" "sandbox_ok (sv_fs ?s)"
      "doc_at (sv_fs ?s) = (\<lambda>l. if \<exists>d \<in> set (take (nat n) ids). l = Box key d then None else doc_at (sv_fs s) l)"
    have "g_market (snd (npc_take npc m)) = g_market m" for m by (simp add: npc_take_def split: option.split)
    from this [of "sv_market s"] have mkt: "g_market (sv_market ?s) = g_market (sv_market s)" by (simp add: b(1))
    show ?thesis
    proof (rule stock_okI)
      show "stores_ok ?s" using w b(2,3) by (simp add: stores_ok_def)
      show "shop_ok (sv_market ?s) (sv_fs ?s)"
        using ok(8,10) by (simp add: shop_ok_def front.agrees_def b(4) market_find_def mkt)
      show "fair_board (sv_market ?s)" using fair_npc_take [OF ok(9), of npc] by (simp add: b(1))
      show "one_copy (doc_at (sv_fs ?s))" by (rule one_copy_less [OF ok(4)]) (simp add: b(4) split: if_splits)
    qed
  qed
qed

lemma economy_dispose:
  assumes "stock_ok s" "safe_key key" "int32_range d"
  shows "stock_ok (handle_dispose sock key d s)"
proof -
  note ok = stock_okD [OF assms(1)]
  let ?s = "handle_dispose sock key d s" and ?f = "snd (sandbox_dispose key d (sv_fs s))"
  have s: "sv_users ?s = sv_users s" "sv_market ?s = sv_market s" "sv_fs ?s \<in> {sv_fs s, ?f}"
    by (simp_all add: handle_dispose_def split: prod.split)
  have f: "sandbox_ok ?f" "\<And>l. doc_at ?f l = (if l = Box key d then None else doc_at (sv_fs s) l)"
    using dispose_all_eq [OF ok(7) assms(2), of "[d]"] assms(3) by (simp_all add: fun_eq_iff)
  have "stores_ok ?s" using s ok f(1) disk.small_requests(1) [OF ok(5), of sock key d] by (auto simp: stores_ok_def)
  moreover have "doc_at (sv_fs ?s) (Shop e) = doc_at (sv_fs s) (Shop e)" for e using s(3) by (auto simp: f(2))
  moreover have "doc_at (sv_fs ?s) l \<noteq> None \<Longrightarrow> doc_at (sv_fs s) l \<noteq> None" for l using s(3) by (auto simp: f(2) split: if_splits)
  ultimately show ?thesis by (intro economy_less [OF assms(1) _ s(2)])
qed

lemma economy_purge:
  assumes "stock_ok s" "safe_key key" "stores_ok s'" "sv_market s' = sv_market s" "sv_fs s' = sandbox_purge_user key (sv_fs s)"
  shows "stock_ok s'"
proof (rule economy_less [OF assms(1,3,4)])
  note at = sandbox_purge_user_at [OF stock_okD(7) [OF assms(1)] assms(2)]
  show "doc_at (sv_fs s') (Shop d) = doc_at (sv_fs s) (Shop d)" for d by (simp add: assms(5) at)
  show "doc_at (sv_fs s') l \<noteq> None \<Longrightarrow> doc_at (sv_fs s) l \<noteq> None" for l
    by (cases l) (simp_all add: assms(5) at split: if_splits)
qed

lemma economy_payoff:
  assumes "stock_ok s" "safe_key key"
  shows "stock_ok (handle_payoff sock key s)"
proof (cases "\<exists>r l. userdb_find key (sv_users s) = Some (r, l) \<and> g_goal_money s \<le> ur_money r")
  case True
  note ok = stock_okD [OF assms(1)]
  let ?s = "handle_payoff sock key s"
  from True obtain r l where rl: "userdb_find key (sv_users s) = Some (r, l)" "g_goal_money s \<le> ur_money r" by blast
  let ?r = "r\<lparr>ur_money := INITIAL_MONEY\<rparr>" and ?s2 = "(escape_step key s)\<lparr>sv_fs := sandbox_purge_user key (sv_fs s)\<rparr>"
  have r: "rec_ok ?r" using udb.find_acc_ok [OF ok(6) rl(1)] by (simp add: rec_ok_money int32_range_def)
  have "full_writes ?s2" by (intro disk.files disk.escape ok(5))
  then have "sv_users (sv_update_at l ?r ?s2) = userdb_put l ?r (sv_users s)"
    using sv_update_found(1) [of ?s2 key r l ?r] ok(6) rl(1) r by (simp add: escape_step_def)
  moreover have "db_ok (userdb_put l ?r (sv_users s))" by (rule udb.put_ok [OF ok(6) rl(1) r])
  ultimately have f: "db_ok (sv_users ?s)" "sv_fs ?s = sandbox_purge_user key (sv_fs s)" "sv_market ?s = sv_market s"
    by (simp_all add: handle_payoff_success [OF rl] Let_def) (simp_all add: escape_step_def)
  have "stores_ok ?s"
    using f(1) disk.paying [OF ok(5)] sandbox_purge_user_docs(1) [OF ok(7) assms(2)] by (simp add: stores_ok_def f(2))
  then show ?thesis by (rule economy_purge [OF assms _ f(3,2)])
next
  case False
  note ok = stock_okD [OF assms(1)]
  have "sv_users (handle_payoff sock key s) = sv_users s" "sv_fs (handle_payoff sock key s) = sv_fs s"
    "sv_market (handle_payoff sock key s) = sv_market s"
    using False by (auto simp: handle_payoff_def split: option.split)
  then show ?thesis using ok disk.paying [OF ok(5)] by (intro economy_less [OF assms(1)]) (simp_all add: stores_ok_def)
qed

lemma economy_burn:
  assumes "stock_ok s" "safe_key key"
  shows "stock_ok (burn_user_by_key key s)"
proof (rule economy_purge [OF assms])
  show "stores_ok (burn_user_by_key key s)" by (rule burn_user_by_key_stores(1) [OF stock_okD(2) [OF assms(1)] assms(2)])
  show "sv_fs (burn_user_by_key key s) = sandbox_purge_user key (sv_fs s)"
    by (simp add: burn_user_by_key_def Let_def split: option.split prod.split)
qed simp

text \<open>The shop's side: the files follow the board.\<close>

lemma economy_listed:
  assumes "stock_ok s" "stores_ok s'" "shop_ok (sv_market s') (sv_fs s')" "fair_board (sv_market s')"
    and "\<And>k e. doc_at (sv_fs s') (Box k e) = doc_at (sv_fs s) (Box k e)"
    and "\<And>e. market_find e (sv_market s') \<noteq> None \<Longrightarrow>
      market_find e (sv_market s) \<noteq> None \<or> (\<forall>k. doc_at (sv_fs s) (Box k e) = None)"
  shows "stock_ok s'"
proof (rule stock_okI [OF assms(2-4)])
  have new: "doc_at (sv_fs s') (Shop e) \<noteq> None \<longleftrightarrow> market_find e (sv_market s') \<noteq> None" for e
    using assms(3) by (simp add: shop_ok_def front.agrees_def)
  have old: "doc_at (sv_fs s) (Shop e) \<noteq> None \<longleftrightarrow> market_find e (sv_market s) \<noteq> None" for e
    using stock_okD(10) [OF assms(1)] by (simp add: front.agrees_def)
  show "one_copy (doc_at (sv_fs s'))"
  proof (rule one_copy_listed [OF stock_okD(4) [OF assms(1)] assms(5)])
    show "doc_at (sv_fs s) (Shop e) \<noteq> None \<or> (\<forall>k. doc_at (sv_fs s) (Box k e) = None)"
      if "doc_at (sv_fs s') (Shop e) \<noteq> None" for e
      unfolding old by (rule assms(6)) (rule new [THEN iffD1, OF that])
  qed
qed

lemma economy_spawn:
  assumes "stock_ok s" "op_ok Spawn s"
  shows "stock_ok (event_spawn_market s)"
proof -
  note ok = stock_okD [OF assms(1)]
  have pre: "market_find (g_doc_id_counter s + 1) (sv_market s) = None" "int32_range (g_doc_id_counter s + 1)"
    "\<And>k. doc_at (sv_fs s) (Box k (g_doc_id_counter s + 1)) = None" using assms(2) by simp_all
  let ?C = "market_is_full (sv_market s) \<or> free_tags (g_frozen_tags (sv_market s)) = {}" and ?s = "event_spawn_market s"
  note spawn = spawn_publishes [OF ok(2,3) pre(1,2), unfolded Let_def]
  note rest = spawn [THEN conjunct2, THEN conjunct2, THEN conjunct2]
  have new: "market_find e (sv_market ?s) = market_find e (sv_market s) \<or> e = g_doc_id_counter s + 1" for e
  proof (cases ?C)
    case True
    then show ?thesis using rest by simp
  next
    case False
    then obtain sl where "(\<lambda>e. market_find e (sv_market ?s)) = (\<lambda>e. market_find e (sv_market s))(g_doc_id_counter s + 1 \<mapsto> sl)"
      using rest by (simp only: if_False) blast
    then show ?thesis by (metis fun_upd_other)
  qed
  show ?thesis
  proof (rule economy_listed [OF assms(1)])
    show "stores_ok ?s" "shop_ok (sv_market ?s) (sv_fs ?s)" using spawn by simp_all
    show "fair_board (sv_market ?s)" using rest ok(9) by simp
    show "doc_at (sv_fs ?s) (Box k e) = doc_at (sv_fs s) (Box k e)" for k e using rest by simp
    show "market_find e (sv_market s) \<noteq> None \<or> (\<forall>k. doc_at (sv_fs s) (Box k e) = None)"
      if "market_find e (sv_market ?s) \<noteq> None" for e
      using that new [of e] pre(3) by auto
  qed
qed

lemma economy_age:
  assumes "stock_ok s" "board_ok (sv_market s)"
  shows "stock_ok (event_age_market s)"
proof -
  note ok = stock_okD [OF assms(1)]
  note age = event_age_market_exact [OF ok(2,3) assms(2), unfolded Let_def]
  show ?thesis
  proof (rule economy_listed [OF assms(1)])
    show "stores_ok (event_age_market s)" "shop_ok (sv_market (event_age_market s)) (sv_fs (event_age_market s))"
      "\<And>k e. doc_at (sv_fs (event_age_market s)) (Box k e) = doc_at (sv_fs s) (Box k e)" using age by simp_all
    show "fair_board (sv_market (event_age_market s))"
      using fair_market_side(5) [OF ok(9)] by (simp add: event_age_market_def split: prod.split) (metis snd_conv)
    show "market_find e (sv_market s) \<noteq> None \<or> (\<forall>k. doc_at (sv_fs s) (Box k e) = None)"
      if "market_find e (sv_market (event_age_market s)) \<noteq> None" for e
      using that age by (auto split: option.splits)
  qed
qed

text \<open>Orders, freezes and the clock.\<close>

lemma economy_same:
  assumes "stock_ok s" "sv_users s' = sv_users s" "sv_fs s' = sv_fs s" "full_writes s'"
    and "g_market (sv_market s') = g_market (sv_market s)" "fair_board (sv_market s')"
  shows "stock_ok s'"
proof -
  note ok = stock_okD [OF assms(1)]
  have "(\<lambda>d. market_find d (sv_market s')) = (\<lambda>d. market_find d (sv_market s))" "market_ids (sv_market s') = market_ids (sv_market s)"
    by (simp_all add: market_find_def assms(5))
  then show ?thesis using ok assms by (intro stock_okI) (simp_all add: stores_ok_def shop_ok_def)
qed

lemma economy_orders:
  assumes "stock_ok s"
  shows "op_ok (Order req) s \<Longrightarrow> stock_ok (npc_spawn req s)" "stock_ok (event_age_npcs s)"
proof -
  note ok = stock_okD [OF assms]
  show "stock_ok (npc_spawn req s)" if new: "op_ok (Order req) s"
  proof -
    obtain r where r: "draw (s\<lparr>g_npc_id_counter := g_npc_id_counter s + 1\<rparr>) =
        (r, s\<lparr>g_npc_id_counter := g_npc_id_counter s + 1, sv_rands := tl (sv_rands s)\<rparr>)"
      by (rule drawE [of "s\<lparr>g_npc_id_counter := g_npc_id_counter s + 1\<rparr>"]) simp
    let ?m = "snd (npc_add (sv_now s) (g_npc_id_counter s + 1) req (npc_bounty req r) (sv_market s))"
    have f: "sv_market (npc_spawn req s) = ?m" "sv_users (npc_spawn req s) = sv_users s" "sv_fs (npc_spawn req s) = sv_fs s"
      by (simp_all add: npc_spawn_def Let_def r sv_npc_add_def case_prod_unfold)
    have "0 \<le> npc_bounty req r" by (simp add: npc_bounty_def Let_def count_bits_def shift_count_card)
    then have fair: "fair_board ?m" using new by (intro fair_npc_add [OF ok(9)]) simp_all
    have "g_market ?m = g_market (sv_market s)" by (simp add: npc_add_def)
    then show ?thesis using fair by (intro economy_same [OF assms] disk.ordering ok(5)) (simp_all add: f)
  qed
  have f: "sv_market (event_age_npcs s) = snd (npc_despawn_aged (sv_now s) 140 30 16 (sv_market s))"
    "sv_users (event_age_npcs s) = sv_users s" "sv_fs (event_age_npcs s) = sv_fs s"
    by (simp_all add: event_age_npcs_def fold_broadcast split: prod.split)
  have "g_market (snd (npc_despawn_aged now b st k m)) = g_market m" for now b st k m by (simp add: npc_despawn_aged_eq)
  then show "stock_ok (event_age_npcs s)"
    using fair_npc_age [OF ok(9)] by (intro economy_same [OF assms] disk.ageing ok(5)) (simp_all add: f)
qed

lemma leak_effect:
  obtains t where "sv_users (snd (fire_public_leak b s)) = sv_users s" "sv_fs (snd (fire_public_leak b s)) = sv_fs s"
    "sv_market (snd (fire_public_leak b s)) \<in> {sv_market s, freeze_tags t (sv_market s), unfreeze_tags t (freeze_tags t (sv_market s))}"
proof -
  define idx where "idx = filter (\<lambda>i. TAG_LIST ! i AND market_active_tags (sv_market s) \<noteq> 0 \<and>
    \<not> (TAG_LIST ! i AND market_frozen_mask (sv_market s) \<noteq> 0)) [0..<length TAG_LIST]"
  define t where "t = TAG_LIST ! (idx ! (fst (draw s) mod length idx))"
  define s3 where "s3 = (snd (draw (snd (draw s))))\<lparr>sv_market := freeze_tags t (sv_market s)\<rparr>"
  define s5 where "s5 = broadcast_packet (Evt_news_leak t (180 + int (fst (draw (snd (draw s)))) mod 121)
    (c_strncpy 255 (LEAK_HEADLINE ! (idx ! (fst (draw s) mod length idx)) ! (fst (draw s3) mod 3)))) (snd (draw s3))"
  have s5: "sv_users s5 = sv_users s" "sv_fs s5 = sv_fs s" "sv_market s5 = freeze_tags t (sv_market s)"
    by (simp_all add: s5_def s3_def)
  have "fire_public_leak b s = (if idx = [] then (False, s)
      else if \<not> b then (False, s5\<lparr>sv_market := unfreeze_tags t (sv_market s5)\<rparr>)
      else case pthread_create (Leak_recovery t (180 + int (fst (draw (snd (draw s)))) mod 121)) s5 of
        (ok, s6) \<Rightarrow> if ok then (True, s6) else (False, s6\<lparr>sv_market := unfreeze_tags t (sv_market s6)\<rparr>))"
    unfolding fire_public_leak_def Let_def idx_def [symmetric] by (simp add: case_prod_unfold t_def s3_def s5_def)
  then show thesis
    using s5 by (intro that [of t]) (auto simp: pthread_create_def split: list.split)
qed

lemma stock_same_market:
  assumes "stock_ok s" "sv_users s' = sv_users s" "sv_fs s' = sv_fs s" "full_writes s'"
    and "shop_ok (sv_market s') (sv_fs s)" "fair_board (sv_market s')"
  shows "stock_ok s'"
  using stock_okD [OF assms(1)] assms(2-6) by (intro stock_okI) (simp_all add: stores_ok_def)

lemma economy_leak:
  assumes "stock_ok s"
  shows "stock_ok (snd (fire_public_leak b s))" "stock_ok (leak_recovery_thread t s)"
proof -
  note ok = stock_okD [OF assms]
  obtain u where leak: "sv_users (snd (fire_public_leak b s)) = sv_users s" "sv_fs (snd (fire_public_leak b s)) = sv_fs s"
    "sv_market (snd (fire_public_leak b s)) \<in> {sv_market s, freeze_tags u (sv_market s), unfreeze_tags u (freeze_tags u (sv_market s))}"
    by (rule leak_effect)
  from leak(3) have "shop_ok (sv_market (snd (fire_public_leak b s))) (sv_fs s)" "fair_board (sv_market (snd (fire_public_leak b s)))"
    by (auto simp: shop_ok_frozen fair_market_side ok)
  then show "stock_ok (snd (fire_public_leak b s))"
    by (intro stock_same_market [OF assms leak(1,2)] disk.leaking ok(5))
  show "stock_ok (leak_recovery_thread t s)"
    by (intro stock_same_market [OF assms] disk.leaking ok(5))
      (simp_all add: leak_recovery_thread_def shop_ok_frozen ok fair_market_side)
qed

lemma economy_round:
  assumes "stock_ok s" "op_ok New_round s"
  shows "stock_ok (trigger_round_reset s)"
proof -
  have "\<forall>off. REC_SIZE \<le> sv_pwrite s off" using assms(2) by simp
  note reset = round_reset [OF stock_okD(2) [OF assms(1)] this, unfolded Let_def]
  show ?thesis using reset by (intro stock_okI one_copy_no_box) simp_all
qed

lemma economy_stock:
  assumes "economy_ok s" "op_ok x s"
  shows "stock_ok (run_op x s)"
proof -
  have ok: "stock_ok s" "board_ok (sv_market s)" using assms(1) by (simp_all add: economy_ok_def)
  have clock: "stock_ok (s\<lparr>sv_now := t\<rparr>)" for t
    using stock_okD [OF ok(1)] by (intro stock_okI) (simp_all add: stores_ok_def full_writes_def)
  show ?thesis
  proof (cases x)
    case (Buy sock key d)
    then show ?thesis using assms(2) economy_buy [OF ok(1)] by simp
  next
    case (Sell junk sock key npc n ids)
    then show ?thesis using economy_sell [OF ok(1) assms(2) [unfolded Sell]] by simp
  next
    case (Dispose sock key d)
    then show ?thesis using assms(2) economy_dispose [OF ok(1)] by simp
  next
    case (Pay_off sock key)
    then show ?thesis using assms(2) economy_payoff [OF ok(1)] by simp
  next
    case (Burn key)
    then show ?thesis using assms(2) economy_burn [OF ok(1)] by simp
  next
    case Spawn
    then show ?thesis using economy_spawn [OF ok(1) assms(2) [unfolded Spawn]] by simp
  next
    case (Order req)
    then show ?thesis using economy_orders(1) [OF ok(1) assms(2) [unfolded Order]] by simp
  next
    case Age
    then show ?thesis using economy_age [OF ok] by simp
  next
    case Age_orders
    then show ?thesis using economy_orders(2) [OF ok(1)] by simp
  next
    case (Leak b)
    then show ?thesis using economy_leak(1) [OF ok(1)] by simp
  next
    case (Recover t)
    then show ?thesis using economy_leak(2) [OF ok(1)] by simp
  next
    case New_round
    then show ?thesis using economy_round [OF ok(1) assms(2) [unfolded New_round]] by simp
  next
    case (Clock t)
    then show ?thesis using clock by simp
  qed
qed

lemma economy_board: "board_ok (sv_market s) \<Longrightarrow> board_ok (sv_market (run_op x s))"
  by (cases x) (simp_all add: boards.buying boards.selling boards.small_requests boards.paying boards.burning boards.spawning
      boards.ordering boards.ageing boards.leaking boards.resetting)

lemma economy_op: "economy_ok s \<Longrightarrow> op_ok x s \<Longrightarrow> economy_ok (run_op x s)"
  using economy_stock economy_board by (simp add: economy_ok_def)

text \<open>C4: Whatever the players, the event thread and the rounds do, in any order and any number: after every sequence of
  these operations the shop directory holds exactly the documents on the board, each with the contents of its
  listing, no listing appears twice, no document exists in two places, the cached freeze flags are right, and the
  account file and the file tree are well formed. Spawned identifiers must be unused, keys plain and writes whole.\<close>
theorem shop_stays_consistent:
  assumes "economy_ok s" "ops_ok ops s"
  shows "let s' = run_ops ops s in economy_ok s' \<and> distinct (market_ids (sv_market s')) \<and>
    (\<forall>d. doc_at (sv_fs s') (Shop d) = map_option slot_file (market_find d (sv_market s'))) \<and>
    (\<forall>k k' d. doc_at (sv_fs s') (Box k d) \<noteq> None \<and> doc_at (sv_fs s') (Box k' d) \<noteq> None \<longrightarrow> k = k') \<and>
    (\<forall>k d. doc_at (sv_fs s') (Box k d) \<noteq> None \<longrightarrow> market_find d (sv_market s') = None)"
proof -
  have ok: "economy_ok (run_ops ops s)"
    using assms by (induction ops arbitrary: s) (simp_all add: economy_op)
  then have "stock_ok (run_ops ops s)" by (simp add: economy_ok_def)
  note st = stock_okD [OF this]
  have files: "doc_at (sv_fs (run_ops ops s)) (Shop d) = map_option slot_file (market_find d (sv_market (run_ops ops s)))" for d
    using st(10) by (simp add: front.agrees_def)
  have one: "l = l'" if "loc_id l = loc_id l'" "doc_at (sv_fs (run_ops ops s)) l \<noteq> None" "doc_at (sv_fs (run_ops ops s)) l' \<noteq> None" for l l'
    using st(4) that unfolding one_copy_def by blast
  have "k = k'" if "doc_at (sv_fs (run_ops ops s)) (Box k d) \<noteq> None" "doc_at (sv_fs (run_ops ops s)) (Box k' d) \<noteq> None" for k k' d
    using one [of "Box k d" "Box k' d"] that by simp
  moreover have "market_find d (sv_market (run_ops ops s)) = None" if "doc_at (sv_fs (run_ops ops s)) (Box k d) \<noteq> None" for k d
  proof (rule ccontr)
    assume "market_find d (sv_market (run_ops ops s)) \<noteq> None"
    then have "doc_at (sv_fs (run_ops ops s)) (Shop d) \<noteq> None" by (simp add: files)
    from one [OF _ that this] show False by simp
  qed
  ultimately show ?thesis unfolding Let_def using ok st(8) files by blast
qed

lemma shop_server_economy: "economy_ok shop_server"
proof -
  have "fair_board (sv_market shop_server)"
    by (simp add: fair_board_def shop_server_def zero_market_slot_def zero_npc_slot_def slot_ids_replicate)
  moreover have "one_copy (doc_at (sv_fs shop_server))"
    using sample_docs unfolding one_copy_def shop_server_sel by metis
  ultimately show ?thesis
    using shop_server_ok by (simp add: economy_ok_def) (rule stock_okI)
qed

theorem shop_stays_consistent_witness:
  "let s' = run_ops [Buy 5 ''neo'' 124, Leak True, Age, Age_orders, Recover 18, Clock 2000, Dispose 5 ''neo'' 124] shop_server in
     \<forall>d. doc_at (sv_fs s') (Shop d) = map_option slot_file (market_find d (sv_market s'))"
proof -
  let ?ops = "[Buy 5 ''neo'' 124, Leak True, Age, Age_orders, Recover 18, Clock 2000, Dispose 5 ''neo'' 124]"
  have "ops_ok ?ops shop_server" by (simp add: int32_range_def shop_server_sel)
  from shop_stays_consistent [OF shop_server_economy this] show ?thesis by (simp only: Let_def) blast
qed

end
