(* ===== verification/ClientView.thy ===== *)
theory ClientView
  imports Wire "HOL-Library.Sublist"
begin

text \<open>
  What the client shows (\<open>src/client/ui_client.c\<close>): its in-memory boards, the formatting of tags, and the
  rows each panel prints. A drawing function is a function to the rows \<open>(y, x, text)\<close> it hands to ncurses, or
  \<open>None\<close> when it writes or reads outside an array; colours and boxes are not modelled.
\<close>

section \<open>State\<close>

abbreviation UI_MAX_MARKET :: nat where "UI_MAX_MARKET \<equiv> 32"
abbreviation UI_MAX_NPC :: nat where "UI_MAX_NPC \<equiv> 16"
abbreviation SB_CHAT_LINES :: nat where "SB_CHAT_LINES \<equiv> 5"
abbreviation MIN_WIDTH :: int where "MIN_WIDTH \<equiv> 100"
abbreviation MIN_HEIGHT :: int where "MIN_HEIGHT \<equiv> 30"

record ui_market =
  um_doc_id :: int
  um_tags :: tags
  um_base_price :: int
  um_name :: string
  um_is_frozen :: bool

record ui_npc =
  un_npc_id :: int
  un_required_tags :: tags
  un_bounty :: int

text \<open>
  \<open>ClientState\<close>. The boards with a count are the list of their used entries; the arrays whose count comes
  from a packet are kept whole beside the count.
\<close>

record client_state =
  cs_mkt :: "ui_market list"
  cs_npc :: "ui_npc list"
  cs_inv :: "inven_item list"
  cs_inv_count :: int
  cs_my_money :: int
  cs_my_goal :: int
  cs_frozen_mask :: tags
  cs_last_news :: string
  cs_sb_escaped_count :: int
  cs_sb_escaped :: "score_escaped list"
  cs_sb_remaining_count :: int
  cs_sb_remaining :: "score_remaining list"
  cs_sb_chat :: "string list"
  cs_sb_chat_count :: int

text \<open>\<open>ClientState state = {0}\<close>.\<close>

definition zero_client_state :: client_state where
  "zero_client_state = \<lparr>cs_mkt = [], cs_npc = [], cs_inv = replicate MAX_INVEN_SIZE zero_item, cs_inv_count = 0,
     cs_my_money = 0, cs_my_goal = 0, cs_frozen_mask = 0, cs_last_news = [],
     cs_sb_escaped_count = 0, cs_sb_escaped = replicate MAX_SCORE_ESCAPED zero_escaped,
     cs_sb_remaining_count = 0, cs_sb_remaining = replicate MAX_SCORE_REMAINING zero_remaining,
     cs_sb_chat = replicate SB_CHAT_LINES [], cs_sb_chat_count = 0\<rparr>"

section \<open>Formatting\<close>

definition pad :: "nat \<Rightarrow> string \<Rightarrow> string" where
  "pad n s = s @ replicate (n - length s) CHR '' ''"

definition two_digits :: "int \<Rightarrow> string" where
  "two_digits i = (if 0 \<le> i \<and> i < 10 then CHR ''0'' # show_int i else show_int i)"

definition TAG_DISPLAY_ORDER :: "tag list" where
  "TAG_DISPLAY_ORDER = [TAG_CORP_A, TAG_CORP_B, TAG_CORP_C, TAG_CORP_D, TAG_CORP_E, TAG_CUSTOMER, TAG_FINANCE,
     TAG_MILITARY, TAG_GOVERNMENT, TAG_MEDICAL, TAG_RESEARCH, TAG_PERSONAL]"

definition bracket :: "string \<Rightarrow> string" where
  "bracket s = ''['' @ s @ '']''"

text \<open>
  The loop of \<open>tags_to_str\<close> on the string \<open>out\<close> in the buffer and the length \<open>len\<close> it would have without
  truncation. Once \<open>len\<close> is past the buffer, \<open>out_sz - len\<close> wraps around and \<open>snprintf\<close> writes behind it.
\<close>

fun tags_loop :: "nat \<Rightarrow> tags \<Rightarrow> tag list \<Rightarrow> string \<Rightarrow> nat \<Rightarrow> (string \<times> nat) option" where
  "tags_loop out_sz m [] out len = Some (out, len)"
| "tags_loop out_sz m (t # ts) out len =
     (if tag_bit t AND m \<noteq> 0 then
        let w = bracket (get_tag_name (tag_bit t)) in
        if out_sz < len then None
        else tags_loop out_sz m ts (out @ take (out_sz - len - 1) w) (len + length w)
      else tags_loop out_sz m ts out len)"

definition tags_to_str :: "tags \<Rightarrow> nat \<Rightarrow> string option" where
  "tags_to_str m out_sz =
     (case tags_loop out_sz m TAG_DISPLAY_ORDER [] 0 of
        None \<Rightarrow> None
      | Some (out, len) \<Rightarrow> Some (if len = 0 then c_snprintf out_sz ''[NO_TAG]'' else out))"

abbreviation TAGBUF :: nat where "TAGBUF \<equiv> 128"

text \<open>\<open>render_tags\<close>: the same tags written straight to a window.\<close>

definition render_tags :: "tags \<Rightarrow> string" where
  "render_tags m =
     (case filter (\<lambda>t. tag_bit t AND m \<noteq> 0) TAG_DISPLAY_ORDER of
        [] \<Rightarrow> ''[NO_TAG]''
      | t # ts \<Rightarrow> bracket (get_tag_name (tag_bit t)) @ concat (map (\<lambda>t. ''+'' @ bracket (get_tag_name (tag_bit t))) ts))"

section \<open>Panels\<close>

type_synonym row = "int \<times> int \<times> string"

definition draw_title :: "string \<Rightarrow> row" where
  "draw_title title = (0, 2, '' '' @ title @ '' '')"

fun market_rows :: "int \<Rightarrow> int \<Rightarrow> ui_market list \<Rightarrow> row list option" where
  "market_rows h row [] = Some []"
| "market_rows h row (m # ms) =
     (if row < h - 1 then
        case tags_to_str (um_tags m) TAGBUF of
          None \<Rightarrow> None
        | Some tagbuf \<Rightarrow>
            let status = (if um_is_frozen m then ''FRZ'' else ''   '') in
            map_option ((#) (row, 2, pad 4 (show_int (um_doc_id m)) @ ''  $'' @ pad 7 (show_int (um_base_price m)) @ '' '' @ pad 5 status @ '' '' @ tagbuf))
              (market_rows h (row + 1) ms)
      else Some [])"

definition render_market :: "int \<Rightarrow> client_state \<Rightarrow> row list option" where
  "render_market h st =
     map_option ((#) (draw_title (utf8 [0xAE00, 0xB85C, 0xBC8C, 0x20, 0xB9C8, 0xCF13, 0x20] @ ''(Market)'')))
       (if cs_mkt st = [] then Some [(1, 2, ''('' @ utf8 [0xB9E4, 0xBB3C, 0x20, 0xC5C6, 0xC74C, 0x20, 0x2014, 0x20, 0xC774, 0xBCA4, 0xD2B8, 0x20, 0xC2A4, 0xB808, 0xB4DC, 0x20, 0xB300, 0xAE30, 0x20, 0xC911] @ '')'')]
        else map_option ((#) (1, 2, ''ID    '' @ utf8 [0xAC00, 0xACA9, 0x20, 0x20, 0x20, 0x20, 0x20, 0xC0C1, 0xD0DC, 0x20, 0x20, 0x20, 0xD0DC, 0xADF8])) (market_rows h 2 (cs_mkt st)))"

fun bounty_rows :: "int \<Rightarrow> tags \<Rightarrow> int \<Rightarrow> ui_npc list \<Rightarrow> row list option" where
  "bounty_rows h frz row [] = Some []"
| "bounty_rows h frz row (n # ns) =
     (if row + 2 < h - 1 then
        case tags_to_str (un_required_tags n) TAGBUF of
          None \<Rightarrow> None
        | Some tagbuf \<Rightarrow>
            let npc_frz = (if un_required_tags n AND frz \<noteq> 0 then ''  ['' @ utf8 [0xB3D9, 0xACB0] @ '']'' else []) in
            map_option (\<lambda>rs. (row, 2, ''#'' @ pad 4 (show_int (un_npc_id n)) @ ''  '' @ utf8 [0xBCF4, 0xC0C1] @ '':$'' @ show_int (un_bounty n) @ npc_frz)
                # (row + 1, 4, utf8 [0xC694, 0xAD6C] @ '': '' @ tagbuf) # rs)
              (bounty_rows h frz (row + 3) ns)
      else Some [])"

definition render_bounty :: "int \<Rightarrow> client_state \<Rightarrow> row list option" where
  "render_bounty h st =
     map_option ((#) (draw_title (''VIP NPC '' @ utf8 [0xC758, 0xB8B0, 0x20, 0xBCF4, 0xB4DC, 0x20] @ ''(Bounty)'')))
       (if cs_npc st = [] then Some [(1, 2, ''('' @ utf8 [0xC758, 0xB8B0, 0x20, 0xC5C6, 0xC74C, 0x20, 0x2014, 0x20, 0xC18D, 0xBCF4, 0xB97C, 0x20, 0xC8FC, 0xC2DC, 0xD558, 0xB77C] @ '')'')]
        else bounty_rows h (cs_frozen_mask st) 1 (cs_npc st))"

definition inventory_row :: "client_state \<Rightarrow> nat \<Rightarrow> row option" where
  "inventory_row st i =
     (if i < length (cs_inv st) then
        let it = cs_inv st ! i;
            frz = (if ii_is_frozen it then '' ['' @ utf8 [0xB3D9, 0xACB0] @ '']'' else [])
        in
        map_option (\<lambda>tagbuf. (1 + int i, 2, ''['' @ show_int (int i + 1) @ ''] ID:'' @ pad 4 (show_int (ii_doc_id it)) @ '' '' @ (ii_name it) @ '' '' @ tagbuf @ frz))
          (tags_to_str (ii_tags it) TAGBUF)
      else None)"

definition inventory_title :: "client_state \<Rightarrow> string" where
  "inventory_title st = c_snprintf 160 (utf8 [0xB0B4, 0x20, 0xC0CC, 0xB4DC, 0xBC15, 0xC2A4, 0x20] @ ''('' @ show_int (cs_inv_count st) @ ''/'' @ show_int (int MAX_INVEN_SIZE) @ '') ['' @ utf8 [0xC794, 0xACE0] @ '': $'' @ show_int (cs_my_money st) @ '' | '' @ utf8 [0xBAA9, 0xD45C] @ '': $'' @ show_int (cs_my_goal st) @ '']'')"

definition render_inventory :: "int \<Rightarrow> client_state \<Rightarrow> row list option" where
  "render_inventory h st =
     map_option ((#) (draw_title (inventory_title st)))
       (if cs_inv_count st = 0 then Some [(1, 2, ''('' @ utf8 [0xBCF4, 0xC720, 0x20, 0xBB38, 0xC11C, 0x20, 0xC5C6, 0xC74C] @ '')'')]
        else those (map (inventory_row st) [0..<nat (min (cs_inv_count st) (h - 2))]))"

text \<open>The box of a raid.\<close>

definition render_panic_mode :: "string \<Rightarrow> int \<Rightarrow> string \<Rightarrow> row list" where
  "render_panic_mode passcode time_limit input =
     [(1, 15, '' !!! POLICE RAID DETECTED !!! ''),
      (4, 5, utf8 [0xAE34, 0xAE09, 0x20, 0xC11C, 0xBC84, 0x20, 0xC218, 0xC0C9, 0x20, 0xBC0F, 0x20, 0xC5F0, 0xACB0, 0x20, 0xD30C, 0xAE30, 0x20, 0xC2DC, 0xB3C4, 0x20, 0xC911] @ ''...''),
      (6, 5, utf8 [0xC81C, 0xD55C, 0x20, 0xC2DC, 0xAC04] @ '': '' @ pad 4 (show_int time_limit) @ '' '' @ utf8 [0xCD08]),
      (8, 5, utf8 [0xC218, 0xC0C9, 0x20, 0xBB34, 0xB825, 0xD654, 0x20, 0xC6B0, 0xD68C, 0x20, 0xC554, 0xD638] @ '': '' @ passcode),
      (10, 5, utf8 [0xC8FC, 0xC758] @ '': '' @ utf8 [0xAE34, 0xAE09, 0x20, 0xC554, 0xD638, 0xB97C, 0x20, 0xC2E0, 0xC18D, 0xD788, 0x20, 0xC785, 0xB825, 0xD558, 0xC2ED, 0xC2DC, 0xC624] @ ''!''),
      (12, 5, utf8 [0xC785, 0xB825, 0x20] @ ''> '' @ pad 30 input)]"

text \<open>The scoreboard of the countdown in a terminal of \<open>h\<close> rows and \<open>w\<close> columns.\<close>

definition box_lines :: string where
  "box_lines = utf8 (replicate 58 0x2500)"

definition escaped_row :: "client_state \<Rightarrow> nat \<Rightarrow> row option" where
  "escaped_row st i =
     (if i < length (cs_sb_escaped st) then
        let e = cs_sb_escaped st ! i in
        Some (4 + int i, 4, ''#'' @ show_int (se_escape_order e) @ ''. '' @ pad 28 ((se_key e)) @ ''  '' @ utf8 [0xD0D5, 0xAC10, 0xC561] @ '': $'' @ show_int (se_money_at_escape e))
      else None)"

definition remaining_row :: "client_state \<Rightarrow> int \<Rightarrow> nat \<Rightarrow> row option" where
  "remaining_row st y i =
     (if i < length (cs_sb_remaining st) then
        let r = cs_sb_remaining st ! i in
        Some (y + int i, 4, show_int (int i + 1) @ ''. '' @ pad 28 ((sr_key r)) @ ''  '' @ utf8 [0xC794, 0xC561] @ '': $'' @ show_int (sr_money r))
      else None)"

definition escaped_rows :: "client_state \<Rightarrow> row list option" where
  "escaped_rows st =
     (if cs_sb_escaped_count st = 0 then Some [(4, 4, ''('' @ utf8 [0xD0C8, 0xCD9C, 0xC790, 0x20, 0xC5C6, 0xC74C] @ '')'')]
      else those (map (escaped_row st) [0..<nat (cs_sb_escaped_count st)]))"

definition remaining_rows :: "client_state \<Rightarrow> int \<Rightarrow> int \<Rightarrow> row list option" where
  "remaining_rows st y rem_limit =
     (if cs_sb_remaining_count st = 0 then Some [(y, 4, ''('' @ utf8 [0xB0A8, 0xC740, 0x20, 0xD50C, 0xB808, 0xC774, 0xC5B4, 0x20, 0xC5C6, 0xC74C] @ '')'')]
      else those (map (remaining_row st y) [0..<nat (min (cs_sb_remaining_count st) (rem_limit - y))]))"

definition chat_shown :: "client_state \<Rightarrow> string list" where
  "chat_shown st =
     (let shown = (if cs_sb_chat_count st < int SB_CHAT_LINES then cs_sb_chat_count st else int SB_CHAT_LINES);
          first = cs_sb_chat_count st - shown
      in map (\<lambda>i. cs_sb_chat st ! nat ((first + int i) mod int SB_CHAT_LINES)) [0..<nat shown])"

definition score_head :: "int \<Rightarrow> row list" where
  "score_head countdown_sec =
     [(0, 3, '' ROUND END '' @ utf8 [0x2014, 0x20, 0xB77C, 0xC6B4, 0xB4DC, 0x20, 0xC885, 0xB8CC, 0x20, 0xCE74, 0xC6B4, 0xD2B8, 0xB2E4, 0xC6B4, 0x20]),
      (1, 2, utf8 [0xB0A8, 0xC740, 0x20, 0xC2DC, 0xAC04] @ '': '' @ two_digits countdown_sec @ utf8 [0xCD08, 0x20, 0x20] @ ''('' @ utf8 [0xC790, 0xB3D9, 0x20, 0xB77C, 0xC6B4, 0xB4DC, 0x20, 0xB9AC, 0xC14B, 0xAE4C, 0xC9C0] @ '')''),
      (2, 2, box_lines),
      (3, 2, ''['' @ utf8 [0xD0C8, 0xCD9C, 0xC790, 0x20, 0xBA85, 0xB2E8] @ '']'')]"

definition score_middle :: "int \<Rightarrow> row list" where
  "score_middle y = [(y, 2, box_lines), (y + 1, 2, ''['' @ utf8 [0xB0A8, 0xC740, 0x20, 0xD50C, 0xB808, 0xC774, 0xC5B4, 0x20, 0xC794, 0xC561, 0x20, 0xC21C, 0xC704] @ '']'')]"

definition chat_rows :: "int \<Rightarrow> int \<Rightarrow> client_state \<Rightarrow> row list" where
  "chat_rows chat_label_y box_w st =
     (chat_label_y, 2, ''['' @ utf8 [0xC5D0, 0xD544, 0xB85C, 0xADF8, 0x20, 0xCC44, 0xD305] @ ''] ('' @ utf8 [0xAC8C, 0xC784, 0x20, 0xBA85, 0xB839, 0x20, 0xC7A0, 0xAE08] @ '', '' @ utf8 [0xCC44, 0xD305, 0xB9CC, 0x20, 0xD5C8, 0xC6A9] @ '')'')
     # map (\<lambda>(i, t). (chat_label_y + 1 + int i, 4, take (nat (box_w - 7)) t)) (enumerate 0 (chat_shown st))"

definition render_scoreboard :: "int \<Rightarrow> int \<Rightarrow> client_state \<Rightarrow> int \<Rightarrow> row list option" where
  "render_scoreboard h w st countdown_sec =
     (let box_h = (if 22 > h - 2 then h - 2 else 22);
          box_w = (if 70 > w - 4 then w - 4 else 70);
          y = 4 + (if cs_sb_escaped_count st = 0 then 1 else cs_sb_escaped_count st) + 1;
          rem_limit = box_h - 4 - int SB_CHAT_LINES;
          chat_label_y = box_h - 3 - int SB_CHAT_LINES
      in case (escaped_rows st, remaining_rows st (y + 2) rem_limit) of
           (Some escaped, Some remaining) \<Rightarrow>
             Some (score_head countdown_sec @ escaped @ score_middle y @ remaining @ chat_rows chat_label_y box_w st)
         | _ \<Rightarrow> None)"

section \<open>Wrapped text\<close>

text \<open>Bytes and columns of the character a byte starts.\<close>

definition char_step :: "byte \<Rightarrow> nat \<times> nat" where
  "char_step c =
     (let p = (of_char c :: nat) in
      if p < 0x80 then (1, 1)
      else if p div 32 = 0x6 then (2, 1)
      else if p div 16 = 0xE then (3, 2)
      else if p div 8 = 0x1E then (4, 2)
      else (1, 1))"

text \<open>
  The loop of \<open>mvw_print_wrapped\<close>: the lines it prints for the rest of the string, with the pending line and
  its columns. \<open>None\<close>: the pointer steps over the terminator and the loop goes on behind the string.
\<close>

function wrap_loop :: "nat \<Rightarrow> string \<Rightarrow> string \<Rightarrow> nat \<Rightarrow> string list option" where
  "wrap_loop col_w [] line col = Some (if 0 < length line then [line] else [])"
| "wrap_loop col_w (c # cs) line col =
     (let (blen, cw) = char_step c;
          full = (col_w < col + cw \<or> 256 - 8 < length line);
          printed = (if full then [line] else []);
          line1 = (if full then [] else line);
          col1 = (if full then 0 else col)
      in if length (c # cs) < blen then None
         else map_option ((@) printed)
           (wrap_loop col_w (drop blen (c # cs)) (line1 @ take blen (c # cs)) (col1 + cw)))"
  by pat_completeness auto
termination
  by (relation "measure (\<lambda>(col_w, s, line, col). length s)") (auto simp: char_step_def Let_def split: if_splits)

definition mvw_print_wrapped :: "int \<Rightarrow> int \<Rightarrow> nat \<Rightarrow> string \<Rightarrow> row list option" where
  "mvw_print_wrapped start_y x col_w s =
     map_option (\<lambda>ls. map (\<lambda>(i, l). (start_y + int i, x, l)) (enumerate 0 ls)) (wrap_loop col_w s [] 0)"

text \<open>The game-over box in a terminal of \<open>w\<close> columns.\<close>

definition render_game_over :: "int \<Rightarrow> string \<Rightarrow> row list option" where
  "render_game_over w msg =
     (let box_w = (if 64 > w - 2 then w - 2 else 64);
          full = c_snprintf (MAX_TEXT_LEN + 16) (utf8 [0xC0AC, 0xC720] @ '': '' @ msg)
      in map_option (\<lambda>rows. (1, (box_w - 11) div 2, '' GAME OVER '') # rows
             @ [(9, (box_w - 28) div 2, utf8 [0xC544, 0xBB34, 0x20, 0xD0A4, 0xB098, 0x20, 0xB204, 0xB974, 0xBA74, 0x20, 0xC885, 0xB8CC, 0xB429, 0xB2C8, 0xB2E4] @ ''.'')])
           (mvw_print_wrapped 3 3 (nat (box_w - 6)) full))"

text \<open>\<open>check_size\<close>.\<close>

definition check_size :: "int \<Rightarrow> int \<Rightarrow> bool" where
  "check_size h w \<longleftrightarrow> \<not> (w < MIN_WIDTH \<or> h < MIN_HEIGHT)"

text \<open>The heights \<open>draw_ui\<close> gives the news, market, inventory and log panels, from top to bottom.\<close>

definition panel_heights :: "int \<Rightarrow> int list" where
  "panel_heights h =
     (let news_h = 4; prompt_h = 1; inventory_h = 9;
          middle_h = h * 45 div 100;
          log_h = h - news_h - middle_h - inventory_h - prompt_h
      in [news_h, middle_h, inventory_h, log_h, prompt_h])"

section \<open>Tags\<close>

definition tag_text :: "tag \<Rightarrow> string" where
  "tag_text t = bracket (get_tag_name (tag_bit t))"

lemma get_tag_name_bit: "get_tag_name (tag_bit t) = tag_label t"
  by (cases t) (simp_all add: get_tag_name_def all_tags_def)

lemma tag_text_length: "2 < length (tag_text t)" "length (tag_text t) \<le> 24"
  by (cases t; simp add: tag_text_def get_tag_name_bit bracket_def utf8_def utf8_char_def)+

lemma tags_loop_fits:
  "length out = len \<Longrightarrow> len + sum_list (map (length \<circ> tag_text) (filter (\<lambda>t. tag_bit t AND m \<noteq> 0) ts)) < out_sz \<Longrightarrow>
   tags_loop out_sz m ts out len =
     Some (out @ concat (map tag_text (filter (\<lambda>t. tag_bit t AND m \<noteq> 0) ts)),
       len + sum_list (map (length \<circ> tag_text) (filter (\<lambda>t. tag_bit t AND m \<noteq> 0) ts)))"
proof (induction ts arbitrary: out len)
  case (Cons t ts)
  show ?case
  proof (cases "tag_bit t AND m = 0")
    case True
    then show ?thesis using Cons.IH [of out len] Cons.prems by simp
  next
    case False
    then have "tags_loop out_sz m (t # ts) out len = tags_loop out_sz m ts (out @ tag_text t) (len + length (tag_text t))"
      using Cons.prems by (simp add: Let_def tag_text_def [symmetric])
    then show ?thesis using False Cons.prems Cons.IH [of "out @ tag_text t" "len + length (tag_text t)"] by (simp add: add.assoc)
  qed
qed simp

lemma set_display_order: "set TAG_DISPLAY_ORDER = UNIV" "distinct TAG_DISPLAY_ORDER"
proof -
  have "t \<in> set TAG_DISPLAY_ORDER" for t by (cases t) (simp_all add: TAG_DISPLAY_ORDER_def)
  then show "set TAG_DISPLAY_ORDER = UNIV" by auto
  show "distinct TAG_DISPLAY_ORDER" by (simp add: TAG_DISPLAY_ORDER_def)
qed

definition shown_tags :: "tags \<Rightarrow> tag list" where
  "shown_tags m = filter (\<lambda>t. tag_bit t AND m \<noteq> 0) TAG_DISPLAY_ORDER"

lemma shown_tags_card: "length (shown_tags m) = card {t. bit m (tag_index t)}"
proof -
  have "set (shown_tags m) = {t. bit m (tag_index t)}" by (auto simp: shown_tags_def set_display_order tag_bit_and_iff)
  moreover have "distinct (shown_tags m)" by (simp add: shown_tags_def set_display_order)
  ultimately show ?thesis by (metis distinct_card)
qed

lemma few_tags_fit:
  assumes "card {t. bit m (tag_index t)} \<le> 5"
  shows "tags_to_str m TAGBUF = Some (if shown_tags m = [] then ''[NO_TAG]'' else concat (map tag_text (shown_tags m)))"
proof -
  have "sum_list (map (length \<circ> tag_text) ts) \<le> 24 * length ts" for ts
    by (induction ts) (use tag_text_length(2) in \<open>auto intro: add_mono\<close>)
  from this [of "shown_tags m"] assms have lt: "sum_list (map (length \<circ> tag_text) (shown_tags m)) < TAGBUF"
    by (simp add: shown_tags_card)
  have "sum_list (map (length \<circ> tag_text) ts) = 0 \<longleftrightarrow> ts = []" for ts
    using tag_text_length(1) [of "hd ts"] by (cases ts) auto
  then show ?thesis
    using tags_loop_fits [of "[]" 0 m TAG_DISPLAY_ORDER TAGBUF] lt
    by (simp add: tags_to_str_def shown_tags_def [symmetric] c_snprintf_def)
qed

lemma tag_text_lengths:
  "length (tag_text TAG_CORP_A) = 14" "length (tag_text TAG_CORP_B) = 14" "length (tag_text TAG_CORP_C) = 11"
  "length (tag_text TAG_CORP_D) = 14" "length (tag_text TAG_CORP_E) = 11" "length (tag_text TAG_CUSTOMER) = 17"
  "length (tag_text TAG_FINANCE) = 21" "length (tag_text TAG_MILITARY) = 17" "length (tag_text TAG_GOVERNMENT) = 14"
  "length (tag_text TAG_MEDICAL) = 24" "length (tag_text TAG_RESEARCH) = 17" "length (tag_text TAG_PERSONAL) = 21"
  by (simp_all add: tag_text_def get_tag_name_bit bracket_def utf8_def utf8_char_def)

lemma all_tags_overflow:
  assumes "\<forall>t. bit m (tag_index t)"
  shows "tags_to_str m TAGBUF = None"
proof -
  have "tag_bit t AND m \<noteq> 0" for t using assms by (simp add: tag_bit_and_iff)
  then show ?thesis
    by (simp add: tags_to_str_def TAG_DISPLAY_ORDER_def Let_def tag_text_def [symmetric] tag_text_lengths)
qed

section \<open>Wrapped text\<close>

text \<open>Code points other than 0, and the columns of one.\<close>

definition code_point :: "nat \<Rightarrow> bool" where
  "code_point c \<longleftrightarrow> 0 < c \<and> c < 0x110000"

definition columns :: "nat list \<Rightarrow> nat" where
  "columns cs = sum_list (map (\<lambda>c. if c < 0x800 then 1 else 2) cs)"

lemma utf8_simps [simp]: "utf8 [] = []" "utf8 (c # cs) = utf8_char c @ utf8 cs" "utf8 (cs @ ds) = utf8 cs @ utf8 ds"
  by (simp_all add: utf8_def)

lemma columns_simps [simp]: "columns [] = 0" "columns (c # cs) = (if c < 0x800 then 1 else 2) + columns cs" "columns (cs @ ds) = columns cs + columns ds"
  by (simp_all add: columns_def)

lemma lead_byte:
  assumes "code_point c"
  obtains b bs where "utf8_char c = b # bs" "char_step b = (length (utf8_char c), columns [c])" "length (utf8_char c) \<le> 4"
proof -
  consider "c < 0x80" | "0x80 \<le> c" "c < 0x800" | "0x800 \<le> c" "c < 0x10000" | "0x10000 \<le> c" "c < 0x110000"
    using assms unfolding code_point_def by linarith
  then show thesis
  proof cases
    case 1
    then show thesis by (intro that [of "char_of c" "[]"]) (simp_all add: utf8_char_def char_step_def of_char_of)
  next
    case 2
    then have "(192 + c div 64) div 32 = 6" "192 + c div 64 < 256" by auto
    with 2 show thesis
      by (intro that [of "char_of (192 + c div 64)" "[char_of (128 + c mod 64)]"]) (simp_all add: utf8_char_def char_step_def of_char_of)
  next
    case 3
    then have "(224 + c div 4096) div 16 = 14" "(224 + c div 4096) div 32 = 7" "224 + c div 4096 < 256" by auto
    with 3 show thesis
      by (intro that [of "char_of (224 + c div 4096)" "[char_of (128 + c div 64 mod 64), char_of (128 + c mod 64)]"])
        (simp_all add: utf8_char_def char_step_def of_char_of)
  next
    case 4
    then have "(240 + c div 262144) div 8 = 30" "(240 + c div 262144) div 16 = 15" "(240 + c div 262144) div 32 = 7" "240 + c div 262144 < 256"
      by auto
    with 4 show thesis
      by (intro that [of "char_of (240 + c div 262144)" "[char_of (128 + c div 4096 mod 64), char_of (128 + c div 64 mod 64), char_of (128 + c mod 64)]"])
        (simp_all add: utf8_char_def char_step_def of_char_of)
  qed
qed

lemma wrap_char:
  assumes "code_point c" "k = length (utf8_char c)"
  shows "wrap_loop col_w (utf8_char c @ rest) line col =
    (if col_w < col + columns [c] \<or> 248 < length line
     then map_option ((#) line) (wrap_loop col_w rest (utf8_char c) (columns [c]))
     else wrap_loop col_w rest (line @ utf8_char c) (col + columns [c]))"
proof -
  obtain b bs where b: "utf8_char c = b # bs" "char_step b = (length (utf8_char c), columns [c])" by (rule lead_byte [OF assms(1)])
  have len: "length (b # bs @ rest) \<ge> length (utf8_char c)" using b(1) by simp
  have parts: "take (length (utf8_char c)) (b # bs @ rest) = utf8_char c" "drop (length (utf8_char c)) (b # bs @ rest) = rest"
    using b(1) by simp_all
  have prep: "(@) [line] = (#) line" "(@) ([] :: string list) = (\<lambda>x. x)" by auto
  show ?thesis
    unfolding b(1) append_Cons wrap_loop.simps(2) b(2) prod.case Let_def parts
    using len by (simp add: prep parts b(1) [symmetric] option.map_ident not_le [symmetric] del: columns_simps append_Cons)
qed

lemma utf8_char_nonempty: "utf8_char c \<noteq> []"
  by (simp add: utf8_char_def)

lemma wrap_utf8:
  assumes "\<forall>c \<in> set cs. code_point c" "2 \<le> col_w" "columns ks \<le> col_w" "length (utf8 ks) \<le> 252"
  shows "\<exists>css. wrap_loop col_w (utf8 cs) (utf8 ks) (columns ks) = Some (map utf8 css) \<and> concat css = ks @ cs
    \<and> (\<forall>ls \<in> set css. columns ls \<le> col_w \<and> length (utf8 ls) \<le> 252)"
  using assms(1,3,4)
proof (induction cs arbitrary: ks)
  case Nil
  show ?case
  proof (cases "ks = []")
    case True
    then show ?thesis by (intro exI [of _ "[]"]) simp
  next
    case False
    then have "utf8 ks \<noteq> []" using utf8_char_nonempty by (cases ks) simp_all
    then show ?thesis using Nil by (intro exI [of _ "[ks]"]) simp
  qed
next
  case (Cons c cs)
  have c: "code_point c" and cs: "\<forall>c \<in> set cs. code_point c" using Cons.prems(1) by simp_all
  have len: "length (utf8_char c) \<le> 4" by (rule lead_byte [OF c])
  note step = wrap_char [OF c refl, of col_w "utf8 cs" "utf8 ks" "columns ks"]
  show ?case
  proof (cases "col_w < columns ks + columns [c] \<or> 248 < length (utf8 ks)")
    case True
    have "columns [c] \<le> col_w" "length (utf8 [c]) \<le> 252" using assms(2) len by simp_all
    from Cons.IH [OF cs this] obtain css where css: "wrap_loop col_w (utf8 cs) (utf8 [c]) (columns [c]) = Some (map utf8 css)"
      "concat css = [c] @ cs" "\<forall>ls \<in> set css. columns ls \<le> col_w \<and> length (utf8 ls) \<le> 252" by blast
    then show ?thesis using True step Cons.prems(2,3) by (intro exI [of _ "ks # css"]) (simp del: columns_simps)
  next
    case False
    then have "columns (ks @ [c]) \<le> col_w" "length (utf8 (ks @ [c])) \<le> 252" using len by simp_all
    from Cons.IH [OF cs this] obtain css where css: "wrap_loop col_w (utf8 cs) (utf8 (ks @ [c])) (columns (ks @ [c])) = Some (map utf8 css)"
      "concat css = (ks @ [c]) @ cs" "\<forall>ls \<in> set css. columns ls \<le> col_w \<and> length (utf8 ls) \<le> 252" by blast
    then show ?thesis using False step by (intro exI [of _ css]) simp
  qed
qed

lemma wrap_cut:
  assumes "\<forall>c \<in> set cs. code_point c" "code_point c" "0 < k" "k < length (utf8_char c)"
  shows "wrap_loop col_w (utf8 cs @ take k (utf8_char c)) line col = None"
  using assms(1)
proof (induction cs arbitrary: line col)
  case Nil
  obtain b bs where b: "utf8_char c = b # bs" "char_step b = (length (utf8_char c), columns [c])" by (rule lead_byte [OF assms(2)])
  then have cut: "take k (utf8_char c) = b # take (k - 1) bs" using assms(3) by (cases k) simp_all
  have "length (b # take (k - 1) bs) < length (utf8_char c)" using assms(3,4) b(1) by simp
  then show ?case by (simp add: cut b(2) Let_def)
next
  case (Cons d cs)
  then show ?case using wrap_char [of d _ col_w "utf8 cs @ take k (utf8_char c)" line col] by simp
qed

text \<open>C29: Wrapping keeps the text: the lines \<open>mvw_print_wrapped\<close> prints for any UTF-8 text are whole characters, put
  together they are the text, none is wider than the column width (of at least two columns), and none overruns the 256-byte line buffer.\<close>
theorem wrap_keeps_text:
  assumes "\<forall>c \<in> set cs. code_point c" "2 \<le> col_w"
  shows "\<exists>css. mvw_print_wrapped y x col_w (utf8 cs) = Some (map (\<lambda>(i, ls). (y + int i, x, utf8 ls)) (enumerate 0 css)) \<and>
    concat css = cs \<and> (\<forall>ls \<in> set css. columns ls \<le> col_w \<and> length (utf8 ls) < 256)"
proof -
  obtain css where css: "wrap_loop col_w (utf8 cs) (utf8 []) (columns []) = Some (map utf8 css)" "concat css = [] @ cs"
    "\<forall>ls \<in> set css. columns ls \<le> col_w \<and> length (utf8 ls) \<le> 252"
    using wrap_utf8 [OF assms, of "[]"] by auto
  have enum: "map (\<lambda>(i, l). (y + int i, x, l)) (enumerate n (map utf8 css)) = map (\<lambda>(i, ls). (y + int i, x, utf8 ls)) (enumerate n css)" for n
    by (induction css arbitrary: n) simp_all
  have "mvw_print_wrapped y x col_w (utf8 cs) = Some (map (\<lambda>(i, ls). (y + int i, x, utf8 ls)) (enumerate 0 css))"
    unfolding mvw_print_wrapped_def enum [symmetric] using css(1) by (simp only: utf8_simps columns_simps option.map)
  moreover have "concat css = cs" using css(2) by simp
  moreover have "\<forall>ls \<in> set css. columns ls \<le> col_w \<and> length (utf8 ls) < 256" using css(3) by fastforce
  ultimately show ?thesis by blast
qed

theorem wrap_keeps_text_witness:
  "\<exists>css. mvw_print_wrapped 3 3 4 (utf8 [0xAC00, 0x41, 0xB098]) = Some (map (\<lambda>(i, ls). (3 + int i, 3, utf8 ls)) (enumerate 0 css)) \<and>
    concat css = [0xAC00, 0x41, 0xB098]"
  using wrap_keeps_text [of "[0xAC00, 0x41, 0xB098]" 4 3 3] by (auto simp: code_point_def)

text \<open>A text cut inside a character, as \<open>strncpy\<close> and \<open>snprintf\<close> cut it, sends \<open>mvw_print_wrapped\<close> behind the
  string: the pointer moves by the full length of the character and steps over the terminator.\<close>
theorem wrap_overruns_cut_text:
  assumes "\<forall>c \<in> set cs. code_point c" "code_point c" "0 < k" "k < length (utf8_char c)"
  shows "mvw_print_wrapped y x col_w (utf8 cs @ take k (utf8_char c)) = None"
  by (simp add: mvw_print_wrapped_def wrap_cut [OF assms])

theorem wrap_overruns_cut_text_witness:
  "mvw_print_wrapped 3 3 58 (utf8 [0x41] @ take 2 (utf8_char 0xAC00)) = None"
  by (rule wrap_overruns_cut_text) (simp_all add: code_point_def utf8_char_def)

section \<open>The scoreboard\<close>

lemma those_map_some: "(\<forall>x \<in> set xs. f x = Some (g x)) \<Longrightarrow> those (map f xs) = Some (map g xs)"
  by (induction xs) simp_all


text \<open>The counts and arrays a scoreboard can be drawn from.\<close>

definition score_ok :: "client_state \<Rightarrow> bool" where
  "score_ok st \<longleftrightarrow> 0 \<le> cs_sb_escaped_count st \<and> cs_sb_escaped_count st \<le> int MAX_SCORE_ESCAPED
     \<and> length (cs_sb_escaped st) = MAX_SCORE_ESCAPED
     \<and> 0 \<le> cs_sb_remaining_count st \<and> cs_sb_remaining_count st \<le> int MAX_SCORE_REMAINING
     \<and> length (cs_sb_remaining st) = MAX_SCORE_REMAINING
     \<and> length (cs_sb_chat st) = SB_CHAT_LINES \<and> 0 \<le> cs_sb_chat_count st"

lemma chat_shown_length: "0 \<le> cs_sb_chat_count st \<Longrightarrow> length (chat_shown st) \<le> SB_CHAT_LINES"
  by (auto simp: chat_shown_def Let_def)

lemma enumerate_fst: "(i, t) \<in> set (enumerate 0 ts) \<Longrightarrow> i < length ts"
  by (auto simp: in_set_enumerate_eq)

lemma escaped_rows_some:
  assumes "score_ok st"
  obtains rows where "escaped_rows st = Some rows" "\<forall>(y, x, t) \<in> set rows. 4 \<le> y \<and> y < 4 + max 1 (cs_sb_escaped_count st)"
proof (cases "cs_sb_escaped_count st = 0")
  case True
  then show thesis by (intro that) (auto simp: escaped_rows_def)
next
  case False
  let ?g = "\<lambda>i. the (escaped_row st i)"
  have some: "\<forall>i \<in> set [0..<nat (cs_sb_escaped_count st)]. escaped_row st i = Some (?g i)"
    using assms by (auto simp: escaped_row_def Let_def score_ok_def)
  have "escaped_rows st = Some (map ?g [0..<nat (cs_sb_escaped_count st)])"
    using False those_map_some [OF some] by (simp add: escaped_rows_def)
  moreover have "fst (?g i) = 4 + int i" if "i < nat (cs_sb_escaped_count st)" for i
  proof -
    have "i < MAX_SCORE_ESCAPED" using assms that unfolding score_ok_def by linarith
    then show ?thesis using assms by (simp add: escaped_row_def Let_def score_ok_def)
  qed
  then have "4 \<le> fst (?g i) \<and> fst (?g i) < 4 + max 1 (cs_sb_escaped_count st)" if "i < nat (cs_sb_escaped_count st)" for i
    using that by simp
  then have "4 \<le> y \<and> y < 4 + max 1 (cs_sb_escaped_count st)" if "(y, x, t) \<in> set (map ?g [0..<nat (cs_sb_escaped_count st)])" for y x t
    using that by (auto dest!: arg_cong [of _ _ fst])
  ultimately show thesis by (intro that) auto
qed

lemma chat_rows_inside:
  assumes "score_ok st" "(y, x, t) \<in> set (chat_rows 14 w st)"
  shows "14 \<le> y \<and> y < 20"
  using assms chat_shown_length [of st] by (auto simp: chat_rows_def score_ok_def dest: enumerate_fst)

text \<open>The scoreboard stays in its box, but it does not show everyone it was sent: in a terminal of at least 30 rows
  and 100 columns every row it prints lies inside the 22-row box, and of the ranking only the first
  \<open>6 - max 1 escaped\<close> players are printed, 5 at most and 3 after a third escape, while the packet carries up to 7.\<close>
theorem scoreboard_cuts_ranking:
  assumes "score_ok st" "check_size h w" "cs_sb_remaining_count st \<noteq> 0"
    and "e = max 1 (cs_sb_escaped_count st)"
  shows "\<exists>top chat. render_scoreboard h w st cd =
      Some (top @ map (\<lambda>i. the (remaining_row st (7 + e) i)) [0..<nat (min (cs_sb_remaining_count st) (6 - e))] @ chat) \<and>
    (\<forall>(y, x, t) \<in> set (top @ chat). 0 \<le> y \<and> y < 21) \<and>
    (\<forall>i < nat (min (cs_sb_remaining_count st) (6 - e)). fst (the (remaining_row st (7 + e) i)) < 13)"
proof -
  have e: "1 \<le> e" "e \<le> 3" using assms(1,4) by (auto simp: score_ok_def)
  have y: "4 + (if cs_sb_escaped_count st = 0 then 1 else cs_sb_escaped_count st) + 1 = 5 + e"
    using assms(1,4) by (auto simp: score_ok_def)
  obtain rows where rows: "escaped_rows st = Some rows" "\<forall>(y, x, t) \<in> set rows. 4 \<le> y \<and> y < 4 + e"
    using escaped_rows_some [OF assms(1)] assms(4) by blast
  let ?g = "\<lambda>i. the (remaining_row st (7 + e) i)" and ?is = "[0..<nat (min (cs_sb_remaining_count st) (6 - e))]"
  have some: "\<forall>i \<in> set ?is. remaining_row st (7 + e) i = Some (?g i)"
    using assms(1) by (auto simp: remaining_row_def Let_def score_ok_def)
  have "13 - (7 + e) = 6 - e" by simp
  then have rem: "remaining_rows st (7 + e) 13 = Some (map ?g ?is)"
    using assms(3) those_map_some [OF some] by (simp add: remaining_rows_def)
  have box: "(if 22 > h - 2 then h - 2 else 22) = 22" using assms(2) by (simp add: check_size_def)
  define bw where "bw = (if 70 > w - 4 then w - 4 else 70)"
  have "render_scoreboard h w st cd = Some (score_head cd @ rows @ score_middle (5 + e) @ map ?g ?is @ chat_rows 14 bw st)"
    unfolding render_scoreboard_def Let_def box y bw_def [symmetric] using rem rows(1) by (simp add: add.assoc)
  moreover have "\<forall>(y, x, t) \<in> set (score_head cd @ rows @ score_middle (5 + e)). 0 \<le> y \<and> y < 21"
    using rows(2) e by (fastforce simp: score_head_def score_middle_def)
  moreover have "\<forall>(y, x, t) \<in> set (chat_rows 14 bw st). 0 \<le> y \<and> y < 21"
    using chat_rows_inside [OF assms(1)] by fastforce
  moreover have "fst (?g i) < 13" if "i < nat (min (cs_sb_remaining_count st) (6 - e))" for i
  proof -
    have "i < MAX_SCORE_REMAINING" "e + int i < 6" using that e(1) by auto
    then show ?thesis using assms(1) by (simp add: remaining_row_def Let_def score_ok_def)
  qed
  ultimately show ?thesis
    by (intro exI [of _ "score_head cd @ rows @ score_middle (5 + e)"] exI [of _ "chat_rows 14 bw st"]) auto
qed

theorem scoreboard_cuts_ranking_witness:
  "\<exists>top chat. render_scoreboard 30 100 (zero_client_state\<lparr>cs_sb_remaining_count := 7\<rparr>) 60 =
     Some (top @ map (\<lambda>i. the (remaining_row (zero_client_state\<lparr>cs_sb_remaining_count := 7\<rparr>) 8 i)) [0..<5] @ chat)"
  using scoreboard_cuts_ranking [of "zero_client_state\<lparr>cs_sb_remaining_count := 7\<rparr>" 30 100 1 60]
  by (auto simp: score_ok_def zero_client_state_def check_size_def)


end
