(* ===== verification/Client.thy ===== *)
theory Client
  imports ClientView "HOL-Library.Monad_Syntax"
begin

text \<open>
  The main loop of the client (\<open>src/client/ui_client.c\<close>): the mode machine, the mirror of the server's boards
  that the packets maintain, the input line and the command parser. A step is a function on the locals of
  \<open>main\<close>; \<open>None\<close> means that it writes or reads outside an array. What is drawn and sent is recorded in order; the
  clock, the terminal size and the bytes that arrive are inputs.
\<close>

section \<open>State\<close>

datatype (plugins only: size code) client_mode = STATE_NORMAL | STATE_PANIC | STATE_ROUND_END | STATE_GAME_OVER

abbreviation INPUT_MAX :: nat where "INPUT_MAX \<equiv> 256"
abbreviation GLITCH_DURATION_SEC :: int where "GLITCH_DURATION_SEC \<equiv> 12"
abbreviation GLITCH_FRAME_MS :: int where "GLITCH_FRAME_MS \<equiv> 90"

text \<open>The key codes of ncurses the loop compares with.\<close>

abbreviation KEY_BACKSPACE :: int where "KEY_BACKSPACE \<equiv> 263"
abbreviation KEY_RESIZE :: int where "KEY_RESIZE \<equiv> 410"

text \<open>What the client puts on the screen; the time stamp of a log line is left out.\<close>

datatype draw =
    Log string
  | Draw_chat string string
  | Draw_market "row list"
  | Draw_bounty "row list"
  | Draw_inventory "row list"
  | Draw_news string
  | Draw_panic "row list"
  | Draw_scoreboard "row list"
  | Draw_glitch
  | Draw_game_over "row list"
  | Draw_prompt string
  | Draw_too_small
  | Alarm

record client =
  cl_state :: client_state
  cl_mode :: client_mode
  cl_input :: string
  cl_running :: bool
  cl_server_lost :: bool
  g_quit_req :: bool
  g_in_raid :: bool
  cl_panic_deadline :: time_t
  cl_last_panic_remain :: int
  cl_panic_passcode :: string
  cl_round_end_deadline :: time_t
  cl_last_round_end_remain :: int
  cl_glitch_until :: time_t
  cl_last_glitch_ms :: int
  cl_middle_h :: int  \<comment> \<open>height of the market and bounty windows\<close>
  cl_exited :: bool  \<comment> \<open>the process has called \<open>exit\<close>\<close>
  cl_now :: time_t
  cl_ms :: int
  cl_h :: int
  cl_w :: int
  cl_draws :: "draw list"
  cl_sent :: "msg list"

section \<open>Drawing and sending\<close>

text \<open>A process that has exited draws and sends nothing more.\<close>

definition draw_event :: "draw \<Rightarrow> client \<Rightarrow> client" where
  "draw_event d c = (if cl_exited c then c else c\<lparr>cl_draws := cl_draws c @ [d]\<rparr>)"

definition log_message :: "string \<Rightarrow> client \<Rightarrow> client" where
  "log_message msg c = draw_event (Log msg) c"

definition send :: "msg \<Rightarrow> client \<Rightarrow> client" where
  "send m c = (if cl_exited c then c else c\<lparr>cl_sent := cl_sent c @ [m]\<rparr>)"

definition show_market :: "client \<Rightarrow> client option" where
  "show_market c = do { rows \<leftarrow> render_market (cl_middle_h c) (cl_state c); Some (draw_event (Draw_market rows) c) }"

definition show_bounty :: "client \<Rightarrow> client option" where
  "show_bounty c = do { rows \<leftarrow> render_bounty (cl_middle_h c) (cl_state c); Some (draw_event (Draw_bounty rows) c) }"

definition show_inventory :: "client \<Rightarrow> client option" where
  "show_inventory c = do { rows \<leftarrow> render_inventory 9 (cl_state c); Some (draw_event (Draw_inventory rows) c) }"

definition show_scoreboard :: "int \<Rightarrow> client \<Rightarrow> client option" where
  "show_scoreboard remain c =
     do { rows \<leftarrow> render_scoreboard (cl_h c) (cl_w c) (cl_state c) remain; Some (draw_event (Draw_scoreboard rows) c) }"

definition news_line :: "client \<Rightarrow> string" where
  "news_line c = (if cs_last_news (cl_state c) \<noteq> [] then ''> '' @ (cs_last_news (cl_state c)) else ''> '' @ utf8 [0xC18D, 0xBCF4, 0x20, 0xB300, 0xAE30, 0x20, 0xC911] @ ''...'')"

definition draw_ui :: "client \<Rightarrow> client option" where
  "draw_ui c =
     do { c1 \<leftarrow> Some (draw_event (Draw_prompt []) (draw_event (Draw_news (news_line c)) (c\<lparr>cl_middle_h := cl_h c * 45 div 100\<rparr>)));
          c2 \<leftarrow> show_market c1;
          c3 \<leftarrow> show_bounty c2;
          show_inventory c3 }"

definition redraw :: "client \<Rightarrow> client option" where
  "redraw c =
     (if check_size (cl_h c) (cl_w c) then draw_ui c
      else Some ((draw_event Draw_too_small c)\<lparr>cl_exited := True\<rparr>))"

definition recover_from_glitch :: "client \<Rightarrow> client option" where
  "recover_from_glitch c =
     do { c1 \<leftarrow> show_market c; c2 \<leftarrow> show_bounty c1; c3 \<leftarrow> show_inventory c2; Some (draw_event (Draw_news (news_line c3)) c3) }"

text \<open>\<open>render_game_over\<close> ends the process.\<close>

definition game_over_exit :: "string \<Rightarrow> client \<Rightarrow> client option" where
  "game_over_exit message c =
     do { rows \<leftarrow> render_game_over (cl_w c) message; Some ((draw_event (Draw_game_over rows) c)\<lparr>cl_exited := True\<rparr>) }"

text \<open>\<open>deadline > time(NULL) ? deadline - time(NULL) : 0\<close>.\<close>

definition remain :: "time_t \<Rightarrow> client \<Rightarrow> int" where
  "remain deadline c = (if deadline > cl_now c then deadline - cl_now c else 0)"

definition when_normal :: "(client \<Rightarrow> client option) \<Rightarrow> client \<Rightarrow> client option" where
  "when_normal f c = (if cl_mode c = STATE_NORMAL then f c else Some c)"

abbreviation set_state :: "(client_state \<Rightarrow> client_state) \<Rightarrow> client \<Rightarrow> client" where
  "set_state f c \<equiv> c\<lparr>cl_state := f (cl_state c)\<rparr>"

section \<open>Packets\<close>

fun strstr :: "string \<Rightarrow> string \<Rightarrow> bool" where
  "strstr s sub \<longleftrightarrow> take (length sub) s = sub \<or> (case s of [] \<Rightarrow> False | _ # cs \<Rightarrow> strstr cs sub)"

declare strstr.simps [simp del]

text \<open>\<open>xs[i] = xs[--count]\<close> for the first entry that satisfies the test.\<close>

fun swap_remove :: "('a \<Rightarrow> bool) \<Rightarrow> 'a list \<Rightarrow> 'a list" where
  "swap_remove p [] = []"
| "swap_remove p (x # xs) = (if p x then (if xs = [] then [] else last xs # butlast xs) else x # swap_remove p xs)"

text \<open>Writing the first entries of a fixed array.\<close>

definition overwrite :: "'a list \<Rightarrow> 'a list \<Rightarrow> 'a list" where
  "overwrite new old = new @ drop (length new) old"

definition mark_market :: "tags \<Rightarrow> ui_market \<Rightarrow> ui_market" where
  "mark_market frz m = m\<lparr>um_is_frozen := um_tags m AND frz \<noteq> 0\<rparr>"

definition mark_item :: "tags \<Rightarrow> inven_item \<Rightarrow> inven_item" where
  "mark_item frz it = it\<lparr>ii_is_frozen := ii_tags it AND frz \<noteq> 0\<rparr>"

text \<open>The first \<open>count\<close> entries of the inventory are marked; a count beyond the array leaves it.\<close>

definition mark_inventory :: "client_state \<Rightarrow> client_state option" where
  "mark_inventory st =
     (if cs_inv_count st > int (length (cs_inv st)) then None
      else Some (st\<lparr>cs_inv := overwrite (map (mark_item (cs_frozen_mask st)) (take (nat (cs_inv_count st)) (cs_inv st))) (cs_inv st)\<rparr>))"

definition is_news :: "string \<Rightarrow> bool" where
  "is_news sender \<longleftrightarrow> strstr sender (utf8 [0xC18D, 0xBCF4]) \<or> strstr sender ''ALERT'' \<or> strstr sender ''SYSTEM''"

definition note_news :: "string \<Rightarrow> string \<Rightarrow> client \<Rightarrow> client" where
  "note_news sender chat_text c =
     (if is_news sender then set_state (\<lambda>st. st\<lparr>cs_last_news := c_strncpy (MAX_TEXT_LEN - 1) chat_text\<rparr>) c else c)"

text \<open>A chat during the epilogue goes to the ring buffer under the scoreboard.\<close>

definition epilogue_chat :: "string \<Rightarrow> string \<Rightarrow> client \<Rightarrow> client option" where
  "epilogue_chat sender chat_text c =
     (let st = cl_state c;
          line = c_snprintf (MAX_TEXT_LEN + MAX_KEY_LEN + 8) (''['' @ sender @ ''] '' @ chat_text);
          c1 = c\<lparr>cl_state := st\<lparr>cs_sb_chat := (cs_sb_chat st)[nat (cs_sb_chat_count st mod int SB_CHAT_LINES) := line],
            cs_sb_chat_count := cs_sb_chat_count st + 1\<rparr>\<rparr>
      in show_scoreboard (remain (cl_round_end_deadline c1) c1) c1)"

definition on_chat :: "string \<Rightarrow> string \<Rightarrow> client \<Rightarrow> client option" where
  "on_chat sender chat_text c =
     (let c1 = note_news sender chat_text c
      in if cl_mode c1 = STATE_NORMAL then
           let c2 = draw_event (Draw_chat sender chat_text) c1
           in Some (if is_news sender then draw_event (Draw_news (news_line c2)) c2 else c2)
         else if cl_mode c1 = STATE_ROUND_END then epilogue_chat sender chat_text c1
         else Some c1)"

definition start_glitch :: "string \<Rightarrow> client \<Rightarrow> client" where
  "start_glitch message c =
     log_message message (draw_event Draw_glitch (c\<lparr>cl_glitch_until := cl_now c + GLITCH_DURATION_SEC, cl_last_glitch_ms := 0\<rparr>))"

definition on_police_raid :: "string \<Rightarrow> int \<Rightarrow> client \<Rightarrow> client" where
  "on_police_raid passcode time_limit_sec c =
     (let c1 = draw_event Alarm c;
          c2 = c1\<lparr>cl_mode := STATE_PANIC, cl_panic_deadline := cl_now c1 + time_limit_sec, cl_last_panic_remain := -1,
            cl_input := [], cl_panic_passcode := c_strncpy (MAX_TEXT_LEN - 1) passcode\<rparr>
      in draw_event (Draw_panic (render_panic_mode (cl_panic_passcode c2) time_limit_sec (cl_input c2))) c2)"

definition on_minigame_ok :: "client \<Rightarrow> client option" where
  "on_minigame_ok c =
     do { c1 \<leftarrow> redraw (c\<lparr>cl_mode := STATE_NORMAL, cl_panic_deadline := 0, cl_last_panic_remain := -1\<rparr>);
          Some (log_message (''[SYSTEM] '' @ utf8 [0xC218, 0xC0C9, 0x20, 0xBB34, 0xB825, 0xD654, 0x20, 0xC131, 0xACF5] @ ''! '' @ utf8 [0xC815, 0xC0C1, 0x20, 0xB9C8, 0xCF13, 0x20, 0xD654, 0xBA74, 0xC73C, 0xB85C, 0x20, 0xBCF5, 0xC6D0, 0xB418, 0xC5C8, 0xC2B5, 0xB2C8, 0xB2E4] @ ''.'') c1) }"

definition round_reset_prefix :: string where "round_reset_prefix = ''__ROUND_RESET__''"

definition on_game_over :: "string \<Rightarrow> client \<Rightarrow> client option" where
  "on_game_over message c =
     (if c_strncmp_eq 15 message round_reset_prefix then
        let bar = dropWhile (\<lambda>x. x \<noteq> CHR ''|'') message;
            announce = (if bar \<noteq> [] then tl bar else utf8 [0xC0C8, 0x20, 0xB77C, 0xC6B4, 0xB4DC, 0x20, 0xC2DC, 0xC791] @ ''.'');
            c1 = (set_state (\<lambda>st. st\<lparr>cs_mkt := [], cs_npc := [], cs_inv_count := 0, cs_frozen_mask := 0,
                   cs_my_money := INITIAL_MONEY, cs_my_goal := GOAL_MONEY, cs_last_news := [],
                   cs_sb_escaped_count := 0, cs_sb_remaining_count := 0, cs_sb_chat_count := 0\<rparr>) c)
                 \<lparr>cl_round_end_deadline := 0, cl_last_round_end_remain := -1, cl_mode := STATE_NORMAL\<rparr>
        in do { c2 \<leftarrow> redraw c1;
                Some (log_message announce (log_message (''[ROUND RESET] '' @ utf8 [0xB77C, 0xC6B4, 0xB4DC, 0xAC00, 0x20, 0xB9AC, 0xC14B, 0xB418, 0xC5C8, 0xC2B5, 0xB2C8, 0xB2E4] @ ''.'') c2)) }
      else game_over_exit message (c\<lparr>cl_mode := STATE_GAME_OVER\<rparr>))"

definition on_scoreboard :: "int \<Rightarrow> int \<Rightarrow> score_escaped list \<Rightarrow> int \<Rightarrow> score_remaining list \<Rightarrow> client \<Rightarrow> client option" where
  "on_scoreboard cd ec es rc rs c =
     (let c1 = (set_state (\<lambda>st. st\<lparr>cs_sb_escaped_count := ec, cs_sb_escaped := overwrite es (cs_sb_escaped st),
            cs_sb_remaining_count := rc, cs_sb_remaining := overwrite rs (cs_sb_remaining st), cs_sb_chat_count := 0\<rparr>) c)
          \<lparr>cl_mode := STATE_ROUND_END, cl_round_end_deadline := cl_now c + cd, cl_last_round_end_remain := -1\<rparr>
      in show_scoreboard cd c1)"

definition on_market_spawn :: "int \<Rightarrow> tags \<Rightarrow> int \<Rightarrow> string \<Rightarrow> client \<Rightarrow> client option" where
  "on_market_spawn doc_id tags base_price name c =
     (let c1 = (if length (cs_mkt (cl_state c)) < UI_MAX_MARKET then
                  set_state (\<lambda>st. st\<lparr>cs_mkt := cs_mkt st @ [mark_market (cs_frozen_mask st)
                    \<lparr>um_doc_id = doc_id, um_tags = tags, um_base_price = base_price,
                     um_name = c_strncpy (MAX_NAME_LEN - 1) name, um_is_frozen = False\<rparr>]\<rparr>) c
                else c)
      in when_normal (\<lambda>c. do { c2 \<leftarrow> show_market c;
           Some (log_message (c_snprintf MAX_TEXT_LEN (''[MARKET] '' @ utf8 [0xC2E0, 0xADDC, 0x20, 0xB9E4, 0xBB3C, 0x20] @ ''ID:'' @ show_int doc_id @ '' '' @ utf8 [0xAC00, 0xACA9] @ '':$'' @ show_int base_price @ '' '' @ name)) c2) }) c1)"

definition on_market_remove :: "int \<Rightarrow> client \<Rightarrow> client option" where
  "on_market_remove doc_id c =
     when_normal (\<lambda>c. do { c1 \<leftarrow> show_market c;
         Some (log_message (c_snprintf MAX_TEXT_LEN (''[MARKET] '' @ utf8 [0xB9E4, 0xBB3C, 0x20, 0xC18C, 0xBA78, 0x20] @ ''ID:'' @ show_int doc_id)) c1) })
       (set_state (\<lambda>st. st\<lparr>cs_mkt := swap_remove (\<lambda>m. um_doc_id m = doc_id) (cs_mkt st)\<rparr>) c)"

definition on_npc_spawn :: "int \<Rightarrow> tags \<Rightarrow> int \<Rightarrow> client \<Rightarrow> client option" where
  "on_npc_spawn npc_id required_tags bounty c =
     (let c1 = (if length (cs_npc (cl_state c)) < UI_MAX_NPC then
                  set_state (\<lambda>st. st\<lparr>cs_npc := cs_npc st @ [\<lparr>un_npc_id = npc_id, un_required_tags = required_tags, un_bounty = bounty\<rparr>]\<rparr>) c
                else c)
      in when_normal (\<lambda>c. do { c2 \<leftarrow> show_bounty c;
           Some (log_message (c_snprintf MAX_TEXT_LEN (''[NPC] '' @ utf8 [0xC2E0, 0xADDC, 0x20, 0xC758, 0xB8B0, 0x20] @ ''#'' @ show_int npc_id @ '' '' @ utf8 [0xBCF4, 0xC0C1] @ '':$'' @ show_int bounty)) c2) }) c1)"

definition on_npc_despawn :: "int \<Rightarrow> client \<Rightarrow> client option" where
  "on_npc_despawn npc_id c =
     when_normal (\<lambda>c. do { c1 \<leftarrow> show_bounty c;
         Some (log_message (c_snprintf MAX_TEXT_LEN (''[NPC] '' @ utf8 [0xC758, 0xB8B0, 0x20, 0xB9CC, 0xB8CC, 0x20] @ ''#'' @ show_int npc_id)) c1) })
       (set_state (\<lambda>st. st\<lparr>cs_npc := swap_remove (\<lambda>n. un_npc_id n = npc_id) (cs_npc st)\<rparr>) c)"

definition show_boards :: "client \<Rightarrow> client option" where
  "show_boards c = do { c1 \<leftarrow> show_market c; c2 \<leftarrow> show_inventory c1; show_bounty c2 }"

definition on_news_leak :: "tags \<Rightarrow> int \<Rightarrow> string \<Rightarrow> client \<Rightarrow> client option" where
  "on_news_leak frozen_tags duration_sec headline c =
     do { st1 \<leftarrow> Some ((cl_state c)\<lparr>cs_frozen_mask := cs_frozen_mask (cl_state c) OR frozen_tags\<rparr>);
          st2 \<leftarrow> Some (st1\<lparr>cs_mkt := map (\<lambda>m. if um_tags m AND cs_frozen_mask st1 \<noteq> 0 then m\<lparr>um_is_frozen := True\<rparr> else m) (cs_mkt st1)\<rparr>);
          st3 \<leftarrow> mark_inventory st2;
          c1 \<leftarrow> Some (c\<lparr>cl_state := st3\<lparr>cs_last_news := c_strncpy (MAX_TEXT_LEN - 1) headline\<rparr>\<rparr>);
          when_normal (\<lambda>c. do { c2 \<leftarrow> show_boards c;
            c3 \<leftarrow> Some (draw_event (Draw_news (news_line c2)) c2);
            tagbuf \<leftarrow> tags_to_str frozen_tags TAGBUF;
            Some (log_message (c_snprintf (MAX_TEXT_LEN * 2) (''[News-Leak] '' @ headline @ '' | '' @ utf8 [0xB3D9, 0xACB0] @ '': '' @ tagbuf @ '' | '' @ show_int duration_sec @ utf8 [0xCD08, 0xAC04])) c3) }) c1 }"

definition on_news_recover :: "tags \<Rightarrow> client \<Rightarrow> client option" where
  "on_news_recover recovered_tags c =
     do { st1 \<leftarrow> Some ((cl_state c)\<lparr>cs_frozen_mask := cs_frozen_mask (cl_state c) AND NOT recovered_tags\<rparr>);
          st2 \<leftarrow> Some (st1\<lparr>cs_mkt := map (mark_market (cs_frozen_mask st1)) (cs_mkt st1)\<rparr>);
          st3 \<leftarrow> mark_inventory st2;
          c1 \<leftarrow> Some (c\<lparr>cl_state := st3\<rparr>);
          when_normal (\<lambda>c. do { c2 \<leftarrow> show_boards c;
            tagbuf \<leftarrow> tags_to_str recovered_tags TAGBUF;
            Some (log_message (c_snprintf MAX_TEXT_LEN (''[News-Recover] '' @ utf8 [0xB3D9, 0xACB0, 0x20, 0xD574, 0xC81C] @ '': '' @ tagbuf)) c2) }) c1 }"

definition on_buy_ok :: "int \<Rightarrow> int \<Rightarrow> string \<Rightarrow> client \<Rightarrow> client option" where
  "on_buy_ok doc_id remaining_money name c =
     do { c1 \<leftarrow> when_normal (\<lambda>c. do { c1 \<leftarrow> show_inventory c;
            Some (log_message (c_snprintf MAX_TEXT_LEN (''[OK] '' @ utf8 [0xAD6C, 0xB9E4, 0x20, 0xC644, 0xB8CC, 0x20] @ ''ID:'' @ show_int doc_id @ '' '' @ name @ '' '' @ utf8 [0xC794, 0xC561] @ '':$'' @ show_int remaining_money)) c1) })
            (set_state (\<lambda>st. st\<lparr>cs_my_money := remaining_money\<rparr>) c);
          Some (send Req_inven c1) }"

definition on_sell_ok :: "int \<Rightarrow> int \<Rightarrow> client \<Rightarrow> client option" where
  "on_sell_ok bounty new_money c =
     do { c1 \<leftarrow> when_normal (\<lambda>c. do { c1 \<leftarrow> show_inventory c;
            Some (log_message (c_snprintf MAX_TEXT_LEN (''[OK] '' @ utf8 [0xB9E4, 0xAC01, 0x20, 0xC644, 0xB8CC, 0x20, 0xBCF4, 0xC0C1] @ '':$'' @ show_int bounty @ '' '' @ utf8 [0xC794, 0xC561] @ '':$'' @ show_int new_money)) c1) })
            (set_state (\<lambda>st. st\<lparr>cs_my_money := new_money\<rparr>) c);
          Some (send Req_inven c1) }"

definition on_inven_info :: "int \<Rightarrow> inven_item list \<Rightarrow> int \<Rightarrow> client \<Rightarrow> client option" where
  "on_inven_info n its money c =
     (if n > int MAX_INVEN_SIZE then None
      else when_normal show_inventory
        (set_state (\<lambda>st. st\<lparr>cs_inv_count := n, cs_inv := overwrite its (cs_inv st), cs_my_money := money\<rparr>) c))"

definition on_dispose_ok :: "client \<Rightarrow> client option" where
  "on_dispose_ok c =
     do { c1 \<leftarrow> when_normal (\<lambda>c. Some (log_message (''[OK] '' @ utf8 [0xD3D0, 0xAE30, 0x20, 0xC644, 0xB8CC] @ ''.'') c)) c; Some (send Req_inven c1) }"

definition on_error :: "int \<Rightarrow> string \<Rightarrow> client \<Rightarrow> client option" where
  "on_error code reason c =
     when_normal (\<lambda>c. Some (log_message (c_snprintf (MAX_TEXT_LEN * 2) (''[ERROR '' @ show_int code @ ''] '' @ reason)) c)) c"

definition on_goal_update :: "int \<Rightarrow> client \<Rightarrow> client option" where
  "on_goal_update goal_money c = when_normal show_inventory (set_state (\<lambda>st. st\<lparr>cs_my_goal := goal_money\<rparr>) c)"

text \<open>The chain of \<open>if (pkt.type == ...)\<close>; a packet of any other type is ignored.\<close>

definition handle_packet :: "msg \<Rightarrow> client \<Rightarrow> client option" where
  "handle_packet m c =
     (case m of
        Evt_chat sender chat_text \<Rightarrow> on_chat sender chat_text c
      | Evt_rumor_glitch \<Rightarrow> when_normal (\<lambda>c. Some (start_glitch (''['' @ utf8 [0xACBD, 0xACE0] @ ''] /rumor '' @ utf8 [0xC0AC, 0xBCF4, 0xD0C0, 0xC8FC, 0x20, 0xD53C, 0xACA9] @ ''! '' @ utf8 [0xC2DC, 0xC2A4, 0xD15C, 0x20, 0xC804, 0xBC18, 0xC774, 0x20, 0xC190, 0xC0C1, 0xB418, 0xC5C8, 0xC2B5, 0xB2C8, 0xB2E4] @ ''...'') c)) c
      | Evt_police_raid passcode time_limit_sec \<Rightarrow> Some (on_police_raid passcode time_limit_sec c)
      | Res_minigame_ok \<Rightarrow> on_minigame_ok c
      | Evt_game_over message \<Rightarrow> on_game_over message c
      | Evt_victory message \<Rightarrow> game_over_exit message (c\<lparr>cl_mode := STATE_GAME_OVER\<rparr>)
      | Evt_scoreboard cd ec es rc rs \<Rightarrow> on_scoreboard cd ec es rc rs c
      | Evt_market_spawn doc_id tags base_price name \<Rightarrow> on_market_spawn doc_id tags base_price name c
      | Evt_market_remove doc_id \<Rightarrow> on_market_remove doc_id c
      | Evt_npc_spawn npc_id required_tags bounty \<Rightarrow> on_npc_spawn npc_id required_tags bounty c
      | Evt_npc_despawn npc_id \<Rightarrow> on_npc_despawn npc_id c
      | Evt_news_leak frozen_tags duration_sec headline \<Rightarrow> on_news_leak frozen_tags duration_sec headline c
      | Evt_news_recover recovered_tags \<Rightarrow> on_news_recover recovered_tags c
      | Res_buy_ok doc_id remaining_money tags name \<Rightarrow> on_buy_ok doc_id remaining_money name c
      | Res_sell_ok bounty new_money \<Rightarrow> on_sell_ok bounty new_money c
      | Res_dispose_ok \<Rightarrow> on_dispose_ok c
      | Res_error code reason \<Rightarrow> on_error (error_num code) reason c
      | Res_inven_info n its money \<Rightarrow> on_inven_info n its money c
      | Evt_goal_update goal_money \<Rightarrow> on_goal_update goal_money c
      | _ \<Rightarrow> Some c)"

text \<open>A packet whose type or error code the protocol does not name: an error is logged with its number all the same, any
  other is ignored.\<close>

definition handle_unknown :: "packet \<Rightarrow> client \<Rightarrow> client option" where
  "handle_unknown p c =
     (if u32_at 0 p = packet_type_num PKT_RES_ERROR then on_error (i32_at 8 p) (str_at 12 MAX_TEXT_LEN p) c else Some c)"

section \<open>Redrawing by the clock\<close>

definition panic_tick :: "client \<Rightarrow> client" where
  "panic_tick c =
     (if cl_mode c = STATE_PANIC \<and> cl_panic_deadline c > 0 then
        let r = remain (cl_panic_deadline c) c in
        if r \<noteq> cl_last_panic_remain c then
          (draw_event (Draw_panic (render_panic_mode (cl_panic_passcode c) r (cl_input c))) c)\<lparr>cl_last_panic_remain := r\<rparr>
        else c
      else c)"

definition round_end_tick :: "client \<Rightarrow> client option" where
  "round_end_tick c =
     (if cl_mode c = STATE_ROUND_END \<and> cl_round_end_deadline c > 0 then
        let r = remain (cl_round_end_deadline c) c in
        if r \<noteq> cl_last_round_end_remain c then
          do { c1 \<leftarrow> show_scoreboard r c; Some (c1\<lparr>cl_last_round_end_remain := r\<rparr>) }
        else Some c
      else Some c)"

definition glitch_tick :: "client \<Rightarrow> client option" where
  "glitch_tick c =
     (if cl_mode c = STATE_NORMAL \<and> cl_glitch_until c > 0 then
        if cl_now c < cl_glitch_until c then
          (if cl_ms c - cl_last_glitch_ms c \<ge> GLITCH_FRAME_MS then Some ((draw_event Draw_glitch c)\<lparr>cl_last_glitch_ms := cl_ms c\<rparr>)
           else Some c)
        else
          do { c1 \<leftarrow> recover_from_glitch (c\<lparr>cl_glitch_until := 0\<rparr>);
               Some (log_message (''['' @ utf8 [0xBCF5, 0xAD6C] @ ''] '' @ utf8 [0xC0AC, 0xBCF4, 0xD0C0, 0xC8FC, 0x20, 0xC190, 0xC0C1, 0x20, 0xBCF5, 0xAD6C, 0x20, 0xC644, 0xB8CC, 0x20, 0x2014, 0x20, 0xD654, 0xBA74, 0x20, 0xC815, 0xC0C1, 0xD654] @ ''.'') c1) }
      else Some c)"

definition ticks :: "client \<Rightarrow> client option" where
  "ticks c = (if cl_exited c then Some c else do { c1 \<leftarrow> round_end_tick (panic_tick c); glitch_tick c1 })"

section \<open>Commands\<close>

text \<open>\<open>strtok\<close> over the blanks: the npc, then at most seven documents; the rest of the array is zero.\<close>

definition parse_sell :: "string \<Rightarrow> msg" where
  "parse_sell args =
     (case tokens (CHR '' '') args of
        [] \<Rightarrow> Req_sell 0 0 (replicate MAX_INVEN_SIZE 0)
      | t # ts \<Rightarrow>
          let ids = map atoi (take MAX_INVEN_SIZE ts)
          in Req_sell (atoi t) (int (length ids)) (fill MAX_INVEN_SIZE 0 ids))"

definition starts_with :: "string \<Rightarrow> string \<Rightarrow> bool" where
  "starts_with input cmd \<longleftrightarrow> c_strncmp_eq (length cmd) input cmd"

text \<open>The request a line of input becomes.\<close>

definition parse_command :: "string \<Rightarrow> msg" where
  "parse_command input =
     (if starts_with input ''/buy '' then Req_buy (atoi (drop 5 input))
      else if starts_with input ''/dispose '' then Req_dispose (atoi (drop 9 input))
      else if input = ''/inventory'' \<or> input = ''/inv'' then Req_inven
      else if starts_with input ''/rumor '' then Req_rumor (c_strncpy (MAX_KEY_LEN - 1) (drop 7 input))
      else if starts_with input ''/sell '' then parse_sell (drop 6 input)
      else Req_chat (c_strncpy (MAX_TEXT_LEN - 1) input))"

definition run_command :: "client \<Rightarrow> client option" where
  "run_command c =
     (let input = cl_input c in
      if input = ''/fake rumor'' then
        when_normal (\<lambda>c. Some (start_glitch (''['' @ utf8 [0xACBD, 0xACE0] @ ''] ('' @ utf8 [0xB85C, 0xCEEC] @ '') '' @ utf8 [0xC0AC, 0xBCF4, 0xD0C0, 0xC8FC, 0x20, 0xAE00, 0xB9AC, 0xCE58, 0x20, 0xD14C, 0xC2A4, 0xD2B8] @ ''.'') c)) c
      else if input = ''/fake raid'' then
        Some (log_message (''[DEBUG] '' @ utf8 [0xC790, 0xAE30, 0x20, 0xC790, 0xC2E0, 0x20, 0xB300, 0xC0C1, 0x20, 0xACBD, 0xCC30, 0x20, 0xB808, 0xC774, 0xB4DC, 0x20, 0xD2B8, 0xB9AC, 0xAC70, 0x20, 0xC694, 0xCCAD, 0x20, 0xC804, 0xC1A1] @ ''.'') (send Req_trigger_raid c))
      else if input = ''/fake leak'' then
        Some (log_message (''[DEBUG] '' @ utf8 [0xACF5, 0xC911, 0xD30C, 0x20, 0xC720, 0xCD9C] @ ''('' @ utf8 [0xB3D9, 0xACB0] @ '') '' @ utf8 [0xD2B8, 0xB9AC, 0xAC70, 0x20, 0xC694, 0xCCAD, 0x20, 0xC804, 0xC1A1] @ ''.'') (send Req_trigger_leak c))
      else if input = ''/fake rich'' then
        Some (log_message (''[DEBUG] '' @ utf8 [0xC794, 0xC561, 0x20, 0xCC44, 0xC6B0, 0xAE30, 0x20, 0xC694, 0xCCAD, 0x20, 0xC804, 0xC1A1, 0x20, 0x2014, 0x20, 0xC774, 0xD6C4, 0x20] @ ''/payoff '' @ utf8 [0xB85C, 0x20, 0xD0C8, 0xCD9C, 0x20, 0xD14C, 0xC2A4, 0xD2B8] @ ''.'') (send Req_trigger_rich c))
      else if input = ''/fake endround'' then
        Some (log_message (''[DEBUG] '' @ utf8 [0xB77C, 0xC6B4, 0xB4DC, 0x20, 0xC885, 0xB8CC, 0x20, 0xCE74, 0xC6B4, 0xD2B8, 0xB2E4, 0xC6B4, 0x20, 0xD2B8, 0xB9AC, 0xAC70, 0x20, 0xC694, 0xCCAD, 0x20, 0xC804, 0xC1A1] @ ''.'') (send Req_trigger_endround c))
      else if input = ''/fake ok'' then
        do { c1 \<leftarrow> redraw (c\<lparr>cl_mode := STATE_NORMAL\<rparr>); Some (log_message (''[SYSTEM] '' @ utf8 [0xB85C, 0xCEEC, 0x20, 0xAC15, 0xC81C, 0x20, 0xBCF5, 0xAD6C, 0x20, 0xC644, 0xB8CC] @ ''.'') c1) }
      else if input = ''/fake over'' then
        game_over_exit (utf8 [0xB85C, 0xCEEC, 0x20, 0xAC15, 0xC81C, 0x20, 0xAC8C, 0xC784, 0xC624, 0xBC84, 0x20, 0xD14C, 0xC2A4, 0xD2B8]) (c\<lparr>cl_mode := STATE_GAME_OVER\<rparr>)
      else Some (send (parse_command input) c))"

section \<open>Keys\<close>

text \<open>Below the input handling: the prompt, or the box of a raid, is drawn again after a key.\<close>

definition after_key :: "client \<Rightarrow> client" where
  "after_key c =
     (if cl_mode c = STATE_NORMAL then draw_event (Draw_prompt (cl_input c)) c
      else if cl_mode c = STATE_PANIC then
        draw_event (Draw_panic (render_panic_mode (cl_panic_passcode c) (remain (cl_panic_deadline c) c) (cl_input c))) c
      else c)"

definition key_enter :: "client \<Rightarrow> client option" where
  "key_enter c =
     (if cl_input c = ''/quit'' then Some (c\<lparr>cl_running := False\<rparr>)
      else if cl_mode c = STATE_PANIC then
        Some ((send (Req_minigame_submit (c_strncpy (MAX_TEXT_LEN - 1) (cl_input c))) c)\<lparr>cl_input := []\<rparr>)
      else if cl_mode c = STATE_ROUND_END then
        Some ((if take 1 (cl_input c) = ''/'' then
                 log_message (''[SYSTEM] '' @ utf8 [0xB77C, 0xC6B4, 0xB4DC, 0x20, 0xC885, 0xB8CC, 0x20, 0xC911, 0xC5D0, 0xB294, 0x20, 0xAC8C, 0xC784, 0x20, 0xBA85, 0xB839, 0xC774, 0x20, 0xC7A0, 0xAE08, 0x20, 0xC0C1, 0xD0DC, 0xC785, 0xB2C8, 0xB2E4] @ ''. '' @ utf8 [0xCC44, 0xD305, 0xB9CC, 0x20, 0xAC00, 0xB2A5, 0xD569, 0xB2C8, 0xB2E4] @ ''.'') c
               else if 0 < length (cl_input c) then send (Req_chat (c_strncpy (MAX_TEXT_LEN - 1) (cl_input c))) c
               else c)\<lparr>cl_input := []\<rparr>)
      else do { c1 \<leftarrow> run_command c; Some (after_key (c1\<lparr>cl_input := []\<rparr>)) })"

text \<open>Dropping the last character: a byte, and while it is a UTF-8 continuation byte the one before it.\<close>

definition continuation :: "byte \<Rightarrow> bool" where
  "continuation b \<longleftrightarrow> (of_char b :: nat) div 64 = 2"

fun erase_loop :: "string \<Rightarrow> string" where
  "erase_loop [] = []"
| "erase_loop (b # bs) = (if continuation b \<and> bs \<noteq> [] then erase_loop bs else bs)"

definition erase_char :: "string \<Rightarrow> string" where
  "erase_char input = rev (erase_loop (rev input))"

definition key_resize :: "client \<Rightarrow> client option" where
  "key_resize c =
     (let c0 = c\<lparr>cl_input := []\<rparr> in
      if cl_mode c0 = STATE_NORMAL then redraw c0
      else if cl_mode c0 = STATE_PANIC then
        let r = remain (cl_panic_deadline c0) c0
        in Some (draw_event (Draw_panic (render_panic_mode (cl_panic_passcode c0) r (cl_input c0))) (c0\<lparr>cl_last_panic_remain := r\<rparr>))
      else if cl_mode c0 = STATE_ROUND_END then
        do { c1 \<leftarrow> redraw c0;
             if cl_exited c1 then Some c1
             else do { c2 \<leftarrow> show_scoreboard (remain (cl_round_end_deadline c1) c1) c1;
                       Some (c2\<lparr>cl_last_round_end_remain := remain (cl_round_end_deadline c1) c1\<rparr>) } }
      else Some c0)"

text \<open>A printable byte, or one of a UTF-8 sequence.\<close>

definition type_char :: "int \<Rightarrow> int \<Rightarrow> string \<Rightarrow> string" where
  "type_char ch w s = (if length s < INPUT_MAX - 1 \<and> int (length s) < w - 45 then s @ [char_of (nat ch)] else s)"

definition handle_key :: "int \<Rightarrow> client \<Rightarrow> client option" where
  "handle_key ch c =
     (if ch = KEY_RESIZE then key_resize c
      else if ch = 10 then key_enter c
      else if ch = KEY_BACKSPACE \<or> ch = 127 \<or> ch = 8 then Some (after_key (c\<lparr>cl_input := erase_char (cl_input c)\<rparr>))
      else if ch = 27 then Some (after_key (c\<lparr>cl_input := []\<rparr>))
      else if 32 \<le> ch \<and> ch \<le> 255 then
        Some (after_key (c\<lparr>cl_input := type_char ch (cl_w c) (cl_input c)\<rparr>))
      else Some (after_key c))"

section \<open>The loop\<close>

text \<open>
  What happens next: the environment changes, a signal arrives, or one turn of the loop with a key, with a
  packet, or with neither.
\<close>

datatype client_event =
    Clock time_t int
  | Terminal int int
  | Sigint
  | Sigquit
  | Key int
  | Packet_in recv_result
  | Idle

definition handle_sigint :: "client \<Rightarrow> client" where
  "handle_sigint c = (if g_in_raid c then c else c\<lparr>g_quit_req := True\<rparr>)"

definition turn :: "client_event \<Rightarrow> client \<Rightarrow> client option" where
  "turn ev c =
     (let c0 = c\<lparr>g_in_raid := (cl_mode c = STATE_PANIC)\<rparr> in
      if g_quit_req c0 then Some (c0\<lparr>cl_running := False\<rparr>)
      else case ev of
          Key ch \<Rightarrow> handle_key ch c0
        | Packet_in r \<Rightarrow>
            (case packet_recv r of
               (recv_rc, pkt) \<Rightarrow>
                 if recv_rc \<le> 0 then Some (c0\<lparr>cl_server_lost := True, cl_running := False\<rparr>)
                 else do { c1 \<leftarrow> (case msg_of pkt of None \<Rightarrow> handle_unknown pkt c0 | Some m \<Rightarrow> handle_packet m c0); ticks c1 })
        | _ \<Rightarrow> ticks c0)"

definition client_step :: "client_event \<Rightarrow> client \<Rightarrow> client option" where
  "client_step ev c =
     (if cl_exited c \<or> \<not> cl_running c then Some c
      else case ev of
          Clock now ms \<Rightarrow> Some (c\<lparr>cl_now := now, cl_ms := ms\<rparr>)
        | Terminal h w \<Rightarrow> Some (c\<lparr>cl_h := h, cl_w := w\<rparr>)
        | Sigint \<Rightarrow> Some (handle_sigint c)
        | Sigquit \<Rightarrow> Some (c\<lparr>cl_exited := True\<rparr>)
        | _ \<Rightarrow> turn ev c)"

fun client_run :: "client_event list \<Rightarrow> client \<Rightarrow> client option" where
  "client_run [] c = Some c"
| "client_run (ev # evs) c = do { c1 \<leftarrow> client_step ev c; client_run evs c1 }"

text \<open>Start: the login, and the first drawing with a request for the inventory. \<open>None\<close> in the result: the program ends.\<close>

definition login_request :: "string \<Rightarrow> msg" where
  "login_request user_key = Req_login (c_strncpy (MAX_KEY_LEN - 1) user_key)"

definition fresh_client :: "time_t \<Rightarrow> int \<Rightarrow> int \<Rightarrow> int \<Rightarrow> int \<Rightarrow> client" where
  "fresh_client now h w money goal =
     \<lparr>cl_state = zero_client_state\<lparr>cs_my_money := money, cs_my_goal := goal\<rparr>, cl_mode = STATE_NORMAL, cl_input = [],
      cl_running = True, cl_server_lost = False, g_quit_req = False, g_in_raid = False,
      cl_panic_deadline = 0, cl_last_panic_remain = -1, cl_panic_passcode = ''PURGE'',
      cl_round_end_deadline = 0, cl_last_round_end_remain = -1, cl_glitch_until = 0, cl_last_glitch_ms = 0,
      cl_middle_h = 0, cl_exited = False, cl_now = now, cl_ms = 0, cl_h = h, cl_w = w, cl_draws = [], cl_sent = []\<rparr>"

definition client_start :: "time_t \<Rightarrow> int \<Rightarrow> int \<Rightarrow> recv_result \<Rightarrow> client option option" where
  "client_start now h w reply =
     (case packet_recv reply of
        (rc, pkt) \<Rightarrow>
          if rc \<le> 0 then Some None
          else case msg_of pkt of
              Some (Res_login_ok sid money goal) \<Rightarrow>
                if check_size h w then
                  do { c \<leftarrow> draw_ui (fresh_client now h w money goal); Some (Some (send Req_inven c)) }
                else Some None
            | _ \<Rightarrow> Some None)"

end
