(* ===== verification/ClientProps.thy ===== *)
theory ClientProps
  imports Client
begin

text \<open>
  What the client promises: it stays inside its arrays as long as the packets do (and where a packet can push it
  out), its modes lock the commands they should, and the input line is what was typed.
\<close>

section \<open>Frames\<close>

declare type_char_def [simp] on_dispose_ok_def [simp] on_error_def [simp] on_goal_update_def [simp]

lemma draw_event_sel [simp]:
  "cl_state (draw_event d c) = cl_state c" "cl_mode (draw_event d c) = cl_mode c" "cl_input (draw_event d c) = cl_input c"
  "cl_running (draw_event d c) = cl_running c" "cl_exited (draw_event d c) = cl_exited c" "cl_sent (draw_event d c) = cl_sent c"
  "g_quit_req (draw_event d c) = g_quit_req c" "g_in_raid (draw_event d c) = g_in_raid c"
  "cl_h (draw_event d c) = cl_h c" "cl_w (draw_event d c) = cl_w c" "cl_now (draw_event d c) = cl_now c"
  by (simp_all add: draw_event_def)

lemma log_message_sel [simp]:
  "cl_state (log_message d c) = cl_state c" "cl_mode (log_message d c) = cl_mode c" "cl_input (log_message d c) = cl_input c"
  "cl_running (log_message d c) = cl_running c" "cl_exited (log_message d c) = cl_exited c" "cl_sent (log_message d c) = cl_sent c"
  "g_quit_req (log_message d c) = g_quit_req c" "g_in_raid (log_message d c) = g_in_raid c"
  "cl_h (log_message d c) = cl_h c" "cl_w (log_message d c) = cl_w c" "cl_now (log_message d c) = cl_now c"
  by (simp_all add: log_message_def)

lemma send_sel [simp]:
  "cl_state (send m c) = cl_state c" "cl_mode (send m c) = cl_mode c" "cl_input (send m c) = cl_input c"
  "cl_running (send m c) = cl_running c" "cl_exited (send m c) = cl_exited c"
  "g_quit_req (send m c) = g_quit_req c" "g_in_raid (send m c) = g_in_raid c"
  "cl_sent (send m c) = (if cl_exited c then cl_sent c else cl_sent c @ [m])"
  by (simp_all add: send_def)

section \<open>Staying inside the arrays\<close>

definition few_tags :: "tags \<Rightarrow> bool" where
  "few_tags m \<longleftrightarrow> length (shown_tags m) \<le> 5"

definition st_ok :: "client_state \<Rightarrow> bool" where
  "st_ok st \<longleftrightarrow> length (cs_mkt st) \<le> UI_MAX_MARKET \<and> length (cs_npc st) \<le> UI_MAX_NPC
     \<and> length (cs_inv st) = MAX_INVEN_SIZE \<and> 0 \<le> cs_inv_count st \<and> cs_inv_count st \<le> int MAX_INVEN_SIZE
     \<and> (\<forall>m \<in> set (cs_mkt st). few_tags (um_tags m) \<and> (um_is_frozen m \<longleftrightarrow> um_tags m AND cs_frozen_mask st \<noteq> 0))
     \<and> (\<forall>n \<in> set (cs_npc st). few_tags (un_required_tags n)) \<and> (\<forall>it \<in> set (cs_inv st). few_tags (ii_tags it)) \<and> score_ok st"

definition client_ok :: "client \<Rightarrow> bool" where
  "client_ok c \<longleftrightarrow> st_ok (cl_state c) \<and> length (cl_input c) < INPUT_MAX"

lemma few_tags_str: "few_tags m \<Longrightarrow> \<exists>s. tags_to_str m TAGBUF = Some s"
  by (simp add: few_tags_def few_tags_fit shown_tags_card)

lemma market_rows_some: "(\<forall>m \<in> set ms. few_tags (um_tags m)) \<Longrightarrow> \<exists>rows. market_rows h row ms = Some rows"
proof (induction ms arbitrary: row)
  case (Cons m ms)
  then show ?case using few_tags_str [of "um_tags m"] Cons.IH [of "row + 1"] by auto
qed simp

lemma bounty_rows_some: "(\<forall>n \<in> set ns. few_tags (un_required_tags n)) \<Longrightarrow> \<exists>rows. bounty_rows h frz row ns = Some rows"
proof (induction ns arbitrary: row)
  case (Cons n ns)
  then show ?case using few_tags_str [of "un_required_tags n"] Cons.IH [of "row + 3"] by auto
qed simp

lemma render_market_some: "st_ok st \<Longrightarrow> \<exists>rows. render_market h st = Some rows"
  using market_rows_some [of "cs_mkt st" h 2] by (auto simp: render_market_def st_ok_def)

lemma render_bounty_some: "st_ok st \<Longrightarrow> \<exists>rows. render_bounty h st = Some rows"
  using bounty_rows_some [of "cs_npc st" h "cs_frozen_mask st" 1] by (auto simp: render_bounty_def st_ok_def)

lemma render_inventory_some:
  assumes "st_ok st"
  shows "\<exists>rows. render_inventory h st = Some rows"
proof -
  have "\<exists>r. inventory_row st i = Some r" if "i < nat (cs_inv_count st)" for i
  proof -
    have i: "i < length (cs_inv st)" using assms that by (auto simp: st_ok_def)
    then have "few_tags (ii_tags (cs_inv st ! i))" using assms by (auto simp: st_ok_def)
    then show ?thesis using few_tags_str i by (fastforce simp: inventory_row_def Let_def)
  qed
  then have "\<forall>i \<in> set [0..<nat (min (cs_inv_count st) (h - 2))]. inventory_row st i = Some (the (inventory_row st i))" by force
  from those_map_some [OF this] show ?thesis by (simp add: render_inventory_def)
qed

lemma render_scoreboard_some:
  assumes "score_ok st"
  shows "\<exists>rows. render_scoreboard h w st r = Some rows"
proof -
  obtain es where "escaped_rows st = Some es" by (rule escaped_rows_some [OF assms])
  moreover have "\<exists>rs. remaining_rows st y lim = Some rs" for y lim
  proof -
    have "remaining_row st y i = Some (the (remaining_row st y i))" if "i < nat (cs_sb_remaining_count st)" for i
    proof -
      have "i < length (cs_sb_remaining st)" using assms that by (auto simp: score_ok_def)
      then show ?thesis by (simp add: remaining_row_def Let_def)
    qed
    then have "\<forall>i \<in> set [0..<nat (min (cs_sb_remaining_count st) (lim - y))]. remaining_row st y i = Some (the (remaining_row st y i))" by simp
    from those_map_some [OF this] show ?thesis by (simp add: remaining_rows_def)
  qed
  ultimately have "\<exists>rows. (case (escaped_rows st, remaining_rows st y lim) of (Some a, Some b) \<Rightarrow> Some (f a b) | _ \<Rightarrow> None) = Some rows"
    for y lim and f :: "row list \<Rightarrow> row list \<Rightarrow> row list"
    by (metis (mono_tags, lifting) option.simps(5) prod.case)
  then show ?thesis unfolding render_scoreboard_def Let_def by (rule exE) (rule exI)
qed

text \<open>A result that is defined and keeps the invariant.\<close>

definition safe :: "client option \<Rightarrow> bool" where
  "safe r \<longleftrightarrow> (\<exists>c. r = Some c \<and> client_ok c)"

lemma safe_Some [simp]: "safe (Some c) \<longleftrightarrow> client_ok c"
  by (simp add: safe_def)

lemma safe_bind: "safe r \<Longrightarrow> (\<And>c. client_ok c \<Longrightarrow> safe (g c)) \<Longrightarrow> safe (Option.bind r g)"
  by (auto simp: safe_def)

lemma client_ok_update [simp]:
  "client_ok (draw_event d c) = client_ok c" "client_ok (log_message l c) = client_ok c" "client_ok (send m c) = client_ok c"
  "client_ok (c\<lparr>cl_mode := md\<rparr>) = client_ok c" "client_ok (c\<lparr>cl_running := b\<rparr>) = client_ok c"
  "client_ok (c\<lparr>cl_exited := b\<rparr>) = client_ok c" "client_ok (c\<lparr>cl_panic_deadline := t\<rparr>) = client_ok c"
  "client_ok (c\<lparr>cl_last_panic_remain := t\<rparr>) = client_ok c" "client_ok (c\<lparr>cl_round_end_deadline := t\<rparr>) = client_ok c"
  "client_ok (c\<lparr>cl_last_round_end_remain := t\<rparr>) = client_ok c" "client_ok (c\<lparr>cl_glitch_until := t\<rparr>) = client_ok c"
  "client_ok (c\<lparr>cl_last_glitch_ms := t\<rparr>) = client_ok c" "client_ok (c\<lparr>cl_panic_passcode := p\<rparr>) = client_ok c"
  "client_ok (c\<lparr>cl_middle_h := t\<rparr>) = client_ok c" "client_ok (c\<lparr>g_in_raid := b\<rparr>) = client_ok c"
  "client_ok (c\<lparr>g_quit_req := b\<rparr>) = client_ok c" "client_ok (c\<lparr>cl_server_lost := b\<rparr>) = client_ok c"
  "client_ok (c\<lparr>cl_now := t\<rparr>) = client_ok c" "client_ok (c\<lparr>cl_ms := t\<rparr>) = client_ok c"
  "client_ok (c\<lparr>cl_h := t\<rparr>) = client_ok c" "client_ok (c\<lparr>cl_w := t\<rparr>) = client_ok c"
  by (simp_all add: client_ok_def)

lemma safe_shows:
  assumes "client_ok c"
  shows "safe (show_market c)" "safe (show_bounty c)" "safe (show_inventory c)" "safe (show_scoreboard r c)"
  using assms render_market_some [of "cl_state c" "cl_middle_h c"] render_bounty_some [of "cl_state c" "cl_middle_h c"]
    render_inventory_some [of "cl_state c" 9] render_scoreboard_some [of "cl_state c" "cl_h c" "cl_w c" r]
  by (auto simp: show_market_def show_bounty_def show_inventory_def show_scoreboard_def client_ok_def st_ok_def)

lemma safe_draw_ui: "client_ok c \<Longrightarrow> safe (draw_ui c)"
  by (auto simp: draw_ui_def intro!: safe_bind safe_shows)

lemma safe_redraw: "client_ok c \<Longrightarrow> safe (redraw c)"
  by (simp add: redraw_def safe_draw_ui)

lemma safe_when_normal: "client_ok c \<Longrightarrow> (\<And>c. client_ok c \<Longrightarrow> safe (f c)) \<Longrightarrow> safe (when_normal f c)"
  by (simp add: when_normal_def)

lemma safe_show_boards: "client_ok c \<Longrightarrow> safe (show_boards c)"
  by (auto simp: show_boards_def intro!: safe_bind safe_shows)

lemma safe_recover: "client_ok c \<Longrightarrow> safe (recover_from_glitch c)"
  by (auto simp: recover_from_glitch_def intro!: safe_bind safe_shows)

lemmas safe_intros = safe_bind safe_shows safe_redraw safe_when_normal safe_show_boards safe_recover

text \<open>A text that ends with a whole character.\<close>

definition whole_chars :: "string \<Rightarrow> bool" where
  "whole_chars s \<longleftrightarrow> wrap_loop 0 s [] 0 \<noteq> None"

lemma wrap_none_cong: "wrap_loop a s l c = None \<longleftrightarrow> wrap_loop b s l' c' = None"
proof (induction a s l c arbitrary: l' c' rule: wrap_loop.induct)
  case (2 a x xs l c)
  obtain n k where n: "char_step x = (n, k)" by (cases "char_step x")
  show ?case
  proof (cases "length (x # xs) < n")
    case True
    then show ?thesis by (simp add: n Let_def)
  next
    case False
    have "(wrap_loop a (drop n (x # xs)) l1 c1 = None) = (wrap_loop b (drop n (x # xs)) l2 c2 = None)"
      if "l1 = (if a < c + k \<or> 256 - 8 < length l then [] else l) @ take n (x # xs)" "c1 = (if a < c + k \<or> 256 - 8 < length l then 0 else c) + k" for l1 c1 l2 c2
      unfolding that by (rule "2.IH" [OF n [symmetric] refl refl refl refl]) (use False in simp_all)
    then show ?thesis using False by (simp add: n Let_def)
  qed
qed simp

lemma render_game_over_some:
  assumes "whole_chars m" "length m \<le> 255"
  shows "\<exists>rows. render_game_over w m = Some rows"
proof -
  let ?pre = "[0xC0AC, 0xC720, 0x3A, 0x20]"
  have "length (utf8 ?pre) = 8" by (simp add: utf8_def utf8_char_def)
  then have cut: "c_snprintf (MAX_TEXT_LEN + 16) (utf8 ?pre @ m) = utf8 ?pre @ m" using assms(2) by (simp add: c_snprintf_def)
  have "wrap_loop cw (utf8 cs @ m) l c \<noteq> None" if "\<forall>c \<in> set cs. code_point c" for cw cs l c
    using that
  proof (induction cs arbitrary: l c)
    case Nil
    then show ?case using assms(1) wrap_none_cong [of cw m l c 0 "[]" 0] by (simp add: whole_chars_def)
  next
    case (Cons d cs)
    then show ?case using wrap_char [of d _ cw "utf8 cs @ m" l c] by (simp del: columns_simps)
  qed
  from this [of ?pre] have "wrap_loop cw (utf8 ?pre @ m) [] 0 \<noteq> None" for cw by (simp add: code_point_def)
  moreover have "char_of (58 :: nat) = CHR '':''" "char_of (32 :: nat) = CHR '' ''" by code_simp+
  then have "utf8 [0xC0AC, 0xC720] @ '': '' @ m = utf8 ?pre @ m" by (simp add: utf8_def utf8_char_def)
  ultimately show ?thesis using cut by (auto simp: render_game_over_def Let_def mvw_print_wrapped_def)
qed

text \<open>The packets for which the client's array accesses are in bounds.\<close>

fun fair :: "msg \<Rightarrow> bool" where
  "fair (Evt_market_spawn d t p n) \<longleftrightarrow> few_tags t"
| "fair (Evt_npc_spawn n t b) \<longleftrightarrow> few_tags t"
| "fair (Evt_news_leak t d h) \<longleftrightarrow> few_tags t"
| "fair (Evt_news_recover t) \<longleftrightarrow> few_tags t"
| "fair (Res_inven_info c its m) \<longleftrightarrow> 0 \<le> c \<and> c \<le> int MAX_INVEN_SIZE \<and> length its \<le> MAX_INVEN_SIZE \<and> (\<forall>it \<in> set its. few_tags (ii_tags it))"
| "fair (Evt_scoreboard c ec es rc rs) \<longleftrightarrow> 0 \<le> ec \<and> ec \<le> int MAX_SCORE_ESCAPED \<and> length es \<le> MAX_SCORE_ESCAPED
     \<and> 0 \<le> rc \<and> rc \<le> int MAX_SCORE_REMAINING \<and> length rs \<le> MAX_SCORE_REMAINING"
| "fair (Evt_game_over m) \<longleftrightarrow> whole_chars m \<and> length m < MAX_TEXT_LEN"
| "fair (Evt_victory m) \<longleftrightarrow> whole_chars m \<and> length m < MAX_TEXT_LEN"
| "fair _ \<longleftrightarrow> True"

lemma length_overwrite: "length new \<le> length old \<Longrightarrow> length (overwrite new old) = length old"
  by (simp add: overwrite_def)

lemma set_overwrite: "set (overwrite new old) \<subseteq> set new \<union> set old"
  by (auto simp: overwrite_def dest: in_set_dropD)

lemma st_ok_update [simp]:
  "st_ok (st\<lparr>cs_last_news := x\<rparr>) = st_ok st" "st_ok (st\<lparr>cs_my_money := i\<rparr>) = st_ok st" "st_ok (st\<lparr>cs_my_goal := i\<rparr>) = st_ok st"
  by (simp_all add: st_ok_def score_ok_def)

lemma st_ok_chat: "st_ok st \<Longrightarrow> st_ok (st\<lparr>cs_sb_chat := (cs_sb_chat st)[k := x], cs_sb_chat_count := cs_sb_chat_count st + 1\<rparr>)"
  by (simp add: st_ok_def score_ok_def)

lemma client_ok_state [simp]: "client_ok (c\<lparr>cl_state := st\<rparr>) \<longleftrightarrow> st_ok st \<and> length (cl_input c) < INPUT_MAX"
  by (simp add: client_ok_def)

lemma client_okD: "client_ok c \<Longrightarrow> st_ok (cl_state c)" "client_ok c \<Longrightarrow> length (cl_input c) < INPUT_MAX"
  by (simp_all add: client_ok_def)

lemma note_news_ok: "client_ok c \<Longrightarrow> client_ok (note_news sender t c)"
  by (simp add: note_news_def client_okD)

lemma safe_on_chat: "client_ok c \<Longrightarrow> safe (on_chat sender t c)"
proof -
  assume "client_ok c"
  then have ok: "client_ok (note_news sender t c)" by (rule note_news_ok)
  have "safe (epilogue_chat sender t d)" if "client_ok d" for d
    using that by (auto simp: epilogue_chat_def Let_def client_okD st_ok_chat intro!: safe_shows)
  with ok show ?thesis by (simp add: on_chat_def Let_def)
qed

lemma st_ok_spawn: "st_ok st \<Longrightarrow> length (cs_mkt st) < UI_MAX_MARKET \<Longrightarrow> few_tags (um_tags m) \<Longrightarrow>
    st_ok (st\<lparr>cs_mkt := cs_mkt st @ [mark_market (cs_frozen_mask st) m]\<rparr>)"
  "st_ok st \<Longrightarrow> length (cs_npc st) < UI_MAX_NPC \<Longrightarrow> few_tags (un_required_tags n) \<Longrightarrow> st_ok (st\<lparr>cs_npc := cs_npc st @ [n]\<rparr>)"
  by (auto simp: st_ok_def score_ok_def mark_market_def)

lemma safe_spawns:
  "client_ok c \<Longrightarrow> few_tags t \<Longrightarrow> safe (on_market_spawn d t p n c)"
  "client_ok c \<Longrightarrow> few_tags t \<Longrightarrow> safe (on_npc_spawn i t b c)"
  by (auto simp: on_market_spawn_def on_npc_spawn_def Let_def client_okD st_ok_spawn intro!: safe_intros)

lemma swap_remove_set: "set (swap_remove p xs) \<subseteq> set xs" "length (swap_remove p xs) \<le> length xs"
  by (induction xs) (auto dest: in_set_butlastD)

lemma st_ok_remove:
  "st_ok st \<Longrightarrow> st_ok (st\<lparr>cs_mkt := swap_remove p (cs_mkt st)\<rparr>)"
  "st_ok st \<Longrightarrow> st_ok (st\<lparr>cs_npc := swap_remove q (cs_npc st)\<rparr>)"
  using swap_remove_set [of p "cs_mkt st"] swap_remove_set [of q "cs_npc st"]
  by (fastforce simp: st_ok_def score_ok_def)+

lemma safe_removes:
  "client_ok c \<Longrightarrow> safe (on_market_remove d c)" "client_ok c \<Longrightarrow> safe (on_npc_despawn i c)"
  by (auto simp: on_market_remove_def on_npc_despawn_def client_okD st_ok_remove intro!: safe_intros)

lemma mark_inventory_some:
  assumes "length (cs_inv st) = MAX_INVEN_SIZE" "cs_inv_count st \<le> int MAX_INVEN_SIZE" "\<forall>it \<in> set (cs_inv st). few_tags (ii_tags it)"
  obtains inv where "mark_inventory st = Some (st\<lparr>cs_inv := inv\<rparr>)" "length inv = MAX_INVEN_SIZE" "\<forall>it \<in> set inv. few_tags (ii_tags it)"
proof -
  let ?new = "map (mark_item (cs_frozen_mask st)) (take (nat (cs_inv_count st)) (cs_inv st))"
  have "set (overwrite ?new (cs_inv st)) \<subseteq> set ?new \<union> set (cs_inv st)" by (rule set_overwrite)
  then have "\<forall>it \<in> set (overwrite ?new (cs_inv st)). few_tags (ii_tags it)"
    using assms(3) by (auto simp: mark_item_def dest!: subsetD in_set_takeD)
  then show thesis using assms by (intro that [of "overwrite ?new (cs_inv st)"]) (simp_all add: mark_inventory_def length_overwrite)
qed

lemma safe_news:
  "client_ok c \<Longrightarrow> few_tags t \<Longrightarrow> safe (on_news_leak t d h c)"
  "client_ok c \<Longrightarrow> few_tags t \<Longrightarrow> safe (on_news_recover t c)"
proof -
  assume c: "client_ok c" and t: "few_tags t"
  obtain s where s: "tags_to_str t TAGBUF = Some s" using few_tags_str [OF t] by blast
  note ok = client_okD(1) [OF c]
  let ?st = "cl_state c" and ?in = "cs_frozen_mask (cl_state c) OR t" and ?out = "cs_frozen_mask (cl_state c) AND NOT t"
  let ?m1 = "map (\<lambda>m. if um_tags m AND ?in \<noteq> 0 then m\<lparr>um_is_frozen := True\<rparr> else m) (cs_mkt ?st)"
  obtain i1 where i1: "mark_inventory (?st\<lparr>cs_frozen_mask := ?in, cs_mkt := ?m1\<rparr>) = Some (?st\<lparr>cs_frozen_mask := ?in, cs_mkt := ?m1, cs_inv := i1\<rparr>)"
    "length i1 = MAX_INVEN_SIZE" "\<forall>it \<in> set i1. few_tags (ii_tags it)"
    using mark_inventory_some [of "?st\<lparr>cs_frozen_mask := ?in, cs_mkt := ?m1\<rparr>"] ok by (auto simp: st_ok_def)
  have "st_ok (?st\<lparr>cs_frozen_mask := ?in, cs_mkt := ?m1, cs_inv := i1\<rparr>)"
    using ok i1(2,3) by (auto simp: st_ok_def score_ok_def word_and_or_eq_0_iff)
  then have "safe (when_normal (\<lambda>c. do { c2 \<leftarrow> show_boards c; c3 \<leftarrow> Some (draw_event (Draw_news (news_line c2)) c2);
      tagbuf \<leftarrow> tags_to_str t TAGBUF; Some (log_message (f tagbuf) c3) }) (c\<lparr>cl_state := ?st\<lparr>cs_frozen_mask := ?in, cs_mkt := ?m1, cs_inv := i1, cs_last_news := x\<rparr>\<rparr>))"
    for f x
    using client_okD(2) [OF c] by (auto simp: s intro!: safe_intros)
  then show "safe (on_news_leak t d h c)" by (simp add: on_news_leak_def i1(1))
  let ?m2 = "map (mark_market ?out) (cs_mkt ?st)"
  obtain i2 where i2: "mark_inventory (?st\<lparr>cs_frozen_mask := ?out, cs_mkt := ?m2\<rparr>) = Some (?st\<lparr>cs_frozen_mask := ?out, cs_mkt := ?m2, cs_inv := i2\<rparr>)"
    "length i2 = MAX_INVEN_SIZE" "\<forall>it \<in> set i2. few_tags (ii_tags it)"
    using mark_inventory_some [of "?st\<lparr>cs_frozen_mask := ?out, cs_mkt := ?m2\<rparr>"] ok by (auto simp: st_ok_def)
  have "st_ok (?st\<lparr>cs_frozen_mask := ?out, cs_mkt := ?m2, cs_inv := i2\<rparr>)"
    using ok i2(2,3) by (auto simp: st_ok_def score_ok_def mark_market_def)
  then show "safe (on_news_recover t c)" using client_okD(2) [OF c] by (auto simp: on_news_recover_def i2(1) s intro!: safe_intros)
qed


lemma safe_on_minigame_ok: "client_ok c \<Longrightarrow> safe (on_minigame_ok c)"
  by (auto simp: on_minigame_ok_def intro!: safe_intros)

lemma safe_game_over_exit: "client_ok c \<Longrightarrow> whole_chars m \<Longrightarrow> length m \<le> 255 \<Longrightarrow> safe (game_over_exit m c)"
  using render_game_over_some [of m "cl_w c"] by (auto simp: game_over_exit_def)

lemma st_ok_reset: "st_ok st \<Longrightarrow> st_ok (st\<lparr>cs_mkt := [], cs_npc := [], cs_inv_count := 0, cs_frozen_mask := 0,
     cs_my_money := a, cs_my_goal := b, cs_last_news := [], cs_sb_escaped_count := 0, cs_sb_remaining_count := 0, cs_sb_chat_count := 0\<rparr>)"
  by (simp add: st_ok_def score_ok_def)

lemma safe_on_game_over: "client_ok c \<Longrightarrow> whole_chars m \<Longrightarrow> length m \<le> 255 \<Longrightarrow> safe (on_game_over m c)"
  by (auto simp: on_game_over_def Let_def client_okD st_ok_reset intro!: safe_intros safe_game_over_exit)

lemma safe_on_scoreboard:
  "client_ok c \<Longrightarrow> fair (Evt_scoreboard cd ec es rc rs) \<Longrightarrow> safe (on_scoreboard cd ec es rc rs c)"
  by (auto simp: on_scoreboard_def Let_def client_ok_def st_ok_def score_ok_def length_overwrite intro!: safe_shows)

lemma safe_on_inven_info:
  assumes "client_ok c" "fair (Res_inven_info n its money)"
  shows "safe (on_inven_info n its money c)"
proof -
  have "\<forall>it \<in> set (overwrite its (cs_inv (cl_state c))). few_tags (ii_tags it)"
    using assms set_overwrite [of its "cs_inv (cl_state c)"] by (fastforce simp: client_ok_def st_ok_def)
  then have "st_ok ((cl_state c)\<lparr>cs_inv_count := n, cs_inv := overwrite its (cs_inv (cl_state c)), cs_my_money := money\<rparr>)"
    using assms by (simp add: client_ok_def st_ok_def score_ok_def length_overwrite)
  then show ?thesis using assms by (auto simp: on_inven_info_def client_okD intro!: safe_intros)
qed

lemma safe_money:
  "client_ok c \<Longrightarrow> safe (on_buy_ok d k n c)" "client_ok c \<Longrightarrow> safe (on_sell_ok b k c)"
  by (auto simp: on_buy_ok_def on_sell_ok_def client_okD intro!: safe_intros)

lemma safe_on_police_raid: "client_ok c \<Longrightarrow> client_ok (on_police_raid p t c)"
  by (simp add: on_police_raid_def Let_def client_ok_def)

lemma safe_handle_packet:
  assumes "client_ok c" "fair m"
  shows "safe (handle_packet m c)"
  using assms
  by (cases m) (auto simp: handle_packet_def start_glitch_def client_okD intro!: safe_intros safe_on_chat safe_spawns
      safe_removes safe_news safe_money safe_on_minigame_ok safe_on_game_over safe_game_over_exit safe_on_scoreboard
      safe_on_inven_info safe_on_police_raid)

lemma safe_ticks: "client_ok c \<Longrightarrow> safe (ticks c)"
proof -
  have "safe (round_end_tick d)" "safe (glitch_tick d)" if "client_ok d" for d
    using that by (auto simp: round_end_tick_def glitch_tick_def Let_def intro!: safe_intros)
  moreover have "client_ok (panic_tick d)" if "client_ok d" for d
    using that by (simp add: panic_tick_def Let_def)
  ultimately show "client_ok c \<Longrightarrow> safe (ticks c)" by (auto simp: ticks_def intro!: safe_bind)
qed

lemma client_ok_input [simp]: "client_ok (c\<lparr>cl_input := s\<rparr>) \<longleftrightarrow> st_ok (cl_state c) \<and> length s < INPUT_MAX"
  by (simp add: client_ok_def)

lemma after_key_ok [simp]: "client_ok (after_key c) = client_ok c"
  by (simp add: after_key_def)

lemma test_text_whole: "whole_chars (utf8 [0xB85C, 0xCEEC, 0x20, 0xAC15, 0xC81C, 0x20, 0xAC8C, 0xC784, 0xC624, 0xBC84, 0x20, 0xD14C, 0xC2A4, 0xD2B8])"
  using wrap_utf8 [of "[0xB85C, 0xCEEC, 0x20, 0xAC15, 0xC81C, 0x20, 0xAC8C, 0xC784, 0xC624, 0xBC84, 0x20, 0xD14C, 0xC2A4, 0xD2B8]" 2 "[]"]
    wrap_none_cong [of 0 _ "[]" 0 2 "[]" 0]
  by (auto simp: whole_chars_def code_point_def simp del: utf8_simps(2))

lemma utf8_length: "length (utf8 cs) \<le> 4 * length cs"
proof -
  have "length (utf8_char c) \<le> 4" for c by (simp add: utf8_char_def)
  then show ?thesis by (induction cs) (auto intro: add_mono)
qed

lemma safe_run_command: "client_ok c \<Longrightarrow> safe (run_command c)"
  using test_text_whole utf8_length [of "[0xB85C, 0xCEEC, 0x20, 0xAC15, 0xC81C, 0x20, 0xAC8C, 0xC784, 0xC624, 0xBC84, 0x20, 0xD14C, 0xC2A4, 0xD2B8]"]
  by (auto simp: run_command_def Let_def start_glitch_def simp del: utf8_simps(2) intro!: safe_intros safe_game_over_exit)

lemma erase_char_length: "length (erase_char s) \<le> length s"
proof -
  have "length (erase_loop xs) \<le> length xs" for xs by (induction xs) auto
  from this [of "rev s"] show ?thesis by (simp add: erase_char_def)
qed

lemma safe_handle_key:
  assumes "client_ok c"
  shows "safe (handle_key ch c)"
proof -
  have "safe (key_enter c)"
    using assms by (auto simp: key_enter_def client_okD intro!: safe_bind safe_run_command)
  moreover have "safe (key_resize c)"
    using assms by (auto simp: key_resize_def Let_def client_okD intro!: safe_intros)
  moreover have "length (erase_char (cl_input c)) < INPUT_MAX"
    using erase_char_length [of "cl_input c"] client_okD(2) [OF assms] by linarith
  ultimately show ?thesis
    using assms by (auto simp: handle_key_def client_okD)
qed

lemma safe_handle_unknown: "client_ok c \<Longrightarrow> safe (handle_unknown p c)"
  by (simp add: handle_unknown_def when_normal_def)

text \<open>Of an arriving packet, only what the client makes of it matters.\<close>

fun fair_event :: "client_event \<Rightarrow> bool" where
  "fair_event (Packet_in r) \<longleftrightarrow> (0 < fst (packet_recv r) \<longrightarrow> (case msg_of (snd (packet_recv r)) of None \<Rightarrow> True | Some m \<Rightarrow> fair m))"
| "fair_event _ \<longleftrightarrow> True"

lemma safe_turn:
  assumes "client_ok c" "fair_event ev"
  shows "safe (turn ev c)"
proof (cases ev)
  case (Packet_in r)
  obtain rc p where r: "packet_recv r = (rc, p)" by (cases "packet_recv r")
  have "safe (case msg_of p of None \<Rightarrow> handle_unknown p (c\<lparr>g_in_raid := b\<rparr>) | Some m \<Rightarrow> handle_packet m (c\<lparr>g_in_raid := b\<rparr>))" if "\<not> rc \<le> 0" for b
    using assms that r Packet_in safe_handle_unknown by (auto split: option.splits intro!: safe_handle_packet)
  then show ?thesis using assms(1) r Packet_in by (auto simp: turn_def Let_def intro!: safe_bind safe_ticks)
qed (use assms in \<open>auto simp: turn_def Let_def intro!: safe_ticks safe_handle_key\<close>)

lemma step_safe:
  assumes "client_ok c" "fair_event ev"
  shows "safe (client_step ev c)"
proof (cases ev)
  case Sigint
  then show ?thesis using assms(1) by (simp add: client_step_def handle_sigint_def)
qed (use assms safe_turn in \<open>auto simp: client_step_def\<close>)

text \<open>C20: The client stays inside its arrays: from a state whose counts fit, every key, signal, clock tick or packet leads
  to a state whose counts fit again, with every listing on the screen marked frozen exactly when it has a frozen tag.
  Of an arriving packet this asks that its counts fit the client's arrays, that its masks hold at most five tags, and
  that the text of a GAME_OVER or VICTORY has fewer than 256 bytes and does not end inside a character; a packet that
  breaks the last two does overrun a buffer (\<open>full_mask_overflows_client\<close>, \<open>wrap_overruns_cut_text\<close>).\<close>
theorem client_step_safe:
  assumes "client_ok c" "fair_event ev"
  shows "\<exists>c'. client_step ev c = Some c' \<and> client_ok c'"
  using step_safe [OF assms] by (simp add: safe_def)


text \<open>The loop is running and nobody asked it to stop.\<close>

definition ready :: "client \<Rightarrow> bool" where
  "ready c \<longleftrightarrow> cl_running c \<and> \<not> cl_exited c \<and> \<not> g_quit_req c"

lemma fresh_client_ok: "client_ok (fresh_client now h w money goal)"
  by (simp add: client_ok_def fresh_client_def st_ok_def score_ok_def zero_client_state_def few_tags_def shown_tags_def zero_item_def)

lemma fresh_client_sel: "cl_running (fresh_client now h w i g)" "\<not> cl_exited (fresh_client now h w i g)"
    "\<not> g_quit_req (fresh_client now h w i g)" "cl_mode (fresh_client now h w i g) = STATE_NORMAL"
    "cl_input (fresh_client now h w i g) = []" "cl_w (fresh_client now h w i g) = w" "cl_sent (fresh_client now h w i g) = []"
  by (simp_all add: fresh_client_def)

theorem client_step_safe_witness:
  "\<exists>c'. client_step (Key 65) (fresh_client 0 30 100 1000 10000) = Some c' \<and> client_ok c'"
  by (rule client_step_safe [OF fresh_client_ok]) simp

text \<open>C32: A frozen mask of all twelve tags overruns the client's 128-byte tag buffer: to a running client in the normal
  mode, the packet that tells it which tags are frozen makes \<open>tags_to_str\<close> write behind that buffer.\<close>
theorem full_mask_overflows_client:
  assumes "\<forall>t. bit m (tag_index t)" "msg_ok (Evt_news_leak m d h)"
    and "cl_mode c = STATE_NORMAL" "cl_running c" "\<not> cl_exited c" "\<not> g_quit_req c"
  shows "client_step (Packet_in (Received (packet_wire (packet_of (Evt_news_leak m d h))))) c = None"
proof -
  have "on_news_leak m d h e = None" if "cl_mode e = STATE_NORMAL" for e
  proof (cases "mark_inventory ((cl_state e)\<lparr>cs_frozen_mask := cs_frozen_mask (cl_state e) OR m,
      cs_mkt := map (\<lambda>x. if um_tags x AND (cs_frozen_mask (cl_state e) OR m) \<noteq> 0 then x\<lparr>um_is_frozen := True\<rparr> else x) (cs_mkt (cl_state e))\<rparr>)")
    case None
    then show ?thesis by (simp add: on_news_leak_def)
  next
    case (Some st)
    then show ?thesis using that all_tags_overflow [OF assms(1)] by (simp add: on_news_leak_def when_normal_def bind_eq_None_conv)
  qed
  then show ?thesis
    using assms(3-) packet_received [OF assms(2)] by (simp add: client_step_def turn_def handle_packet_def)
qed

theorem full_mask_overflows_client_witness:
  "client_step (Packet_in (Received (packet_wire (packet_of (Evt_news_leak 0xFFF 0 ''sync''))))) (fresh_client 0 30 100 1000 10000) = None"
proof (rule full_mask_overflows_client)
  show "\<forall>t. bit (0xFFF :: tags) (tag_index t)"
  proof
    fix t show "bit (0xFFF :: tags) (tag_index t)" by (cases t) simp_all
  qed
qed (simp_all add: fresh_client_sel fits_def no_nul_def)

section \<open>Locked modes\<close>

text \<open>What drawing leaves alone.\<close>

definition same :: "client \<Rightarrow> client \<Rightarrow> bool" where
  "same c d \<longleftrightarrow> cl_state d = cl_state c \<and> cl_mode d = cl_mode c \<and> cl_input d = cl_input c \<and> cl_sent d = cl_sent c
     \<and> cl_running d = cl_running c \<and> g_quit_req d = g_quit_req c \<and> g_in_raid d = g_in_raid c"

lemma same_shows:
  "show_market c = Some d \<Longrightarrow> same c d" "show_bounty c = Some d \<Longrightarrow> same c d" "show_inventory c = Some d \<Longrightarrow> same c d"
  "show_scoreboard r c = Some d \<Longrightarrow> same c d"
  by (auto simp: show_market_def show_bounty_def show_inventory_def show_scoreboard_def same_def bind_eq_Some_conv)

lemma same_redraw: "redraw c = Some d \<Longrightarrow> same c d"
  by (fastforce simp: redraw_def draw_ui_def bind_eq_Some_conv same_def dest!: same_shows split: if_splits)

definition no_packet :: "client_event \<Rightarrow> bool" where
  "no_packet ev \<longleftrightarrow> (case ev of Packet_in r \<Rightarrow> False | _ \<Rightarrow> True)"

text \<open>A step that sends only requests of the given kind.\<close>

definition sends :: "(msg \<Rightarrow> bool) \<Rightarrow> client \<Rightarrow> client \<Rightarrow> bool" where
  "sends P c d \<longleftrightarrow> (\<exists>ms. cl_sent d = cl_sent c @ ms \<and> (\<forall>m \<in> set ms. P m))"

lemma sends_refl: "cl_sent d = cl_sent c \<Longrightarrow> sends P c d"
  by (simp add: sends_def)

lemma sends_trans: "sends P c d \<Longrightarrow> sends P d e \<Longrightarrow> sends P c e"
  by (fastforce simp: sends_def)

definition is_submit :: "msg \<Rightarrow> bool" where "is_submit m \<longleftrightarrow> (\<exists>p. m = Req_minigame_submit p)"
definition is_chat :: "msg \<Rightarrow> bool" where "is_chat m \<longleftrightarrow> (\<exists>t. m = Req_chat t)"

lemma after_key_sel [simp]:
  "cl_mode (after_key c) = cl_mode c" "cl_sent (after_key c) = cl_sent c" "g_quit_req (after_key c) = g_quit_req c"
  "g_in_raid (after_key c) = g_in_raid c" "cl_input (after_key c) = cl_input c" "cl_state (after_key c) = cl_state c"
  "cl_running (after_key c) = cl_running c" "cl_exited (after_key c) = cl_exited c" "cl_w (after_key c) = cl_w c"
  by (simp_all add: after_key_def)

lemma panic_key:
  "cl_mode c = STATE_PANIC \<Longrightarrow> handle_key ch c = Some d \<Longrightarrow>
   cl_mode d = STATE_PANIC \<and> g_quit_req d = g_quit_req c \<and> g_in_raid d = g_in_raid c \<and> sends is_submit c d"
  by (auto simp: handle_key_def key_enter_def key_resize_def Let_def sends_def is_submit_def split: if_splits)

lemma panic_ticks:
  "cl_mode c = STATE_PANIC \<Longrightarrow> ticks c = Some d \<Longrightarrow>
   cl_mode d = STATE_PANIC \<and> g_quit_req d = g_quit_req c \<and> g_in_raid d = g_in_raid c \<and> cl_sent d = cl_sent c"
  by (auto simp: ticks_def panic_tick_def round_end_tick_def glitch_tick_def Let_def split: if_splits)

lemma panic_step:
  assumes "client_step ev c = Some d" "cl_mode c = STATE_PANIC" "g_in_raid c" "\<not> g_quit_req c" "no_packet ev"
  shows "cl_mode d = STATE_PANIC \<and> g_in_raid d \<and> \<not> g_quit_req d \<and> sends is_submit c d"
proof (cases "cl_exited c \<or> \<not> cl_running c")
  case True
  then show ?thesis using assms by (simp add: client_step_def sends_refl)
next
  case False
  show ?thesis
  proof (cases ev)
    case (Key ch)
    then show ?thesis using assms False panic_key [of "c\<lparr>g_in_raid := True\<rparr>" ch d] by (simp add: client_step_def turn_def sends_def)
  next
    case Idle
    then show ?thesis using assms False panic_ticks [of "c\<lparr>g_in_raid := True\<rparr>" d] by (simp add: client_step_def turn_def sends_def)
  qed (use assms False in \<open>auto simp: client_step_def handle_sigint_def no_packet_def sends_def\<close>)
qed

lemma round_end_key:
  "cl_mode c = STATE_ROUND_END \<Longrightarrow> handle_key ch c = Some d \<Longrightarrow> cl_mode d = STATE_ROUND_END \<and> sends is_chat c d"
  by (auto simp: handle_key_def key_enter_def key_resize_def Let_def sends_def is_chat_def bind_eq_Some_conv same_def
      split: if_splits dest!: same_redraw same_shows)

lemma round_end_ticks:
  "cl_mode c = STATE_ROUND_END \<Longrightarrow> ticks c = Some d \<Longrightarrow> cl_mode d = STATE_ROUND_END \<and> cl_sent d = cl_sent c"
  by (auto simp: ticks_def panic_tick_def round_end_tick_def glitch_tick_def Let_def bind_eq_Some_conv same_def
      split: if_splits dest!: same_shows)

lemma round_end_step:
  assumes "client_step ev c = Some d" "cl_mode c = STATE_ROUND_END" "no_packet ev"
  shows "cl_mode d = STATE_ROUND_END \<and> sends is_chat c d"
proof (cases "cl_exited c \<or> \<not> cl_running c")
  case True
  then show ?thesis using assms by (simp add: client_step_def sends_refl)
next
  case False
  show ?thesis
  proof (cases ev)
    case (Key ch)
    then show ?thesis using assms False round_end_key [of "c\<lparr>g_in_raid := False\<rparr>" ch d]
      by (auto simp: client_step_def turn_def Let_def sends_def split: if_splits)
  next
    case Idle
    then show ?thesis using assms False round_end_ticks [of "c\<lparr>g_in_raid := False\<rparr>" d]
      by (auto simp: client_step_def turn_def Let_def sends_def split: if_splits)
  qed (use assms False in \<open>auto simp: client_step_def handle_sigint_def no_packet_def sends_def\<close>)
qed

lemma panic_run:
  assumes "client_run evs c = Some d" "\<forall>ev \<in> set evs. no_packet ev"
    and "cl_mode c = STATE_PANIC" "g_in_raid c" "\<not> g_quit_req c"
  shows "cl_mode d = STATE_PANIC \<and> \<not> g_quit_req d \<and> sends is_submit c d"
  using assms
proof (induction evs arbitrary: c)
  case Nil
  then show ?case by (simp add: sends_refl)
next
  case (Cons ev evs)
  then obtain e where e: "client_step ev c = Some e" "client_run evs e = Some d" by (auto simp: bind_eq_Some_conv)
  have "cl_mode e = STATE_PANIC \<and> g_in_raid e \<and> \<not> g_quit_req e \<and> sends is_submit c e"
    by (rule panic_step [OF e(1)]) (use Cons.prems in simp_all)
  then show ?case using Cons.IH [OF e(2)] Cons.prems(2) sends_trans by auto
qed

lemma panic_enter:
  assumes "cl_mode d = STATE_PANIC" "ready d"
  shows "\<exists>e. client_step (Key 10) d = Some e \<and>
    (if cl_input d = ''/quit'' then \<not> cl_running e \<and> cl_sent e = cl_sent d
     else cl_running e \<and> cl_input e = [] \<and> cl_sent e = cl_sent d @ [Req_minigame_submit (take 255 (cl_input d))])"
  using assms by (simp add: client_step_def turn_def Let_def ready_def handle_key_def key_enter_def send_def c_strncpy_def)

text \<open>C30: Under a raid the client does nothing but answer it. Until a packet arrives, whatever keys and signals come, it
  stays in the raid, no request but passcodes leaves it, and Ctrl+C does not end it; and at every moment Enter sends
  exactly the line typed (its first 255 bytes) as the passcode and clears it, except that the line \<open>/quit\<close> is not sent
  but ends the client, which, once ended, sends nothing.\<close>
theorem panic_only_answers:
  assumes "client_run evs c = Some d" "\<forall>ev \<in> set evs. no_packet ev"
    and "cl_mode c = STATE_PANIC" "g_in_raid c" "\<not> g_quit_req c"
  shows "cl_mode d = STATE_PANIC \<and> \<not> g_quit_req d \<and> sends is_submit c d \<and>
    (\<exists>e. client_step (Key 10) d = Some e \<and>
      (if \<not> ready d then e = d
       else if cl_input d = ''/quit'' then \<not> cl_running e \<and> cl_sent e = cl_sent d
       else cl_running e \<and> cl_input e = [] \<and> cl_sent e = cl_sent d @ [Req_minigame_submit (take 255 (cl_input d))]))"
proof (cases "ready d")
  case True
  then show ?thesis using panic_run [OF assms] panic_enter [of d] by simp
next
  case False
  then show ?thesis using panic_run [OF assms] by (auto simp: client_step_def ready_def)
qed

definition key_of :: "char \<Rightarrow> client_event" where
  "key_of b = Key (int (of_char b :: nat))"

text \<open>Bytes the input line takes: no control byte and no DEL.\<close>

definition printable :: "string \<Rightarrow> bool" where
  "printable s \<longleftrightarrow> (\<forall>b \<in> set s. 32 \<le> (of_char b :: nat) \<and> (of_char b :: nat) \<noteq> 127)"

lemma type_byte:
  assumes "ready c" "printable [b]" "length (cl_input c) < 255" "int (length (cl_input c)) < cl_w c - 45"
  shows "client_step (key_of b) c = Some (after_key (c\<lparr>g_in_raid := cl_mode c = STATE_PANIC, cl_input := cl_input c @ [b]\<rparr>))"
proof -
  have b: "32 \<le> (of_char b :: nat)" "(of_char b :: nat) \<noteq> 127" "(of_char b :: nat) < 256"
    using assms(2) nat_of_char_less_256 [of b] by (auto simp: printable_def)
  then have "32 \<le> int (of_char b :: nat)" "int (of_char b :: nat) \<noteq> 127" "int (of_char b :: nat) \<le> 255" by linarith+
  then show ?thesis using assms by (simp add: key_of_def client_step_def turn_def Let_def ready_def handle_key_def)
qed

definition raided_client :: client where
  "raided_client = (on_police_raid ''GHOsT'' 15 (fresh_client 0 30 100 1000 10000))\<lparr>g_in_raid := True\<rparr>"

lemma raided_client_sel: "cl_mode raided_client = STATE_PANIC" "g_in_raid raided_client" "\<not> g_quit_req raided_client" "ready raided_client"
    "cl_input raided_client = []" "cl_w raided_client = 100" "cl_sent raided_client = []"
  by (simp_all add: raided_client_def on_police_raid_def Let_def fresh_client_sel ready_def)

lemma raided_client_ok: "client_ok raided_client"
  using safe_on_police_raid [OF fresh_client_ok] by (simp add: raided_client_def)

theorem panic_only_answers_witness:
  "\<exists>d e. client_run [Sigint, Key 71, Sigint] raided_client = Some d \<and> cl_mode d = STATE_PANIC \<and> \<not> g_quit_req d \<and>
     client_step (Key 10) d = Some e \<and> cl_sent e = [Req_minigame_submit ''G'']"
proof -
  have key: "key_of CHR ''G'' = Key 71" by (simp add: key_of_def)
  have "client_step Sigint c = Some c" if "g_in_raid c" for c using that by (simp add: client_step_def handle_sigint_def)
  moreover define d where "d = after_key (raided_client\<lparr>g_in_raid := True, cl_input := [] @ [CHR ''G'']\<rparr>)"
  moreover have "client_step (Key 71) raided_client = Some d"
    using type_byte [of raided_client "CHR ''G''"] raided_client_sel by (simp add: key d_def printable_def)
  ultimately have run: "client_run [Sigint, Key 71, Sigint] raided_client = Some d" by (simp add: raided_client_sel)
  have "ready d" "cl_input d = ''G''" "cl_sent d = []" using raided_client_sel by (simp_all add: d_def ready_def)
  then show ?thesis using panic_only_answers [OF run] raided_client_sel run by (auto simp: no_packet_def)
qed

lemma round_end_run:
  assumes "client_run evs c = Some d" "\<forall>ev \<in> set evs. no_packet ev" "cl_mode c = STATE_ROUND_END"
  shows "cl_mode d = STATE_ROUND_END \<and> sends is_chat c d"
  using assms
proof (induction evs arbitrary: c)
  case Nil
  then show ?case by (simp add: sends_refl)
next
  case (Cons ev evs)
  then obtain e where e: "client_step ev c = Some e" "client_run evs e = Some d" by (auto simp: bind_eq_Some_conv)
  have "cl_mode e = STATE_ROUND_END \<and> sends is_chat c e"
    by (rule round_end_step [OF e(1)]) (use Cons.prems in simp_all)
  then show ?case using Cons.IH [OF e(2)] Cons.prems(2) sends_trans by auto
qed

section \<open>Typing\<close>

lemma type_text:
  "ready c \<Longrightarrow> printable s \<Longrightarrow> length (cl_input c) + length s \<le> 255 \<Longrightarrow> int (length (cl_input c) + length s) \<le> cl_w c - 45 \<Longrightarrow>
   \<exists>d. client_run (map key_of s) c = Some d \<and> ready d \<and> cl_input d = cl_input c @ s \<and> cl_sent d = cl_sent c \<and> cl_mode d = cl_mode c"
proof (induction s arbitrary: c)
  case (Cons b s)
  define d where "d = after_key (c\<lparr>g_in_raid := cl_mode c = STATE_PANIC, cl_input := cl_input c @ [b]\<rparr>)"
  have "client_step (key_of b) c = Some d"
    unfolding d_def using Cons.prems by (intro type_byte) (auto simp: printable_def)
  moreover have "ready d" "printable s" "cl_input d = cl_input c @ [b]" "cl_sent d = cl_sent c" "cl_mode d = cl_mode c" "cl_w d = cl_w c"
    using Cons.prems by (auto simp: d_def ready_def printable_def)
  ultimately show ?case using Cons.IH [of d] Cons.prems by auto
qed auto


text \<open>The line a player types for a request.\<close>

fun command_text :: "msg \<Rightarrow> string" where
  "command_text (Req_buy d) = ''/buy '' @ show_int d"
| "command_text (Req_dispose d) = ''/dispose '' @ show_int d"
| "command_text Req_inven = ''/inventory''"
| "command_text (Req_rumor k) = ''/rumor '' @ k"
| "command_text (Req_sell n c ds) = ''/sell '' @ show_int n @ concat (map (\<lambda>d. '' '' @ show_int d) (take (nat c) ds))"
| "command_text (Req_chat t) = t"
| "command_text _ = []"

fun typable :: "msg \<Rightarrow> bool" where
  "typable (Req_buy d) \<longleftrightarrow> True"
| "typable (Req_dispose d) \<longleftrightarrow> True"
| "typable Req_inven \<longleftrightarrow> True"
| "typable (Req_rumor k) \<longleftrightarrow> True"
| "typable (Req_sell n c ds) \<longleftrightarrow> 0 \<le> c \<and> c \<le> int MAX_INVEN_SIZE \<and> drop (nat c) ds = replicate (MAX_INVEN_SIZE - nat c) 0"
| "typable (Req_chat t) \<longleftrightarrow> take 1 t \<noteq> ''/''"
| "typable _ \<longleftrightarrow> False"

lemma show_int_word: "show_int i \<noteq> []" "CHR '' '' \<notin> set (show_int i)"
  using hd_show_nat [of "nat i"] show_int_chars [of "CHR '' ''" i] by (auto simp: show_int_def)

lemma atoi_show: "int32_range i \<Longrightarrow> atoi (show_int i) = i"
  using atoi_show_int [of i "[]"] by simp

lemma parse_sell_text:
  assumes "msg_ok (Req_sell n c ds)" "typable (Req_sell n c ds)"
  shows "parse_sell (show_int n @ concat (map (\<lambda>d. '' '' @ show_int d) (take (nat c) ds))) = Req_sell n c ds"
proof -
  let ?ids = "take (nat c) ds"
  have c: "nat c \<le> 7" "length ds = 7" "0 \<le> c" using assms by auto
  have "tokens (CHR '' '') (show_int n @ concat (map (\<lambda>d. '' '' @ show_int d) ?ids)) = show_int n # map show_int ?ids"
    using tokens_words [of "show_int n" "map show_int ?ids" "CHR '' ''"] show_int_word by (auto simp: comp_def)
  moreover have "map atoi (take 7 (map show_int ?ids)) = ?ids"
  proof -
    have "map (\<lambda>d. atoi (show_int d)) ?ids = ?ids"
      using assms(1) by (intro map_idI) (auto simp: atoi_show dest: in_set_takeD)
    then show ?thesis using c by (simp add: take_map comp_def min_def)
  qed
  moreover have "fill 7 0 ?ids = ds"
    using assms(2) c append_take_drop_id [of "nat c" ds] by (simp add: fill_def min_def)
  moreover have "int (length ?ids) = c" using c by simp
  moreover have "atoi (show_int n) = n" using assms(1) by (simp add: atoi_show)
  ultimately show ?thesis by (simp only: parse_sell_def Let_def list.case)
qed

lemma parse_text:
  assumes "msg_ok m" "typable m"
  shows "parse_command (command_text m) = m"
proof (cases m)
  case (Req_sell n c ds)
  then show ?thesis using parse_sell_text assms by (simp add: parse_command_def starts_with_def c_strncmp_eq_def del: typable.simps)
next
  case (Req_chat t)
  have "t = [] \<or> hd t \<noteq> CHR ''/''" using assms(2) Req_chat by (cases t) auto
  then have "parse_command t = Req_chat (take 255 t)"
    by (cases t) (auto simp: parse_command_def starts_with_def c_strncmp_eq_def c_strncpy_def)
  then show ?thesis using assms(1) Req_chat by (simp add: fits_def)
qed (use assms in \<open>auto simp: parse_command_def starts_with_def c_strncmp_eq_def atoi_show fits_def c_strncpy_def\<close>)

lemma command_text_not_local:
  assumes "typable m"
  shows "command_text m \<notin> {''/quit'', ''/fake rumor'', ''/fake raid'', ''/fake leak'', ''/fake rich'', ''/fake endround'', ''/fake ok'', ''/fake over''}"
  using assms by (cases m) auto

lemma client_run_snoc: "client_run (evs @ [ev]) c = (case client_run evs c of None \<Rightarrow> None | Some d \<Rightarrow> client_step ev d)"
  by (induction evs arbitrary: c) (auto split: option.split Option.bind_splits)

lemma erase_utf8:
  assumes "code_point u"
  shows "erase_char (i @ utf8_char u) = i"
proof -
  have tail: "continuation (char_of (128 + k :: nat))" if "k < 64" for k
    using that by (simp add: continuation_def of_char_of)
  have "\<not> continuation (char_of k)" if "k < 128 \<or> 192 \<le> k \<and> k < 256" for k :: nat
    using that by (auto simp: continuation_def of_char_of)
  moreover have "192 + u div 64 < 256" if "u < 2048" using that by auto
  moreover have "224 + u div 4096 < 256" if "u < 65536" using that by auto
  moreover have "240 + u div 262144 < 256" using assms by (auto simp: code_point_def)
  ultimately show ?thesis using tail by (auto simp: erase_char_def utf8_char_def)
qed

text \<open>C26: Typing a command sends it: from an empty line in normal mode, the keys of the text of a purchase, sale,
  disposal, inventory request, rumor or chat line and Enter send exactly that request and clear the line, provided the
  text fits the line and holds no control byte.\<close>
theorem typed_command_is_sent:
  assumes "ready c" "cl_mode c = STATE_NORMAL" "cl_input c = []"
    and "msg_ok m" "typable m" "printable (command_text m)"
    and "length (command_text m) \<le> 255" "int (length (command_text m)) \<le> cl_w c - 45"
  shows "\<exists>d. client_run (map key_of (command_text m) @ [Key 10]) c = Some d \<and> cl_sent d = cl_sent c @ [m]
    \<and> cl_input d = [] \<and> cl_mode d = STATE_NORMAL"
proof -
  obtain d where d: "client_run (map key_of (command_text m)) c = Some d" "ready d" "cl_input d = command_text m"
    "cl_sent d = cl_sent c" "cl_mode d = STATE_NORMAL"
    using type_text [OF assms(1,6)] assms(2,3,7,8) by auto
  have "client_step (Key 10) d = Some (after_key ((send m (d\<lparr>g_in_raid := False\<rparr>))\<lparr>cl_input := []\<rparr>))"
    using d(2,3,5) command_text_not_local [OF assms(5)] parse_text [OF assms(4,5)]
    by (simp add: client_step_def turn_def Let_def ready_def handle_key_def key_enter_def run_command_def)
  then show ?thesis using d by (simp add: client_run_snoc ready_def)
qed

theorem typed_command_is_sent_witness:
  "\<exists>d. client_run (map key_of ''/sell 201 124 47'' @ [Key 10]) (fresh_client 0 30 100 1000 10000) = Some d \<and>
     cl_sent d = [Req_sell 201 2 [124, 47, 0, 0, 0, 0, 0]]"
proof -
  let ?c = "fresh_client 0 30 100 1000 10000" and ?m = "Req_sell 201 2 [124, 47, 0, 0, 0, 0, 0]"
  have ct: "command_text ?m = ''/sell 201 124 47''" by code_simp
  have "ready ?c" by (simp add: ready_def fresh_client_sel)
  moreover have "msg_ok ?m" "typable ?m" "printable ''/sell 201 124 47''"
    by (simp_all add: int32_range_def numeral_eq_Suc printable_def) (code_simp)?
  ultimately show ?thesis using typed_command_is_sent [of ?c ?m, unfolded ct] by (auto simp: fresh_client_sel)
qed

text \<open>Backspace removes what one character typed: the bytes of any printable character followed by Backspace leave
  the line as it was, in every mode.\<close>
theorem backspace_undoes_character:
  assumes "ready c" "code_point u" "printable (utf8_char u)"
    and "length (cl_input c) + length (utf8_char u) \<le> 255" "int (length (cl_input c) + length (utf8_char u)) \<le> cl_w c - 45"
  shows "\<exists>d. client_run (map key_of (utf8_char u) @ [Key KEY_BACKSPACE]) c = Some d \<and> cl_input d = cl_input c \<and> cl_sent d = cl_sent c"
proof -
  obtain d where d: "client_run (map key_of (utf8_char u)) c = Some d" "ready d" "cl_input d = cl_input c @ utf8_char u"
    "cl_sent d = cl_sent c"
    using type_text [OF assms(1,3-5)] by blast
  have "client_step (Key KEY_BACKSPACE) d = Some (after_key (d\<lparr>g_in_raid := cl_mode d = STATE_PANIC, cl_input := erase_char (cl_input d)\<rparr>))"
    using d(2) by (simp add: client_step_def turn_def Let_def ready_def handle_key_def)
  moreover have "erase_char (cl_input d) = cl_input c" unfolding d(3) by (rule erase_utf8 [OF assms(2)])
  ultimately show ?thesis using d(1,4) by (simp add: client_run_snoc)
qed

theorem backspace_undoes_character_witness:
  "\<exists>d. client_run (map key_of (utf8_char 0xAC00) @ [Key KEY_BACKSPACE]) (fresh_client 0 30 100 1000 10000) = Some d \<and> cl_input d = []"
  using backspace_undoes_character [of "fresh_client 0 30 100 1000 10000" "0xAC00"]
  by (auto simp: ready_def fresh_client_sel code_point_def printable_def utf8_char_def of_char_of)

end
