(* ===== verification/Mirror.thy ===== *)
theory Mirror
  imports ClientProps MarketSpec Session Shop
begin

text \<open>
  The two ends together: the client's list of listings is the server's board. What a client makes of each packet about
  the board, and the client that joins late: once it has handled what the login sends it, it shows exactly the listings
  of the abstract board of \<open>MarketSpec\<close>, each marked frozen exactly when it is. \<open>Live\<close> carries this on over the
  server's operations.
\<close>

section \<open>Receiving\<close>

text \<open>The loop over packets that arrive one after another; a client that has ended, or been asked to, reads no more.\<close>

fun receive :: "msg list \<Rightarrow> client \<Rightarrow> client option" where
  "receive [] c = Some c"
| "receive (m # ms) c = (if ready c then Option.bind (handle_packet m c) (receive ms) else Some c)"

lemma receive_ended: "\<not> ready c \<Longrightarrow> receive ms c = Some c"
  by (cases ms) simp_all

lemma receive_append: "receive (ms @ ns) c = Option.bind (receive ms c) (receive ns)"
  by (induction ms arbitrary: c) (auto simp: receive_ended split: Option.bind_splits)

lemma safe_receive: "client_ok c \<Longrightarrow> \<forall>m \<in> set ms. fair m \<Longrightarrow> safe (receive ms c)"
  by (induction ms arbitrary: c) (auto intro!: safe_bind safe_handle_packet)

lemma receive_ready: "receive ms c = Some e \<Longrightarrow> ready e \<Longrightarrow> ready c"
  by (cases "ready c") (simp_all add: receive_ended)

text \<open>Packets that can end the client or change its mode, and packets about the board.\<close>

fun gentle :: "msg \<Rightarrow> bool" where
  "gentle (Evt_game_over t) \<longleftrightarrow> False"
| "gentle (Evt_victory t) \<longleftrightarrow> False"
| "gentle Res_minigame_ok \<longleftrightarrow> False"
| "gentle _ \<longleftrightarrow> True"

fun of_board :: "msg \<Rightarrow> bool" where
  "of_board (Evt_market_spawn d t p n) \<longleftrightarrow> True"
| "of_board (Evt_market_remove d) \<longleftrightarrow> True"
| "of_board (Evt_news_leak t dur h) \<longleftrightarrow> True"
| "of_board (Evt_news_recover t) \<longleftrightarrow> True"
| "of_board (Evt_game_over t) \<longleftrightarrow> True"
| "of_board _ \<longleftrightarrow> False"

lemma exited_draw [simp]: "cl_exited (draw_event x c) = cl_exited c"
  by (simp add: draw_event_def)

lemma exited_shows:
  "show_market c = Some d \<Longrightarrow> cl_exited d = cl_exited c" "show_bounty c = Some d \<Longrightarrow> cl_exited d = cl_exited c"
  "show_inventory c = Some d \<Longrightarrow> cl_exited d = cl_exited c" "show_scoreboard r c = Some d \<Longrightarrow> cl_exited d = cl_exited c"
  by (auto simp: show_market_def show_bounty_def show_inventory_def show_scoreboard_def bind_eq_Some_conv)

lemma ready_same: "same c d \<Longrightarrow> cl_exited d = cl_exited c \<Longrightarrow> ready d = ready c"
  by (simp add: ready_def same_def)

lemma ready_shows:
  "show_market c = Some d \<Longrightarrow> ready d = ready c" "show_bounty c = Some d \<Longrightarrow> ready d = ready c"
  "show_inventory c = Some d \<Longrightarrow> ready d = ready c" "show_scoreboard r c = Some d \<Longrightarrow> ready d = ready c"
  "show_boards c = Some d \<Longrightarrow> ready d = ready c"
proof -
  show 1: "show_market c = Some d \<Longrightarrow> ready d = ready c" for c d by (rule ready_same [OF same_shows(1) exited_shows(1)])
  show 2: "show_bounty c = Some d \<Longrightarrow> ready d = ready c" for c d by (rule ready_same [OF same_shows(2) exited_shows(2)])
  show 3: "show_inventory c = Some d \<Longrightarrow> ready d = ready c" for c d by (rule ready_same [OF same_shows(3) exited_shows(3)])
  show "show_scoreboard r c = Some d \<Longrightarrow> ready d = ready c" by (rule ready_same [OF same_shows(4) exited_shows(4)])
  show "show_boards c = Some d \<Longrightarrow> ready d = ready c" by (auto simp: show_boards_def bind_eq_Some_conv 1 2 3)
qed

lemma ready_sel [simp]:
  "ready (log_message s c) = ready c" "ready (draw_event x c) = ready c" "ready (send m c) = ready c"
  "ready (c\<lparr>cl_state := st\<rparr>) = ready c" "ready (c\<lparr>cl_mode := md\<rparr>) = ready c" "ready (c\<lparr>cl_input := i\<rparr>) = ready c"
  "ready (c\<lparr>cl_round_end_deadline := t\<rparr>) = ready c" "ready (c\<lparr>cl_last_round_end_remain := r\<rparr>) = ready c"
  "ready (c\<lparr>cl_panic_deadline := t\<rparr>) = ready c" "ready (c\<lparr>cl_last_panic_remain := r\<rparr>) = ready c"
  "ready (c\<lparr>cl_panic_passcode := p\<rparr>) = ready c" "ready (c\<lparr>cl_glitch_until := t\<rparr>) = ready c"
  "ready (c\<lparr>cl_last_glitch_ms := r\<rparr>) = ready c" "ready (c\<lparr>cl_middle_h := h\<rparr>) = ready c"
  by (simp_all add: ready_def log_message_def draw_event_def send_def)

lemma ready_when_normal:
  assumes "\<And>c d. f c = Some d \<Longrightarrow> ready d = ready c" "when_normal f c = Some d"
  shows "ready d = ready c"
  using assms by (auto simp: when_normal_def split: if_splits)

section \<open>The mirror\<close>

definition shown :: "spec_board \<Rightarrow> int \<Rightarrow> listing \<Rightarrow> ui_market" where
  "shown B d l = \<lparr>um_doc_id = d, um_tags = l_tags l, um_base_price = l_price l, um_name = l_name l, um_is_frozen = spec_frozen B l\<rparr>"

text \<open>The client lists every offer of the board once, as it is, and nothing else.\<close>

definition mirrors :: "client_state \<Rightarrow> spec_board \<Rightarrow> bool" where
  "mirrors st B \<longleftrightarrow> distinct (map um_doc_id (cs_mkt st)) \<and> cs_frozen_mask st = sb_frozen B \<and>
     set (cs_mkt st) = {shown B d l | d l. offers B d = Some l}"

lemma shown_sel [simp]: "um_doc_id (shown B d l) = d" "um_tags (shown B d l) = l_tags l"
  by (simp_all add: shown_def)

lemma mirrors_dom:
  assumes "mirrors st B"
  shows "length (cs_mkt st) = card (dom (offers B))"
proof -
  have "um_doc_id ` set (cs_mkt st) = dom (offers B)"
    using assms by (force simp: mirrors_def image_iff dom_def)
  then have "card (dom (offers B)) = card (set (map um_doc_id (cs_mkt st)))" by simp
  also have "\<dots> = length (cs_mkt st)" using assms by (simp only: mirrors_def distinct_card length_map)
  finally show ?thesis by simp
qed

section \<open>What the packets do to the state\<close>

text \<open>A gentle packet does not end the client, and a packet that is not about the board leaves the list of listings.\<close>

lemma gentle_packet:
  assumes "handle_packet m c = Some e" "gentle m"
  shows "ready e = ready c"
  using assms
  by (cases m)
    (auto simp: handle_packet_def on_chat_def note_news_def epilogue_chat_def start_glitch_def on_police_raid_def on_scoreboard_def
      on_market_spawn_def on_market_remove_def on_npc_spawn_def on_npc_despawn_def on_news_leak_def on_news_recover_def
      on_buy_ok_def on_sell_ok_def on_inven_info_def Let_def bind_eq_Some_conv
      split: if_splits dest!: ready_when_normal [rotated] ready_shows)

lemma gentle_receive: "receive ms c = Some e \<Longrightarrow> \<forall>m \<in> set ms. gentle m \<Longrightarrow> ready e = ready c"
  by (induction ms arbitrary: c) (auto simp: bind_eq_Some_conv receive_ended gentle_packet split: if_splits)

lemma when_normal_frame:
  assumes "\<And>c d. f c = Some d \<Longrightarrow> cl_state d = cl_state c" "when_normal f c = Some d"
  shows "cl_state d = cl_state c"
  using assms by (auto simp: when_normal_def split: if_splits)

lemma state_shows:
  "show_market c = Some d \<Longrightarrow> cl_state d = cl_state c" "show_bounty c = Some d \<Longrightarrow> cl_state d = cl_state c"
  "show_inventory c = Some d \<Longrightarrow> cl_state d = cl_state c" "show_boards c = Some d \<Longrightarrow> cl_state d = cl_state c"
  by (auto simp: show_boards_def bind_eq_Some_conv same_def dest!: same_shows)

abbreviation same_board :: "client \<Rightarrow> client \<Rightarrow> bool" where
  "same_board c e \<equiv> cs_mkt (cl_state e) = cs_mkt (cl_state c) \<and> cs_frozen_mask (cl_state e) = cs_frozen_mask (cl_state c)"

lemma state_redraw: "redraw c = Some d \<Longrightarrow> cl_state d = cl_state c"
  by (auto simp: same_def dest!: same_redraw)

lemma other_packet:
  assumes "handle_packet m c = Some e" "\<not> of_board m"
  shows "same_board c e"
  using assms
  by (cases m)
    (auto simp: handle_packet_def on_chat_def note_news_def epilogue_chat_def start_glitch_def on_police_raid_def on_scoreboard_def
      on_npc_spawn_def on_npc_despawn_def on_minigame_ok_def game_over_exit_def show_scoreboard_def
      on_buy_ok_def on_sell_ok_def on_inven_info_def Let_def bind_eq_Some_conv
      split: if_splits dest!: when_normal_frame [rotated] state_shows state_redraw)

lemma other_packets: "receive ms c = Some e \<Longrightarrow> \<forall>m \<in> set ms. \<not> of_board m \<Longrightarrow> same_board c e"
  by (induction ms arbitrary: c) (auto simp: bind_eq_Some_conv dest!: other_packet split: if_splits)

lemma mirrors_same: "mirrors (cl_state c) B \<Longrightarrow> same_board c e \<Longrightarrow> mirrors (cl_state e) B"
  by (simp add: mirrors_def)

lemma spawn_state:
  assumes "handle_packet (Evt_market_spawn d t p n) c = Some e"
  shows "cl_state e = (if length (cs_mkt (cl_state c)) < UI_MAX_MARKET
     then (cl_state c)\<lparr>cs_mkt := cs_mkt (cl_state c) @ [\<lparr>um_doc_id = d, um_tags = t, um_base_price = p, um_name = take 63 n,
       um_is_frozen = (t AND cs_frozen_mask (cl_state c) \<noteq> 0)\<rparr>]\<rparr> else cl_state c)"
  using assms
  by (auto simp: handle_packet_def on_market_spawn_def Let_def bind_eq_Some_conv mark_market_def c_strncpy_def
      dest!: when_normal_frame [rotated] state_shows split: if_splits)

lemma remove_state:
  assumes "handle_packet (Evt_market_remove d) c = Some e"
  shows "cl_state e = (cl_state c)\<lparr>cs_mkt := swap_remove (\<lambda>m. um_doc_id m = d) (cs_mkt (cl_state c))\<rparr>"
  using assms
  by (auto simp: handle_packet_def on_market_remove_def bind_eq_Some_conv dest!: when_normal_frame [rotated] state_shows)

lemma leak_state:
  assumes "handle_packet (Evt_news_leak t dur h) c = Some e"
  shows "cs_frozen_mask (cl_state e) = cs_frozen_mask (cl_state c) OR t"
    "cs_mkt (cl_state e) = map (\<lambda>m. if um_tags m AND (cs_frozen_mask (cl_state c) OR t) \<noteq> 0 then m\<lparr>um_is_frozen := True\<rparr> else m) (cs_mkt (cl_state c))"
  using assms
  by (auto simp: handle_packet_def on_news_leak_def bind_eq_Some_conv mark_inventory_def
      dest!: when_normal_frame [rotated] state_shows split: if_splits)

lemma recover_state:
  assumes "handle_packet (Evt_news_recover t) c = Some e"
  shows "cs_frozen_mask (cl_state e) = cs_frozen_mask (cl_state c) AND NOT t"
    "cs_mkt (cl_state e) = map (mark_market (cs_frozen_mask (cl_state c) AND NOT t)) (cs_mkt (cl_state c))"
  using assms
  by (auto simp: handle_packet_def on_news_recover_def bind_eq_Some_conv mark_inventory_def
      dest!: when_normal_frame [rotated] state_shows split: if_splits)

section \<open>One operation\<close>

lemma swap_remove_mset:
  "distinct (map f xs) \<Longrightarrow> set (swap_remove (\<lambda>x. f x = k) xs) = {x \<in> set xs. f x \<noteq> k} \<and> distinct (map f (swap_remove (\<lambda>x. f x = k) xs))"
proof (induction xs)
  case (Cons x xs)
  show ?case
  proof (cases "f x = k")
    case True
    have "f x \<notin> f ` set xs" using Cons.prems by simp
    then have notin: "\<forall>y \<in> set xs. f y \<noteq> k" using True by blast
    show ?thesis
    proof (cases "xs = []")
      case False
      have m: "mset (last xs # butlast xs) = mset xs" using False by (metis add_mset_add_single append_butlast_last_id mset.simps mset_append)
      then have "set (last xs # butlast xs) = set xs" by (rule mset_eq_setD)
      moreover have "distinct (map f (last xs # butlast xs))"
        using m Cons.prems by (metis distinct.simps(2) list.simps(9) mset_eq_imp_distinct_iff mset_map)
      ultimately show ?thesis using True False notin by (auto simp: Cons.prems)
    qed (use True in simp)
  qed (use Cons in auto)
qed simp

lemma mirror_remove:
  assumes "mirrors (cl_state c) B" "handle_packet (Evt_market_remove d) c = Some e"
  shows "mirrors (cl_state e) (B\<lparr>offers := (offers B)(d := None)\<rparr>)"
proof -
  have "spec_frozen (B\<lparr>offers := x\<rparr>) l = spec_frozen B l" for x l by (simp add: spec_frozen_def)
  then have "shown (B\<lparr>offers := x\<rparr>) k l = shown B k l" for x k l by (simp add: shown_def)
  then show ?thesis
    using assms(1) swap_remove_mset [of um_doc_id "cs_mkt (cl_state c)" d]
    by (auto simp: mirrors_def remove_state [OF assms(2)] split: if_splits)
qed

lemma mirror_removes:
  "mirrors (cl_state c) B \<Longrightarrow> ready c \<Longrightarrow> receive (map Evt_market_remove ds) c = Some e \<Longrightarrow>
   mirrors (cl_state e) (B\<lparr>offers := (offers B) |` (- set ds)\<rparr>)"
proof (induction ds arbitrary: c B)
  case (Cons d ds)
  then obtain f where f: "handle_packet (Evt_market_remove d) c = Some f" "receive (map Evt_market_remove ds) f = Some e"
    by (auto simp: bind_eq_Some_conv)
  have r: "ready f" using gentle_packet [OF f(1)] Cons.prems(2) by simp
  have eq: "(offers B)(d := None) |` (- set ds) = offers B |` (- set (d # ds))" by (rule ext) (simp add: restrict_map_def)
  have twice: "B\<lparr>offers := a\<rparr>\<lparr>offers := offers (B\<lparr>offers := a\<rparr>) |` S\<rparr> = B\<lparr>offers := a |` S\<rparr>" for a S by simp
  show ?case using Cons.IH [OF mirror_remove [OF Cons.prems(1) f(1)] r f(2)] unfolding twice eq .
next
  case Nil
  have "offers B |` UNIV = offers B" by (rule ext) simp
  with Nil show ?case by simp
qed

lemma mirrors_map:
  assumes "mirrors st B" "cs_mkt st' = map g (cs_mkt st)" "cs_frozen_mask st' = sb_frozen B'" "offers B' = offers B"
    and "\<And>m. um_doc_id (g m) = um_doc_id m" "\<And>d l. g (shown B d l) = shown B' d l"
  shows "mirrors st' B'"
proof -
  have "um_doc_id \<circ> g = um_doc_id" by (rule ext) (simp add: assms(5))
  then have "map um_doc_id (cs_mkt st') = map um_doc_id (cs_mkt st)" by (simp add: assms(2))
  then have "distinct (map um_doc_id (cs_mkt st'))" using assms(1) unfolding mirrors_def by simp
  moreover have "set (cs_mkt st') = {shown B' d l | d l. offers B' d = Some l}"
    using assms(1) by (auto simp: assms(2,4) mirrors_def simp flip: assms(6))
  ultimately show ?thesis using assms(3) by (simp add: mirrors_def)
qed

lemma mirror_freeze:
  assumes "mirrors (cl_state c) B" "handle_packet (Evt_news_leak t dur h) c = Some e"
  shows "mirrors (cl_state e) (B\<lparr>sb_frozen := sb_frozen B OR t\<rparr>)"
proof (rule mirrors_map [OF assms(1) leak_state(2) [OF assms(2)]])
  show "cs_frozen_mask (cl_state e) = sb_frozen (B\<lparr>sb_frozen := sb_frozen B OR t\<rparr>)"
    using assms(1) leak_state(1) [OF assms(2)] by (simp add: mirrors_def)
  fix d l
  show "(if um_tags (shown B d l) AND (cs_frozen_mask (cl_state c) OR t) \<noteq> 0 then (shown B d l)\<lparr>um_is_frozen := True\<rparr> else shown B d l)
      = shown (B\<lparr>sb_frozen := sb_frozen B OR t\<rparr>) d l"
    using assms(1) by (simp add: mirrors_def shown_def spec_frozen_def word_and_or_eq_0_iff)
qed simp_all

lemma mirror_unfreeze:
  assumes "mirrors (cl_state c) B" "handle_packet (Evt_news_recover t) c = Some e"
  shows "mirrors (cl_state e) (B\<lparr>sb_frozen := sb_frozen B AND NOT t\<rparr>)"
proof (rule mirrors_map [OF assms(1) recover_state(2) [OF assms(2)]])
  show "cs_frozen_mask (cl_state e) = sb_frozen (B\<lparr>sb_frozen := sb_frozen B AND NOT t\<rparr>)"
    using assms(1) recover_state(1) [OF assms(2)] by (simp add: mirrors_def)
  fix d l
  show "mark_market (cs_frozen_mask (cl_state c) AND NOT t) (shown B d l) = shown (B\<lparr>sb_frozen := sb_frozen B AND NOT t\<rparr>) d l"
    using assms(1) by (simp add: mirrors_def shown_def spec_frozen_def mark_market_def)
qed (simp_all add: mark_market_def)

lemma mirror_add:
  assumes "mirrors (cl_state c) B" "offers B d = None" "card (dom (offers B)) < UI_MAX_MARKET" "l_name l = take 63 n"
    "handle_packet (Evt_market_spawn d (l_tags l) (l_price l) n) c = Some e"
  shows "mirrors (cl_state e) (B\<lparr>offers := (offers B)(d \<mapsto> l)\<rparr>)"
proof -
  have len: "length (cs_mkt (cl_state c)) < UI_MAX_MARKET" using mirrors_dom [OF assms(1)] assms(3) by simp
  let ?B = "B\<lparr>offers := (offers B)(d \<mapsto> l)\<rparr>"
  have sh: "shown ?B k y = shown B k y" for k y by (simp add: shown_def spec_frozen_def)
  have mask: "cs_frozen_mask (cl_state c) = sb_frozen B" using assms(1) by (simp add: mirrors_def)
  have mkt: "cs_mkt (cl_state e) = cs_mkt (cl_state c) @ [shown B d l]"
    using spawn_state [OF assms(5)] len assms(4) by (simp add: shown_def spec_frozen_def mask)
  have "d \<notin> um_doc_id ` set (cs_mkt (cl_state c))" using assms(1,2) by (auto simp: mirrors_def)
  then have "distinct (map um_doc_id (cs_mkt (cl_state e)))" using assms(1) by (simp add: mkt mirrors_def)
  moreover have "{shown B k y | k y. offers ?B k = Some y} = insert (shown B d l) {shown B k y | k y. offers B k = Some y}"
  proof -
    have "offers ?B k = Some y \<longleftrightarrow> k = d \<and> y = l \<or> offers B k = Some y" for k y using assms(2) by auto
    then show ?thesis by (simp only:) blast
  qed
  then have "set (cs_mkt (cl_state e)) = {shown ?B k y | k y. offers ?B k = Some y}"
    using assms(1) unfolding sh mkt by (simp add: mirrors_def)
  moreover have "cs_frozen_mask (cl_state e) = sb_frozen ?B" using spawn_state [OF assms(5)] mask by (simp split: if_splits)
  ultimately show ?thesis by (simp add: mirrors_def)
qed

section \<open>Joining late\<close>

lemma npc_spawns_state:
  assumes "receive (map npc_spawn_msg ns) c = Some e"
  shows "cs_mkt (cl_state e) = cs_mkt (cl_state c) \<and> cs_frozen_mask (cl_state e) = cs_frozen_mask (cl_state c)"
  by (rule other_packets [OF assms]) (simp add: npc_spawn_msg_def)

definition listed :: "market_slot list \<Rightarrow> int \<rightharpoonup> listing" where
  "listed xs = (\<lambda>d. map_option listing_of (map_of (map (\<lambda>s. (ms_doc_id s, s)) xs) d))"

lemma listed_snoc: "ms_doc_id x \<notin> ms_doc_id ` set xs \<Longrightarrow> listed (xs @ [x]) = (listed xs)(ms_doc_id x \<mapsto> listing_of x)"
  by (auto simp: listed_def fun_eq_iff map_add_def map_of_eq_None_iff image_image split: option.split dest!: map_of_SomeD)

lemma card_listed: "card (dom (listed xs)) \<le> length xs"
proof -
  have "dom (listed xs) = ms_doc_id ` set xs" by (simp add: listed_def dom_map_option_comp [unfolded comp_def] dom_map_of_conv_image_fst image_image)
  then show ?thesis by (metis card_image_le List.finite_set card_length le_trans)
qed

lemma spawns_mirror:
  "ready c \<Longrightarrow> receive (map spawn_msg xs) c = Some e \<Longrightarrow> distinct (map ms_doc_id (ys @ xs)) \<Longrightarrow> length (ys @ xs) \<le> UI_MAX_MARKET \<Longrightarrow>
   \<forall>x \<in> set xs. length (ms_name x) < MAX_NAME_LEN \<Longrightarrow> mirrors (cl_state c) \<lparr>offers = listed ys, sb_frozen = fz\<rparr> \<Longrightarrow>
   mirrors (cl_state e) \<lparr>offers = listed (ys @ xs), sb_frozen = fz\<rparr>"
proof (induction xs arbitrary: ys c)
  case (Cons x xs)
  obtain f where f: "handle_packet (spawn_msg x) c = Some f" "receive (map spawn_msg xs) f = Some e"
    using Cons.prems(1,2) by (auto simp: bind_eq_Some_conv)
  have r: "ready f" using gentle_packet [OF f(1)] Cons.prems(1) by (simp add: spawn_msg_def)
  have new: "ms_doc_id x \<notin> ms_doc_id ` set ys" using Cons.prems(3) by auto
  then have none: "offers \<lparr>offers = listed ys, sb_frozen = fz\<rparr> (ms_doc_id x) = None"
    by (auto simp: listed_def map_of_eq_None_iff)
  have room: "card (dom (offers \<lparr>offers = listed ys, sb_frozen = fz\<rparr>)) < UI_MAX_MARKET"
    using card_listed [of ys] Cons.prems(4) by simp
  have ev: "handle_packet (Evt_market_spawn (ms_doc_id x) (l_tags (listing_of x)) (l_price (listing_of x)) (take (MAX_NAME_LEN - 1) (ms_name x))) c = Some f"
    using f(1) by (simp add: spawn_msg_def c_strncpy_def)
  have "mirrors (cl_state f) \<lparr>offers = listed (ys @ [x]), sb_frozen = fz\<rparr>"
    using mirror_add [OF Cons.prems(6) none room _ ev] Cons.prems(5) by (simp add: listed_snoc [OF new])
  from Cons.IH [OF r f(2) _ _ _ this] Cons.prems(3,4,5) show ?case by simp
qed simp

lemma listed_board: "listed (filter ms_active (g_market m)) = offers (board_abs m)"
  by (rule ext) (simp add: listed_def slot_map_def)

lemma mirrors_empty:
  assumes "cs_mkt st = []" "cs_frozen_mask st = fz"
  shows "mirrors st \<lparr>offers = Map.empty, sb_frozen = fz\<rparr>"
  using assms by (simp add: mirrors_def)

lemma receive_split:
  assumes "receive (ms @ ns) c = Some e"
  obtains d where "receive ms c = Some d" "receive ns d = Some e"
  using assms by (auto simp: receive_append bind_eq_Some_conv)

lemma late_mirror:
  assumes ok: "board_rel (sv_market s)" and on: "ready c" and new: "cs_mkt (cl_state c) = []" "cs_frozen_mask (cl_state c) = 0"
    and run: "receive (sync_msgs s) c = Some e"
  shows "ready e \<and> mirrors (cl_state e) (board_abs (sv_market s))"
proof -
  let ?m = "sv_market s" let ?xs = "filter ms_active (g_market ?m)"
  have len: "length (g_market ?m) = MAX_MARKET_SLOTS" and dist: "distinct (map ms_doc_id ?xs)"
    and names: "\<forall>x \<in> set ?xs. length (ms_name x) < MAX_NAME_LEN"
    using ok by (auto simp: board_rel_def board_ok_def slot_ids_def slot_ok_def)
  have snap: "market_snapshot MAX_MARKET_SLOTS ?m = ?xs"
    using len length_filter_le [of ms_active "g_market ?m"] by (simp add: market_snapshot_def slot_simps)
  from run obtain d f where d: "receive (map spawn_msg ?xs) c = Some d"
    and f: "receive (map npc_spawn_msg (npc_snapshot MAX_NPC_SLOTS ?m)) d = Some f"
    and e: "receive (if market_frozen_mask ?m \<noteq> 0 then [Evt_news_leak (market_frozen_mask ?m) 0 (c_strncpy (MAX_TEXT_LEN - 1) txt_frozen_sync)] else []) f = Some e"
    unfolding sync_msgs_def snap by (elim receive_split) blast
  have "mirrors (cl_state d) \<lparr>offers = listed ([] @ ?xs), sb_frozen = 0\<rparr>"
    using spawns_mirror [OF on d, of "[]" 0] dist names len length_filter_le [of ms_active "g_market ?m"]
      mirrors_empty [OF new] by (simp add: listed_def)
  then have "mirrors (cl_state f) \<lparr>offers = offers (board_abs ?m), sb_frozen = 0\<rparr>"
    using npc_spawns_state [OF f] unfolding mirrors_def by (simp add: listed_board)
  note m = this
  have "\<forall>m \<in> set (sync_msgs s). gentle m" by (auto simp: sync_msgs_def spawn_msg_def npc_spawn_msg_def)
  then have e_on: "ready e" using gentle_receive [OF run] on by simp
  have f_on: "ready f" by (rule receive_ready [OF e e_on])
  have "mirrors (cl_state e) (board_abs ?m)"
  proof (cases "g_frozen_tags ?m = 0")
    case True
    then have "f = e" using e by (simp add: market_frozen_mask_def)
    moreover have "board_abs ?m = \<lparr>offers = offers (board_abs ?m), sb_frozen = 0\<rparr>" using True by (simp add: board_abs_def)
    ultimately show ?thesis using m by simp
  next
    case False
    then have ev: "handle_packet (Evt_news_leak (g_frozen_tags ?m) 0 (c_strncpy (MAX_TEXT_LEN - 1) txt_frozen_sync)) f = Some e"
      using e f_on by (simp add: market_frozen_mask_def bind_eq_Some_conv)
    have "board_abs ?m = \<lparr>offers = offers (board_abs ?m), sb_frozen = 0\<rparr>\<lparr>sb_frozen := 0 OR g_frozen_tags ?m\<rparr>" by (simp add: board_abs_def)
    then show ?thesis using mirror_freeze [OF m ev] by (simp only: spec_board.select_convs)
  qed
  with e_on show ?thesis by simp
qed

text \<open>C25: Whatever the state of a well-formed board, a running client that joins with empty lists and handles the packets
  the login sends it goes on running and shows the board as it is, frozen marks included, if it survives them; and it
  does, when the tags of every listing and commission and the frozen mask are at most five and its counts fit.\<close>
theorem late_client_mirrors_board:
  assumes "board_rel (sv_market s)" "client_ok c" "ready c" "cs_mkt (cl_state c) = []" "cs_frozen_mask (cl_state c) = 0"
  shows "(\<forall>e. receive (sync_msgs s) c = Some e \<longrightarrow> ready e \<and> mirrors (cl_state e) (board_abs (sv_market s))) \<and>
    ((\<forall>m \<in> set (sync_msgs s). fair m) \<longrightarrow> receive (sync_msgs s) c \<noteq> None)"
  using late_mirror [OF assms(1,3,4,5)] safe_receive [OF assms(2), of "sync_msgs s"] by (auto simp: safe_def)

text \<open>A server whose one listing is on the board: what a newcomer is sent is one packet.\<close>

lemma shop_server_sync: "sync_msgs shop_server = [spawn_msg (market_new_slot 0 7 0 124 18 800 ''report'')]"
proof -
  have "filter ms_active (replicate n zero_market_slot) = []" "filter ns_active (replicate n zero_npc_slot) = []" for n
    by (simp_all add: zero_market_slot_def zero_npc_slot_def)
  then show ?thesis
    by (simp add: sync_msgs_def market_snapshot_def npc_snapshot_def slot_simps shop_server_def market_frozen_mask_def market_new_slot_def)
qed

theorem late_client_mirrors_board_witness:
  "\<exists>e. receive (sync_msgs shop_server) (fresh_client 0 30 100 1000 10000) = Some e \<and>
    mirrors (cl_state e) (board_abs (sv_market shop_server))"
proof -
  have "board_rel (sv_market shop_server)" using shop_server_ok by (simp add: board_rel_def shop_ok_def)
  moreover have "\<forall>m \<in> set (sync_msgs shop_server). fair m"
    by (simp add: shop_server_sync spawn_msg_def market_new_slot_def few_tags_def shown_tags_def TAG_DISPLAY_ORDER_def tag_bit_and_iff)
  ultimately show ?thesis
    using late_client_mirrors_board [of shop_server, OF _ fresh_client_ok] by (fastforce simp: ready_def fresh_client_def zero_client_state_def)
qed

end
