(* ===== verification/NewRound.thy ===== *)
theory NewRound
  imports Mirror Reset World
begin

text \<open>
  A round reset at both ends: what every connected client is sent, and that a client, whatever it showed before,
  then shows the board of the new round. A client that was looking at the scoreboard or was in a raid is back in
  the normal mode.
\<close>

section \<open>What a client is sent\<close>

definition heard :: "sock \<Rightarrow> server \<Rightarrow> server \<Rightarrow> msg list" where
  "heard k s s' = map snd (filter (\<lambda>(c, m). c = k) (drop (length (sv_out s)) (sv_out s')))"

definition new_round_msgs :: "market \<Rightarrow> msg list" where
  "new_round_msgs m = game_over txt_round_reset # map spawn_msg (filter ms_active (g_market m)) @
     map npc_spawn_msg (filter ns_active (g_npc m))"

lemma filter_one: "distinct xs \<Longrightarrow> k \<in> set xs \<Longrightarrow> filter (\<lambda>c. c = k) xs = [k]"
  by (induction xs) (auto simp: filter_empty_conv)

lemma told_once:
  assumes "distinct ks" "k \<in> set ks"
  shows "map snd (filter (\<lambda>(c, m). c = k) (map (\<lambda>c. (c, m)) ks)) = [m]"
  using filter_one [OF assms] by (simp add: filter_map comp_def)

lemma told_all:
  assumes "distinct ks" "k \<in> set ks"
  shows "map snd (filter (\<lambda>(c, m). c = k) (concat (map (\<lambda>x. map (\<lambda>c. (c, f x)) ks) xs))) = map f xs"
proof (induction xs)
  case (Cons x xs)
  then show ?case using told_once [OF assms, of "f x"] by simp
qed simp

lemma heard_append: "sv_out s' = sv_out s @ xs \<Longrightarrow> heard k s s' = map snd (filter (\<lambda>(c, m). c = k) xs)"
  by (simp add: heard_def)

lemma heard_reset:
  assumes "stores_ok s" "\<forall>off. REC_SIZE \<le> sv_pwrite s off"
    and "distinct (filter (\<lambda>k. k \<noteq> 0) (client_sockets s))" "k \<in> set (client_sockets s)" "k \<noteq> 0"
  shows "heard k s (trigger_round_reset s) = new_round_msgs (sv_market (trigger_round_reset s))"
proof -
  let ?ks = "filter (\<lambda>k. k \<noteq> 0) (client_sockets s)"
  have k: "distinct ?ks" "k \<in> set ?ks" using assms(3-5) by simp_all
  have "sv_out (trigger_round_reset s) = sv_out s @ map (\<lambda>k. (k, game_over txt_round_reset)) ?ks @
      concat (map (\<lambda>sl. map (\<lambda>k. (k, spawn_msg sl)) ?ks) (filter ms_active (g_market (sv_market (trigger_round_reset s))))) @
      concat (map (\<lambda>n. map (\<lambda>k. (k, npc_spawn_msg n)) ?ks) (filter ns_active (g_npc (sv_market (trigger_round_reset s)))))"
    using round_reset [OF assms(1,2), unfolded Let_def] by blast
  from heard_append [OF this] show ?thesis
    by (simp only: filter_append map_append told_once [OF k] told_all [OF k] new_round_msgs_def append_Cons append_Nil)
qed

section \<open>What the client makes of it\<close>

lemma utf8_ascii: "\<forall>c \<in> set s. of_char c < (128 :: nat) \<Longrightarrow> utf8 (map of_char s) = s"
  by (induction s) (simp_all add: utf8_def utf8_char_def)

definition reset_points :: "nat list" where
  "reset_points = map of_char ''__ROUND_RESET__|'' @ [0xC0C8, 0x20, 0xB77C, 0xC6B4, 0xB4DC, 0xAC00, 0x20, 0xC2DC,
     0xC791, 0xB418, 0xC5C8, 0xC2B5, 0xB2C8, 0xB2E4] @ map of_char ''. '' @ [0xBAA8, 0xB4E0, 0x20,
     0xC790, 0xC0B0, 0xC774, 0x20, 0xCD08, 0xAE30, 0x20, 0xC0C1, 0xD0DC, 0xB85C, 0x20, 0xBCF5,
     0xC6D0, 0xB418, 0xC5C8, 0xC2B5, 0xB2C8, 0xB2E4] @ map of_char ''.''"

lemma reset_text: "txt_round_reset = utf8 reset_points"
proof -
  have app: "utf8 (xs @ ys) = utf8 xs @ utf8 ys" for xs ys by (simp add: utf8_def)
  have "utf8 (map of_char ''__ROUND_RESET__|'') = ''__ROUND_RESET__|''" "utf8 (map of_char ''. '') = ''. ''"
    "utf8 (map of_char ''.'') = ''.''" by (rule utf8_ascii, simp)+
  then show ?thesis unfolding txt_round_reset_def reset_points_def app by (simp only:)
qed

lemma reset_text_fits: "whole_chars txt_round_reset" "c_snprintf MAX_TEXT_LEN txt_round_reset = txt_round_reset"
  "length txt_round_reset < MAX_TEXT_LEN" "c_strncmp_eq 15 txt_round_reset round_reset_prefix"
proof -
  have "\<forall>c \<in> set reset_points. code_point c" by (simp add: code_point_def reset_points_def)
  from wrap_utf8 [OF this, of 2 "[]"] have "wrap_loop 2 (utf8 reset_points) [] 0 \<noteq> None" by (auto simp: columns_def utf8_def)
  then show "whole_chars txt_round_reset"
    unfolding reset_text whole_chars_def using wrap_none_cong [of 0 "utf8 reset_points" "[]" 0 2 "[]" 0] by simp
  have "length reset_points \<le> 60" by (simp add: reset_points_def)
  then show len: "length txt_round_reset < MAX_TEXT_LEN" unfolding reset_text using utf8_length [of reset_points] by linarith
  then show "c_snprintf MAX_TEXT_LEN txt_round_reset = txt_round_reset" by (rule c_snprintf_id)
  show "c_strncmp_eq 15 txt_round_reset round_reset_prefix" by (simp add: c_strncmp_eq_def round_reset_prefix_def txt_round_reset_def)
qed

lemma reset_packet:
  assumes "handle_packet (game_over txt_round_reset) c = Some d"
  shows "cs_mkt (cl_state d) = []" "cs_frozen_mask (cl_state d) = 0" "cl_mode d = STATE_NORMAL"
    "cs_my_money (cl_state d) = INITIAL_MONEY" "cs_my_goal (cl_state d) = GOAL_MONEY"
proof -
  have "on_game_over txt_round_reset c = Some d" using assms by (simp add: game_over_def handle_packet_def reset_text_fits(2))
  then show "cs_mkt (cl_state d) = []" "cs_frozen_mask (cl_state d) = 0" "cl_mode d = STATE_NORMAL"
    "cs_my_money (cl_state d) = INITIAL_MONEY" "cs_my_goal (cl_state d) = GOAL_MONEY"
    by (auto simp: on_game_over_def reset_text_fits(4) Let_def bind_eq_Some_conv same_def dest!: same_redraw)
qed

lemma ready_redraw:
  assumes "redraw c = Some d" "ready c" "check_size (cl_h c) (cl_w c)"
  shows "ready d"
  using assms by (auto simp: redraw_def draw_ui_def bind_eq_Some_conv dest!: ready_shows)

lemma reset_ready:
  assumes "handle_packet (game_over txt_round_reset) c = Some d" "ready c" "check_size (cl_h c) (cl_w c)"
  shows "ready d"
proof -
  have "on_game_over txt_round_reset c = Some d" using assms(1) by (simp add: game_over_def handle_packet_def reset_text_fits(2))
  then show ?thesis using assms(2,3) by (auto simp: on_game_over_def reset_text_fits(4) Let_def bind_eq_Some_conv dest!: ready_redraw)
qed

lemma spawn_keeps:
  assumes "handle_packet m c = Some e" "m = Evt_market_spawn i t p n \<or> m = Evt_npc_spawn i t p"
  shows "cl_mode e = cl_mode c" "cs_my_money (cl_state e) = cs_my_money (cl_state c)" "cs_my_goal (cl_state e) = cs_my_goal (cl_state c)"
  using assms
  by (auto simp: handle_packet_def on_market_spawn_def on_npc_spawn_def Let_def when_normal_def bind_eq_Some_conv same_def
      split: if_splits dest!: same_shows)

lemma spawns_keep:
  "receive ms c = Some e \<Longrightarrow> \<forall>m \<in> set ms. \<exists>i t p n. m = Evt_market_spawn i t p n \<or> m = Evt_npc_spawn i t p \<Longrightarrow>
   cl_mode e = cl_mode c \<and> cs_my_money (cl_state e) = cs_my_money (cl_state c) \<and> cs_my_goal (cl_state e) = cs_my_goal (cl_state c)"
proof (induction ms arbitrary: c)
  case (Cons m ms)
  show ?case
  proof (cases "ready c")
    case True
    then obtain d where d: "handle_packet m c = Some d" "receive ms d = Some e" using Cons.prems(1) by (auto simp: bind_eq_Some_conv)
    obtain i t p n where "m = Evt_market_spawn i t p n \<or> m = Evt_npc_spawn i t p" using Cons.prems(2) by auto
    from spawn_keeps [OF d(1) this] Cons.IH [OF d(2)] Cons.prems(2) show ?thesis by simp
  qed (use Cons.prems(1) in simp)
qed simp

lemma seed_tags_few: "\<forall>doc \<in> set seed_docs. few_tags (fst (snd doc))" "\<forall>req \<in> set seed_orders. few_tags (fst (snd req))"
  by (simp_all add: seed_docs_def seed_orders_def few_tags_def shown_tags_def TAG_DISPLAY_ORDER_def tag_bit_and_iff bit_or_iff bit_tag_bit)

lemma new_round_fair:
  assumes "map board_line (filter ms_active (g_market m)) = map seed_line seed_docs"
    and "map order_line (filter ns_active (g_npc m)) = seed_orders"
  shows "\<forall>p \<in> set (new_round_msgs m). fair p"
proof -
  have "few_tags (ms_tags sl)" if "sl \<in> set (filter ms_active (g_market m))" for sl
  proof -
    have "board_line sl \<in> set (map seed_line seed_docs)" unfolding assms(1) [symmetric] using that by simp
    then obtain doc where "doc \<in> set seed_docs" "board_line sl = seed_line doc" by auto
    then show ?thesis using seed_tags_few(1) by (auto simp: board_line_def seed_line_def split: prod.splits)
  qed
  moreover have "few_tags (ns_required_tags n)" if "n \<in> set (filter ns_active (g_npc m))" for n
  proof -
    have "order_line n \<in> set seed_orders" unfolding assms(2) [symmetric] using that by simp
    then show ?thesis using seed_tags_few(2) by (auto simp: order_line_def)
  qed
  ultimately show ?thesis
    using reset_text_fits(1,3) by (auto simp: new_round_msgs_def game_over_def reset_text_fits(2) spawn_msg_def npc_spawn_msg_def)
qed

text \<open>What a reset does to a client, ended or not: a client that is still running afterwards shows the new round.\<close>

lemma new_round:
  assumes "stores_ok s" "board_ok (sv_market s)" "\<forall>off. REC_SIZE \<le> sv_pwrite s off"
    and "distinct (filter (\<lambda>k. k \<noteq> 0) (client_sockets s))" "k \<in> set (client_sockets s)" "k \<noteq> 0"
    and run: "receive (heard k s (trigger_round_reset s)) c = Some e"
  shows "ready e \<Longrightarrow> mirrors (cl_state e) (board_abs (sv_market (trigger_round_reset s))) \<and> cl_mode e = STATE_NORMAL \<and>
      cs_my_money (cl_state e) = INITIAL_MONEY \<and> cs_my_goal (cl_state e) = g_goal_money (trigger_round_reset s)"
    and "ready c \<Longrightarrow> check_size (cl_h c) (cl_w c) \<Longrightarrow> ready e"
    and "\<forall>m \<in> set (heard k s (trigger_round_reset s)). fair m"
proof -
  let ?s = "trigger_round_reset s"
  let ?m = "sv_market ?s"
  let ?xs = "filter ms_active (g_market ?m)" and ?ns = "filter ns_active (g_npc ?m)"
  note reset = round_reset [OF assms(1,3), unfolded Let_def]
  have lines: "map board_line ?xs = map seed_line seed_docs" "map order_line ?ns = seed_orders"
    "g_frozen_tags ?m = 0" "g_goal_money ?s = GOAL_MONEY" "shop_ok ?m (sv_fs ?s)" using reset by simp_all
  note msgs = heard_reset [OF assms(1,3-6)]
  show "\<forall>m \<in> set (heard k s (trigger_round_reset s)). fair m" unfolding msgs by (rule new_round_fair [OF lines(1,2)])
  have calm: "\<forall>m \<in> set (map spawn_msg ?xs @ map npc_spawn_msg ?ns). gentle m" by (auto simp: spawn_msg_def npc_spawn_msg_def)
  have first: "\<exists>d. handle_packet (game_over txt_round_reset) c = Some d \<and> receive (map spawn_msg ?xs @ map npc_spawn_msg ?ns) d = Some e"
    if "ready c"
    using run that unfolding msgs by (auto simp: new_round_msgs_def bind_eq_Some_conv)
  show "ready e" if on: "ready c" "check_size (cl_h c) (cl_w c)"
    using first [OF on(1)] reset_ready [OF _ on] gentle_receive [OF _ calm] by blast
  assume e_on: "ready e"
  obtain d where d: "handle_packet (game_over txt_round_reset) c = Some d" "receive (map spawn_msg ?xs @ map npc_spawn_msg ?ns) d = Some e"
    using first [OF receive_ready [OF run e_on]] by blast
  note d_on = receive_ready [OF d(2) e_on]
  note reset = reset_packet [OF d(1)]
  have "board_ok ?m" by (rule boards.resetting(1) [OF assms(2)])
  then have "board_rel ?m" using lines(5) by (simp add: board_rel_def shop_ok_def)
  then have dist: "distinct (map ms_doc_id ?xs)" and names: "\<forall>x \<in> set ?xs. length (ms_name x) < MAX_NAME_LEN"
    by (auto simp: board_rel_def board_ok_def slot_ids_def slot_ok_def)
  have len: "length ?xs \<le> UI_MAX_MARKET" using arg_cong [OF lines(1), of length] by (simp add: seed_docs_ok)
  obtain f where f: "receive (map spawn_msg ?xs) d = Some f" "receive (map npc_spawn_msg ?ns) f = Some e"
    using d(2) by (rule receive_split)
  have "mirrors (cl_state f) \<lparr>offers = listed ([] @ ?xs), sb_frozen = 0\<rparr>"
    using spawns_mirror [OF d_on f(1), of "[]" 0] dist names len mirrors_empty [OF reset(1,2)] by (simp add: listed_def)
  then have "mirrors (cl_state e) \<lparr>offers = offers (board_abs ?m), sb_frozen = 0\<rparr>"
    using npc_spawns_state [OF f(2)] unfolding mirrors_def by (simp add: listed_board)
  moreover have "board_abs ?m = \<lparr>offers = offers (board_abs ?m), sb_frozen = 0\<rparr>" using lines(3) by (simp add: board_abs_def)
  ultimately have "mirrors (cl_state e) (board_abs ?m)" by simp
  moreover have "cl_mode e = cl_mode d \<and> cs_my_money (cl_state e) = cs_my_money (cl_state d) \<and> cs_my_goal (cl_state e) = cs_my_goal (cl_state d)"
    by (rule spawns_keep [OF d(2)]) (auto simp: spawn_msg_def npc_spawn_msg_def)
  ultimately show "mirrors (cl_state e) (board_abs ?m) \<and> cl_mode e = STATE_NORMAL \<and>
      cs_my_money (cl_state e) = INITIAL_MONEY \<and> cs_my_goal (cl_state e) = g_goal_money ?s"
    using reset(3-5) lines(4) by simp
qed

lemma new_round_received:
  assumes "stores_ok s" "board_ok (sv_market s)" "\<forall>off. REC_SIZE \<le> sv_pwrite s off"
    and "distinct (filter (\<lambda>k. k \<noteq> 0) (client_sockets s))" "k \<in> set (client_sockets s)" "k \<noteq> 0" "client_ok c"
  shows "\<exists>e. receive (heard k s (trigger_round_reset s)) c = Some e \<and> client_ok e"
proof -
  note reset = round_reset [OF assms(1,3), unfolded Let_def]
  have "\<forall>m \<in> set (heard k s (trigger_round_reset s)). fair m"
    unfolding heard_reset [OF assms(1,3-6)] by (rule new_round_fair) (use reset in simp_all)
  from safe_receive [OF assms(7) this] show ?thesis by (auto simp: safe_def)
qed

text \<open>C23: After a round reset every connected client that is running in a terminal of at least 100 by 30, whatever it
  showed before (another board, frozen tags, a raid, a scoreboard), survives what it is sent: it has not exited and
  goes on running, is in the normal mode, and shows exactly the board of the new round, the initial balance and the
  debt goal the server now asks for. The stores and boards are well formed and their writes whole, no socket is
  entered twice, and the client's counts fit its arrays.\<close>
theorem new_round_reaches_clients:
  assumes "stores_ok s" "board_ok (sv_market s)" "\<forall>off. REC_SIZE \<le> sv_pwrite s off"
    and "distinct (filter (\<lambda>k. k \<noteq> 0) (client_sockets s))" "k \<in> set (client_sockets s)" "k \<noteq> 0"
    and "client_ok c" "ready c" "check_size (cl_h c) (cl_w c)"
  shows "let s' = trigger_round_reset s in \<exists>e. receive (heard k s s') c = Some e \<and> client_ok e \<and>
    cl_running e \<and> \<not> cl_exited e \<and> mirrors (cl_state e) (board_abs (sv_market s')) \<and> cl_mode e = STATE_NORMAL \<and>
    cs_my_money (cl_state e) = INITIAL_MONEY \<and> cs_my_goal (cl_state e) = g_goal_money s'"
proof -
  obtain e where e: "receive (heard k s (trigger_round_reset s)) c = Some e" "client_ok e"
    using new_round_received [OF assms(1-7)] by blast
  have on: "ready e" by (rule new_round(2) [OF assms(1-6) e(1) assms(8,9)])
  then have "cl_running e" "\<not> cl_exited e" by (simp_all add: ready_def)
  then show ?thesis using e new_round(1) [OF assms(1-6) e(1) on] by (auto simp: Let_def)
qed

text \<open>A client in the middle of a raid.\<close>

theorem new_round_reaches_clients_witness:
  "let s' = trigger_round_reset shop_server in \<exists>e. receive (heard 5 shop_server s') raided_client = Some e \<and>
    mirrors (cl_state e) (board_abs (sv_market s')) \<and> cl_mode raided_client = STATE_PANIC \<and> cl_mode e = STATE_NORMAL \<and> cl_running e"
proof -
  have k: "\<forall>off. REC_SIZE \<le> sv_pwrite shop_server off" "distinct (filter (\<lambda>k. k \<noteq> 0) (client_sockets shop_server))"
    "5 \<in> set (client_sockets shop_server)" "(5 :: sock) \<noteq> 0"
    by (simp_all add: shop_server_sel) (simp_all add: sample_server_def shop_server_def)
  have size: "check_size (cl_h raided_client) (cl_w raided_client)"
    by (simp add: raided_client_def on_police_raid_def fresh_client_def draw_event_def check_size_def)
  show ?thesis
    using new_round_reaches_clients [OF shop_server_ok(2,3) k raided_client_ok raided_client_sel(4) size] raided_client_sel(1)
    by (simp only: Let_def) blast
qed

section \<open>A raid across the reset\<close>

text \<open>Outside a raid the client sends no passcode, whatever is typed.\<close>

abbreviation no_answer :: "client \<Rightarrow> client \<Rightarrow> bool" where
  "no_answer \<equiv> sends (\<lambda>m. \<not> is_submit m)"

lemma parse_no_submit: "\<not> is_submit (parse_command s)"
  by (simp add: parse_command_def parse_sell_def is_submit_def Let_def split: list.split)

lemma run_command_mode:
  assumes "run_command c = Some d" "cl_mode c \<noteq> STATE_PANIC"
  shows "cl_mode d \<noteq> STATE_PANIC \<and> no_answer c d"
  using assms parse_no_submit
  by (auto simp: run_command_def Let_def when_normal_def start_glitch_def game_over_exit_def sends_def is_submit_def bind_eq_Some_conv same_def
      split: if_splits dest!: same_redraw)

lemma calm_key:
  "cl_mode c \<noteq> STATE_PANIC \<Longrightarrow> handle_key ch c = Some d \<Longrightarrow> cl_mode d \<noteq> STATE_PANIC \<and> no_answer c d"
  using run_command_mode [of c]
  by (auto simp: handle_key_def key_enter_def key_resize_def Let_def sends_def is_submit_def bind_eq_Some_conv same_def
      split: if_splits dest!: same_redraw same_shows)

lemma calm_ticks:
  "cl_mode c \<noteq> STATE_PANIC \<Longrightarrow> ticks c = Some d \<Longrightarrow> cl_mode d \<noteq> STATE_PANIC \<and> cl_sent d = cl_sent c"
  by (auto simp: ticks_def panic_tick_def round_end_tick_def glitch_tick_def recover_from_glitch_def Let_def bind_eq_Some_conv same_def
      split: if_splits dest!: same_shows same_redraw)

lemma calm_step:
  assumes "client_step ev c = Some d" "cl_mode c \<noteq> STATE_PANIC" "no_packet ev"
  shows "cl_mode d \<noteq> STATE_PANIC \<and> no_answer c d"
proof (cases "cl_exited c \<or> \<not> cl_running c")
  case True
  then show ?thesis using assms by (simp add: client_step_def sends_refl)
next
  case False
  show ?thesis
  proof (cases ev)
    case (Key ch)
    then show ?thesis using assms False calm_key [of "c\<lparr>g_in_raid := False\<rparr>" ch d]
      by (auto simp: client_step_def turn_def Let_def sends_def split: if_splits)
  next
    case Idle
    then show ?thesis using assms False calm_ticks [of "c\<lparr>g_in_raid := False\<rparr>" d]
      by (auto simp: client_step_def turn_def Let_def sends_def split: if_splits)
  qed (use assms False in \<open>auto simp: client_step_def handle_sigint_def no_packet_def sends_def split: if_splits\<close>)
qed

lemma calm_run:
  assumes "client_run evs c = Some d" "\<forall>ev \<in> set evs. no_packet ev" "cl_mode c \<noteq> STATE_PANIC"
  shows "no_answer c d"
  using assms
proof (induction evs arbitrary: c)
  case (Cons ev evs)
  then obtain e where e: "client_step ev c = Some e" "client_run evs e = Some d" by (auto simp: bind_eq_Some_conv)
  have "cl_mode e \<noteq> STATE_PANIC \<and> no_answer c e" by (rule calm_step [OF e(1)]) (use Cons.prems in simp_all)
  then show ?case using Cons.IH [OF e(2)] Cons.prems(2) sends_trans by auto
qed (simp add: sends_refl)

text \<open>A client that has ended, or is about to, sends nothing.\<close>

lemma ended_run:
  assumes "client_run evs c = Some d" "\<not> ready c"
  shows "cl_sent d = cl_sent c"
proof -
  have step: "cl_sent e = cl_sent c \<and> \<not> ready e" if "client_step ev c = Some e" "\<not> ready c" for ev c e
    using that by (cases ev) (auto simp: client_step_def turn_def ready_def handle_sigint_def Let_def split: if_splits)
  show ?thesis using assms
  proof (induction evs arbitrary: c)
    case (Cons ev evs)
    then obtain e where e: "client_step ev c = Some e" "client_run evs e = Some d" by (auto simp: bind_eq_Some_conv)
    then show ?case using Cons.IH [OF e(2)] step [OF e(1) Cons.prems(2)] by simp
  qed simp
qed

lemma reset_pending: "g_periodic_raid_pending_keys (trigger_round_reset s) = g_periodic_raid_pending_keys s"
proof -
  have add: "g_periodic_raid_pending_keys (snd (sv_market_add d t p n u)) = g_periodic_raid_pending_keys u" for d t p n u
    by (simp add: sv_market_add_eq)
  have one: "g_periodic_raid_pending_keys (seed_one doc u) = g_periodic_raid_pending_keys u" for doc u
    by (simp add: seed_one_def Let_def add sv_master_write_eq split: prod.split)
  have "g_periodic_raid_pending_keys (fold seed_one docs u) = g_periodic_raid_pending_keys u" for docs u
    by (induction docs arbitrary: u) (simp_all add: one)
  then show ?thesis
    by (simp add: trigger_round_reset_def broadcast_board_def seed_market_and_npc_def sv_npc_add_eq fold_broadcast
        broadcast_packet_def reset_round_state_def Let_def)
qed

text \<open>C24: The round reset forgets the raid: the clients leave their raid mode and can send no passcode any more until
  another packet arrives, but the server keeps the list of players who have not answered, and when the time is up burns them
  (their keys being plain) in the new round. The stores and boards are well formed and their writes whole, no socket
  is entered twice, and the client's counts fit its arrays.\<close>
theorem reset_burns_unanswered:
  assumes "stores_ok s" "board_ok (sv_market s)" "\<forall>off. REC_SIZE \<le> sv_pwrite s off"
    and "distinct (filter (\<lambda>k. k \<noteq> 0) (client_sockets s))" "k \<in> set (client_sockets s)" "k \<noteq> 0" "client_ok c"
    and "\<forall>key \<in> pending_set s. safe_key key"
  shows "let s' = trigger_round_reset s in \<exists>e. receive (heard k s s') c = Some e \<and>
    (\<forall>evs d. client_run evs e = Some d \<and> (\<forall>ev \<in> set evs. no_packet ev) \<longrightarrow> no_answer e d) \<and>
    burnt (pending_set s) (sv_users s') (sv_users (periodic_raid_timeout_thread s'))"
proof -
  let ?s = "trigger_round_reset s"
  obtain e where e: "receive (heard k s ?s) c = Some e" using new_round_received [OF assms(1-7)] by blast
  have "stores_ok ?s" using round_reset [OF assms(1,3)] by (simp add: Let_def)
  moreover have "pending_set ?s = pending_set s" by (simp add: reset_pending)
  ultimately have "burnt (pending_set s) (sv_users ?s) (sv_users (periodic_raid_timeout_thread ?s))"
    using timeout_props(2) [of ?s] assms(8) by simp
  moreover have "no_answer e d" if "client_run evs e = Some d" "\<forall>ev \<in> set evs. no_packet ev" for evs d
  proof (cases "ready e")
    case True
    then show ?thesis using new_round(1) [OF assms(1-6) e] by (intro calm_run [OF that]) simp
  next
    case False
    then show ?thesis using ended_run [OF that(1)] by (simp add: sends_refl)
  qed
  ultimately show ?thesis using e by (auto simp: Let_def)
qed

theorem reset_burns_unanswered_witness:
  "let s = shop_server\<lparr>g_periodic_raid_pending_keys := [''neo'', [], [], [], [], [], [], [], [], []]\<rparr>; s' = trigger_round_reset s in
    \<exists>e. receive (heard 5 s s') raided_client = Some e \<and>
      burnt {''neo''} (sv_users s') (sv_users (periodic_raid_timeout_thread s'))"
proof -
  let ?s = "shop_server\<lparr>g_periodic_raid_pending_keys := [''neo'', [], [], [], [], [], [], [], [], []]\<rparr>"
  have ok: "stores_ok ?s" "board_ok (sv_market ?s)" using shop_server_ok(2,3) by (simp_all add: stores_ok_def full_writes_def)
  have k: "\<forall>off. REC_SIZE \<le> sv_pwrite ?s off" "distinct (filter (\<lambda>k. k \<noteq> 0) (client_sockets ?s))"
    "5 \<in> set (client_sockets ?s)" "(5 :: sock) \<noteq> 0"
    by (simp_all add: shop_server_sel) (simp_all add: sample_server_def shop_server_def)
  have p: "pending_set ?s = {''neo''}" by auto
  then have "\<forall>key \<in> pending_set ?s. safe_key key" by (simp only: p) simp
  from reset_burns_unanswered [OF ok k raided_client_ok this] show ?thesis unfolding p by (simp only: Let_def) blast
qed

section \<open>A scoreboard in the middle of a raid\<close>

lemma heard_fire:
  assumes "\<not> g_round_end_active s"
    and "distinct (filter (\<lambda>k. k \<noteq> 0) (client_sockets s))" "k \<in> set (client_sockets s)" "k \<noteq> 0"
  shows "heard k s (fire_round_end_countdown a s) =
    [scoreboard (s\<lparr>g_round_end_active := True\<rparr>), chat_evt ''[ALERT]'' (c_strncpy (MAX_TEXT_LEN - 1) a)]"
proof -
  let ?s1 = "s\<lparr>g_round_end_active := True\<rparr>" and ?ks = "filter (\<lambda>k. k \<noteq> 0) (client_sockets s)"
  have k: "distinct ?ks" "k \<in> set ?ks" using assms(2-4) by simp_all
  have "sv_out (fire_round_end_countdown a s) = sv_out s @ map (\<lambda>k. (k, scoreboard ?s1)) ?ks @
      map (\<lambda>k. (k, chat_evt ''[ALERT]'' (c_strncpy (MAX_TEXT_LEN - 1) a))) ?ks"
    using assms(1) by (cases "sv_creates s") (simp_all add: fire_round_end_countdown_def Let_def pthread_create_def broadcast_packet_def)
  from heard_append [OF this] show ?thesis by (simp only: filter_append map_append told_once [OF k] append_Cons append_Nil)
qed

lemma scoreboard_fair: "fair (scoreboard s)" and scoreboard_packet: "\<exists>ec es rc rs. scoreboard s = Evt_scoreboard 60 ec es rc rs"
proof -
  have "length (escaped_snapshot s) \<le> MAX_SCORE_ESCAPED" by (simp add: escaped_snapshot_def min_le_iff_disj nat_le_iff)
  then show "fair (scoreboard s)" "\<exists>ec es rc rs. scoreboard s = Evt_scoreboard 60 ec es rc rs" by (simp_all add: scoreboard_def Let_def)
qed

lemma scoreboard_mode:
  assumes "handle_packet (Evt_scoreboard cd ec es rc rs) c = Some d"
  shows "cl_mode d = STATE_ROUND_END"
  using assms by (auto simp: handle_packet_def on_scoreboard_def Let_def same_def dest!: same_shows)

lemma chat_mode:
  assumes "handle_packet (chat_evt x t) c = Some d"
  shows "cl_mode d = cl_mode c"
  using assms
  by (auto simp: chat_evt_def handle_packet_def on_chat_def note_news_def epilogue_chat_def Let_def same_def split: if_splits dest!: same_shows)

text \<open>C31: The scoreboard locks the commands, in every mode, and with them the answer to a raid. When the end of the round
  is announced, every running client ends up looking at the scoreboard, and until another packet arrives sends nothing but
  chat, whatever is typed; that includes a client under a raid, which can no longer send the passcode. The server does
  not end the raid: its deadline and its list of players who have not answered stay as they were, and when the time is
  up exactly these players are burned (their keys being plain). No end of a round is running yet, the stores are well
  formed and their writes whole, no socket is entered twice, and the client's counts fit its arrays.\<close>
theorem scoreboard_locks_out_answers:
  assumes "stores_ok s" "\<forall>key \<in> pending_set s. safe_key key" "\<not> g_round_end_active s"
    and "distinct (filter (\<lambda>k. k \<noteq> 0) (client_sockets s))" "k \<in> set (client_sockets s)" "k \<noteq> 0"
    and "client_ok c" "ready c"
  shows "let s' = fire_round_end_countdown a s in
    (\<exists>e. receive (heard k s s') c = Some e \<and> ready e \<and> cl_mode e = STATE_ROUND_END \<and>
      (\<forall>evs d. client_run evs e = Some d \<and> (\<forall>ev \<in> set evs. no_packet ev) \<longrightarrow> cl_mode d = STATE_ROUND_END \<and> sends is_chat e d)) \<and>
    g_periodic_raid_deadline s' = g_periodic_raid_deadline s \<and> pending_set s' = pending_set s \<and>
    burnt (pending_set s) (sv_users s') (sv_users (periodic_raid_timeout_thread s'))"
proof -
  let ?s = "fire_round_end_countdown a s"
  obtain ec es rc rs where sb: "scoreboard (s\<lparr>g_round_end_active := True\<rparr>) = Evt_scoreboard 60 ec es rc rs"
    using scoreboard_packet by blast
  note msgs = heard_fire [OF assms(3-6), of a, unfolded sb]
  have "fair (Evt_scoreboard 60 ec es rc rs)" using scoreboard_fair [of "s\<lparr>g_round_end_active := True\<rparr>"] by (simp only: sb)
  then have "\<forall>m \<in> set (heard k s ?s). fair m" by (simp add: msgs chat_evt_def del: fair.simps(6))
  from safe_receive [OF assms(7) this] obtain e where e: "receive (heard k s ?s) c = Some e" by (auto simp: safe_def)
  then obtain d where d: "handle_packet (Evt_scoreboard 60 ec es rc rs) c = Some d"
    "receive [chat_evt ''[ALERT]'' (c_strncpy (MAX_TEXT_LEN - 1) a)] d = Some e"
    using assms(8) unfolding msgs by (auto simp: bind_eq_Some_conv)
  have d_on: "ready d" using gentle_packet [OF d(1)] assms(8) by simp
  then have chat: "handle_packet (chat_evt ''[ALERT]'' (c_strncpy (MAX_TEXT_LEN - 1) a)) d = Some e"
    using d(2) by (simp add: bind_eq_Some_conv)
  have mode: "cl_mode e = STATE_ROUND_END" using chat_mode [OF chat] scoreboard_mode [OF d(1)] by simp
  have on: "ready e" using gentle_packet [OF chat] d_on by (simp add: chat_evt_def)
  have "stores_ok ?s" using assms(1) by (simp add: stores_ok_def full_writes_def)
  moreover have p: "pending_set ?s = pending_set s" by simp
  ultimately have "burnt (pending_set s) (sv_users ?s) (sv_users (periodic_raid_timeout_thread ?s))"
    using timeout_props(2) [of ?s] assms(2) by simp
  then show ?thesis
    using e on mode p round_end_run [OF _ _ mode] by (simp add: Let_def) blast
qed

theorem scoreboard_locks_out_answers_witness:
  "let s = shop_server\<lparr>g_periodic_raid_pending_keys := [''neo'', [], [], [], [], [], [], [], [], []]\<rparr>; s' = fire_round_end_countdown ''end'' s in
    \<exists>e. receive (heard 5 s s') raided_client = Some e \<and> cl_mode raided_client = STATE_PANIC \<and> cl_mode e = STATE_ROUND_END \<and>
      burnt {''neo''} (sv_users s') (sv_users (periodic_raid_timeout_thread s'))"
proof -
  let ?s = "shop_server\<lparr>g_periodic_raid_pending_keys := [''neo'', [], [], [], [], [], [], [], [], []]\<rparr>"
  have ok: "stores_ok ?s" using shop_server_ok(2) by (simp add: stores_ok_def full_writes_def)
  have k: "\<not> g_round_end_active ?s" "distinct (filter (\<lambda>k. k \<noteq> 0) (client_sockets ?s))"
    "5 \<in> set (client_sockets ?s)" "(5 :: sock) \<noteq> 0"
    by (simp_all add: shop_server_sel) (simp_all add: sample_server_def shop_server_def)
  have p: "pending_set ?s = {''neo''}" by auto
  then have "\<forall>key \<in> pending_set ?s. safe_key key" by (simp only: p) simp
  note locked = scoreboard_locks_out_answers [OF ok this k raided_client_ok raided_client_sel(4), of "''end''", unfolded p Let_def]
  obtain e where "receive (heard 5 ?s (fire_round_end_countdown ''end'' ?s)) raided_client = Some e" "cl_mode e = STATE_ROUND_END"
    using locked [THEN conjunct1] by blast
  then show ?thesis
    using locked [THEN conjunct2, THEN conjunct2, THEN conjunct2] raided_client_sel(1) unfolding Let_def
    by (intro exI [of _ e] conjI)
qed

end
