(* ===== verification/Live.thy ===== *)
theory Live
  imports Economy NewRound
begin

text \<open>
  The boards of the connected clients while the server works. For every operation of \<open>Economy\<close> (a request that trades,
  a spawn, an ageing pass, a leak and its recovery, a burn, a new round): what a connected client is sent, read off the
  handler itself, and what the client's list of listings is after it has handled that. A client that showed the board
  shows it again, except after a public leak whose recovery thread could not be started.
\<close>

section \<open>What an operation tells the clients\<close>

text \<open>Every operation only adds packets, and none opens or closes a connection.\<close>

interpretation talk: server_invariant "\<lambda>s. (\<exists>ms. sv_out s = out @ ms) \<and> client_sockets s = ks" for out ks
  by unfold_locales (auto simp: escape_step_def reset_round_state_def)

lemma run_op_out: "(\<exists>ms. sv_out (run_op x s) = sv_out s @ ms) \<and> client_sockets (run_op x s) = client_sockets s"
proof -
  have start: "(\<exists>ms. sv_out s = sv_out s @ ms) \<and> client_sockets s = client_sockets s" by simp
  show ?thesis
    by (cases x) (simp_all only: run_op.simps talk.buying [OF start] talk.selling [OF start] talk.small_requests [OF start]
        talk.paying [OF start] talk.burning [OF start] talk.spawning [OF start] talk.ordering [OF start] talk.ageing [OF start]
        talk.leaking [OF start] talk.resetting [OF start], simp)
qed

lemma run_ops_out: "(\<exists>ms. sv_out (run_ops xs s) = sv_out s @ ms) \<and> client_sockets (run_ops xs s) = client_sockets s"
proof (induction xs arbitrary: s)
  case (Cons x xs)
  then show ?case using run_op_out [of x s] by (metis append.assoc run_ops.simps(2))
qed simp

lemma heard_nothing: "sv_out s' = sv_out s \<Longrightarrow> heard k s s' = []"
  by (simp add: heard_def)

lemma heard_trans:
  assumes "sv_out t = sv_out s @ ms" "sv_out u = sv_out t @ ns"
  shows "heard k s u = heard k s t @ heard k t u"
  using heard_append [OF assms(1), of k] heard_append [OF assms(2), of k] heard_append [of u s "ms @ ns" k] assms by simp

lemma heard_run_ops: "heard k s (run_ops (x # xs) s) = heard k s (run_op x s) @ heard k (run_op x s) (run_ops xs (run_op x s))"
  using run_op_out [of x s] run_ops_out [of xs "run_op x s"] heard_trans by (metis run_ops.simps(2))

definition connected :: "sock \<Rightarrow> server \<Rightarrow> bool" where
  "connected k s \<longleftrightarrow> distinct (filter (\<lambda>c. c \<noteq> 0) (client_sockets s)) \<and> k \<in> set (client_sockets s) \<and> k \<noteq> 0"

lemma connected_op: "connected k s \<Longrightarrow> connected k (run_op x s)"
  using run_op_out [of x s] by (simp add: connected_def)

text \<open>A broadcast is heard once by everyone who is connected.\<close>

lemma heard_broadcast:
  assumes "connected k s" "sv_out s' = sv_out s @ map (\<lambda>c. (c, m)) (filter (\<lambda>c. c \<noteq> 0) (client_sockets s))"
  shows "heard k s s' = [m]"
  using heard_append [OF assms(2), of k] told_once [of "filter (\<lambda>c. c \<noteq> 0) (client_sockets s)" k m] assms(1)
  by (simp add: connected_def)

section \<open>Packets that leave the list alone\<close>

text \<open>Packets that are not about the board; the news of one's own burn, which is, ends the client.\<close>

definition aside :: "msg \<Rightarrow> bool" where
  "aside m \<longleftrightarrow> \<not> of_board m \<or> m = Evt_game_over (take 255 txt_burned)"

definition tells :: "(msg \<Rightarrow> bool) \<Rightarrow> server \<Rightarrow> server \<Rightarrow> bool" where
  "tells P s s' \<longleftrightarrow> (\<exists>ms. sv_out s' = sv_out s @ ms \<and> (\<forall>m \<in> set ms. P (snd m)))"

lemma tells_heard: "tells P s s' \<Longrightarrow> \<forall>m \<in> set (heard k s s'). P m"
  by (auto simp: tells_def heard_append)

lemma tells_refl: "sv_out s' = sv_out s \<Longrightarrow> tells P s s'"
  by (simp add: tells_def)

lemma tells_trans: "tells P s t \<Longrightarrow> tells P t u \<Longrightarrow> tells P s u"
  by (fastforce simp: tells_def)

lemma tells_one:
  "P m \<Longrightarrow> tells P s (packet_send k m s)" "P m \<Longrightarrow> tells P s (broadcast_packet m s)"
  by (auto simp: tells_def)

lemma tells_fold: "(\<And>x. P (f x)) \<Longrightarrow> tells P s (fold (\<lambda>x. broadcast_packet (f x)) xs s)"
  by (auto simp: tells_def fold_broadcast)

lemma burned_text: "\<not> c_strncmp_eq 15 (take 255 txt_burned) round_reset_prefix"
proof -
  have "take 15 (take 255 txt_burned) \<noteq> ''__ROUND_RESET__''" by (simp add: txt_burned_def utf8_def utf8_char_def)
  then show ?thesis by (simp add: c_strncmp_eq_def round_reset_prefix_def)
qed

lemma aside_packet:
  assumes "handle_packet m c = Some e" "aside m" "ready e"
  shows "same_board c e"
proof (cases "of_board m")
  case True
  then have "handle_packet (Evt_game_over (take 255 txt_burned)) c = Some e" using assms(1,2) by (simp add: aside_def)
  then have "cl_exited e" using burned_text by (auto simp: handle_packet_def on_game_over_def game_over_exit_def bind_eq_Some_conv)
  then show ?thesis using assms(3) by (simp add: ready_def)
qed (rule other_packet [OF assms(1)])

lemma aside_packets: "receive ms c = Some e \<Longrightarrow> ready e \<Longrightarrow> \<forall>m \<in> set ms. aside m \<Longrightarrow> same_board c e"
proof (induction ms arbitrary: c)
  case (Cons m ms)
  have "ready c" by (rule receive_ready [OF Cons.prems(1,2)])
  then obtain d where d: "handle_packet m c = Some d" "receive ms d = Some e" using Cons.prems(1) by (auto simp: bind_eq_Some_conv)
  have "ready d" by (rule receive_ready [OF d(2) Cons.prems(2)])
  then show ?case using aside_packet [OF d(1)] Cons.IH [OF d(2)] Cons.prems(2,3) by simp
qed simp

section \<open>One operation at a time\<close>

text \<open>After an operation a client shows the board again.\<close>

definition follows :: "sock \<Rightarrow> server \<Rightarrow> server \<Rightarrow> bool" where
  "follows k s s' \<longleftrightarrow> (\<forall>c e. mirrors (cl_state c) (board_abs (sv_market s)) \<and> receive (heard k s s') c = Some e \<and> ready e
     \<longrightarrow> mirrors (cl_state e) (board_abs (sv_market s')))"

lemma follows_aside:
  assumes "tells aside s s'" "board_abs (sv_market s') = board_abs (sv_market s)"
  shows "follows k s s'"
  using aside_packets [OF _ _ tells_heard [OF assms(1)]] mirrors_same by (simp only: follows_def assms(2)) blast

text \<open>Packets to one client first, then one about the board that everyone gets.\<close>

lemma follows_announced:
  assumes "connected k s" and out: "sv_out s' = sv_out s @ ms @ map (\<lambda>c. (c, m)) (filter (\<lambda>c. c \<noteq> 0) (client_sockets s))"
    and "\<forall>x \<in> set ms. aside (snd x)"
    and last: "\<And>c e. mirrors (cl_state c) (board_abs (sv_market s)) \<Longrightarrow> ready c \<Longrightarrow> handle_packet m c = Some e \<Longrightarrow>
      mirrors (cl_state e) (board_abs (sv_market s'))"
  shows "follows k s s'"
  unfolding follows_def
proof (intro allI impI, elim conjE)
  fix c e assume m: "mirrors (cl_state c) (board_abs (sv_market s))" and run: "receive (heard k s s') c = Some e" and on: "ready e"
  define ps where "ps = map snd (filter (\<lambda>(c, m). c = k) ms)"
  have ps: "\<forall>m \<in> set ps. aside m" using assms(3) by (auto simp: ps_def)
  have "heard k s s' = ps @ [m]"
    using heard_append [OF out, of k] told_once [of "filter (\<lambda>c. c \<noteq> 0) (client_sockets s)" k m] assms(1)
    by (simp add: ps_def connected_def)
  then obtain d where d: "receive ps c = Some d" "receive [m] d = Some e" using run by (metis receive_split)
  have d_on: "ready d" by (rule receive_ready [OF d(2) on])
  then have "handle_packet m d = Some e" using d(2) by (simp add: bind_eq_Some_conv)
  moreover have "mirrors (cl_state d) (board_abs (sv_market s))" by (rule mirrors_same [OF m aside_packets [OF d(1) d_on ps]])
  ultimately show "mirrors (cl_state e) (board_abs (sv_market s'))" using last d_on by blast
qed

lemma board_abs_cong: "g_market m' = g_market m \<Longrightarrow> g_frozen_tags m' = g_frozen_tags m \<Longrightarrow> board_abs m' = board_abs m"
  by (simp add: board_abs_def)

lemma npc_abs:
  "board_abs (snd (npc_take d m)) = board_abs m" "board_abs (snd (npc_add now d t b m)) = board_abs m"
  "board_abs (snd (npc_despawn_aged now bs st n m)) = board_abs m"
  by (rule board_abs_cong; simp add: npc_take_def npc_add_def npc_despawn_aged_eq split: option.split)+

lemma refused_aside: "refused sock s s' \<Longrightarrow> tells aside s s'"
  by (auto simp: refused_def tells_def aside_def)

lemma follows_buy:
  assumes "economy_ok s" "op_ok (Buy sock key d) s" "connected k s"
  shows "follows k s (handle_buy sock key d s)"
proof -
  let ?s = "handle_buy sock key d s"
  have ok: "stock_ok s" and rel: "board_rel (sv_market s)"
    using assms(1) stock_okD(8) by (auto simp: economy_ok_def board_rel_def)
  note st = stock_okD [OF ok]
  have pre: "safe_key key" "int32_range d" "has_box key (sv_fs s)" using assms(2) by simp_all
  from handle_buy_cases [OF st(1) pre, of sock, unfolded Let_def] show ?thesis
  proof (elim disjE exE conjE)
    assume "refused sock s ?s" "sv_market ?s = sv_market s"
    then show ?thesis by (intro follows_aside refused_aside) simp_all
  next
    assume r: "refused sock s ?s" and "doc_at (sv_fs s) (Shop d) = None"
    then have "market_find d (sv_market s) = None" using st(10) by (simp add: front.agrees_def)
    then have "sv_market ?s = sv_market s" by (simp add: handle_buy_def)
    then show ?thesis using r by (intro follows_aside refused_aside) simp_all
  next
    fix slot r l
    assume take: "market_take d (sv_market s) = (Inr slot, sv_market ?s)"
      and out: "sv_out ?s = sv_out s @ [(sock, Res_buy_ok d (ur_money r - ms_base_price slot) (ms_tags slot) (take 63 (ms_name slot)))] @
         map (\<lambda>k. (k, Evt_market_remove d)) (filter (\<lambda>k. k \<noteq> 0) (client_sockets s))"
    have "board_abs (sv_market ?s) = board_abs (sv_market s)\<lparr>offers := (offers (board_abs (sv_market s)))(d := None)\<rparr>"
      using refine_take [OF rel, of d] take by (auto split: option.splits if_splits)
    then show ?thesis by (intro follows_announced [OF assms(3) out]) (simp_all add: aside_def mirror_remove del: board_abs_sel)
  qed
qed

lemma follows_sell:
  assumes "economy_ok s" "op_ok (Sell junk sock key npc n ids) s"
  shows "follows k s (handle_sell junk sock key npc n ids s)"
proof -
  let ?s = "handle_sell junk sock key npc n ids s"
  from assms(2) obtain r l where pre: "safe_key key" "\<forall>d \<in> set ids. int32_range d" "userdb_find key (sv_users s) = Some (r, l)"
    "\<forall>n \<in> set (g_npc (sv_market s)). ur_money r + ns_bounty n < 2 ^ 31" by auto
  have "trade_ok s" using assms(1) stock_okD(1) by (auto simp: economy_ok_def)
  from handle_sell_cases [OF this pre, of junk sock npc n, unfolded Let_def] show ?thesis
  proof (elim disjE exE conjE)
    assume "refused sock s ?s" "sv_market ?s = sv_market s"
    then show ?thesis by (intro follows_aside refused_aside) simp_all
  next
    fix npc'
    assume take: "npc_take npc (sv_market s) = (Some npc', sv_market ?s)"
      and out: "sv_out ?s = sv_out s @ [(sock, Res_sell_ok (ns_bounty npc') (ur_money r + ns_bounty npc'))] @
         map (\<lambda>k. (k, Evt_npc_despawn npc)) (filter (\<lambda>k. k \<noteq> 0) (client_sockets s))"
    have "tells aside s ?s" unfolding tells_def out by (rule exI, rule conjI [OF refl]) (auto simp: aside_def)
    moreover have "board_abs (sv_market ?s) = board_abs (sv_market s)" using npc_abs(1) [of npc "sv_market s"] take by simp
    ultimately show ?thesis by (rule follows_aside)
  qed
qed

lemma aside_kinds [simp]: "aside (Res_error code t)" "aside Res_dispose_ok" "aside (chat_evt a t)" "aside (Evt_goal_update g)"
    "aside (Evt_victory t)" "aside (Evt_npc_despawn n)" "aside (Evt_npc_spawn n tg b)" "aside (game_over txt_burned)" "aside (scoreboard u)"
  using scoreboard_packet [of u] by (auto simp: aside_def chat_evt_def game_over_def c_snprintf_def)

lemma follows_dispose: "follows k s (handle_dispose sock key d s)"
  by (rule follows_aside) (auto simp: handle_dispose_def tells_def send_error_def split: prod.split)

lemma follows_burn: "follows k s (burn_user_by_key key s)"
  by (rule follows_aside) (auto simp: tells_def burn_user_by_key_out aside_def split: option.split)

lemma tells_fire: "tells aside s (fire_round_end_countdown a s)"
  by (cases "sv_creates s") (auto simp: fire_round_end_countdown_def Let_def pthread_create_def broadcast_packet_def tells_def)

lemma follows_payoff: "follows k s (handle_payoff sock key s)"
proof (cases "\<exists>r l. userdb_find key (sv_users s) = Some (r, l) \<and> g_goal_money s \<le> ur_money r")
  case True
  then obtain r l where rl: "userdb_find key (sv_users s) = Some (r, l)" "g_goal_money s \<le> ur_money r" by blast
  define s3 where "s3 = sv_update_at l (r\<lparr>ur_money := INITIAL_MONEY\<rparr>) ((escape_step key s)\<lparr>sv_fs := sandbox_purge_user key (sv_fs s)\<rparr>)"
  define s6 where "s6 = broadcast_packet (Evt_goal_update (g_goal_money (escape_step key s)))
    (broadcast_packet (chat_evt ''[SYSTEM]'' (payoff_text key (g_goal_money s)))
      (packet_send sock (Evt_victory (c_snprintf MAX_TEXT_LEN (txt_victory (g_goal_money s)))) s3))"
  have eq: "handle_payoff sock key s = (if g_escaped_count (escape_step key s) \<ge> 3 then fire_round_end_countdown txt_three_escaped s6 else s6)"
    by (simp add: handle_payoff_success [OF rl] Let_def s3_def s6_def)
  have same: "sv_out s3 = sv_out s" "sv_market s3 = sv_market s" by (simp_all add: s3_def escape_step_def)
  have "tells aside s s6"
    unfolding s6_def by (rule tells_trans [OF tells_trans [OF tells_trans [OF tells_refl [OF same(1)] tells_one(1)] tells_one(2)] tells_one(2)]) simp_all
  then have "tells aside s (handle_payoff sock key s)" unfolding eq using tells_trans tells_fire by auto
  moreover have "sv_market (handle_payoff sock key s) = sv_market s" by (simp add: eq s6_def same(2))
  ultimately show ?thesis by (intro follows_aside) simp_all
next
  case False
  then show ?thesis by (intro follows_aside) (auto simp: handle_payoff_def tells_def send_error_def split: option.split)
qed

lemma follows_orders: "follows k s (npc_spawn req s)" "follows k s (event_age_npcs s)"
proof -
  show "follows k s (npc_spawn req s)"
    by (rule follows_aside)
      (auto simp: npc_spawn_def Let_def tells_def case_prod_unfold sv_npc_add_eq draw_eq npc_abs simp del: board_abs_sel)
  show "follows k s (event_age_npcs s)"
    by (rule follows_aside)
      (auto simp: event_age_npcs_def tells_def case_prod_unfold fold_broadcast npc_abs simp del: board_abs_sel)
qed

lemma follows_clock: "follows k s (s\<lparr>sv_now := t\<rparr>)"
  by (rule follows_aside) (simp_all add: tells_def)

text \<open>The operations that are about the board.\<close>

lemma spawn_frozen: "g_frozen_tags (sv_market (event_spawn_market s)) = g_frozen_tags (sv_market s)"
proof -
  have tags: "sv_market (snd (event_random_tags u)) = sv_market u" for u by (rule random_tagsE [of u]) simp
  have name: "sv_market (snd (make_doc_name t 64 u)) = sv_market u" for t u by (rule make_doc_nameE [of t u]) simp
  have add: "g_frozen_tags (snd (market_add now r d t p n m)) = g_frozen_tags m" for now r d t p n m by (simp add: market_add_def)
  show ?thesis
    by (simp add: event_spawn_market_def case_prod_unfold Let_def tags name add sv_master_write_eq sv_market_add_eq draw_eq)
qed

lemma follows_spawn:
  assumes "economy_ok s" "op_ok Spawn s" "connected k s"
  shows "follows k s (event_spawn_market s)"
proof -
  let ?s = "event_spawn_market s" and ?m = "sv_market s" and ?d = "g_doc_id_counter s + 1"
  have ok: "stock_ok s" using assms(1) by (simp add: economy_ok_def)
  note st = stock_okD [OF ok]
  have rel: "board_rel ?m" using assms(1) st(8) by (simp add: economy_ok_def board_rel_def)
  have new: "market_find ?d ?m = None" "int32_range ?d" using assms(2) by simp_all
  note rest = spawn_publishes [OF st(2,3) new, unfolded Let_def, THEN conjunct2, THEN conjunct2, THEN conjunct2, THEN conjunct2, THEN conjunct2]
  show ?thesis
  proof (cases "market_is_full ?m \<or> free_tags (g_frozen_tags ?m) = {}")
    case True
    then have "sv_market ?s = ?m" "sv_out ?s = sv_out s" using rest by simp_all
    then show ?thesis by (intro follows_aside tells_refl) simp_all
  next
    case False
    then obtain sl where sl: "ms_doc_id sl = ?d" "(\<lambda>e. market_find e (sv_market ?s)) = (\<lambda>e. market_find e ?m)(?d \<mapsto> sl)"
      "sv_out ?s = sv_out s @ [] @ map (\<lambda>k. (k, spawn_msg sl)) (filter (\<lambda>k. k \<noteq> 0) (client_sockets s))"
      using rest by (simp only: if_not_P) auto
    have free: "\<exists>sl \<in> set (g_market ?m). \<not> ms_active sl" using False by (auto simp: market_is_full_def)
    then have room: "card (dom (offers (board_abs ?m))) < MAX_MARKET_SLOTS" using board_full_iff [OF rel] by simp
    have none: "offers (board_abs ?m) ?d = None" using new(1) by (simp add: market_find_map)
    have board: "board_ok (sv_market ?s)" using boards.spawning assms(1) by (simp add: economy_ok_def)
    have find: "market_find ?d (sv_market ?s) = Some sl" using fun_cong [OF sl(2), of ?d] by simp
    have "sl \<in> set (g_market (sv_market ?s))" "ms_active sl" using market_find_mem [OF find] by simp_all
    then have name: "length (ms_name sl) < MAX_NAME_LEN" using board by (auto simp: board_ok_def slot_ok_def)
    have "offers (board_abs (sv_market ?s)) = (offers (board_abs ?m))(?d \<mapsto> listing_of sl)"
      using fun_cong [OF sl(2)] by (auto simp: market_find_map fun_eq_iff)
    then have abs: "board_abs (sv_market ?s) = (board_abs ?m)\<lparr>offers := (offers (board_abs ?m))(?d \<mapsto> listing_of sl)\<rparr>"
      using spawn_frozen [of s] by (simp add: board_abs_def)
    have msg: "spawn_msg sl = Evt_market_spawn ?d (l_tags (listing_of sl)) (l_price (listing_of sl)) (take 63 (ms_name sl))"
      by (simp add: spawn_msg_def sl(1) c_strncpy_def)
    show ?thesis
    proof (rule follows_announced [OF assms(3) sl(3)])
      show "mirrors (cl_state e) (board_abs (sv_market ?s))"
        if "mirrors (cl_state c) (board_abs ?m)" "ready c" "handle_packet (spawn_msg sl) c = Some e" for c e
        unfolding abs by (rule mirror_add [OF that(1) none _ _ that(3) [unfolded msg]]) (use room name in simp_all)
    qed simp
  qed
qed

lemma expire_out:
  "sv_out (fold expire_doc ds s) = sv_out s @ concat (map (\<lambda>d. map (\<lambda>k. (k, Evt_market_remove d)) (filter (\<lambda>k. k \<noteq> 0) (client_sockets s))) ds) \<and>
   sv_market (fold expire_doc ds s) = sv_market s"
  by (induction ds arbitrary: s) (simp_all add: expire_doc_def broadcast_packet_def)

lemma follows_age:
  assumes "economy_ok s" "connected k s"
  shows "follows k s (event_age_market s)"
  unfolding follows_def
proof (intro allI impI, elim conjE)
  let ?m = "sv_market s" and ?s = "event_age_market s"
  let ?ids = "fst (market_despawn_aged (sv_now s) MAX_MARKET_SLOTS ?m)" and ?m' = "snd (market_despawn_aged (sv_now s) MAX_MARKET_SLOTS ?m)"
  fix c e assume m: "mirrors (cl_state c) (board_abs ?m)" and run: "receive (heard k s ?s) c = Some e" and on: "ready e"
  have rel: "board_rel ?m" using assms(1) stock_okD(8) by (auto simp: economy_ok_def board_rel_def)
  have eq: "?s = fold expire_doc ?ids (s\<lparr>sv_market := ?m'\<rparr>)" by (simp add: event_age_market_def case_prod_unfold)
  have out: "sv_out ?s = sv_out s @ concat (map (\<lambda>d. map (\<lambda>k. (k, Evt_market_remove d)) (filter (\<lambda>k. k \<noteq> 0) (client_sockets s))) ?ids)"
    and mkt: "sv_market ?s = ?m'"
    unfolding eq using expire_out [of ?ids "s\<lparr>sv_market := ?m'\<rparr>"] by simp_all
  have "heard k s ?s = map Evt_market_remove ?ids"
    unfolding heard_append [OF out] by (rule told_all) (use assms(2) in \<open>simp_all add: connected_def\<close>)
  moreover have "board_abs ?m' = board_abs ?m\<lparr>offers := (offers (board_abs ?m)) |` (- set ?ids)\<rparr>"
    using refine_age [OF rel, of "sv_now s"] by (auto simp: Let_def simp del: board_abs_sel)
  ultimately show "mirrors (cl_state e) (board_abs (sv_market ?s))"
    using mirror_removes [OF m receive_ready [OF run on]] run by (simp add: mkt)
qed

lemma frozen_abs:
  "board_abs (freeze_tags t m) = board_abs m\<lparr>sb_frozen := sb_frozen (board_abs m) OR t\<rparr>"
  "board_abs (unfreeze_tags t m) = board_abs m\<lparr>sb_frozen := sb_frozen (board_abs m) AND NOT t\<rparr>"
  using refine_freeze [of t m] by simp_all

lemma follows_recover: "connected k s \<Longrightarrow> follows k s (leak_recovery_thread t s)"
  by (rule follows_announced [where ms = "[]" and m = "Evt_news_recover t"])
    (simp_all add: leak_recovery_thread_def frozen_abs mirror_unfreeze del: board_abs_sel)

text \<open>Whether the recovery thread of a leak can be started.\<close>

definition recovery_starts :: "bool \<Rightarrow> server \<Rightarrow> bool" where
  "recovery_starts malloc_ok s \<longleftrightarrow> malloc_ok \<and> (sv_creates s = [] \<or> hd (sv_creates s))"

definition leakable :: "market \<Rightarrow> tags \<Rightarrow> bool" where
  "leakable m t \<longleftrightarrow> t \<in> set TAG_LIST \<and> t AND market_active_tags m \<noteq> 0 \<and> t AND g_frozen_tags m = 0"

lemma leak_cases:
  obtains (none) "sv_market (snd (fire_public_leak b s)) = sv_market s" "sv_out (snd (fire_public_leak b s)) = sv_out s"
      "\<not> (\<exists>t. leakable (sv_market s) t)"
    | (leaks) t dur h where "leakable (sv_market s) t"
      "sv_out (snd (fire_public_leak b s)) = sv_out s @ map (\<lambda>k. (k, Evt_news_leak t dur h)) (filter (\<lambda>k. k \<noteq> 0) (client_sockets s))"
      "sv_market (snd (fire_public_leak b s)) =
        (if recovery_starts b s then freeze_tags t (sv_market s) else unfreeze_tags t (freeze_tags t (sv_market s)))"
      "recovery_starts b s \<or> sv_threads (snd (fire_public_leak b s)) = sv_threads s"
proof -
  define idx where "idx = filter (\<lambda>i. TAG_LIST ! i AND market_active_tags (sv_market s) \<noteq> 0 \<and>
    \<not> (TAG_LIST ! i AND market_frozen_mask (sv_market s) \<noteq> 0)) [0..<length TAG_LIST]"
  define t where "t = TAG_LIST ! (idx ! (fst (draw s) mod length idx))"
  define dur where "dur = LEAK_DUR_MIN_SEC + int (fst (draw (snd (draw s)))) mod (LEAK_DUR_MAX_SEC - LEAK_DUR_MIN_SEC + 1)"
  define s3 where "s3 = (snd (draw (snd (draw s))))\<lparr>sv_market := freeze_tags t (sv_market s)\<rparr>"
  define h where "h = c_strncpy 255 (LEAK_HEADLINE ! (idx ! (fst (draw s) mod length idx)) ! (fst (draw s3) mod 3))"
  define s5 where "s5 = broadcast_packet (Evt_news_leak t dur h) (snd (draw s3))"
  have s5: "sv_out s5 = sv_out s @ map (\<lambda>k. (k, Evt_news_leak t dur h)) (filter (\<lambda>k. k \<noteq> 0) (client_sockets s))"
    "sv_market s5 = freeze_tags t (sv_market s)" "sv_creates s5 = sv_creates s" "sv_threads s5 = sv_threads s"
    by (simp_all add: s5_def s3_def draw_eq broadcast_packet_def)
  have eq: "fire_public_leak b s = (if idx = [] then (False, s)
      else if \<not> b then (False, s5\<lparr>sv_market := unfreeze_tags t (sv_market s5)\<rparr>)
      else case pthread_create (Leak_recovery t dur) s5 of
        (ok, s6) \<Rightarrow> if ok then (True, s6) else (False, s6\<lparr>sv_market := unfreeze_tags t (sv_market s6)\<rparr>))"
    unfolding fire_public_leak_def Let_def idx_def [symmetric] by (simp add: case_prod_unfold t_def s3_def s5_def dur_def h_def)
  show thesis
  proof (cases "idx = []")
    case True
    then have "\<not> leakable (sv_market s) u" for u
      by (auto simp: leakable_def idx_def market_frozen_mask_def filter_empty_conv in_set_conv_nth)
    then show thesis using True by (intro none) (simp_all add: eq)
  next
    case False
    then have "idx ! (fst (draw s) mod length idx) \<in> set idx" by (intro nth_mem) simp
    then have "leakable (sv_market s) t"
      unfolding t_def leakable_def by (auto simp: idx_def market_frozen_mask_def)
    moreover have "sv_out (snd (fire_public_leak b s)) = sv_out s5 \<and> sv_market (snd (fire_public_leak b s)) =
        (if recovery_starts b s then freeze_tags t (sv_market s) else unfreeze_tags t (freeze_tags t (sv_market s))) \<and>
        (recovery_starts b s \<or> sv_threads (snd (fire_public_leak b s)) = sv_threads s)"
      using False s5(2-4) by (auto simp: eq recovery_starts_def pthread_create_def split: list.split)
    ultimately show thesis using s5(1) by (intro leaks [of t dur h]) simp_all
  qed
qed

lemma follows_leak:
  assumes "connected k s" "recovery_starts b s"
  shows "follows k s (snd (fire_public_leak b s))"
proof (rule leak_cases [of b s])
  assume "sv_market (snd (fire_public_leak b s)) = sv_market s" "sv_out (snd (fire_public_leak b s)) = sv_out s"
  then show ?thesis by (intro follows_aside tells_refl) simp_all
next
  fix t dur h
  assume out: "sv_out (snd (fire_public_leak b s)) = sv_out s @ map (\<lambda>k. (k, Evt_news_leak t dur h)) (filter (\<lambda>k. k \<noteq> 0) (client_sockets s))"
    and mkt: "sv_market (snd (fire_public_leak b s)) =
        (if recovery_starts b s then freeze_tags t (sv_market s) else unfreeze_tags t (freeze_tags t (sv_market s)))"
  show ?thesis
    by (rule follows_announced [OF assms(1), where ms = "[]" and m = "Evt_news_leak t dur h"])
      (use out mkt assms(2) in \<open>simp_all add: frozen_abs mirror_freeze del: board_abs_sel\<close>)
qed

lemma follows_round:
  assumes "economy_ok s" "op_ok New_round s" "connected k s"
  shows "follows k s (trigger_round_reset s)"
proof -
  have "stores_ok s" "board_ok (sv_market s)" "\<forall>off. REC_SIZE \<le> sv_pwrite s off"
    using assms(1,2) stock_okD(2) by (auto simp: economy_ok_def)
  from new_round(1) [OF this] assms(3) show ?thesis unfolding follows_def connected_def by blast
qed

section \<open>Any number of operations\<close>

lemma follows_op:
  assumes "economy_ok s" "op_ok x s" "connected k s" "\<forall>b. x = Leak b \<longrightarrow> recovery_starts b s"
  shows "follows k s (run_op x s)"
proof (cases x)
  case (Buy sock key d)
  with assms show ?thesis using follows_buy [of s sock key d k] by simp
next
  case (Sell junk sock key npc n ids)
  with assms show ?thesis using follows_sell [of s junk sock key npc n ids k] by simp
next
  case Spawn
  with assms show ?thesis using follows_spawn [of s k] by simp
next
  case Age
  with assms show ?thesis using follows_age [of s k] by simp
next
  case (Leak b)
  with assms show ?thesis using follows_leak [of k s b] by simp
next
  case (Recover t)
  with assms show ?thesis using follows_recover [of k s t] by simp
next
  case New_round
  with assms show ?thesis using follows_round [of s k] by simp
qed (simp_all add: follows_dispose follows_payoff follows_burn follows_orders follows_clock)

text \<open>No leak of the run is left without its recovery thread.\<close>

fun leaks_recover :: "economy_op list \<Rightarrow> server \<Rightarrow> bool" where
  "leaks_recover [] s \<longleftrightarrow> True"
| "leaks_recover (x # xs) s \<longleftrightarrow> (case x of Leak b \<Rightarrow> recovery_starts b s | _ \<Rightarrow> True) \<and> leaks_recover xs (run_op x s)"

lemma follows_ops:
  "economy_ok s \<Longrightarrow> ops_ok ops s \<Longrightarrow> leaks_recover ops s \<Longrightarrow> connected k s \<Longrightarrow> follows k s (run_ops ops s)"
proof (induction ops arbitrary: s)
  case (Cons x xs)
  let ?s = "run_op x s"
  have op: "op_ok x s" "ops_ok xs ?s" "leaks_recover xs ?s" "\<forall>b. x = Leak b \<longrightarrow> recovery_starts b s"
    using Cons.prems(2,3) by auto
  note one = follows_op [OF Cons.prems(1) op(1) Cons.prems(4) op(4)]
  note rest = Cons.IH [OF economy_op [OF Cons.prems(1) op(1)] op(2,3) connected_op [OF Cons.prems(4)]]
  show ?case
    unfolding follows_def heard_run_ops unfolding run_ops.simps(2)
  proof (intro allI impI, elim conjE)
    fix c e assume m: "mirrors (cl_state c) (board_abs (sv_market s))" and on: "ready e"
      and run: "receive (heard k s ?s @ heard k ?s (run_ops xs ?s)) c = Some e"
    obtain d where d: "receive (heard k s ?s) c = Some d" "receive (heard k ?s (run_ops xs ?s)) d = Some e"
      using run by (rule receive_split)
    have "mirrors (cl_state d) (board_abs (sv_market ?s))" using one m d(1) receive_ready [OF d(2) on] unfolding follows_def by blast
    then show "mirrors (cl_state e) (board_abs (sv_market (run_ops xs ?s)))" using rest d(2) on unfolding follows_def by blast
  qed
qed (simp add: follows_def heard_def)

text \<open>C22: The boards of the connected clients follow the server's. Whatever the players, the event thread and the rounds do,
  in any order and any number (the operations and conditions of \<open>shop_stays_consistent\<close>), a connected client that
  showed the board before and handles what the handlers send it, packet for packet, shows exactly the listings of the
  board afterwards, each marked frozen exactly when it is, unless it has ended meanwhile (it escaped, was burned, or its
  terminal was too small); and it survives the packets when their masks hold at most five tags and their texts are not
  cut inside a character. No leak may fail to start its recovery thread (\<open>failed_leak_misleads_clients\<close> shows why), no socket is entered
  twice, and the client's counts fit its arrays.\<close>
theorem client_mirrors_board:
  assumes "economy_ok s" "ops_ok ops s" "leaks_recover ops s" "connected k s"
    and "client_ok c" "mirrors (cl_state c) (board_abs (sv_market s))"
  shows "let s' = run_ops ops s; ms = heard k s s' in
    (\<forall>e. receive ms c = Some e \<and> ready e \<longrightarrow> mirrors (cl_state e) (board_abs (sv_market s'))) \<and>
    ((\<forall>m \<in> set ms. fair m) \<longrightarrow> (\<exists>e. receive ms c = Some e \<and> client_ok e))"
  using follows_ops [OF assms(1-4)] assms(6) safe_receive [OF assms(5), of "heard k s (run_ops ops s)"]
  unfolding Let_def follows_def safe_def by blast

lemma few_tag: "t \<in> set TAG_LIST \<Longrightarrow> few_tags t"
proof -
  have "few_tags (tag_bit x)" for x
    by (cases x) (simp_all add: few_tags_def shown_tags_def TAG_DISPLAY_ORDER_def tag_bit_and_iff bit_tag_bit)
  then show "t \<in> set TAG_LIST \<Longrightarrow> few_tags t" by (auto simp: TAG_LIST_set)
qed

text \<open>A client that has just joined the server with one listing, a leak and its recovery.\<close>

lemma joined_client:
  obtains c where "client_ok c" "ready c" "mirrors (cl_state c) (board_abs (sv_market shop_server))"
proof -
  let ?c = "fresh_client 0 30 100 1000 10000"
  have "\<forall>m \<in> set (sync_msgs shop_server). fair m"
    by (simp add: shop_server_sync spawn_msg_def market_new_slot_def few_tags_def shown_tags_def TAG_DISPLAY_ORDER_def tag_bit_and_iff)
  from safe_receive [OF fresh_client_ok [of 0 30 100 1000 10000] this] obtain c where
    c: "receive (sync_msgs shop_server) ?c = Some c" "client_ok c" by (auto simp: safe_def)
  have "board_rel (sv_market shop_server)" using shop_server_ok by (simp add: board_rel_def shop_ok_def)
  from late_mirror [OF this _ _ _ c(1)] c(2) show thesis
    by (intro that [of c]) (simp_all add: ready_def fresh_client_def zero_client_state_def)
qed

lemma shop_connected: "connected 5 shop_server"
  by (simp add: connected_def shop_server_sel) (simp add: sample_server_def)

theorem client_mirrors_board_witness:
  "let s' = run_ops [Leak True, Recover 18] shop_server in \<exists>c e. mirrors (cl_state c) (board_abs (sv_market shop_server)) \<and>
    receive (heard 5 shop_server s') c = Some e \<and> mirrors (cl_state e) (board_abs (sv_market s'))"
proof -
  let ?ops = "[Leak True, Recover 18]" and ?s1 = "snd (fire_public_leak True shop_server)"
  obtain c where c: "client_ok c" "ready c" "mirrors (cl_state c) (board_abs (sv_market shop_server))" by (rule joined_client)
  have st: "recovery_starts True shop_server" by (simp add: recovery_starts_def shop_server_def sample_server_def)
  have ok: "ops_ok ?ops shop_server" "leaks_recover ?ops shop_server" using st by simp_all
  have leak: "\<forall>m \<in> set (heard 5 shop_server ?s1). fair m \<and> gentle m"
  proof (rule leak_cases [of True shop_server])
    fix t dur h assume "leakable (sv_market shop_server) t"
      and "sv_out ?s1 = sv_out shop_server @ map (\<lambda>k. (k, Evt_news_leak t dur h)) (filter (\<lambda>k. k \<noteq> 0) (client_sockets shop_server))"
    note t = this
    have "heard 5 shop_server ?s1 = [Evt_news_leak t dur h]" by (rule heard_broadcast [OF shop_connected t(2)])
    then show ?thesis using few_tag [of t] t(1) by (simp add: leakable_def)
  qed (simp add: heard_nothing)
  have "connected 5 ?s1" using connected_op [OF shop_connected, of "Leak True"] by simp
  then have "heard 5 ?s1 (leak_recovery_thread 18 ?s1) = [Evt_news_recover 18]"
    by (rule heard_broadcast) (simp add: leak_recovery_thread_def)
  moreover have "fair (Evt_news_recover 18)" by (simp add: few_tags_def shown_tags_def TAG_DISPLAY_ORDER_def tag_bit_and_iff)
  ultimately have all: "\<forall>m \<in> set (heard 5 shop_server (run_ops ?ops shop_server)). fair m \<and> gentle m"
    unfolding heard_run_ops using leak by (simp add: heard_nothing)
  note follow = client_mirrors_board [OF shop_server_economy ok shop_connected c(1,3), unfolded Let_def]
  obtain e where e: "receive (heard 5 shop_server (run_ops ?ops shop_server)) c = Some e" using follow all by blast
  have "ready e" using gentle_receive [OF e] all c(2) by simp
  then show ?thesis using follow c(3) e unfolding Let_def by blast
qed

section \<open>A leak without recovery\<close>

lemma unfreeze_frozen:
  fixes x t :: tags
  assumes "x AND t = 0"
  shows "(x OR t) AND NOT t = x"
proof (rule bit_eqI)
  fix n assume "possible_bit TYPE(32 word) n"
  then show "bit ((x OR t) AND NOT t) n \<longleftrightarrow> bit x n"
    using arg_cong [OF assms, of "\<lambda>w. bit w n"] by (auto simp: bit_and_iff bit_or_iff bit_not_iff)
qed

lemma or_new: "x AND t = 0 \<Longrightarrow> t \<noteq> 0 \<Longrightarrow> x OR t \<noteq> x" for x t :: tags
proof
  assume clear: "x AND t = 0" and "t \<noteq> 0" and same: "x OR t = x"
  have "bit t n \<longleftrightarrow> bit 0 n" for n
    using arg_cong [OF clear, of "\<lambda>w. bit w n"] arg_cong [OF same, of "\<lambda>w. bit w n"] by (auto simp: bit_and_iff bit_or_iff)
  then have "t = 0" by (blast intro: bit_eqI)
  with \<open>t \<noteq> 0\<close> show False by contradiction
qed

text \<open>C16: A public leak that cannot start its recovery thread (no memory, or no thread) lifts the freeze on the server at once
  but tells nobody: when there was a tag to leak, every connected client that was running, had counts that fit and showed
  the board has been told of the leak, keeps a tag in its mask that is not frozen on the server, and no longer shows the
  board as it is, while no thread was started that would tell it otherwise.\<close>
theorem failed_leak_misleads_clients:
  assumes "leakable (sv_market s) t" "\<not> recovery_starts malloc_ok s" "connected k s"
    and "client_ok c" "ready c" "mirrors (cl_state c) (board_abs (sv_market s))"
  shows "let s' = snd (fire_public_leak malloc_ok s) in
    board_abs (sv_market s') = board_abs (sv_market s) \<and> sv_threads s' = sv_threads s \<and>
    (\<exists>e u. receive (heard k s s') c = Some e \<and> ready e \<and> leakable (sv_market s) u \<and>
      cs_frozen_mask (cl_state e) = g_frozen_tags (sv_market s') OR u \<and> cs_frozen_mask (cl_state e) \<noteq> g_frozen_tags (sv_market s') \<and>
      \<not> mirrors (cl_state e) (board_abs (sv_market s')))"
proof (rule leak_cases [of malloc_ok s])
  let ?s = "snd (fire_public_leak malloc_ok s)" and ?m = "sv_market s"
  fix u dur h
  assume u: "leakable ?m u" and mkt: "sv_market ?s = (if recovery_starts malloc_ok s then freeze_tags u ?m else unfreeze_tags u (freeze_tags u ?m))"
    and out: "sv_out ?s = sv_out s @ map (\<lambda>k. (k, Evt_news_leak u dur h)) (filter (\<lambda>k. k \<noteq> 0) (client_sockets s))"
    and thr: "recovery_starts malloc_ok s \<or> sv_threads ?s = sv_threads s"
  have clear: "g_frozen_tags ?m AND u = 0" "u AND g_frozen_tags ?m = 0" "u \<noteq> 0" using u by (auto simp: leakable_def and.commute)
  then have abs: "board_abs (sv_market ?s) = board_abs ?m"
    using mkt assms(2) unfreeze_frozen [OF clear(1)] by (simp add: frozen_abs)
  then have frz: "g_frozen_tags (sv_market ?s) = g_frozen_tags ?m" by (metis board_abs_sel(2))
  have msgs: "heard k s ?s = [Evt_news_leak u dur h]" by (rule heard_broadcast [OF assms(3) out])
  have "fair (Evt_news_leak u dur h)" using few_tag u by (simp add: leakable_def)
  then obtain e where e: "handle_packet (Evt_news_leak u dur h) c = Some e"
    using safe_handle_packet [OF assms(4)] by (metis safe_def)
  have on: "ready e" using gentle_packet [OF e] assms(5) by simp
  have mask: "cs_frozen_mask (cl_state e) = g_frozen_tags ?m OR u" using leak_state(1) [OF e] assms(6) by (simp add: mirrors_def)
  have "g_frozen_tags ?m OR u \<noteq> g_frozen_tags ?m" by (rule or_new [OF clear(1,3)])
  then have "\<not> mirrors (cl_state e) (board_abs (sv_market ?s))" using mask by (simp add: mirrors_def frz)
  moreover have "receive (heard k s ?s) c = Some e" using e assms(5) by (simp add: msgs)
  ultimately show ?thesis using abs thr assms(2) on mask u frz \<open>g_frozen_tags ?m OR u \<noteq> g_frozen_tags ?m\<close> unfolding Let_def by metis
qed (use assms(1) in blast)

theorem failed_leak_misleads_clients_witness:
  "let s' = snd (fire_public_leak False shop_server) in \<exists>c e. receive (heard 5 shop_server s') c = Some e \<and>
    mirrors (cl_state c) (board_abs (sv_market s')) \<and> \<not> mirrors (cl_state e) (board_abs (sv_market s'))"
proof -
  obtain c where c: "client_ok c" "ready c" "mirrors (cl_state c) (board_abs (sv_market shop_server))" by (rule joined_client)
  have skip: "foldl (\<lambda>mask s. if ms_active s then mask OR ms_tags s else mask) x (replicate n zero_market_slot) = x" for x n
    by (induction n arbitrary: x) (simp_all add: zero_market_slot_def)
  have "market_active_tags (sv_market shop_server) = 18"
    by (simp add: market_active_tags_def shop_server_def market_new_slot_def skip)
  then have "leakable (sv_market shop_server) (tag_bit TAG_CORP_B)"
    by (simp add: leakable_def TAG_LIST_set shop_server_sel tag_bit_and_iff)
  from failed_leak_misleads_clients [OF this _ shop_connected c, of False] c(3) show ?thesis
    by (simp add: recovery_starts_def Let_def) metis
qed

end
