(* ===== verification/Spec2Isabelle.thy ===== *)
theory Spec2Isabelle
  imports Watchdog Audio Glitch Live
begin

text \<open>
  UNDERFLOW is a multiplayer trading game for a terminal, written in C. Players connect to a server, buy leaked
  documents on a market board, sell sets of them to the orders of an NPC board, and try to pay off a debt before a
  police raid burns their account. This development models the server, its stores, the wire protocol, the client,
  the client's music thread and the server's watchdog, and proves what they promise each other.

  \<^bold>\<open>The program.\<close> \<open>src/server/server_main.c\<close> accepts connections and runs one thread per client
  (\<open>client_handler\<close>), which logs the player in and dispatches requests to the handlers. The handlers work on
  three stores: the boards in memory (\<open>src/server/market.c\<close>), the account file (\<open>userdb/userdb.c\<close>) and the
  documents, which are files (\<open>src/server/sandbox.c\<close>): a document on sale lies in \<open>data/master\<close>, a
  document owned in \<open>data/users/KEY\<close>. \<open>src/server/events.c\<close> is a thread that spawns and ages listings and orders,
  freezes tags by leaks, and starts raids and the end of a round. \<open>src/common/protocol.c\<close> turns packets into bytes.
  \<open>src/client/ui_client.c\<close> keeps a copy of the boards from the packets it receives and turns the input line into
  requests; \<open>src/client/audio.c\<close> plays music beside it. \<open>src/tools/watchdog.c\<close> forks the server and restarts it.

  \<^bold>\<open>Foundations.\<close>
  \<^item> \<open>Prelude\<close>: types shared by all theories, ranges of machine integers, list and map lemmas.
  \<^item> \<open>Common\<close>: \<open>protocol.h\<close>: constants, tags as bits of a 32-bit word, error codes, packet types, and the payload of
    every packet as a constructor of \<open>msg\<close>.
  \<^item> \<open>CString\<close>, \<open>Bytes\<close>: \<open>snprintf\<close>, \<open>strncpy\<close>, \<open>strncmp\<close>, \<open>atoi\<close>, \<open>strtok\<close> on strings without the byte 0;
    little-endian fields and buffers as byte lists.
  \<^item> \<open>Slots\<close>: the loops over arrays of slots with an active flag, and their laws for any such array (locale
    \<open>slot_board\<close>, interpreted for both boards).
  \<^item> \<open>FileSys\<close>: directories, files, permission bits, path resolution with \<open>..\<close>, \<open>rename\<close>, \<open>unlink\<close>, \<open>readdir\<close>.
  \<^item> \<open>Texts\<close>: every string constant of the server, byte for byte in UTF-8.

  \<^bold>\<open>The server.\<close>
  \<^item> \<open>Market\<close> (\<open>market.c\<close>) and \<open>MarketSpec\<close>: every function of the file, and the abstract board (a finite map of
    listings and a set of frozen tags) that all of them and every sequence of them refine.
  \<^item> \<open>UserDB\<close> (\<open>userdb.c\<close>): 68-byte records addressed by offset; refinement of a list of accounts (locale
    \<open>account_store\<close>), permanence of burning, and what a short write does.
  \<^item> \<open>Sandbox\<close> (\<open>sandbox.c\<close>): every function on the file tree; the locale \<open>doc_store\<close> is the contract of a store in
    which a document has one copy.
  \<^item> \<open>Server\<close>: the state of the process (the record \<open>server\<close>: globals, stores, environment, threads started, packets
    sent) and the helpers of all handlers. \<open>Trade\<close>, \<open>Round\<close>, \<open>Raid\<close>, \<open>Session\<close>: the handlers of \<open>server_main.c\<close> by
    subject, each with its behaviour on every branch. \<open>Events\<close>: \<open>events.c\<close>.
  \<^item> \<open>Shop\<close>: the board in memory and the shop directory as two views of one shop (locale \<open>shop_front\<close>). \<open>Reset\<close>: the
    whole round reset. \<open>Economy\<close>: every operation that moves a document, lists one or takes an order keeps
    the shop consistent, in any order.
  \<^item> \<open>Invariants\<close>: the contract \<open>server_invariant\<close>: a predicate that survives the elementary updates survives every
    handler and every thread. \<open>World\<close> interleaves the connections with their phases, the derived threads and the
    environment as one step relation, and interprets the contract for the session table, the boards and the round;
    \<open>Economy\<close> interprets it for complete writes, \<open>Live\<close> for the packets sent so far.

  \<^bold>\<open>Wire and client.\<close>
  \<^item> \<open>Wire\<close>: the 548-byte packet, the byte order of its fields, the terminators, sending and receiving: the round trip
    of every packet whose fields fit, equivalence with a network-order encoding, and what short reads do.
  \<^item> \<open>ClientView\<close>: what each panel prints, as rows of text. \<open>Client\<close>: the modes, every packet, the keys, the
    timers and the command parser. A step is \<open>None\<close> when the code would leave an array. \<open>ClientProps\<close>: a client that gets
    sane packets never does, with the counterexamples for packets that are not.
  \<^item> \<open>Glitch\<close>: the frames of the sabotage effect, and that they stay inside their panels.
  \<^item> \<open>Mirror\<close>: what a client makes of the packets it receives one after another (\<open>receive\<close>, the receiving side of the main
    loop), and that a client that joins late lists exactly what the abstract board of \<open>MarketSpec\<close> offers.
  \<^item> \<open>NewRound\<close>: a round reset, and the announcement of the end of a round, at both ends: every client then shows the
    new round, or the scoreboard, and a raid that was running goes on without its players.
  \<^item> \<open>Live\<close>: after any sequence of the operations of \<open>Economy\<close>, a connected client that handles the packets the handlers
    sent it lists what the board offers; and what a leak without a recovery thread does to it.
  \<^item> \<open>Watchdog\<close>: the watchdog, its signal handler and its child as interleaved steps. \<open>Audio\<close>: the player thread
    and \<open>audio_shutdown\<close> likewise.

  \<^bold>\<open>Correspondence.\<close> Functions keep their C names; a C struct is a record with prefixed fields, an enum a datatype, a
  result 0 or -1 a boolean, an option or a sum. Tags and wire fields are 32-bit words; money, identifiers and times
  are integers, bounded by \<open>int32_range\<close> where they are stored. \<open>time\<close>, \<open>rand\<close>, the lengths accepted by
  \<open>write\<close>, the outcomes of \<open>pthread_create\<close> and \<open>malloc\<close>, and the bytes that arrive are inputs. A handler is one step on
  the state; where the code leaves a lock between two uses of the same data and it matters, it is cut there (login
  in \<open>Session\<close>, the purchase in \<open>Trade\<close>, account updates in \<open>Round\<close>, the threads that sleep in \<open>Events\<close>).

  \<^bold>\<open>Bounds.\<close> All functions are total: loops are structural or have a measure. The step runs of the audio thread and of
  the watchdog (\<open>thread_run\<close>, \<open>main_run\<close>) take a number of steps; the theorems give the number that is enough.

  \<^bold>\<open>Not modelled.\<close> The set-up of sockets and of the terminal, console output, colours and window handles; file permissions of the account file and \<open>fsync\<close>; the environment variable
  \<open>PULSE_LATENCY_MSEC\<close> and the redirections of the music player; interleavings inside a handler other than those
  above; the compiler, the C memory layout beyond the packed structs, and data races. These are calls into the
  operating system or into ncurses whose effect is not visible to the rest of the program.
\<close>

end
